(* ===== verification/Remote.thy ===== *)
theory Remote
  imports Prelude
begin

text \<open>
  Commands on a remote server (\<open>internal/ssh/executor.go\<close>, \<open>Executor.Run\<close> and
  \<open>Executor.Upload\<close>), over any type of server state.

  The remote shell is not code of this repository.  A command is given by what it does to the
  state, and the environment by a script with one entry per command: what other clients do to
  the server just before it (any function), and whether the answer comes back.  A command that
  is lost may have landed a prefix of its effects, and the caller sees only a transport error.
  Every theorem that quantifies over the script holds for every interleaving of other clients
  and for every point at which the connection breaks.
\<close>

section \<open>Remote commands\<close>

text \<open>What the caller learns from a failed command: nothing, or the command's exit status.\<close>

datatype exec_error = Transport | Exit nat

datatype answer = Delivered | Lost nat

record 's world =
  dir :: 's
  script :: "(('s \<Rightarrow> 's) \<times> answer) list"

text \<open>
  A command inspects the directory and either refuses with an exit status, having changed
  nothing, or performs its effects in order.  A read answers with what it saw.
\<close>

type_synonym 's effect = "'s \<Rightarrow> 's"
type_synonym 's cmd = "'s \<Rightarrow> (nat, 's effect list) result"

definition next_env :: "'s world \<Rightarrow> ('s \<Rightarrow> 's) \<times> answer" where
  "next_env w = (case script w of [] \<Rightarrow> (id, Delivered) | e # _ \<Rightarrow> e)"

definition run_cmd :: "'s cmd \<Rightarrow> 's world \<Rightarrow> (exec_error, unit) result \<times> 's world" where
  "run_cmd c w =
     (let env = next_env w; d = fst env (dir w); rest = tl (script w)
      in case c d of
           Inl code \<Rightarrow>
             ((case snd env of Delivered \<Rightarrow> Inl (Exit code) | Lost _ \<Rightarrow> Inl Transport),
              \<lparr>dir = d, script = rest\<rparr>)
         | Inr effs \<Rightarrow>
             (case snd env of
                Delivered \<Rightarrow> (Inr (), \<lparr>dir = fold id effs d, script = rest\<rparr>)
              | Lost k \<Rightarrow> (Inl Transport, \<lparr>dir = fold id (take k effs) d, script = rest\<rparr>)))"

definition run_read :: "('s \<Rightarrow> 'a) \<Rightarrow> 's world \<Rightarrow> (exec_error, 'a) result \<times> 's world" where
  "run_read f w =
     (let env = next_env w; d = fst env (dir w); w' = \<lparr>dir = d, script = tl (script w)\<rparr>
      in case snd env of Delivered \<Rightarrow> (Inr (f d), w') | Lost _ \<Rightarrow> (Inl Transport, w'))"

text \<open>\<open>Upload\<close> writes one file.  It is a single effect.\<close>

definition upload :: "'s effect \<Rightarrow> 's cmd" where
  "upload e d = Inr [e]"

section \<open>Invariants of runs\<close>

text \<open>
  A predicate is stable when other clients keep it.  \<open>quiet\<close> is the special case of a server
  on which nobody else writes while the operation runs.
\<close>

definition quiet :: "'s world \<Rightarrow> bool" where
  "quiet w \<longleftrightarrow> (\<forall>e \<in> set (script w). fst e = id)"

definition stable :: "('s \<Rightarrow> bool) \<Rightarrow> 's world \<Rightarrow> bool" where
  "stable P w \<longleftrightarrow> (\<forall>e \<in> set (script w). \<forall>d. P d \<longrightarrow> P (fst e d))"

definition reliable :: "'s world \<Rightarrow> bool" where
  "reliable w \<longleftrightarrow> script w = []"

lemma quiet_stable: "quiet w \<Longrightarrow> stable P w"
  by (auto simp: quiet_def stable_def)

lemma reliable_quiet: "reliable w \<Longrightarrow> quiet w"
  by (simp add: reliable_def quiet_def)

lemma fst_next_env_quiet: "quiet w \<Longrightarrow> fst (next_env w) = id"
  by (auto simp: quiet_def next_env_def split: list.splits)

lemma next_env_stable: "stable P w \<Longrightarrow> P (dir w) \<Longrightarrow> P (fst (next_env w) (dir w))"
  by (auto simp: stable_def next_env_def split: list.splits)

lemma in_set_tl: "x \<in> set (tl xs) \<Longrightarrow> x \<in> set xs"
  by (cases xs) auto

lemma run_cmd_script [simp]: "script (snd (run_cmd c w)) = tl (script w)"
  by (auto simp: run_cmd_def Let_def split: sum.splits answer.splits)

lemma run_read_script [simp]: "script (snd (run_read f w)) = tl (script w)"
  by (auto simp: run_read_def Let_def split: answer.splits)

lemma run_cmd_stable: "stable P w \<Longrightarrow> stable P (snd (run_cmd c w))"
  by (auto simp: stable_def dest: in_set_tl)

lemma run_read_stable: "stable P w \<Longrightarrow> stable P (snd (run_read f w))"
  by (auto simp: stable_def dest: in_set_tl)

lemma run_cmd_quiet: "quiet w \<Longrightarrow> quiet (snd (run_cmd c w))"
  by (auto simp: quiet_def dest: in_set_tl)

lemma run_read_quiet: "quiet w \<Longrightarrow> quiet (snd (run_read f w))"
  by (auto simp: quiet_def dest: in_set_tl)

lemma run_cmd_reliable: "reliable w \<Longrightarrow> reliable (snd (run_cmd c w))"
  by (simp add: reliable_def)

lemma run_read_reliable: "reliable w \<Longrightarrow> reliable (snd (run_read f w))"
  by (simp add: reliable_def)

lemmas run_keeps = run_cmd_stable run_read_stable run_cmd_quiet run_read_quiet
  run_cmd_reliable run_read_reliable

lemma run_read_dir: "dir (snd (run_read f w)) = fst (next_env w) (dir w)"
  by (auto simp: run_read_def Let_def split: answer.splits)

lemma run_read_dir_quiet: "quiet w \<Longrightarrow> dir (snd (run_read f w)) = dir w"
  by (simp add: run_read_dir fst_next_env_quiet)

lemma run_read_Inr:
  "fst (run_read f w) = Inr a \<Longrightarrow> a = f (dir (snd (run_read f w)))"
  by (auto simp: run_read_def Let_def split: answer.splits)

lemma fold_id_invariant:
  "\<forall>e \<in> set effs. \<forall>d. P d \<longrightarrow> P (e d) \<Longrightarrow> P d \<Longrightarrow> P (fold id effs d)"
  by (induction effs arbitrary: d) auto

lemma run_cmd_invariant:
  assumes "stable P w" and "P (dir w)"
    and "\<And>d effs e d'. P d \<Longrightarrow> c d = Inr effs \<Longrightarrow> e \<in> set effs \<Longrightarrow> P d' \<Longrightarrow> P (e d')"
  shows "P (dir (snd (run_cmd c w)))"
proof -
  let ?d = "fst (next_env w) (dir w)"
  have P: "P ?d"
    using assms(1,2) by (rule next_env_stable)
  show ?thesis
  proof (cases "c ?d")
    case (Inl code)
    with P show ?thesis
      by (simp add: run_cmd_def Let_def)
  next
    case (Inr effs)
    have keep: "P (fold id xs ?d)" if "set xs \<subseteq> set effs" for xs
    proof (rule fold_id_invariant [where P = P])
      show "\<forall>e \<in> set xs. \<forall>d'. P d' \<longrightarrow> P (e d')"
      proof (intro ballI allI impI)
        fix e d'
        assume "e \<in> set xs" and d': "P d'"
        with that have "e \<in> set effs" by blast
        then show "P (e d')" using d' by (rule assms(3) [OF P Inr])
      qed
    qed (rule P)
    show ?thesis
      using keep [of effs] keep [OF set_take_subset]
      by (cases "snd (next_env w)") (simp_all add: run_cmd_def Let_def Inr)
  qed
qed

lemma run_read_invariant: "stable P w \<Longrightarrow> P (dir w) \<Longrightarrow> P (dir (snd (run_read f w)))"
  by (simp add: run_read_dir next_env_stable)

lemma run_reliable [simp]:
  assumes "reliable w"
  shows "run_cmd c w =
      (case c (dir w) of Inl code \<Rightarrow> (Inl (Exit code), w)
       | Inr effs \<Rightarrow> (Inr (), w\<lparr>dir := fold id effs (dir w)\<rparr>))"
    and "run_read f w = (Inr (f (dir w)), w)"
  using assms
  by (auto simp: run_cmd_def run_read_def next_env_def reliable_def Let_def split: sum.splits)

lemma run_cmd_refused:
  assumes "stable P w" and "P (dir w)" and "\<And>d. P d \<Longrightarrow> \<exists>n. c d = Inl n"
  shows "\<exists>e. fst (run_cmd c w) = Inl e" and "P (dir (snd (run_cmd c w)))"
proof -
  have P: "P (fst (next_env w) (dir w))"
    using assms(1,2) by (rule next_env_stable)
  with assms(3) obtain n where "c (fst (next_env w) (dir w)) = Inl n"
    by blast
  with P show "\<exists>e. fst (run_cmd c w) = Inl e" and "P (dir (snd (run_cmd c w)))"
    by (simp_all add: run_cmd_def Let_def split: answer.splits)
qed

lemma run_cmd_landed:
  assumes "fst (run_cmd c w) = Inr ()"
  obtains effs where "c (fst (next_env w) (dir w)) = Inr effs"
    and "dir (snd (run_cmd c w)) = fold id effs (fst (next_env w) (dir w))"
  using assms by (auto simp: run_cmd_def Let_def split: sum.splits answer.splits)

lemma run_cmd_exit:
  assumes "fst (run_cmd c w) = Inl (Exit n)"
  shows "c (fst (next_env w) (dir w)) = Inl n"
    and "dir (snd (run_cmd c w)) = fst (next_env w) (dir w)"
  using assms by (auto simp: run_cmd_def Let_def split: sum.splits answer.splits)

section \<open>Commands on a quiet server\<close>

lemma run_cmd_quiet_cases:
  assumes "quiet w"
  obtains (refused) n where "c (dir w) = Inl n" and "dir (snd (run_cmd c w)) = dir w"
      and "fst (run_cmd c w) = Inl (Exit n) \<or> fst (run_cmd c w) = Inl Transport"
    | (landed) effs where "c (dir w) = Inr effs" and "fst (run_cmd c w) = Inr ()"
      and "dir (snd (run_cmd c w)) = fold id effs (dir w)"
    | (lost) effs k where "c (dir w) = Inr effs" and "fst (run_cmd c w) = Inl Transport"
      and "dir (snd (run_cmd c w)) = fold id (take k effs) (dir w)"
proof -
  have d: "fst (next_env w) (dir w) = dir w"
    using assms by (simp add: fst_next_env_quiet)
  show thesis
  proof (cases "c (dir w)")
    case (Inl n)
    then have "dir (snd (run_cmd c w)) = dir w"
      and "fst (run_cmd c w) = Inl (Exit n) \<or> fst (run_cmd c w) = Inl Transport"
      by (auto simp: run_cmd_def Let_def d split: answer.splits)
    with Inl show thesis by (rule refused)
  next
    case (Inr effs)
    show thesis
    proof (cases "snd (next_env w)")
      case Delivered
      then have "fst (run_cmd c w) = Inr ()" "dir (snd (run_cmd c w)) = fold id effs (dir w)"
        by (simp_all add: run_cmd_def Let_def d Inr)
      with Inr show thesis by (rule landed)
    next
      case (Lost k)
      then have "fst (run_cmd c w) = Inl Transport" "dir (snd (run_cmd c w)) = fold id (take k effs) (dir w)"
        by (simp_all add: run_cmd_def Let_def d Inr)
      with Inr show thesis by (rule lost)
    qed
  qed
qed

section \<open>The interface of a holdership guard\<close>

text \<open>
  A lock whose guard is composed into the same remote command as the effect it protects: the
  command is the effect while the lock names the owner, and a refusal with a fixed status
  otherwise.  The app's deploy lock and the shared proxy's edit lock both provide it.
\<close>

locale holdership_guard =
  fixes holds :: "'o \<Rightarrow> 's \<Rightarrow> bool"
    and guarded :: "'o \<Rightarrow> 's cmd \<Rightarrow> 's cmd"
    and refusal :: nat
  assumes admits: "holds u d \<Longrightarrow> guarded u c d = c d"
    and refuses: "\<not> holds u d \<Longrightarrow> guarded u c d = Inl refusal"
begin

lemma refused_run:
  assumes "stable P w" and "P (dir w)" and "\<And>d. P d \<Longrightarrow> \<not> holds u d"
  shows "\<exists>e. fst (run_cmd (guarded u c) w) = Inl e" and "P (dir (snd (run_cmd (guarded u c) w)))"
proof -
  have "\<exists>n. guarded u c d = Inl n" if "P d" for d
    using refuses assms(3) [OF that] by blast
  then show "\<exists>e. fst (run_cmd (guarded u c) w) = Inl e"
      and "P (dir (snd (run_cmd (guarded u c) w)))"
    using run_cmd_refused [of P w "guarded u c"] assms(1,2) by blast+
qed

lemma landed_run:
  assumes "fst (run_cmd (guarded u c) w) = Inr ()"
  obtains effs where "holds u (fst (next_env w) (dir w))"
    and "c (fst (next_env w) (dir w)) = Inr effs"
    and "dir (snd (run_cmd (guarded u c) w)) = fold id effs (fst (next_env w) (dir w))"
proof (rule run_cmd_landed [OF assms])
  fix effs
  assume g: "guarded u c (fst (next_env w) (dir w)) = Inr effs"
    and d: "dir (snd (run_cmd (guarded u c) w)) = fold id effs (fst (next_env w) (dir w))"
  have h: "holds u (fst (next_env w) (dir w))"
    using g refuses by fastforce
  with g admits have "c (fst (next_env w) (dir w)) = Inr effs" by simp
  with h d that show thesis by blast
qed

lemma guarded_invariant:
  assumes "stable P w" and "P (dir w)"
    and "\<And>d effs e d'. P d \<Longrightarrow> holds u d \<Longrightarrow> c d = Inr effs \<Longrightarrow> e \<in> set effs \<Longrightarrow> P d' \<Longrightarrow> P (e d')"
  shows "P (dir (snd (run_cmd (guarded u c) w)))"
proof (rule run_cmd_invariant [OF assms(1,2)])
  fix d effs e d'
  assume P: "P d" and g: "guarded u c d = Inr effs" and e: "e \<in> set effs" and P': "P d'"
  have h: "holds u d"
    using g refuses by fastforce
  with g admits have "c d = Inr effs" by simp
  with assms(3) P h e P' show "P (e d')" by blast
qed

end

end
