(* ===== verification/Server.thy ===== *)
theory Server
  imports Remote "HOL-Library.Word"
begin

text \<open>
  The server side of an app as the CLI sees it: the files of \<open>/deployments/<app>\<close> that carry
  state, with the data types of \<open>internal/state/state.go\<close> they hold.  A file of JSON is modelled
  by the value \<open>json.Unmarshal\<close> gives for it, or by the way it fails to parse.
\<close>

section \<open>Data\<close>

text \<open>Generations are \<open>uint64\<close>: incrementing wraps around.\<close>

type_synonym gen = "64 word"

text \<open>An RFC 3339 text that Go parses (nanoseconds since the epoch), or one that it rejects.\<close>

datatype stamp = Stamp int | BadStamp

definition second :: int where
  "second = 1000000000"

text \<open>\<open>time.Now().UTC().Format(time.RFC3339)\<close> drops the fraction of the second.\<close>

definition rfc3339 :: "int \<Rightarrow> stamp" where
  "rfc3339 now = Stamp (now div second * second)"

record LockInfo =
  li_Type :: string
  li_User :: string
  li_Message :: string
  li_TS :: stamp
  li_Owner :: string
  li_RenewTS :: "stamp option"
  li_Holder :: string

text \<open>Content of a \<open>.lock\<close> directory: no info file, a text that is no lock info, or an info.\<close>

datatype lock_file = NoInfo | BadInfo string | Info LockInfo

record ReleaseMetadata =
  rm_TriggerOperationKey :: string
  rm_ExecutionBindingDigest :: string
  rm_Hash :: string
  rm_ManifestSHA256 :: string
  rm_SourceRevision :: string
  rm_ImageRef :: string
  rm_ImageDigest :: string
  rm_UpdatedAt :: "int option"
  rm_OperationID :: string
  rm_Generation :: gen
  rm_AppliedManifest :: string

record AppState =
  TriggerOperationKey :: string
  ExecutionBindingDigest :: string
  SchemaVersion :: int
  DeploymentType :: string
  IngressMode :: string
  Domain :: string
  UpdatedAt :: "int option"
  ManifestSHA256 :: string
  SourceRevision :: string
  ImageRef :: string
  ImageDigest :: string
  OperationID :: string
  Generation :: gen
  AppliedManifest :: string
  PreviousRelease :: "ReleaseMetadata option"
  Migration :: "string option"
  CurrentPort :: int
  CurrentHash :: string
  PreviousPort :: int
  PreviousHash :: string
  CurrentPorts :: "int list"
  PreviousPorts :: "int list"
  Tombstone :: bool
  legacyImported :: bool

text \<open>\<open>&AppState{}\<close>: every field has its zero value; \<open>None\<close> is the zero \<open>time.Time\<close>.\<close>

definition zero_state :: AppState where
  "zero_state = \<lparr>TriggerOperationKey = [], ExecutionBindingDigest = [], SchemaVersion = 0,
     DeploymentType = [], IngressMode = [], Domain = [], UpdatedAt = None, ManifestSHA256 = [],
     SourceRevision = [], ImageRef = [], ImageDigest = [], OperationID = [], Generation = 0,
     AppliedManifest = [], PreviousRelease = None, Migration = None, CurrentPort = 0,
     CurrentHash = [], PreviousPort = 0, PreviousHash = [], CurrentPorts = [], PreviousPorts = [],
     Tombstone = False, legacyImported = False\<rparr>"

text \<open>
  Content of \<open>state.json\<close>: white space only, a text \<open>json.Unmarshal\<close> rejects, or a document.
  The unexported field \<open>legacyImported\<close> is never serialized, so a document has it unset.
\<close>

datatype state_doc = StateBlank | StateJunk | StateDoc AppState

text \<open>Content of \<open>.generation\<close>: a decimal \<open>uint64\<close>, or anything else.\<close>

datatype gen_doc = GenNum gen | GenJunk

datatype staged_doc = StagedState AppState | StagedGen gen | StagedInfo LockInfo | StagedText string

text \<open>
  The app's directory, with the head of its config repository \<open>config.git\<close> under
  \<open>/deployments/.teploy/apps/<app>\<close> when that exists.
\<close>

record app_dir =
  lock_dir :: "lock_file option"
  state_json :: "state_doc option"
  legacy_state :: "string option"
  gen_sidecar :: "gen_doc option"
  pins_file :: "string option"
  config_git :: "string option"
  staged :: "string \<rightharpoonup> staged_doc"

definition empty_dir :: app_dir where
  "empty_dir = \<lparr>lock_dir = None, state_json = None, legacy_state = None, gen_sidecar = None,
     pins_file = None, config_git = None, staged = Map.empty\<rparr>"

definition stage :: "string \<Rightarrow> staged_doc \<Rightarrow> app_dir effect" where
  "stage tmp x d = d\<lparr>staged := (staged d)(tmp \<mapsto> x)\<rparr>"

definition unstage :: "string \<Rightarrow> app_dir effect" where
  "unstage tmp d = d\<lparr>staged := (staged d)(tmp := None)\<rparr>"

end
