(* ===== verification/Lock.thy ===== *)
theory Lock
  imports Server
begin

text \<open>
  The app's deploy lock: \<open>internal/state/lock.go\<close> (fenced locks: acquisition with an owner
  token, the holdership guard, renewal, release) and the lock half of \<open>internal/state/state.go\<close>
  (staleness, auto, manual and heal acquisition).  Times are nanoseconds.  The guard greps the
  info file for the owner token; in the model a token names a lock when it occurs in one of the
  texts of the info.
\<close>

section \<open>Staleness\<close>

definition staleLockTTL :: int where
  "staleLockTTL = 30 * 60 * second"

definition staleHealLockTTL :: int where
  "staleHealLockTTL = 2 * 60 * second"

definition renewalInterval :: int where
  "renewalInterval = staleLockTTL div 3"

definition isStale :: "stamp \<Rightarrow> stamp option \<Rightarrow> int \<Rightarrow> bool" where
  "isStale ts renewTS now =
     (case renewTS of
        Some (Stamp t) \<Rightarrow> now - t > staleLockTTL
      | Some BadStamp \<Rightarrow> True
      | None \<Rightarrow> (case ts of BadStamp \<Rightarrow> True | Stamp t \<Rightarrow> now - t > staleLockTTL))"

definition isHealStale :: "stamp \<Rightarrow> int \<Rightarrow> bool" where
  "isHealStale ts now = (case ts of BadStamp \<Rightarrow> True | Stamp t \<Rightarrow> now - t > staleHealLockTTL)"

definition LockInfo_IsStale :: "LockInfo option \<Rightarrow> int \<Rightarrow> bool" where
  "LockInfo_IsStale l now =
     (case l of None \<Rightarrow> False
      | Some li \<Rightarrow>
          if li_Type li = ''manual'' then False
          else if li_Type li = ''heal'' then isHealStale (li_TS li) now
          else isStale (li_TS li) (li_RenewTS li) now)"

section \<open>The lock directory\<close>

definition ParseLockInfo :: "lock_file option \<Rightarrow> LockInfo option" where
  "ParseLockInfo f = (case f of Some (Info li) \<Rightarrow> Some li | _ \<Rightarrow> None)"

definition ReadLock :: "app_dir world \<Rightarrow> LockInfo option \<times> app_dir world" where
  "ReadLock w =
     (case run_read lock_dir w of
        (Inl _, w') \<Rightarrow> (None, w')
      | (Inr f, w') \<Rightarrow> (ParseLockInfo f, w'))"

definition mkdir_lock :: "app_dir cmd" where
  "mkdir_lock d = (if lock_dir d = None then Inr [\<lambda>d. d\<lparr>lock_dir := Some NoInfo\<rparr>] else Inl 1)"

definition rm_lock :: "app_dir cmd" where
  "rm_lock d = Inr [\<lambda>d. d\<lparr>lock_dir := None\<rparr>]"

text \<open>\<open>Upload\<close> creates the parent directory and then renames the file into it.\<close>

definition upload_info :: "LockInfo \<Rightarrow> app_dir cmd" where
  "upload_info li d = Inr
     [\<lambda>d. (case lock_dir d of None \<Rightarrow> d\<lparr>lock_dir := Some NoInfo\<rparr> | Some _ \<Rightarrow> d),
      \<lambda>d. d\<lparr>lock_dir := Some (Info li)\<rparr>]"

definition tryMkdirLock :: "app_dir world \<Rightarrow> (exec_error, unit) result \<times> app_dir world" where
  "tryMkdirLock w = run_cmd mkdir_lock w"

definition ReleaseLock :: "app_dir world \<Rightarrow> app_dir world" where
  "ReleaseLock w = snd (run_cmd rm_lock w)"

section \<open>Acquisition\<close>

datatype lock_error =
    LockBusy "LockInfo option"
  | LockedManually LockInfo
  | WritingInfo exec_error
  | AlreadyLocked

definition busyError :: "app_dir world \<Rightarrow> lock_error \<times> app_dir world" where
  "busyError w = (let (info, w') = ReadLock w in (LockBusy info, w'))"

definition auto_info :: "string \<Rightarrow> string \<Rightarrow> int \<Rightarrow> LockInfo" where
  "auto_info owner holder now =
     \<lparr>li_Type = ''auto'', li_User = [], li_Message = [], li_TS = rfc3339 now, li_Owner = owner,
      li_RenewTS = None, li_Holder = holder\<rparr>"

definition write_info_or_release ::
  "LockInfo \<Rightarrow> app_dir world \<Rightarrow> (lock_error, unit) result \<times> app_dir world" where
  "write_info_or_release li w =
     (case run_cmd (upload_info li) w of
        (Inr _, w1) \<Rightarrow> (Inr (), w1)
      | (Inl e, w1) \<Rightarrow> (Inl (WritingInfo e), ReleaseLock w1))"

definition writeLockInfo ::
  "string \<Rightarrow> string \<Rightarrow> int \<Rightarrow> app_dir world \<Rightarrow> (lock_error, unit) result \<times> app_dir world" where
  "writeLockInfo owner holder now w = write_info_or_release (auto_info owner holder now) w"

text \<open>Break a lock that was judged abandoned, then compete for the path again.\<close>

definition break_and_take ::
  "string \<Rightarrow> string \<Rightarrow> int \<Rightarrow> app_dir world \<Rightarrow> (lock_error, bool) result \<times> app_dir world" where
  "break_and_take owner holder now w =
     (case tryMkdirLock (ReleaseLock w) of
        (Inl _, w2) \<Rightarrow> (let (e, w3) = busyError w2 in (Inl e, w3))
      | (Inr _, w2) \<Rightarrow>
          (let (r, w3) = writeLockInfo owner holder now w2
           in ((case r of Inl e \<Rightarrow> Inl e | Inr _ \<Rightarrow> Inr True), w3)))"

definition acquireAutoLockOnce ::
  "string \<Rightarrow> string \<Rightarrow> int \<Rightarrow> app_dir world \<Rightarrow> (lock_error, bool) result \<times> app_dir world" where
  "acquireAutoLockOnce owner holder now w =
     (case tryMkdirLock w of
        (Inl _, w1) \<Rightarrow>
          (let (info, w2) = ReadLock w1
           in case info of
                Some li \<Rightarrow>
                  if li_Type li = ''manual'' then (Inl (LockedManually li), w2)
                  else if li_Type li = ''auto'' \<and> isStale (li_TS li) (li_RenewTS li) now then
                    break_and_take owner holder now w2
                  else if li_Type li = ''heal'' \<and> isHealStale (li_TS li) now then
                    break_and_take owner holder now w2
                  else (let (e, w3) = busyError w2 in (Inl e, w3))
              | None \<Rightarrow> (let (e, w3) = busyError w2 in (Inl e, w3)))
      | (Inr _, w1) \<Rightarrow>
          (let (r, w2) = writeLockInfo owner holder now w1
           in ((case r of Inl e \<Rightarrow> Inl e | Inr _ \<Rightarrow> Inr False), w2)))"

definition is_busy :: "(lock_error, bool) result \<Rightarrow> bool" where
  "is_busy r = (case r of Inl (LockBusy _) \<Rightarrow> True | _ \<Rightarrow> False)"

text \<open>
  The waiting loop.  Each round is given by the clock during the attempt, the clock after it and
  whether the caller's context was cancelled; \<open>None\<close> when the given rounds do not suffice.
\<close>

fun acquireAutoLock ::
  "int \<Rightarrow> int \<Rightarrow> string \<Rightarrow> string \<Rightarrow> (int \<times> int \<times> bool) list \<Rightarrow> app_dir world
     \<Rightarrow> ((lock_error, bool) result \<times> app_dir world) option" where
  "acquireAutoLock lockWait deadline owner holder [] w = None"
| "acquireAutoLock lockWait deadline owner holder ((now, later, cancelled) # rounds) w =
     (let (r, w1) = acquireAutoLockOnce owner holder now w
      in if \<not> is_busy r \<or> lockWait \<le> 0 \<or> later > deadline then Some (r, w1)
         else if cancelled then Some (r, w1)
         else acquireAutoLock lockWait deadline owner holder rounds w1)"

record Lock =
  lk_app :: string
  lk_owner :: string
  lk_tookOver :: bool
  lk_lost :: bool

definition AcquireLockFenced ::
  "string \<Rightarrow> int \<Rightarrow> int \<Rightarrow> string \<Rightarrow> string \<Rightarrow> (int \<times> int \<times> bool) list \<Rightarrow> app_dir world
     \<Rightarrow> ((lock_error, Lock) result \<times> app_dir world) option" where
  "AcquireLockFenced app lockWait deadline owner holder rounds w =
     map_option (\<lambda>(r, w').
        ((case r of Inl e \<Rightarrow> Inl e
          | Inr t \<Rightarrow> Inr \<lparr>lk_app = app, lk_owner = owner, lk_tookOver = t, lk_lost = False\<rparr>), w'))
       (acquireAutoLock lockWait deadline owner holder rounds w)"

definition AcquireManualLock ::
  "string \<Rightarrow> string \<Rightarrow> int \<Rightarrow> app_dir world \<Rightarrow> (lock_error, unit) result \<times> app_dir world" where
  "AcquireManualLock user message now w =
     (case run_cmd mkdir_lock w of
        (Inl _, w1) \<Rightarrow> (Inl AlreadyLocked, w1)
      | (Inr _, w1) \<Rightarrow>
          write_info_or_release
            \<lparr>li_Type = ''manual'', li_User = user, li_Message = message, li_TS = rfc3339 now,
             li_Owner = [], li_RenewTS = None, li_Holder = []\<rparr> w1)"

definition writeHealLockInfo ::
  "int \<Rightarrow> app_dir world \<Rightarrow> (lock_error, unit) result \<times> app_dir world" where
  "writeHealLockInfo now w = write_info_or_release
     \<lparr>li_Type = ''heal'', li_User = [], li_Message = [], li_TS = rfc3339 now,
      li_Owner = [], li_RenewTS = None, li_Holder = []\<rparr> w"

definition AcquireHealLock ::
  "int \<Rightarrow> app_dir world \<Rightarrow> (lock_error, bool) result \<times> app_dir world" where
  "AcquireHealLock now w =
     (case tryMkdirLock w of
        (Inl _, w1) \<Rightarrow>
          (let (info, w2) = ReadLock w1
           in case info of
                Some li \<Rightarrow>
                  if li_Type li = ''heal'' \<and> isHealStale (li_TS li) now then
                    (case tryMkdirLock (ReleaseLock w2) of
                       (Inl _, w3) \<Rightarrow> (Inr False, w3)
                     | (Inr _, w3) \<Rightarrow>
                         (let (r, w4) = writeHealLockInfo now w3
                          in ((case r of Inl e \<Rightarrow> Inl e | Inr _ \<Rightarrow> Inr True), w4)))
                  else (Inr False, w2)
              | None \<Rightarrow> (Inr False, w2))
      | (Inr _, w1) \<Rightarrow>
          (let (r, w2) = writeHealLockInfo now w1
           in ((case r of Inl e \<Rightarrow> Inl e | Inr _ \<Rightarrow> Inr True), w2)))"

section \<open>The holdership guard\<close>

text \<open>\<open>grep -q <owner> .lock/info\<close>: false when there is no info file.\<close>

definition lock_names :: "string \<Rightarrow> lock_file \<Rightarrow> bool" where
  "lock_names owner f =
     (case f of
        NoInfo \<Rightarrow> False
      | BadInfo txt \<Rightarrow> contains_str owner txt
      | Info li \<Rightarrow> contains_str owner (li_Owner li) \<or> contains_str owner (li_Type li)
          \<or> contains_str owner (li_User li) \<or> contains_str owner (li_Message li)
          \<or> contains_str owner (li_Holder li))"

definition names_owner :: "string \<Rightarrow> app_dir \<Rightarrow> bool" where
  "names_owner owner d = (case lock_dir d of None \<Rightarrow> False | Some f \<Rightarrow> lock_names owner f)"

text \<open>\<open>GuardPrefix\<close> composed with an effect into one command: exit 75 when the grep fails.\<close>

definition guarded_cmd :: "string \<Rightarrow> app_dir cmd \<Rightarrow> app_dir cmd" where
  "guarded_cmd owner c d = (if names_owner owner d then c d else Inl 75)"

datatype guard_error = FenceLost | EffectError exec_error

definition fenceLostErr :: "exec_error \<Rightarrow> bool" where
  "fenceLostErr e \<longleftrightarrow> e = Exit 75"

definition Guarded ::
  "Lock option \<Rightarrow> app_dir cmd \<Rightarrow> app_dir world \<Rightarrow> (guard_error, unit) result \<times> app_dir world" where
  "Guarded lk c w =
     (case lk of
        None \<Rightarrow>
          (case run_cmd c w of (Inl e, w') \<Rightarrow> (Inl (EffectError e), w') | (Inr _, w') \<Rightarrow> (Inr (), w'))
      | Some l \<Rightarrow>
          (case run_cmd (guarded_cmd (lk_owner l) c) w of
             (Inl e, w') \<Rightarrow> (Inl (if fenceLostErr e then FenceLost else EffectError e), w')
           | (Inr _, w') \<Rightarrow> (Inr (), w')))"

definition Lock_Check ::
  "Lock option \<Rightarrow> app_dir world \<Rightarrow> (guard_error, unit) result \<times> app_dir world" where
  "Lock_Check lk w =
     (case lk of
        None \<Rightarrow> (Inr (), w)
      | Some l \<Rightarrow>
          if lk_lost l then (Inl FenceLost, w)
          else (case run_read (names_owner (lk_owner l)) w of
                  (Inr True, w') \<Rightarrow> (Inr (), w')
                | (_, w') \<Rightarrow> (Inl FenceLost, w')))"

section \<open>Renewal and release\<close>

definition renew_info :: "Lock \<Rightarrow> string \<Rightarrow> int \<Rightarrow> LockInfo" where
  "renew_info l holder now = (auto_info (lk_owner l) holder now)\<lparr>li_RenewTS := Some (rfc3339 now)\<rparr>"

text \<open>\<open>mv -f -- tmp .lock/info\<close>: fails when the staged file is gone.\<close>

definition mv_info :: "string \<Rightarrow> app_dir cmd" where
  "mv_info tmp d =
     (case staged d tmp of
        Some (StagedInfo li) \<Rightarrow>
          Inr [\<lambda>d. d\<lparr>lock_dir := Some (Info li), staged := (staged d)(tmp := None)\<rparr>]
      | _ \<Rightarrow> Inl 1)"

definition renew ::
  "Lock \<Rightarrow> string \<Rightarrow> int \<Rightarrow> string \<Rightarrow> app_dir world \<Rightarrow> (guard_error, unit) result \<times> app_dir world" where
  "renew l holder now tmp w =
     (case run_cmd (upload (stage tmp (StagedInfo (renew_info l holder now)))) w of
        (Inl e, w1) \<Rightarrow> (Inl (EffectError e), w1)
      | (Inr _, w1) \<Rightarrow>
          (case Guarded (Some l) (mv_info tmp) w1 of
             (Inl e, w2) \<Rightarrow>
               (Inl e, if e = FenceLost then snd (run_cmd (upload (unstage tmp)) w2) else w2)
           | (Inr _, w2) \<Rightarrow> (Inr (), w2)))"

text \<open>One tick of the background renewer: a proven loss poisons the handle, nothing else does.\<close>

definition renew_tick ::
  "Lock \<Rightarrow> string \<Rightarrow> int \<Rightarrow> string \<Rightarrow> app_dir world \<Rightarrow> Lock \<times> app_dir world" where
  "renew_tick l holder now tmp w =
     (case renew l holder now tmp w of
        (Inl FenceLost, w') \<Rightarrow> (l\<lparr>lk_lost := True\<rparr>, w')
      | (_, w') \<Rightarrow> (l, w'))"

fun renewLoop ::
  "Lock \<Rightarrow> string \<Rightarrow> (int \<times> string) list \<Rightarrow> app_dir world \<Rightarrow> Lock \<times> app_dir world" where
  "renewLoop l holder [] w = (l, w)"
| "renewLoop l holder ((now, tmp) # ticks) w =
     (let (l', w') = renew_tick l holder now tmp w
      in if lk_lost l' then (l', w') else renewLoop l' holder ticks w')"

definition release_if_ours :: "string \<Rightarrow> app_dir cmd" where
  "release_if_ours owner d = (if names_owner owner d then rm_lock d else Inr [])"

definition ReleaseLockFenced :: "Lock option \<Rightarrow> string \<Rightarrow> app_dir world \<Rightarrow> app_dir world" where
  "ReleaseLockFenced lk app w =
     (case lk of
        None \<Rightarrow> ReleaseLock w
      | Some l \<Rightarrow>
          if lk_app l \<noteq> [] \<and> lk_app l \<noteq> app then w
          else (case Guarded lk rm_lock w of
                  (Inr _, w1) \<Rightarrow> w1
                | (Inl FenceLost, w1) \<Rightarrow> w1
                | (Inl (EffectError _), w1) \<Rightarrow> snd (run_cmd (release_if_ours (lk_owner l)) w1)))"

section \<open>The guard is a holdership guard\<close>

interpretation app_fence: holdership_guard names_owner guarded_cmd 75
  by unfold_locales (simp_all add: guarded_cmd_def)

lemma Guarded_None_run: "snd (Guarded None c w) = snd (run_cmd c w)"
  by (simp add: Guarded_def split: prod.splits sum.splits)

lemma Guarded_Some_run: "snd (Guarded (Some l) c w) = snd (run_cmd (guarded_cmd (lk_owner l) c) w)"
  by (simp add: Guarded_def split: prod.splits sum.splits)

lemma Guarded_Some_Inl:
  "(\<exists>e. fst (Guarded (Some l) c w) = Inl e) \<longleftrightarrow>
     (\<exists>e. fst (run_cmd (guarded_cmd (lk_owner l) c) w) = Inl e)"
  by (auto simp: Guarded_def split: prod.splits sum.splits)

section \<open>What a waiting client may break\<close>

definition breakable :: "lock_file \<Rightarrow> int \<Rightarrow> bool" where
  "breakable f now =
     (case f of
        Info li \<Rightarrow> (li_Type li = ''auto'' \<and> isStale (li_TS li) (li_RenewTS li) now)
          \<or> (li_Type li = ''heal'' \<and> isHealStale (li_TS li) now)
      | _ \<Rightarrow> False)"

definition heal_breakable :: "lock_file \<Rightarrow> int \<Rightarrow> bool" where
  "heal_breakable f now =
     (case f of Info li \<Rightarrow> li_Type li = ''heal'' \<and> isHealStale (li_TS li) now | _ \<Rightarrow> False)"

lemma busyError_eq: "busyError w = (LockBusy (fst (ReadLock w)), snd (ReadLock w))"
  by (simp add: busyError_def split: prod.splits)

lemma ReadLock_snd: "snd (ReadLock w) = snd (run_read lock_dir w)"
  by (simp add: ReadLock_def split: prod.splits sum.splits)

lemma ReadLock_locked:
  assumes "stable (\<lambda>d. lock_dir d = x) w" and "lock_dir (dir w) = x"
  shows "fst (ReadLock w) = None \<or> fst (ReadLock w) = ParseLockInfo x"
    and "lock_dir (dir (snd (ReadLock w))) = x"
    and "stable (\<lambda>d. lock_dir d = x) (snd (ReadLock w))"
proof -
  have d: "lock_dir (dir (snd (run_read lock_dir w))) = x"
    using assms by (rule run_read_invariant)
  then show "lock_dir (dir (snd (ReadLock w))) = x"
    by (simp add: ReadLock_snd)
  show "stable (\<lambda>d. lock_dir d = x) (snd (ReadLock w))"
    using assms(1) by (simp add: ReadLock_snd run_keeps)
  show "fst (ReadLock w) = None \<or> fst (ReadLock w) = ParseLockInfo x"
    using d run_read_Inr [of lock_dir w]
    by (auto simp: ReadLock_def split: prod.splits sum.splits)
qed

lemma tryMkdirLock_locked:
  assumes "stable (\<lambda>d. lock_dir d = Some f) w" and "lock_dir (dir w) = Some f"
  obtains e w1 where "tryMkdirLock w = (Inl e, w1)" and "lock_dir (dir w1) = Some f"
    and "stable (\<lambda>d. lock_dir d = Some f) w1"
proof -
  have refused: "\<exists>n. mkdir_lock d = Inl n" if "lock_dir d = Some f" for d
    using that by (simp add: mkdir_lock_def)
  note r = run_cmd_refused [where P = "\<lambda>d. lock_dir d = Some f" and c = mkdir_lock, OF assms refused]
  from r(1) obtain e where "fst (tryMkdirLock w) = Inl e"
    by (auto simp: tryMkdirLock_def)
  then show thesis
    using that [of e "snd (tryMkdirLock w)"] r(2) run_cmd_stable [OF assms(1)]
    by (simp add: tryMkdirLock_def prod_eq_iff)
qed

text \<open>
  An acquisition only ever breaks an abandoned lock.  Whatever else happens on the server
  (any interleaving that leaves the lock itself alone, any lost command), a lock that is manual,
  an auto lock whose last renewal is within the TTL, a fresh heal lock or a lock without readable
  info survives both a deploy's acquisition attempt, which then fails, and a heal's attempt,
  which then yields; and a heal never breaks an auto lock at any age.
\<close>

theorem acquisition_respects_live_lock:
  assumes "stable (\<lambda>d. lock_dir d = Some f) w" and "lock_dir (dir w) = Some f"
  shows "(\<not> breakable f now \<longrightarrow>
      (\<exists>e. fst (acquireAutoLockOnce owner holder now w) = Inl e)
      \<and> lock_dir (dir (snd (acquireAutoLockOnce owner holder now w))) = Some f)
    \<and> (\<not> heal_breakable f now \<longrightarrow>
      fst (AcquireHealLock now w) = Inr False
      \<and> lock_dir (dir (snd (AcquireHealLock now w))) = Some f)"
proof -
  obtain e w1 where mk: "tryMkdirLock w = (Inl e, w1)" "lock_dir (dir w1) = Some f"
    "stable (\<lambda>d. lock_dir d = Some f) w1"
    using assms by (rule tryMkdirLock_locked)
  note r1 = ReadLock_locked [OF mk(3,2)]
  note r2 = ReadLock_locked [OF r1(3,2)]
  obtain info w2 where rd: "ReadLock w1 = (info, w2)"
    by fastforce
  with r1 r2 have info: "info = None \<or> info = ParseLockInfo (Some f)"
    and w2: "lock_dir (dir w2) = Some f" "lock_dir (dir (snd (ReadLock w2))) = Some f"
    by simp_all
  have "\<not> breakable f now \<Longrightarrow> (\<exists>e. fst (acquireAutoLockOnce owner holder now w) = Inl e)
      \<and> lock_dir (dir (snd (acquireAutoLockOnce owner holder now w))) = Some f"
    using info w2
    by (auto simp: acquireAutoLockOnce_def mk rd busyError_eq ParseLockInfo_def breakable_def
        split: lock_file.splits)
  moreover have "\<not> heal_breakable f now \<Longrightarrow> fst (AcquireHealLock now w) = Inr False
      \<and> lock_dir (dir (snd (AcquireHealLock now w))) = Some f"
    using info w2
    by (auto simp: AcquireHealLock_def mk rd ParseLockInfo_def heal_breakable_def
        split: lock_file.splits)
  ultimately show ?thesis by blast
qed

text \<open>A deploy that renewed its lock 25 minutes ago, seen by a contender and by a heal.\<close>

definition sample_lock :: LockInfo where
  "sample_lock = (auto_info ''a1'' ''ci'' 0)\<lparr>li_RenewTS := Some (Stamp (1500 * second))\<rparr>"

definition locked_world :: "lock_file \<Rightarrow> app_dir world" where
  "locked_world f = \<lparr>dir = empty_dir\<lparr>lock_dir := Some f\<rparr>, script = []\<rparr>"

theorem acquisition_respects_live_lock_witness:
  "lock_dir (dir (snd (acquireAutoLockOnce ''b2'' [] (3000 * second) (locked_world (Info sample_lock)))))
     = Some (Info sample_lock)
   \<and> fst (AcquireHealLock (9000 * second) (locked_world (Info sample_lock))) = Inr False"
proof -
  have h: "stable (\<lambda>d. lock_dir d = Some (Info sample_lock)) (locked_world (Info sample_lock))"
    "lock_dir (dir (locked_world (Info sample_lock))) = Some (Info sample_lock)"
    by (simp_all add: stable_def locked_world_def)
  have "\<not> breakable (Info sample_lock) (3000 * second)"
      "\<not> heal_breakable (Info sample_lock) (9000 * second)"
    by (simp_all add: breakable_def heal_breakable_def sample_lock_def auto_info_def isStale_def
        staleLockTTL_def second_def)
  with acquisition_respects_live_lock [OF h] show ?thesis by blast
qed

text \<open>
  C8. One attempt on a server nobody else touches, in full: a free path is taken, an abandoned
  auto or heal lock is broken and taken with the takeover recorded, and every other lock is left
  as it is and refused.  A taken lock is an auto lock that names the new owner, stamped now.
\<close>

theorem acquireAutoLockOnce_spec:
  assumes "reliable w"
  shows "acquireAutoLockOnce owner holder now w =
    (let taken = w\<lparr>dir := (dir w)\<lparr>lock_dir := Some (Info (auto_info owner holder now))\<rparr>\<rparr>
     in case lock_dir (dir w) of
          None \<Rightarrow> (Inr False, taken)
        | Some f \<Rightarrow>
            if breakable f now then (Inr True, taken)
            else (Inl (case f of
                         Info li \<Rightarrow> if li_Type li = ''manual'' then LockedManually li
                                   else LockBusy (Some li)
                       | _ \<Rightarrow> LockBusy None), w))"
  using assms
  by (auto simp: acquireAutoLockOnce_def tryMkdirLock_def ReadLock_def busyError_eq mkdir_lock_def
      writeLockInfo_def write_info_or_release_def upload_info_def break_and_take_def
      ReleaseLock_def rm_lock_def breakable_def ParseLockInfo_def Let_def reliable_def
      split: option.splits lock_file.splits)

theorem acquireAutoLockOnce_spec_witness:
  "fst (acquireAutoLockOnce ''b2'' [] (3301 * second) (locked_world (Info sample_lock))) = Inr True"
proof -
  have "reliable (locked_world (Info sample_lock))"
    by (simp add: reliable_def locked_world_def)
  from acquireAutoLockOnce_spec [OF this] show ?thesis
    by (simp add: locked_world_def breakable_def sample_lock_def auto_info_def isStale_def
        staleLockTTL_def second_def Let_def)
qed

section \<open>Fencing\<close>

lemma run_keeps_lock:
  fixes w :: "app_dir world"
  assumes "stable (\<lambda>d. lock_dir d = x) w" and "lock_dir (dir w) = x"
    and "\<And>d effs e d'. c d = Inr effs \<Longrightarrow> e \<in> set effs \<Longrightarrow> lock_dir (e d') = lock_dir d'"
  shows "lock_dir (dir (snd (run_cmd c w))) = x"
proof (rule run_cmd_invariant [where P = "\<lambda>d. lock_dir d = x", OF assms(1,2)])
  fix d d' :: app_dir and effs e
  assume "c d = Inr effs" and "e \<in> set effs" and "lock_dir d' = x"
  with assms(3) show "lock_dir (e d') = x" by simp
qed

definition not_ours :: "string \<Rightarrow> lock_file option \<Rightarrow> bool" where
  "not_ours owner x \<longleftrightarrow> (case x of None \<Rightarrow> True | Some f \<Rightarrow> \<not> lock_names owner f)"

lemma not_ours_names: "lock_dir d = x \<Longrightarrow> not_ours owner x \<Longrightarrow> \<not> names_owner owner d"
  by (auto simp: not_ours_def names_owner_def split: option.splits)

lemma Guarded_not_ours:
  assumes "stable (\<lambda>d. lock_dir d = x) w" and "lock_dir (dir w) = x" and "not_ours (lk_owner l) x"
  shows "\<exists>e. fst (Guarded (Some l) c w) = Inl e" and "lock_dir (dir (snd (Guarded (Some l) c w))) = x"
    and "stable (\<lambda>d. lock_dir d = x) (snd (Guarded (Some l) c w))"
proof -
  have no: "\<not> names_owner (lk_owner l) d" if "lock_dir d = x" for d
    using that assms(3) by (rule not_ours_names)
  note r = app_fence.refused_run [where P = "\<lambda>d. lock_dir d = x" and u = "lk_owner l" and c = c,
      OF assms(1,2) no]
  show "\<exists>e. fst (Guarded (Some l) c w) = Inl e"
    using r(1) by (simp only: Guarded_Some_Inl)
  show "lock_dir (dir (snd (Guarded (Some l) c w))) = x"
    using r(2) by (simp only: Guarded_Some_run)
  show "stable (\<lambda>d. lock_dir d = x) (snd (Guarded (Some l) c w))"
    using run_cmd_stable [OF assms(1)] by (simp only: Guarded_Some_run)
qed

lemma Release_not_ours:
  assumes "stable (\<lambda>d. lock_dir d = x) w" and "lock_dir (dir w) = x" and "not_ours (lk_owner l) x"
  shows "lock_dir (dir (ReleaseLockFenced (Some l) app w)) = x"
proof -
  note g = Guarded_not_ours [where c = rm_lock, OF assms]
  obtain e w1 where w1: "Guarded (Some l) rm_lock w = (Inl e, w1)"
    using g(1) by (metis prod.collapse)
  have keep: "lock_dir (dir (snd (run_cmd (release_if_ours (lk_owner l)) w1))) = x"
  proof (rule run_cmd_invariant [where P = "\<lambda>d. lock_dir d = x"])
    show "stable (\<lambda>d. lock_dir d = x) w1" and "lock_dir (dir w1) = x"
      using g(2,3) w1 by simp_all
  next
    fix d effs e d'
    assume d: "lock_dir d = x" and c: "release_if_ours (lk_owner l) d = Inr effs" "e \<in> set effs"
    have "\<not> names_owner (lk_owner l) d"
      using d assms(3) by (rule not_ours_names)
    with c show "lock_dir (e d') = x"
      by (simp add: release_if_ours_def)
  qed
  show ?thesis
    using assms(2) g(2) keep w1
    by (auto simp: ReleaseLockFenced_def split: guard_error.splits)
qed

lemma renew_not_ours:
  assumes "stable (\<lambda>d. lock_dir d = x) w" and "lock_dir (dir w) = x" and "not_ours (lk_owner l) x"
  shows "(\<exists>e. fst (renew l holder now tmp w) = Inl e) \<and> lock_dir (dir (snd (renew l holder now tmp w))) = x"
proof -
  let ?up = "upload (stage tmp (StagedInfo (renew_info l holder now)))"
  obtain r1 w1 where w1: "run_cmd ?up w = (r1, w1)"
    by fastforce
  have d1: "lock_dir (dir w1) = x"
    using run_keeps_lock [where c = ?up, OF assms(1,2)] w1 by (fastforce simp: upload_def stage_def)
  have s1: "stable (\<lambda>d. lock_dir d = x) w1"
    using run_cmd_stable [OF assms(1), of ?up] w1 by simp
  note g = Guarded_not_ours [where c = "mv_info tmp", OF s1 d1 assms(3)]
  obtain e w2 where w2: "Guarded (Some l) (mv_info tmp) w1 = (Inl e, w2)"
    using g(1) by (metis prod.collapse)
  have "lock_dir (dir (snd (run_cmd (upload (unstage tmp)) w2))) = x"
    using run_keeps_lock [where c = "upload (unstage tmp)" and w = w2 and x = x] g(2,3) w2
    by (fastforce simp: upload_def unstage_def)
  then show ?thesis
    using d1 g(2) w1 w2 by (auto simp: renew_def split: sum.splits)
qed

text \<open>
  C7. Fencing.  An operation whose lock was broken, replaced or removed can neither harm its
  successor's lock nor act: while the lock directory (present or absent) does not name its
  token, every guarded effect it sends is refused, its renewal neither overwrites the successor's
  info nor recreates a removed lock, and its release leaves the lock strictly alone, whatever
  the other clients do to the rest of the app and whichever commands are lost.
\<close>

theorem fence_protects_successor:
  assumes "stable (\<lambda>d. lock_dir d = x) w" and "lock_dir (dir w) = x" and "not_ours (lk_owner l) x"
  shows "(\<exists>e. fst (Guarded (Some l) c w) = Inl e)
    \<and> lock_dir (dir (snd (Guarded (Some l) c w))) = x
    \<and> (\<exists>e. fst (renew l holder now tmp w) = Inl e)
    \<and> lock_dir (dir (snd (renew l holder now tmp w))) = x
    \<and> lock_dir (dir (ReleaseLockFenced (Some l) app w)) = x"
  using Guarded_not_ours(1,2) [OF assms] renew_not_ours [OF assms] Release_not_ours [OF assms]
  by blast

theorem fence_protects_successor_witness:
  "lock_dir (dir (ReleaseLockFenced (Some \<lparr>lk_app = ''web'', lk_owner = ''c3'', lk_tookOver = False,
       lk_lost = False\<rparr>) ''web''
     (locked_world (Info sample_lock)\<lparr>script := [(id, Lost 1)]\<rparr>))) = Some (Info sample_lock)"
proof -
  let ?w = "locked_world (Info sample_lock)\<lparr>script := [(id, Lost 1)]\<rparr>"
  let ?l = "\<lparr>lk_app = ''web'', lk_owner = ''c3'', lk_tookOver = False, lk_lost = False\<rparr>"
  have "stable (\<lambda>d. lock_dir d = Some (Info sample_lock)) ?w"
      "lock_dir (dir ?w) = Some (Info sample_lock)"
    by (simp_all add: stable_def locked_world_def)
  moreover have "not_ours (lk_owner ?l) (Some (Info sample_lock))"
    by (simp add: not_ours_def lock_names_def sample_lock_def auto_info_def)
  ultimately show ?thesis
    using fence_protects_successor [of "Some (Info sample_lock)" ?w ?l] by blast
qed

text \<open>
  The holder's own path.  On a server nobody else touches, the holder's renewal succeeds and
  stamps the lock so that no acquisition may break it until the TTL has passed (less the
  fraction of a second that RFC 3339 drops), the renewed lock still names its holder, and the
  holder's release then removes it.
\<close>

theorem holder_renews_and_releases:
  assumes "reliable w" and "names_owner (lk_owner l) (dir w)" and "lk_app l = app"
  shows "fst (renew l holder now tmp w) = Inr ()
    \<and> (\<forall>later \<le> now + staleLockTTL - second.
         \<not> breakable (the (lock_dir (dir (snd (renew l holder now tmp w))))) later)
    \<and> names_owner (lk_owner l) (dir (snd (renew l holder now tmp w)))
    \<and> lock_dir (dir (ReleaseLockFenced (Some l) app (snd (renew l holder now tmp w)))) = None"
proof -
  let ?d = "(dir w)\<lparr>lock_dir := Some (Info (renew_info l holder now)), staged := (staged (dir w))(tmp := None)\<rparr>"
  have self: "contains_str (lk_owner l) (lk_owner l)"
    by (simp add: contains_str_sublist)
  have ren: "renew l holder now tmp w = (Inr (), w\<lparr>dir := ?d\<rparr>)"
    using assms
    by (simp add: renew_def upload_def stage_def Guarded_def guarded_cmd_def names_owner_def mv_info_def
        reliable_def run_cmd_def next_env_def Let_def)
  have names: "names_owner (lk_owner l) ?d"
    by (simp add: names_owner_def lock_names_def renew_info_def auto_info_def self)
  have rel: "lock_dir (dir (ReleaseLockFenced (Some l) app (w\<lparr>dir := ?d\<rparr>))) = None"
    using assms names
    by (simp add: ReleaseLockFenced_def Guarded_def guarded_cmd_def rm_lock_def
        reliable_def run_cmd_def next_env_def Let_def)
  have "now - now div second * second < second"
    by (simp add: second_def minus_div_mult_eq_mod)
  then have "\<not> breakable (Info (renew_info l holder now)) later"
    if "later \<le> now + staleLockTTL - second" for later
    using that by (simp add: breakable_def renew_info_def auto_info_def isStale_def rfc3339_def)
  with ren names rel show ?thesis by simp
qed

theorem holder_renews_and_releases_witness:
  "\<not> breakable (the (lock_dir (dir (snd (renew \<lparr>lk_app = ''web'', lk_owner = ''a1'',
      lk_tookOver = False, lk_lost = False\<rparr> ''ci'' (2000 * second) ''t'' (locked_world (Info sample_lock)))))))
      (3000 * second)"
proof -
  let ?l = "\<lparr>lk_app = ''web'', lk_owner = ''a1'', lk_tookOver = False, lk_lost = False\<rparr>"
  let ?w = "locked_world (Info sample_lock)"
  have h: "reliable ?w" "names_owner (lk_owner ?l) (dir ?w)" "lk_app ?l = ''web''"
    by (simp_all add: reliable_def locked_world_def names_owner_def lock_names_def sample_lock_def auto_info_def)
  have "3000 * second \<le> 2000 * second + staleLockTTL - second"
    by (simp add: second_def staleLockTTL_def)
  with holder_renews_and_releases [OF h, of "''ci''" "2000 * second" "''t''"] show ?thesis
    by blast
qed

section \<open>Where the protocol is weaker than its comments\<close>

definition rival_takes :: "app_dir effect" where
  "rival_takes d = d\<lparr>lock_dir := Some (Info (auto_info ''rival'' [] (9000 * second)))\<rparr>"

text \<open>
  Breaking a stale lock is not atomic.  The stale judgement and the unconditional removal are
  separate commands, so a contender that took the path in between loses its fresh lock: both
  acquisitions report success.  The fence then refuses the robbed owner's effects.
\<close>

theorem break_can_remove_fresh_lock:
  "let w = locked_world (Info sample_lock)\<lparr>script := [(id, Delivered), (id, Delivered), (rival_takes, Delivered)]\<rparr>;
       (r, w') = acquireAutoLockOnce ''b2'' [] (9000 * second) w
   in r = Inr True \<and> \<not> breakable (Info (auto_info ''rival'' [] (9000 * second))) (9000 * second)
      \<and> \<not> names_owner ''rival'' (dir w') \<and> names_owner ''b2'' (dir w')"
  by (simp add: locked_world_def acquireAutoLockOnce_def tryMkdirLock_def ReadLock_def mkdir_lock_def
      writeLockInfo_def write_info_or_release_def upload_info_def break_and_take_def
      ReleaseLock_def rm_lock_def breakable_def ParseLockInfo_def Let_def run_cmd_def run_read_def
      next_env_def sample_lock_def auto_info_def isStale_def staleLockTTL_def second_def
      rival_takes_def empty_dir_def names_owner_def lock_names_def rfc3339_def)

text \<open>
  A holder that dies between creating the lock directory and writing its info strands the
  app.  From a free path, an acquisition whose connection breaks right after the \<open>mkdir\<close> leaves a
  directory without info, and from then on every later acquisition is refused and every heal
  yields, at any time: no staleness rule applies to a lock without info.
\<close>

theorem acquisition_can_strand:
  "lock_dir (dir (snd (acquireAutoLockOnce ''a1'' [] now0
      \<lparr>dir = empty_dir, script = [(id, Delivered), (id, Lost 0), (id, Lost 0)]\<rparr>))) = Some NoInfo
   \<and> (\<forall>now owner holder.
        acquireAutoLockOnce owner holder now (locked_world NoInfo) = (Inl (LockBusy None), locked_world NoInfo)
        \<and> AcquireHealLock now (locked_world NoInfo) = (Inr False, locked_world NoInfo))"
  by (simp add: locked_world_def acquireAutoLockOnce_def AcquireHealLock_def tryMkdirLock_def ReadLock_def
      mkdir_lock_def writeLockInfo_def write_info_or_release_def upload_info_def busyError_def
      ReleaseLock_def rm_lock_def ParseLockInfo_def Let_def run_cmd_def run_read_def
      next_env_def empty_dir_def)

section \<open>The waiting loop\<close>

lemma acquireAutoLock_Some_rounds:
  "acquireAutoLock lw dl owner holder rounds w = None \<Longrightarrow>
     \<forall>(now, later, cancelled) \<in> set rounds. 0 < lw \<and> later \<le> dl \<and> \<not> cancelled"
  by (induction lw dl owner holder rounds w rule: acquireAutoLock.induct)
    (fastforce split: prod.splits if_splits)+

text \<open>
  C9. Waiting for a contended lock ends: as soon as the observed rounds contain one whose clock
  is past the deadline, or in which the caller was cancelled, the loop has returned; and with no
  wait configured it returns after the first attempt, with that attempt's own answer.
\<close>

theorem acquireAutoLock_terminates:
  assumes "(now, later, cancelled) \<in> set rounds" and "later > dl \<or> cancelled \<or> lw \<le> 0"
  shows "\<exists>r w'. acquireAutoLock lw dl owner holder rounds w = Some (r, w')
    \<and> (lw \<le> 0 \<longrightarrow> (r, w') = acquireAutoLockOnce owner holder (fst (hd rounds)) w)"
proof -
  have "acquireAutoLock lw dl owner holder rounds w \<noteq> None"
    using acquireAutoLock_Some_rounds [of lw dl owner holder rounds w] assms by fastforce
  moreover have "acquireAutoLock lw dl owner holder rounds w
      = Some (acquireAutoLockOnce owner holder (fst (hd rounds)) w)" if "lw \<le> 0"
    using that assms(1) by (cases rounds) (auto split: prod.splits)
  ultimately show ?thesis by fastforce
qed

theorem acquireAutoLock_terminates_witness:
  "\<exists>r w'. acquireAutoLock 60 100 ''b2'' [] [(10, 40, False), (50, 120, False)]
     (locked_world (Info sample_lock)) = Some (r, w')"
  using acquireAutoLock_terminates [of 50 120 False "[(10, 40, False), (50, 120, False)]" 100 60
      "''b2''" "[]" "locked_world (Info sample_lock)"] by fastforce

end
