(* ===== verification/Inventory.thy ===== *)
theory Inventory
  imports Lock "HOL-Library.Product_Lexorder"
begin

text \<open>
  The containers of an app on its server (\<open>internal/docker/docker.go\<close>): their listing, names and
  ports, the generation fence that stops and retirements run behind, and the pruning of old
  versions, with the callers that decide what a prune may take
  (\<open>internal/deploy/retention.go\<close>, \<open>internal/cli/retention.go\<close>, the cleanup steps of
  \<open>internal/deploy/deploy.go\<close>).  The Docker daemon is not code of the repository: a state of
  containers and images with the documented effects of its commands, and a parameter that may
  make any command fail.
\<close>

section \<open>Containers\<close>

type_synonym labels = "(string \<times> string) list"

text \<open>
  \<open>ct_CreatedAt\<close> is docker's localized timestamp, by what \<open>time.Parse\<close> makes of it.  The fields
  \<open>ImageID\<close> and \<open>ImageTags\<close>, which only reports fill, are not carried.
\<close>

record Container =
  ct_ID :: string
  ct_Name :: string
  ct_Image :: string
  ct_State :: string
  ct_Status :: string
  ct_CreatedAt :: stamp
  ct_Labels :: labels

text \<open>A Go map lookup: the empty string when there is no such label.\<close>

definition label :: "Container \<Rightarrow> string \<Rightarrow> string" where
  "label c k = (case map_of (ct_Labels c) k of Some v \<Rightarrow> v | None \<Rightarrow> [])"

definition running :: "Container \<Rightarrow> bool" where
  "running c \<longleftrightarrow> ct_State c = ''running''"

text \<open>1 January 9999 in nanoseconds: what an undatable container counts as.\<close>

definition far_future :: int where
  "far_future = 253370764800 * second"

definition parseDockerTime :: "stamp \<Rightarrow> int" where
  "parseDockerTime s = (case s of Stamp t \<Rightarrow> t | BadStamp \<Rightarrow> far_future)"

definition ContainerName :: "string \<Rightarrow> string \<Rightarrow> string \<Rightarrow> string" where
  "ContainerName app process version = app @ ''-'' @ process @ ''-'' @ version"

definition ReplicaContainerName :: "string \<Rightarrow> string \<Rightarrow> string \<Rightarrow> nat \<Rightarrow> nat \<Rightarrow> string" where
  "ReplicaContainerName app process version i replicas =
     (if replicas \<le> 1 then ContainerName app process version
      else app @ ''-'' @ process @ ''-'' @ version @ ''-'' @ nat_to_string i)"

text \<open>
  The labels of a listing entry: absent, an object, docker's comma-joined display string, or JSON
  of another type.
\<close>

datatype raw_labels = LabelsNull | LabelsObject labels | LabelsDisplay string | LabelsBad

record psEntry =
  ps_Container :: Container
  ps_Labels :: raw_labels

definition cut_eq :: "string \<Rightarrow> (string \<times> string) option" where
  "cut_eq s =
     (if CHR ''='' \<in> set s
      then Some (takeWhile (\<lambda>c. c \<noteq> CHR ''='') s, tl (dropWhile (\<lambda>c. c \<noteq> CHR ''='') s))
      else None)"

text \<open>A later pair of the display string overwrites an earlier one: the map has it first.\<close>

definition parseLabelsDisplay :: "string \<Rightarrow> labels" where
  "parseLabelsDisplay s =
     (if s = [] then []
      else rev (map (\<lambda>(k, v). (trim_space k, trim_space v))
             (List.map_filter cut_eq (split_on (CHR '','') s))))"

definition parseEntryLabels :: "raw_labels \<Rightarrow> labels option" where
  "parseEntryLabels r =
     (case r of LabelsNull \<Rightarrow> Some [] | LabelsObject m \<Rightarrow> Some m
      | LabelsDisplay s \<Rightarrow> Some (parseLabelsDisplay s) | LabelsBad \<Rightarrow> None)"

text \<open>\<open>json.Unmarshal\<close> of one line is the parameter \<open>unmarshal\<close>.\<close>

fun parse_entries :: "(string \<Rightarrow> psEntry option) \<Rightarrow> string list \<Rightarrow> Container list option" where
  "parse_entries unmarshal [] = Some []"
| "parse_entries unmarshal (l # ls) =
     (if trim_space l = [] then parse_entries unmarshal ls
      else (case unmarshal (trim_space l) of
              None \<Rightarrow> None
            | Some e \<Rightarrow>
                (case parseEntryLabels (ps_Labels e) of
                   None \<Rightarrow> None
                 | Some m \<Rightarrow>
                     map_option (\<lambda>cs. (ps_Container e)\<lparr>ct_Labels := m\<rparr> # cs) (parse_entries unmarshal ls))))"

definition ParseContainers :: "(string \<Rightarrow> psEntry option) \<Rightarrow> string \<Rightarrow> Container list option" where
  "ParseContainers unmarshal output = parse_entries unmarshal (lines_of output)"

definition ContainersByApp :: "Container list \<Rightarrow> string \<Rightarrow> Container list" where
  "ContainersByApp cs app = filter (\<lambda>c. label c ''teploy.app'' = app) cs"

section \<open>Ports\<close>

definition after_colon :: "string \<Rightarrow> string option" where
  "after_colon s =
     (if CHR '':'' \<in> set s then Some (rev (takeWhile (\<lambda>c. c \<noteq> CHR '':'') (rev s))) else None)"

definition listening_port :: "string \<Rightarrow> int option" where
  "listening_port line =
     (let fs = fields_of line
      in if length fs < 4 then None
         else (case after_colon (fs ! 3) of
                 None \<Rightarrow> None
               | Some p \<Rightarrow> (let (n, ok) = atoi p in if ok then Some n else None)))"

definition parseListeningPorts :: "string \<Rightarrow> int list" where
  "parseListeningPorts output = List.map_filter listening_port (lines_of output)"

text \<open>The loop \<open>for port := 49152; port <= 65535\<close> from a given port.\<close>

function free_port :: "int list \<Rightarrow> int list \<Rightarrow> int \<Rightarrow> int option" where
  "free_port used claimed port =
     (if port > 65535 then None
      else if port \<notin> set used \<and> port \<notin> set claimed then Some port
      else free_port used claimed (port + 1))"
  by pat_completeness auto
termination by (relation "measure (\<lambda>(used, claimed, port). nat (65536 - port))") auto

declare free_port.simps [simp del]

definition FindAvailablePortExcluding :: "int list \<Rightarrow> (exec_error, string) result \<Rightarrow> (exec_error option, int) result" where
  "FindAvailablePortExcluding claimed ss =
     (case ss of
        Inl e \<Rightarrow> Inl (Some e)
      | Inr out \<Rightarrow>
          (case free_port (parseListeningPorts out) claimed 49152 of None \<Rightarrow> Inl None | Some p \<Rightarrow> Inr p))"

definition FindAvailablePort :: "(exec_error, string) result \<Rightarrow> (exec_error option, int) result" where
  "FindAvailablePort ss = FindAvailablePortExcluding [] ss"

lemma free_port_spec:
  "(case free_port used claimed port of
      Some p \<Rightarrow> port \<le> p \<and> p \<le> 65535 \<and> p \<notin> set used \<union> set claimed
        \<and> (\<forall>q. port \<le> q \<and> q < p \<longrightarrow> q \<in> set used \<union> set claimed)
    | None \<Rightarrow> \<forall>q. port \<le> q \<and> q \<le> 65535 \<longrightarrow> q \<in> set used \<union> set claimed)"
proof (induction used claimed port rule: free_port.induct)
  case (1 used claimed port)
  show ?case
  proof (cases "port > 65535 \<or> (port \<notin> set used \<and> port \<notin> set claimed)")
    case True
    then show ?thesis by (subst free_port.simps) auto
  next
    case False
    then have step: "free_port used claimed port = free_port used claimed (port + 1)"
      by (subst free_port.simps) (simp, blast)
    from False have taken: "port \<in> set used \<union> set claimed"
      by blast
    have "port + 1 \<le> q \<or> q = port" if "port \<le> q" for q using that by linarith
    with False taken 1 show ?thesis
      unfolding step by (fastforce split: option.splits)
  qed
qed

section \<open>The daemon\<close>

text \<open>
  A Docker host as the commands see it, with the app's lock directory the guards compare with.
  A reference is a container's ID or its name.
\<close>

record docker_host =
  dh_containers :: "Container list"
  dh_images :: "string list"
  dh_lock :: "lock_file option"

datatype docker_op =
    OpStop string | OpRemove string | OpForceRemove string | OpRemoveImage string
  | OpRun string | OpStart string | OpRename string

text \<open>What the daemon refuses for reasons of its own.\<close>

type_synonym daemon = "docker_op \<Rightarrow> docker_host \<Rightarrow> bool"

definition refers :: "string \<Rightarrow> Container \<Rightarrow> bool" where
  "refers ref c \<longleftrightarrow> ct_ID c = ref \<or> ct_Name c = ref"

definition halted :: "Container \<Rightarrow> Container" where
  "halted c = (if running c then c\<lparr>ct_State := ''exited''\<rparr> else c)"

definition stop_effect :: "string \<Rightarrow> docker_host effect" where
  "stop_effect ref d = d\<lparr>dh_containers := map (\<lambda>c. if refers ref c then halted c else c) (dh_containers d)\<rparr>"

definition remove_effect :: "string \<Rightarrow> docker_host effect" where
  "remove_effect ref d = d\<lparr>dh_containers := filter (\<lambda>c. \<not> refers ref c) (dh_containers d)\<rparr>"

definition rmi_effect :: "string \<Rightarrow> docker_host effect" where
  "rmi_effect img d = d\<lparr>dh_images := filter (\<lambda>i. i \<noteq> img) (dh_images d)\<rparr>"

text \<open>
  \<open>docker stop\<close> and \<open>docker rm\<close> fail when nothing bears the reference, \<open>docker rm\<close> also on a
  running container, \<open>docker rmi\<close> on an image some container was created from.
\<close>

definition docker_stop :: "daemon \<Rightarrow> string \<Rightarrow> docker_host cmd" where
  "docker_stop dm ref d =
     (if dm (OpStop ref) d \<or> \<not> list_ex (refers ref) (dh_containers d) then Inl 1 else Inr [stop_effect ref])"

definition docker_rm :: "daemon \<Rightarrow> string \<Rightarrow> docker_host cmd" where
  "docker_rm dm ref d =
     (if dm (OpRemove ref) d \<or> \<not> list_ex (refers ref) (dh_containers d)
         \<or> list_ex (\<lambda>c. refers ref c \<and> running c) (dh_containers d)
      then Inl 1 else Inr [remove_effect ref])"

definition docker_rm_force :: "daemon \<Rightarrow> string \<Rightarrow> docker_host cmd" where
  "docker_rm_force dm ref d = (if dm (OpForceRemove ref) d then Inl 1 else Inr [remove_effect ref])"

definition docker_rmi :: "daemon \<Rightarrow> string \<Rightarrow> docker_host cmd" where
  "docker_rmi dm img d =
     (if dm (OpRemoveImage img) d \<or> list_ex (\<lambda>c. ct_Image c = img) (dh_containers d)
      then Inl 1 else Inr [rmi_effect img])"

text \<open>The guard prefix of the app's lock in front of a docker command.\<close>

definition host_holds :: "string \<Rightarrow> docker_host \<Rightarrow> bool" where
  "host_holds owner d = (case dh_lock d of None \<Rightarrow> False | Some f \<Rightarrow> lock_names owner f)"

definition host_guarded :: "string \<Rightarrow> docker_host cmd \<Rightarrow> docker_host cmd" where
  "host_guarded owner c d = (if host_holds owner d then c d else Inl 75)"

interpretation host_fence: holdership_guard host_holds host_guarded 75
  by unfold_locales (simp_all add: host_guarded_def)

definition with_prefix :: "string option \<Rightarrow> docker_host cmd \<Rightarrow> docker_host cmd" where
  "with_prefix guardPrefix c = (case guardPrefix of None \<Rightarrow> c | Some owner \<Rightarrow> host_guarded owner c)"

section \<open>The generation fence\<close>

definition GenerationLabelName :: string where
  "GenerationLabelName = ''teploy.generation''"

text \<open>
  The generation the fragment reads: the label of the first container that bears the reference,
  0 for no container, no label, or a label that is no decimal number.
\<close>

definition label_generation :: "string \<Rightarrow> docker_host \<Rightarrow> nat" where
  "label_generation ref d =
     (case find (refers ref) (dh_containers d) of
        None \<Rightarrow> 0
      | Some c \<Rightarrow> (case parse_nat (label c GenerationLabelName) of None \<Rightarrow> 0 | Some g \<Rightarrow> g))"

text \<open>The shell's \<open>[ -le ]\<close> compares signed 64-bit numbers and fails on larger ones.\<close>

definition generation_passes :: "string \<times> gen \<Rightarrow> docker_host \<Rightarrow> bool" where
  "generation_passes k d \<longleftrightarrow>
     label_generation (fst k) d \<le> unat (snd k) \<and> unat (snd k) < 2 ^ 63"

definition generationCheckFragment :: "string \<times> gen \<Rightarrow> docker_host cmd \<Rightarrow> docker_host cmd" where
  "generationCheckFragment k c d = (if generation_passes k d then c d else Inl 74)"

interpretation generation_fence: holdership_guard generation_passes generationCheckFragment 74
  by unfold_locales (simp_all add: generationCheckFragment_def)

definition StopGenerationFenced ::
  "daemon \<Rightarrow> string \<Rightarrow> gen \<Rightarrow> string option \<Rightarrow> docker_host world
     \<Rightarrow> (exec_error, unit) result \<times> docker_host world" where
  "StopGenerationFenced dm ref expected guardPrefix w =
     run_cmd (with_prefix guardPrefix (generationCheckFragment (ref, expected) (docker_stop dm ref))) w"

text \<open>\<open>stateGenerationRefused\<close> and \<open>state.FenceLost\<close>: the exit statuses of the two guards.\<close>

definition stateGenerationRefused :: "exec_error \<Rightarrow> bool" where
  "stateGenerationRefused e \<longleftrightarrow> e = Exit 74"

definition docker_Stop :: "daemon \<Rightarrow> string \<Rightarrow> docker_host world \<Rightarrow> (exec_error, unit) result \<times> docker_host world" where
  "docker_Stop dm ref w = run_cmd (docker_stop dm ref) w"

definition docker_Remove :: "daemon \<Rightarrow> string \<Rightarrow> docker_host world \<Rightarrow> (exec_error, unit) result \<times> docker_host world" where
  "docker_Remove dm ref w = run_cmd (docker_rm dm ref) w"

section \<open>Retiring the predecessor\<close>

definition is_accessory :: "Container \<Rightarrow> bool" where
  "is_accessory c \<longleftrightarrow> label c ''teploy.role'' = ''accessory''"

definition selectPredecessors :: "Container list \<Rightarrow> AppState \<Rightarrow> bool \<Rightarrow> Container list" where
  "selectPredecessors cs current sameVersion =
     filter (\<lambda>c. \<not> is_accessory c \<and> label c ''teploy.version'' = CurrentHash current
         \<and> (sameVersion \<or> running c)) cs"

datatype escaped = NewerGeneration string | FenceLostBefore string | StopFailed string | RemoveFailed string

definition exact_ref :: "Container \<Rightarrow> string" where
  "exact_ref c = (if ct_ID c \<noteq> [] then ct_ID c else ct_Name c)"

fun stopPredecessorSnapshot ::
  "daemon \<Rightarrow> Container list \<Rightarrow> bool \<Rightarrow> gen \<Rightarrow> string option \<Rightarrow> docker_host world
     \<Rightarrow> escaped list \<times> docker_host world" where
  "stopPredecessorSnapshot dm [] sameVersion expected guardPrefix w = ([], w)"
| "stopPredecessorSnapshot dm (c # cs) sameVersion expected guardPrefix w =
     (let ref = exact_ref c
      in case StopGenerationFenced dm ref expected guardPrefix w of
           (Inl e, w1) \<Rightarrow>
             if stateGenerationRefused e then
               (let (more, w2) = stopPredecessorSnapshot dm cs sameVersion expected guardPrefix w1
                in (NewerGeneration (ct_Name c) # more, w2))
             else if fenceLostErr e then ([FenceLostBefore (ct_Name c)], w1)
             else (let (more, w2) = stopPredecessorSnapshot dm cs sameVersion expected guardPrefix w1
                   in (StopFailed (ct_Name c) # more, w2))
         | (Inr _, w1) \<Rightarrow>
             if sameVersion then
               (case docker_Remove dm ref w1 of
                  (Inl _, w2) \<Rightarrow>
                    (let (more, w3) = stopPredecessorSnapshot dm cs sameVersion expected guardPrefix w2
                     in (RemoveFailed (ct_Name c) # more, w3))
                | (Inr _, w2) \<Rightarrow> stopPredecessorSnapshot dm cs sameVersion expected guardPrefix w2)
             else stopPredecessorSnapshot dm cs sameVersion expected guardPrefix w1)"

text \<open>One stop of the name-derived fallback, and its list of names in order.\<close>

definition stop_by_name ::
  "daemon \<Rightarrow> bool \<Rightarrow> string \<Rightarrow> docker_host world \<Rightarrow> escaped list \<times> docker_host world" where
  "stop_by_name dm sameVersion name w =
     (let name = (if sameVersion then name @ ''_replaced'' else name)
      in case docker_Stop dm name w of
           (Inl _, w1) \<Rightarrow> ([StopFailed name], w1)
         | (Inr _, w1) \<Rightarrow>
             if sameVersion then
               (case docker_Remove dm name w1 of
                  (Inl _, w2) \<Rightarrow> ([RemoveFailed name], w2) | (Inr _, w2) \<Rightarrow> ([], w2))
             else ([], w1))"

fun stop_names ::
  "daemon \<Rightarrow> bool \<Rightarrow> string list \<Rightarrow> docker_host world \<Rightarrow> escaped list \<times> docker_host world" where
  "stop_names dm sameVersion [] w = ([], w)"
| "stop_names dm sameVersion (n # ns) w =
     (let (f, w1) = stop_by_name dm sameVersion n w; (fs, w2) = stop_names dm sameVersion ns w1
      in (f @ fs, w2))"

definition old_workload_names :: "string \<Rightarrow> AppState \<Rightarrow> string list \<Rightarrow> string list" where
  "old_workload_names app current processes =
     (let oldReplicas = (if CurrentPorts current = [] then 1 else length (CurrentPorts current))
      in map (\<lambda>ri. ReplicaContainerName app ''web'' (CurrentHash current) ri oldReplicas) [1..<oldReplicas + 1]
         @ (if oldReplicas \<le> 1 then [ContainerName app ''web'' (CurrentHash current)] else [])
         @ map (\<lambda>p. ContainerName app p (CurrentHash current))
             (filter (\<lambda>p. p \<noteq> ''web'') (sort processes)))"

definition stopOldWorkloadsByName ::
  "daemon \<Rightarrow> string \<Rightarrow> string \<Rightarrow> AppState option \<Rightarrow> string list \<Rightarrow> docker_host world
     \<Rightarrow> escaped list \<times> docker_host world" where
  "stopOldWorkloadsByName dm app version cur processes w =
     (case cur of
        None \<Rightarrow> ([], w)
      | Some current \<Rightarrow>
          if CurrentHash current = [] then ([], w)
          else stop_names dm (CurrentHash current = version) (old_workload_names app current processes) w)"

section \<open>Pruning old versions\<close>

text \<open>The versions of a listing, each with its newest creation time.\<close>

definition versioned :: "Container \<Rightarrow> bool" where
  "versioned c \<longleftrightarrow> label c ''teploy.version'' \<noteq> [] \<and> \<not> is_accessory c"

definition version_of :: "Container \<Rightarrow> string" where
  "version_of c = label c ''teploy.version''"

definition newest_created :: "Container list \<Rightarrow> string \<Rightarrow> int" where
  "newest_created cs v =
     Max (set (map (\<lambda>c. parseDockerTime (ct_CreatedAt c)) (filter (\<lambda>c. versioned c \<and> version_of c = v) cs)))"

text \<open>Newest first; the greater version first where the times are equal.\<close>

definition sorted_versions :: "Container list \<Rightarrow> string list" where
  "sorted_versions cs =
     rev (sort_key (\<lambda>v. (newest_created cs v, v)) (dedup (map version_of (filter versioned cs))))"

definition PrunableVersions :: "Container list \<Rightarrow> int \<Rightarrow> string list \<Rightarrow> string list" where
  "PrunableVersions cs keep protected =
     filter (\<lambda>v. v \<notin> set (filter (\<lambda>p. p \<noteq> []) protected)) (drop (nat keep) (sorted_versions cs))"

definition versionArtifacts :: "Container list \<Rightarrow> string \<Rightarrow> string list \<times> string list" where
  "versionArtifacts cs v =
     (let mine = filter (\<lambda>c. version_of c = v \<and> \<not> is_accessory c) cs
      in (map ct_Name mine, dedup (filter (\<lambda>i. i \<noteq> []) (map ct_Image mine))))"

fun remove_all :: "daemon \<Rightarrow> string list \<Rightarrow> docker_host world \<Rightarrow> string list \<times> docker_host world" where
  "remove_all dm [] w = ([], w)"
| "remove_all dm (n # ns) w =
     (case run_cmd (docker_rm_force dm n) w of
        (Inl _, w1) \<Rightarrow> (let (fs, w2) = remove_all dm ns w1 in (n # fs, w2))
      | (Inr _, w1) \<Rightarrow> remove_all dm ns w1)"

fun remove_images :: "daemon \<Rightarrow> string list \<Rightarrow> docker_host world \<Rightarrow> docker_host world" where
  "remove_images dm [] w = w"
| "remove_images dm (i # is) w = remove_images dm is (snd (run_cmd (docker_rmi dm i) w))"

text \<open>The result: the versions fully removed, the containers whose removal failed.\<close>

fun prune_loop ::
  "daemon \<Rightarrow> Container list \<Rightarrow> string list \<Rightarrow> docker_host world
     \<Rightarrow> (string list \<times> string list) \<times> docker_host world" where
  "prune_loop dm cs [] w = (([], []), w)"
| "prune_loop dm cs (v # vs) w =
     (let (failed, w1) = remove_all dm (fst (versionArtifacts cs v)) w;
          w2 = remove_images dm (snd (versionArtifacts cs v)) w1;
          ((pruned, failures), w3) = prune_loop dm cs vs w2
      in ((if failed = [] then v # pruned else pruned, failed @ failures), w3))"

text \<open>\<open>ListContainers\<close> reads the containers of the app.\<close>

definition ListContainers ::
  "string \<Rightarrow> docker_host world \<Rightarrow> (exec_error, Container list) result \<times> docker_host world" where
  "ListContainers app w = run_read (\<lambda>d. ContainersByApp (dh_containers d) app) w"

definition PruneVersions ::
  "daemon \<Rightarrow> string \<Rightarrow> int \<Rightarrow> string list \<Rightarrow> docker_host world
     \<Rightarrow> (exec_error, string list \<times> string list) result \<times> docker_host world" where
  "PruneVersions dm app keep protected w =
     (case ListContainers app w of
        (Inl e, w1) \<Rightarrow> (Inl e, w1)
      | (Inr cs, w1) \<Rightarrow>
          (let (r, w2) = prune_loop dm cs (PrunableVersions cs keep protected) w1 in (Inr r, w2)))"

section \<open>Who may prune what\<close>

definition DefaultPruneNotice :: int where
  "DefaultPruneNotice = 7 * 24 * 3600 * second"

definition DefaultKeepVersions :: int where
  "DefaultKeepVersions = 5"

definition EffectiveKeepVersions :: "int option \<Rightarrow> int \<times> bool" where
  "EffectiveKeepVersions v = (case v of None \<Rightarrow> (DefaultKeepVersions, False) | Some k \<Rightarrow> (k, True))"

text \<open>
  The default prune's notice: \<open>notice\<close> is the reading of the notice file (its time when it
  parses), \<open>recorded\<close> whether writing a new one succeeds.  The result says whether the prune is
  due, and the notice time written.
\<close>

definition ParsePruneNotice :: "stamp option \<Rightarrow> int option" where
  "ParsePruneNotice n = (case n of Some (Stamp t) \<Rightarrow> Some t | _ \<Rightarrow> None)"

definition defaultPruneDue ::
  "(exec_error, Container list) result \<Rightarrow> int \<Rightarrow> string list \<Rightarrow> (exec_error, stamp option) result
     \<Rightarrow> bool \<Rightarrow> int \<Rightarrow> bool \<times> int option" where
  "defaultPruneDue listing keep protected notice recorded now =
     (case listing of
        Inl _ \<Rightarrow> (False, None)
      | Inr cs \<Rightarrow>
          if PrunableVersions cs keep protected = [] then (False, None)
          else
            (case notice of
               Inl _ \<Rightarrow> (False, None)
             | Inr n \<Rightarrow>
                 (case ParsePruneNotice n of
                    Some started \<Rightarrow> (\<not> now < started + DefaultPruneNotice, None)
                  | None \<Rightarrow> (if recorded then (\<not> now < now + DefaultPruneNotice, Some now) else (False, None)))))"

text \<open>
  Step 15b of a deploy: the fence check, the protected set, the pins, the notice and the prune.
  The parameters are what the steps before the prune found.
\<close>

definition deploy_prune ::
  "daemon \<Rightarrow> string \<Rightarrow> int option \<Rightarrow> bool \<Rightarrow> string \<Rightarrow> string \<Rightarrow> (exec_error, string list) result
     \<Rightarrow> (string list \<Rightarrow> bool) \<Rightarrow> docker_host world \<Rightarrow> string list \<times> docker_host world" where
  "deploy_prune dm app keepVersions fenceOK version prevHash pins due w =
     (let (keep, explicit) = EffectiveKeepVersions keepVersions
      in if keep \<le> 0 \<or> \<not> fenceOK then ([], w)
         else
           (case pins of
              Inl _ \<Rightarrow> ([], w)
            | Inr ps \<Rightarrow>
                (let protected = [version, prevHash] @ ps
                 in if explicit \<or> due protected then
                      (case PruneVersions dm app keep protected w of
                         (Inl _, w1) \<Rightarrow> ([], w1)
                       | (Inr (pruned, _), w1) \<Rightarrow> (pruned, w1))
                    else ([], w))))"

text \<open>\<open>retentionProtected\<close> of the audit and of \<open>releases prune\<close>.\<close>

definition retentionProtected :: "AppState \<Rightarrow> string list \<Rightarrow> Container list \<Rightarrow> string list" where
  "retentionProtected st pins cs =
     foldl (\<lambda>protected c.
              if version_of c \<noteq> [] \<and> running c \<and> version_of c \<notin> set protected
              then protected @ [version_of c] else protected)
       ([CurrentHash st, PreviousHash st] @ pins) cs"

datatype prune_error =
    PruneLocked
  | PruneRead exec_error
  | PruneStatic
  | PruneIncomplete "string list"

text \<open>
  \<open>executeReleasesPrune\<close>: the lock, the state, the pins and the listing are what their readings
  gave; \<open>None\<close> for the state means no app.  The prune runs behind the lock's guard, which the
  parameter \<open>dm\<close> may make refuse.
\<close>

definition executeReleasesPrune ::
  "daemon \<Rightarrow> string \<Rightarrow> int \<Rightarrow> bool \<Rightarrow> bool \<Rightarrow> (exec_error, AppState option) result
     \<Rightarrow> (exec_error, string list) result \<Rightarrow> docker_host world
     \<Rightarrow> (prune_error, string list \<times> string list) result \<times> docker_host world" where
  "executeReleasesPrune dm app keep exists locked st pins w =
     (if \<not> exists then (Inr ([], []), w)
      else if \<not> locked then (Inl PruneLocked, w)
      else
        (case st of
           Inl e \<Rightarrow> (Inl (PruneRead e), w)
         | Inr None \<Rightarrow> (Inr ([], []), w)
         | Inr (Some s) \<Rightarrow>
             if DeploymentType s = ''static'' then (Inl PruneStatic, w)
             else
               (case pins of
                  Inl e \<Rightarrow> (Inl (PruneRead e), w)
                | Inr ps \<Rightarrow>
                    (case ListContainers app w of
                       (Inl e, w1) \<Rightarrow> (Inl (PruneRead e), w1)
                     | (Inr cs, w1) \<Rightarrow>
                         (let protected = filter (\<lambda>v. v \<noteq> []) (retentionProtected s ps cs)
                          in if PrunableVersions cs keep protected = [] then (Inr ([], protected), w1)
                             else
                               (case PruneVersions dm app keep protected w1 of
                                  (Inl e, w2) \<Rightarrow> (Inl (PruneRead e), w2)
                                | (Inr (pruned, failures), w2) \<Rightarrow>
                                    if failures \<noteq> [] then (Inl (PruneIncomplete failures), w2)
                                    else (Inr (pruned, protected), w2)))))))"

section \<open>What a stop and a retirement leave alone\<close>

text \<open>A running container of a newer generation that no other container shares a reference with.\<close>

definition newer_runs :: "Container \<Rightarrow> gen \<Rightarrow> docker_host \<Rightarrow> bool" where
  "newer_runs c expected d \<longleftrightarrow>
     c \<in> set (dh_containers d) \<and> running c
     \<and> (\<exists>g. parse_nat (label c GenerationLabelName) = Some g \<and> unat expected < g)
     \<and> (\<forall>b \<in> set (dh_containers d). \<forall>ref. refers ref b \<and> refers ref c \<longrightarrow> b = c)"

lemma refers_halted [simp]: "refers ref (halted c) = refers ref c"
  by (simp add: refers_def halted_def)

lemma newer_runs_refuses:
  assumes "newer_runs c expected d" and "refers ref c"
  shows "\<not> generation_passes (ref, expected) d"
proof -
  have "find (refers ref) (dh_containers d) = Some c"
  proof (cases "find (refers ref) (dh_containers d)")
    case None
    then show ?thesis
      using assms by (auto simp: find_None_iff newer_runs_def)
  next
    case (Some b)
    then have "b \<in> set (dh_containers d)" and "refers ref b"
      by (auto simp: find_Some_iff)
    with assms Some show ?thesis by (auto simp: newer_runs_def)
  qed
  with assms(1) show ?thesis
    by (auto simp: generation_passes_def label_generation_def newer_runs_def)
qed

lemma newer_runs_stop_other:
  assumes "newer_runs c expected d" and "\<not> refers ref c"
  shows "newer_runs c expected (stop_effect ref d)"
proof -
  have "c \<in> (\<lambda>b. if refers ref b then halted b else b) ` set (dh_containers d)"
    using assms by (force simp: newer_runs_def)
  then show ?thesis
    using assms by (auto simp: newer_runs_def stop_effect_def)
qed

lemma newer_runs_remove_other:
  "newer_runs c expected d \<Longrightarrow> \<not> refers ref c \<Longrightarrow> newer_runs c expected (remove_effect ref d)"
  by (auto simp: newer_runs_def remove_effect_def)

lemma stop_fenced_keeps:
  assumes "stable (newer_runs c expected) w" and "newer_runs c expected (dir w)"
  shows "newer_runs c expected (dir (snd (StopGenerationFenced dm ref expected gp w)))"
  unfolding StopGenerationFenced_def
proof (rule run_cmd_invariant [OF assms])
  fix d effs e d'
  assume P: "newer_runs c expected d" and P': "newer_runs c expected d'" and e: "e \<in> set effs"
    and run: "with_prefix gp (generationCheckFragment (ref, expected) (docker_stop dm ref)) d = Inr effs"
  then have "generationCheckFragment (ref, expected) (docker_stop dm ref) d = Inr effs"
    by (auto simp: with_prefix_def host_guarded_def split: option.splits if_splits)
  then have pass: "generation_passes (ref, expected) d" and "effs = [stop_effect ref]"
    by (auto simp: generationCheckFragment_def docker_stop_def split: if_splits)
  then have "\<not> refers ref c"
    using newer_runs_refuses [OF P] by blast
  with \<open>effs = _\<close> e P' show "newer_runs c expected (e d')"
    by (simp add: newer_runs_stop_other)
qed

lemma remove_keeps:
  assumes "stable (newer_runs c expected) w" and "newer_runs c expected (dir w)"
  shows "newer_runs c expected (dir (snd (docker_Remove dm ref w)))"
  unfolding docker_Remove_def
proof (rule run_cmd_invariant [OF assms])
  fix d effs e d'
  assume P: "newer_runs c expected d" and P': "newer_runs c expected d'" and e: "e \<in> set effs"
    and run: "docker_rm dm ref d = Inr effs"
  then have "\<not> refers ref c" and "effs = [remove_effect ref]"
    by (auto simp: docker_rm_def newer_runs_def list_ex_iff split: if_splits)
  with e P' show "newer_runs c expected (e d')"
    by (simp add: newer_runs_remove_other)
qed

lemma stop_fenced_stable: "stable P w \<Longrightarrow> stable P (snd (StopGenerationFenced dm ref expected gp w))"
  by (simp add: StopGenerationFenced_def run_cmd_stable)

lemma remove_stable: "stable P w \<Longrightarrow> stable P (snd (docker_Remove dm ref w))"
  by (simp add: docker_Remove_def run_cmd_stable)


definition demo_container :: "string \<Rightarrow> string \<Rightarrow> string \<Rightarrow> Container" where
  "demo_container i version gen =
     \<lparr>ct_ID = i, ct_Name = ContainerName ''shop'' ''web'' version, ct_Image = ''shop:'' @ version,
      ct_State = ''running'', ct_Status = ''Up'', ct_CreatedAt = Stamp 0,
      ct_Labels = [(''teploy.app'', ''shop''), (''teploy.process'', ''web''),
        (''teploy.version'', version), (GenerationLabelName, gen)]\<rparr>"


text \<open>
  The fallback names the only web container of an app without replicas twice.  When the same
  version was redeployed the first round removes it, so the second cannot succeed.
\<close>

lemma stop_by_name_gone:
  assumes "quiet w" and "stop_by_name dm True name w = ([], w')"
  shows "\<not> list_ex (refers (name @ ''_replaced'')) (dh_containers (dir w'))" and "quiet w'"
proof -
  let ?n = "name @ ''_replaced''"
  obtain r w1 where stop: "run_cmd (docker_stop dm ?n) w = (r, w1)" by (rule prod.exhaust)
  obtain q w2 where rm: "run_cmd (docker_rm dm ?n) w1 = (q, w2)" by (rule prod.exhaust)
  have q1: "quiet w1" and q2: "quiet w2"
    using run_cmd_quiet [OF assms(1), of "docker_stop dm ?n"] stop
      run_cmd_quiet [of w1 "docker_rm dm ?n"] rm by simp_all
  have ok: "r = Inr ()" "q = Inr ()" "w' = w2"
    using assms(2) stop rm
    by (auto simp: stop_by_name_def docker_Stop_def docker_Remove_def Let_def split: sum.splits)
  have "fst (run_cmd (docker_rm dm ?n) w1) = Inr ()"
    using rm ok by simp
  then obtain effs where "docker_rm dm ?n (fst (next_env w1) (dir w1)) = Inr effs"
    and "dir w2 = fold id effs (fst (next_env w1) (dir w1))"
    using rm by (elim run_cmd_landed) simp
  then have "dir w2 = remove_effect ?n (fst (next_env w1) (dir w1))"
    by (auto simp: docker_rm_def split: if_splits)
  then show "\<not> list_ex (refers ?n) (dh_containers (dir w'))" and "quiet w'"
    using ok q2 by (simp_all add: remove_effect_def list_ex_iff)
qed

lemma stop_by_name_missing:
  assumes "quiet w" and "\<not> list_ex (refers (name @ ''_replaced'')) (dh_containers (dir w))"
  shows "fst (stop_by_name dm True name w) \<noteq> []"
proof -
  have "\<exists>e. fst (run_cmd (docker_stop dm (name @ ''_replaced'')) w) = Inl e"
    using assms fst_next_env_quiet [OF assms(1)]
    by (simp add: run_cmd_def docker_stop_def Let_def split: answer.splits)
  then show ?thesis
    by (auto simp: stop_by_name_def docker_Stop_def Let_def split: prod.splits)
qed

text \<open>
  The name-derived cleanup of a same-version redeploy can never report success for an app
  without replicas: on a server nobody else touches, wherever the connection breaks, it reports
  at least one container as not retired, because it names the web container twice and the first
  round has removed it.
\<close>

theorem name_fallback_always_degraded:
  assumes "quiet w" and "CurrentHash current = version" and "version \<noteq> []"
    and "length (CurrentPorts current) \<le> 1"
  shows "fst (stopOldWorkloadsByName dm app version (Some current) processes w) \<noteq> []"
proof -
  let ?n = "ContainerName app ''web'' version"
  have "CurrentPorts current = [] \<or> length (CurrentPorts current) = 1"
    using assms(4) by (cases "CurrentPorts current") auto
  then obtain ns where names: "old_workload_names app current processes = ?n # ?n # ns"
    using assms(2) by (auto simp: old_workload_names_def ReplicaContainerName_def)
  obtain f w1 where first: "stop_by_name dm True ?n w = (f, w1)" by (rule prod.exhaust)
  have "f @ fst (stop_by_name dm True ?n w1) \<noteq> []"
  proof (cases "f = []")
    case True
    with first stop_by_name_gone [OF assms(1)] have "fst (stop_by_name dm True ?n w1) \<noteq> []"
      by (intro stop_by_name_missing) auto
    then show ?thesis by simp
  qed simp
  then show ?thesis
    using assms(2,3) by (auto simp: stopOldWorkloadsByName_def names first Let_def split_beta)
qed

theorem name_fallback_always_degraded_witness:
  "fst (stopOldWorkloadsByName (\<lambda>_ _. False) ''shop'' ''v1'' (Some (zero_state\<lparr>CurrentHash := ''v1''\<rparr>)) []
     \<lparr>dir = \<lparr>dh_containers = [demo_container ''a'' ''v1'' ''7''], dh_images = [], dh_lock = None\<rparr>, script = []\<rparr>)
     \<noteq> []"
  by (rule name_fallback_always_degraded) (simp_all add: quiet_def zero_state_def)

section \<open>What a prune leaves alone\<close>

lemma set_sorted_versions: "set (sorted_versions cs) = version_of ` {c \<in> set cs. versioned c}"
  by (auto simp: sorted_versions_def)

lemma distinct_sorted_versions [simp]: "distinct (sorted_versions cs)"
  by (simp add: sorted_versions_def)

lemma prunable_sound:
  assumes "v \<in> set (PrunableVersions cs keep protected)"
  shows "v \<notin> set protected" and "v \<notin> set (take (nat keep) (sorted_versions cs))"
    and "\<exists>c \<in> set cs. versioned c \<and> version_of c = v"
proof -
  from assms have v: "v \<in> set (drop (nat keep) (sorted_versions cs))"
    and p: "v \<notin> set (filter (\<lambda>p. p \<noteq> []) protected)"
    by (simp_all add: PrunableVersions_def)
  from v have "v \<in> set (sorted_versions cs)"
    by (rule in_set_dropD)
  then show "\<exists>c \<in> set cs. versioned c \<and> version_of c = v"
    by (auto simp: set_sorted_versions)
  then have "v \<noteq> []"
    by (auto simp: versioned_def version_of_def)
  with p show "v \<notin> set protected" by simp
  show "v \<notin> set (take (nat keep) (sorted_versions cs))"
    using v set_take_disj_set_drop_if_distinct [OF distinct_sorted_versions, of "nat keep" "nat keep" cs]
    by blast
qed

lemma remove_all_keeps:
  assumes "stable P w" and "P (dir w)" and "\<forall>n \<in> set ns. \<forall>d. P d \<longrightarrow> P (remove_effect n d)"
  shows "P (dir (snd (remove_all dm ns w))) \<and> stable P (snd (remove_all dm ns w))"
  using assms
proof (induction ns arbitrary: w)
  case (Cons n ns)
  obtain r w1 where run: "run_cmd (docker_rm_force dm n) w = (r, w1)" by (rule prod.exhaust)
  have "P (dir (snd (run_cmd (docker_rm_force dm n) w)))"
    using Cons.prems(1,2) by (rule run_cmd_invariant)
      (use Cons.prems(3) in \<open>auto simp: docker_rm_force_def split: if_splits\<close>)
  then have "P (dir w1)" and "stable P w1"
    using run run_cmd_stable [OF Cons.prems(1), of "docker_rm_force dm n"] by simp_all
  with Cons.IH [of w1] Cons.prems(3) run show ?case
    by (cases r) (simp_all add: split_beta)
qed simp

definition rmi_safe :: "daemon \<Rightarrow> (docker_host \<Rightarrow> bool) \<Rightarrow> bool" where
  "rmi_safe dm P \<longleftrightarrow>
     (\<forall>i d effs e d'. P d \<longrightarrow> docker_rmi dm i d = Inr effs \<longrightarrow> e \<in> set effs \<longrightarrow> P d' \<longrightarrow> P (e d'))"

lemma remove_images_keeps:
  assumes "stable P w" and "P (dir w)" and "rmi_safe dm P"
  shows "P (dir (remove_images dm is w)) \<and> stable P (remove_images dm is w)"
  using assms
proof (induction "is" arbitrary: w)
  case (Cons i "is")
  have "P (dir (snd (run_cmd (docker_rmi dm i) w)))"
    using Cons.prems(1,2)
    by (rule run_cmd_invariant) (use Cons.prems(3) in \<open>unfold rmi_safe_def, blast\<close>)
  with Cons.IH [of "snd (run_cmd (docker_rmi dm i) w)"] Cons.prems(1,3) show ?case
    by (simp add: run_cmd_stable)
qed simp

lemma prune_loop_keeps:
  assumes "stable P w" and "P (dir w)"
    and "\<forall>v \<in> set vs. \<forall>n \<in> set (fst (versionArtifacts cs v)). \<forall>d. P d \<longrightarrow> P (remove_effect n d)"
    and "rmi_safe dm P"
  shows "P (dir (snd (prune_loop dm cs vs w)))"
  using assms(1-3)
proof (induction vs arbitrary: w)
  case (Cons v vs)
  obtain failed w1 where rm: "remove_all dm (fst (versionArtifacts cs v)) w = (failed, w1)"
    by (rule prod.exhaust)
  have w1: "P (dir w1) \<and> stable P w1"
  proof -
    have "\<forall>n \<in> set (fst (versionArtifacts cs v)). \<forall>d. P d \<longrightarrow> P (remove_effect n d)"
      using Cons.prems(3) by simp
    from remove_all_keeps [OF Cons.prems(1,2) this, of dm] rm show ?thesis by simp
  qed
  let ?w2 = "remove_images dm (snd (versionArtifacts cs v)) w1"
  have "P (dir ?w2) \<and> stable P ?w2"
    using w1 assms(4) by (intro remove_images_keeps) simp_all
  then have "P (dir (snd (prune_loop dm cs vs ?w2)))"
    using Cons.IH [of ?w2] Cons.prems(3) by auto
  with rm show ?case
    by (simp add: Let_def split_beta)
qed simp

text \<open>A container with its image, and no other container under a reference of its own.\<close>

definition keeps_container :: "Container \<Rightarrow> docker_host \<Rightarrow> bool" where
  "keeps_container c d \<longleftrightarrow> c \<in> set (dh_containers d) \<and> ct_Image c \<in> set (dh_images d)"

lemma rmi_keeps_container: "rmi_safe dm (keeps_container c)"
  by (auto simp: rmi_safe_def keeps_container_def docker_rmi_def rmi_effect_def list_ex_iff
      split: if_splits)

lemma quiet_listing:
  assumes "quiet w" and "ListContainers app w = (Inr cs, w1)"
  shows "cs = ContainersByApp (dh_containers (dir w)) app" and "quiet w1" and "dir w1 = dir w"
  using assms run_read_Inr [of "\<lambda>d. ContainersByApp (dh_containers d) app" w cs]
    run_read_dir_quiet [OF assms(1), of "\<lambda>d. ContainersByApp (dh_containers d) app"]
    run_read_quiet [OF assms(1), of "\<lambda>d. ContainersByApp (dh_containers d) app"]
  by (auto simp: ListContainers_def)

text \<open>
  A container of another app, an accessory, a container without a version, and every container of
  a protected version or of one of the \<open>keep\<close> newest versions outlives a prune, with its image.
\<close>

lemma prune_keeps:
  assumes "quiet w" and "keeps_container c (dir w)"
    and "\<forall>b \<in> set (dh_containers (dir w)). refers (ct_Name b) c \<longrightarrow> b = c"
    and "label c ''teploy.app'' \<noteq> app \<or> \<not> versioned c \<or> version_of c \<in> set protected
       \<or> version_of c \<in> set (take (nat keep) (sorted_versions (ContainersByApp (dh_containers (dir w)) app)))"
  shows "keeps_container c (dir (snd (PruneVersions dm app keep protected w)))"
proof -
  obtain r w1 where ls: "ListContainers app w = (r, w1)" by (rule prod.exhaust)
  show ?thesis
  proof (cases r)
    case (Inl e)
    have "dir (snd (ListContainers app w)) = dir w"
      using run_read_dir_quiet [OF assms(1)] by (simp add: ListContainers_def)
    with Inl ls assms(2) show ?thesis
      by (simp add: PruneVersions_def)
  next
    case (Inr cs)
    note w1 = quiet_listing [OF assms(1) ls [unfolded Inr]]
    have "\<forall>v \<in> set (PrunableVersions cs keep protected). \<forall>n \<in> set (fst (versionArtifacts cs v)).
        \<forall>d. keeps_container c d \<longrightarrow> keeps_container c (remove_effect n d)"
    proof (intro ballI allI impI)
      fix v n d
      assume v: "v \<in> set (PrunableVersions cs keep protected)"
        and n: "n \<in> set (fst (versionArtifacts cs v))" and d: "keeps_container c d"
      from n obtain b where b: "b \<in> set cs" "n = ct_Name b" "version_of b = v" "\<not> is_accessory b"
        by (auto simp: versionArtifacts_def Let_def)
      have "v \<noteq> []"
        using prunable_sound(3) [OF v] by (auto simp: versioned_def version_of_def)
      with b(3,4) have "versioned b"
        by (simp add: versioned_def version_of_def)
      have "b \<noteq> c"
        using assms(4) b \<open>versioned b\<close> prunable_sound(1,2) [OF v] w1(1)
        by (auto simp: ContainersByApp_def)
      moreover have "b \<in> set (dh_containers (dir w))"
        using b(1) w1(1) by (simp add: ContainersByApp_def)
      ultimately have "\<not> refers n c"
        using assms(3) b(2) by blast
      with d show "keeps_container c (remove_effect n d)"
        by (simp add: keeps_container_def remove_effect_def)
    qed
    moreover have "stable (keeps_container c) w1" and "keeps_container c (dir w1)"
      using quiet_stable [OF w1(2)] w1(3) assms(2) by simp_all
    ultimately have "keeps_container c (dir (snd (prune_loop dm cs (PrunableVersions cs keep protected) w1)))"
      using prune_loop_keeps [OF _ _ _ rmi_keeps_container] by blast
    with ls Inr show ?thesis
      by (simp add: PruneVersions_def split_beta)
  qed
qed

text \<open>The versions kept are the newest: no version left out of the window is newer than one in it.\<close>

lemma window_newest:
  assumes "v \<in> set (take n (sorted_versions cs))" and "u \<in> set (drop n (sorted_versions cs))"
  shows "newest_created cs u \<le> newest_created cs v"
proof -
  let ?key = "\<lambda>v. (newest_created cs v, v)"
  let ?xs = "sort_key ?key (dedup (map version_of (filter versioned cs)))"
  have "sorted (map ?key ?xs)" by simp
  then have "sorted_wrt (\<lambda>a b. ?key a \<le> ?key b) ?xs"
    by (simp add: sorted_map)
  then have "sorted_wrt (\<lambda>a b. ?key b \<le> ?key a) (sorted_versions cs)"
    by (simp add: sorted_versions_def sorted_wrt_rev)
  then have "sorted_wrt (\<lambda>a b. ?key b \<le> ?key a) (take n (sorted_versions cs) @ drop n (sorted_versions cs))"
    by simp
  then have "?key u \<le> ?key v"
    using assms unfolding sorted_wrt_append by blast
  then show ?thesis by (auto simp: less_eq_prod_def)
qed

lemma retentionProtected_set:
  "set (retentionProtected st pins cs) =
     {CurrentHash st, PreviousHash st} \<union> set pins \<union> {version_of c |c. c \<in> set cs \<and> running c \<and> version_of c \<noteq> []}"
proof -
  have "set (foldl (\<lambda>protected c. if version_of c \<noteq> [] \<and> running c \<and> version_of c \<notin> set protected
            then protected @ [version_of c] else protected) acc cs) =
        set acc \<union> {version_of c |c. c \<in> set cs \<and> running c \<and> version_of c \<noteq> []}" for acc
    by (induction cs arbitrary: acc) auto
  then show ?thesis by (auto simp: retentionProtected_def)
qed

lemma releases_prune_keeps:
  assumes "quiet w" and "keeps_container c (dir w)"
    and "\<forall>b \<in> set (dh_containers (dir w)). refers (ct_Name b) c \<longrightarrow> b = c"
    and "version_of c \<in> {CurrentHash s, PreviousHash s} \<union> set ps \<or> running c"
  shows "keeps_container c (dir (snd (executeReleasesPrune dm app keep exists locked (Inr (Some s)) (Inr ps) w)))"
proof -
  obtain r w1 where ls: "ListContainers app w = (r, w1)" by (rule prod.exhaust)
  show ?thesis
  proof (cases r)
    case (Inl e)
    have "dir (snd (ListContainers app w)) = dir w"
      using run_read_dir_quiet [OF assms(1)] by (simp add: ListContainers_def)
    with Inl ls assms(2) show ?thesis
      by (simp add: executeReleasesPrune_def)
  next
    case (Inr cs)
    note w1 = quiet_listing [OF assms(1) ls [unfolded Inr]]
    let ?p = "filter (\<lambda>v. v \<noteq> []) (retentionProtected s ps cs)"
    have "label c ''teploy.app'' \<noteq> app \<or> \<not> versioned c \<or> version_of c \<in> set ?p"
      using assms(2,4) w1(1)
      by (auto simp: retentionProtected_set versioned_def version_of_def ContainersByApp_def keeps_container_def)
    then have "keeps_container c (dir (snd (PruneVersions dm app keep ?p w1)))"
      using w1 assms(2,3) by (intro prune_keeps) auto
    with ls Inr w1 assms(2) show ?thesis
      by (auto simp: executeReleasesPrune_def Let_def split: prod.splits sum.splits)
  qed
qed

lemma deploy_prune_world:
  "snd (deploy_prune dm app kv fenceOK version prevHash pins due w) = w
   \<or> (\<exists>ps k. pins = Inr ps
        \<and> snd (deploy_prune dm app kv fenceOK version prevHash pins due w)
            = snd (PruneVersions dm app k ([version, prevHash] @ ps) w))"
proof (cases pins)
  case (Inr ps)
  let ?k = "fst (EffectiveKeepVersions kv)"
  have "snd (deploy_prune dm app kv fenceOK version prevHash pins due w)
      \<in> {w, snd (PruneVersions dm app ?k ([version, prevHash] @ ps) w)}"
    by (cases "fst (PruneVersions dm app ?k ([version, prevHash] @ ps) w)")
      (simp_all add: deploy_prune_def Inr Let_def split_beta)
  with Inr show ?thesis by blast
qed (simp add: deploy_prune_def split_beta)

text \<open>
  C27. No prune takes a rollback target.  On a server nobody else touches, wherever the connection
  breaks and whatever the daemon refuses, a container (whose references no other container's name
  shares) and its image are still there after the prune of a deploy if its version is the one just
  deployed, its predecessor or pinned, or if the pins could not be read; and after
  \<open>releases prune\<close>, whatever \<open>--keep\<close> says, if its version is current, previous or pinned, or if it
  is running.
\<close>

theorem prune_spares_rollback_targets:
  assumes "quiet w" and "keeps_container c (dir w)"
    and "\<forall>b \<in> set (dh_containers (dir w)). refers (ct_Name b) c \<longrightarrow> b = c"
  shows "(version_of c \<in> {version, prevHash} \<or> (case pins of Inl _ \<Rightarrow> True | Inr ps \<Rightarrow> version_of c \<in> set ps) \<longrightarrow>
      keeps_container c (dir (snd (deploy_prune dm app keepVersions fenceOK version prevHash pins due w))))
    \<and> (version_of c \<in> {CurrentHash s, PreviousHash s} \<union> set ps \<or> running c \<longrightarrow>
      keeps_container c (dir (snd (executeReleasesPrune dm app keep exists locked (Inr (Some s)) (Inr ps) w))))"
proof
  show "version_of c \<in> {CurrentHash s, PreviousHash s} \<union> set ps \<or> running c \<longrightarrow>
      keeps_container c (dir (snd (executeReleasesPrune dm app keep exists locked (Inr (Some s)) (Inr ps) w)))"
    using releases_prune_keeps [OF assms] by blast
  have "keeps_container c (dir (snd (PruneVersions dm app k ([version, prevHash] @ ps) w)))"
    if "version_of c \<in> {version, prevHash} \<or> version_of c \<in> set ps" for k ps
    using that by (intro prune_keeps assms) auto
  then show "version_of c \<in> {version, prevHash} \<or> (case pins of Inl _ \<Rightarrow> True | Inr ps \<Rightarrow> version_of c \<in> set ps) \<longrightarrow>
      keeps_container c (dir (snd (deploy_prune dm app keepVersions fenceOK version prevHash pins due w)))"
    using assms(2) deploy_prune_world [of dm app keepVersions fenceOK version prevHash pins due w]
    by fastforce
qed

theorem prune_spares_rollback_targets_witness:
  "keeps_container (demo_container ''a'' ''v1'' ''7'')
     (dir (snd (deploy_prune (\<lambda>_ _. False) ''shop'' (Some 1) True ''v3'' ''v1'' (Inr [])  (\<lambda>_. True)
        \<lparr>dir = \<lparr>dh_containers = [demo_container ''a'' ''v1'' ''7'', demo_container ''b'' ''v3'' ''8''],
           dh_images = [''shop:v1'', ''shop:v3''], dh_lock = None\<rparr>, script = []\<rparr>)))"
  by (rule prune_spares_rollback_targets [THEN conjunct1, rule_format])
    (auto simp: quiet_def keeps_container_def demo_container_def refers_def ContainerName_def
      version_of_def label_def)

end
