(* ===== verification/Caddyfile.thy ===== *)
theory Caddyfile
  imports Prelude "HOL-Library.Word"
begin

text \<open>
  The front proxy's shared Caddyfile as text: marker lines and managed regions
  (\<open>internal/caddy/caddy.go\<close>: \<open>beginMarkerApp\<close>, \<open>endMarkerApp\<close>, \<open>extractManagedRegion\<close>,
  \<open>extractCaddyfileBlock\<close>, \<open>removeCaddyfileBlock\<close>, \<open>renderUpdated\<close>), the structural parser that
  adopts hand-written site blocks and lifts a site's policy (\<open>internal/caddy/routes.go\<close>), and the
  webhook fragment kept inside a managed region (\<open>internal/caddy/webhook.go\<close>).  A loop of the
  source over the lines of the file is a recursive function over the list of lines, with the
  loop's variables as arguments.  The proofs are in \<open>CaddyfileLaws\<close>.
\<close>

section \<open>Errors\<close>

datatype caddy_error =
    InvalidAppName string
  | NestedBegin string string
  | DuplicateBlock string
  | UnmatchedEnd string
  | UnterminatedBlock string
  | UnterminatedQuote
  | AtLine nat caddy_error
  | TopLevelImport string
  | UnrecognizedTopLevel string
  | UnbalancedClose nat
  | UnbalancedOpen
  | NotASiteBlock string
  | NoOpeningLine
  | DuplicateTLS
  | UnbalancedSpan string
  | UnbalancedSite
  | Structuring caddy_error
  | InvalidDomain string
  | EmptyDomain
  | InvalidHealthPath string
  | NoRedirectDomains
  | EmptyStash string
  | WebhookUnplaced string caddy_error

section \<open>Marker lines\<close>

definition markerBeginPrefix :: string where
  "markerBeginPrefix = ''# TEPLOY BEGIN ''"

definition markerEndPrefix :: string where
  "markerEndPrefix = ''# TEPLOY END ''"

definition marker_begin :: "string \<Rightarrow> string" where
  "marker_begin app = markerBeginPrefix @ app"

definition marker_end :: "string \<Rightarrow> string" where
  "marker_end app = markerEndPrefix @ app"

definition lower_alnum :: "char \<Rightarrow> bool" where
  "lower_alnum c \<longleftrightarrow> is_digit c \<or> (97 \<le> (of_char c :: nat) \<and> (of_char c :: nat) \<le> 122)"

text \<open>\<open>^[a-z0-9][a-z0-9-]*[a-z0-9]$|^[a-z0-9]$\<close>\<close>

definition markerName :: "string \<Rightarrow> bool" where
  "markerName s \<longleftrightarrow> s \<noteq> [] \<and> list_all (\<lambda>c. lower_alnum c \<or> c = CHR ''-'') s
     \<and> lower_alnum (hd s) \<and> lower_alnum (last s)"

definition marker_app :: "string \<Rightarrow> string \<Rightarrow> string option" where
  "marker_app pre line =
     (let t = trim_space (trim_suffix [CHR 0x0D] line)
      in if prefix pre t then
           (let name = trim_space (trim_prefix pre t)
            in if markerName name then Some name else None)
         else None)"

definition beginMarkerApp :: "string \<Rightarrow> string option" where
  "beginMarkerApp line = marker_app markerBeginPrefix line"

definition endMarkerApp :: "string \<Rightarrow> string option" where
  "endMarkerApp line = marker_app markerEndPrefix line"

definition block_target :: "string \<Rightarrow> string" where
  "block_target b = trim_space (trim_prefix markerBeginPrefix b)"

section \<open>Reading a managed region\<close>

text \<open>The region with its marker lines: the identity of the exact-block compare-and-swap.\<close>

fun region_loop :: "string \<Rightarrow> bool \<Rightarrow> string list \<Rightarrow> string list \<Rightarrow> string" where
  "region_loop app active out [] = []"
| "region_loop app active out (line # ls) =
     (case beginMarkerApp line of
        Some name \<Rightarrow>
          if name = app then region_loop app True (out @ [line]) ls
          else region_loop app active out ls
      | None \<Rightarrow>
          (case endMarkerApp line of
             Some name \<Rightarrow>
               if active \<and> name = app then unlines (out @ [line])
               else region_loop app active out ls
           | None \<Rightarrow> region_loop app active (if active then out @ [line] else out) ls))"

definition extractManagedRegion :: "string \<Rightarrow> string \<Rightarrow> string" where
  "extractManagedRegion content app = region_loop app False [] (lines_of content)"

text \<open>\<open>sha\<close> is the hexadecimal SHA-256 digest of a byte string.\<close>

definition region_payload :: "string \<Rightarrow> string" where
  "region_payload region = (if region \<noteq> [] then region @ [newline] else region)"

definition ManagedRegionHash :: "(string \<Rightarrow> string) \<Rightarrow> string \<Rightarrow> string" where
  "ManagedRegionHash sha region = sha (region_payload region)"

definition stamp_prefix :: string where
  "stamp_prefix = ''# TEPLOY GENERATION ''"

definition generation_stamp :: "nat \<Rightarrow> string" where
  "generation_stamp g = stamp_prefix @ nat_to_string g"

fun generation_loop :: "string list \<Rightarrow> nat option" where
  "generation_loop [] = None"
| "generation_loop (line # ls) =
     (let t = trim_space line
      in if prefix stamp_prefix t then
           (case parse_nat (trim_space (trim_prefix stamp_prefix t)) of
              Some n \<Rightarrow> if int n < 2 ^ 64 then Some n else None
            | None \<Rightarrow> None)
         else generation_loop ls)"

text \<open>The generation is an unsigned 64-bit number; \<open>None\<close> is \<open>ok = false\<close>.\<close>

definition RegionGeneration :: "string \<Rightarrow> nat option" where
  "RegionGeneration region = generation_loop (lines_of region)"

definition before_char :: "char \<Rightarrow> string \<Rightarrow> string" where
  "before_char c s = takeWhile (\<lambda>x. x \<noteq> c) s"

definition is_dial :: "string \<Rightarrow> bool" where
  "is_dial tok \<longleftrightarrow>
     (let i = length (before_char (CHR '':'') tok)
      in 0 < i \<and> i < length tok \<and> snd (atoi (drop (i + 1) tok)))"

definition line_upstreams :: "string \<Rightarrow> string list" where
  "line_upstreams line =
     (let code = before_char (CHR ''#'') line
      in if contains_str ''reverse_proxy'' code then
           filter is_dial
             (filter (\<lambda>tok. tok \<noteq> ''reverse_proxy'' \<and> tok \<noteq> ''{'') (fields_of code))
         else [])"

definition RegionUpstreams :: "string \<Rightarrow> string list" where
  "RegionUpstreams region = concat (map line_upstreams (lines_of region))"

text \<open>The content between the markers, trimmed of blank lines at both ends.\<close>

definition trim_nl_both :: "string \<Rightarrow> string" where
  "trim_nl_both s = trim_newlines (trim_left (\<lambda>c. c = newline) s)"

fun block_loop :: "string \<Rightarrow> bool \<Rightarrow> string list \<Rightarrow> string list \<Rightarrow> string" where
  "block_loop target active out [] = []"
| "block_loop target active out (line # ls) =
     (case beginMarkerApp line of
        Some name \<Rightarrow> block_loop target (active \<or> name = target) out ls
      | None \<Rightarrow>
          (case endMarkerApp line of
             Some name \<Rightarrow>
               if active \<and> name = target then trim_nl_both (unlines out)
               else block_loop target active out ls
           | None \<Rightarrow> block_loop target active (if active then out @ [line] else out) ls))"

definition extractCaddyfileBlock :: "string \<Rightarrow> string \<Rightarrow> string" where
  "extractCaddyfileBlock content b = block_loop (block_target b) False [] (lines_of content)"

section \<open>Removing a managed region\<close>

text \<open>\<open>strings.ReplaceAll\<close> for a non-empty pattern.\<close>

function replace_all :: "string \<Rightarrow> string \<Rightarrow> string \<Rightarrow> string" where
  "replace_all old new s =
     (if old \<noteq> [] \<and> prefix old s then new @ replace_all old new (drop (length old) s)
      else (case s of [] \<Rightarrow> [] | c # cs \<Rightarrow> c # replace_all old new cs))"
  by pat_completeness auto
termination
  by (relation "measure (\<lambda>(old, new, s). length s)") (auto simp: prefix_def)

declare replace_all.simps [simp del]

abbreviation nl2 :: string where "nl2 \<equiv> [newline, newline]"
abbreviation nl3 :: string where "nl3 \<equiv> [newline, newline, newline]"

lemma replace_all_length:
  assumes "length new \<le> length old"
  shows "length (replace_all old new s) \<le> length s"
  using assms
proof (induction old new s rule: replace_all.induct)
  case (1 old new s)
  show ?case
  proof (cases "old \<noteq> [] \<and> prefix old s")
    case True
    then have "length (replace_all old new (drop (length old) s)) \<le> length s - length old"
      using 1 by simp
    moreover have "length old \<le> length s"
      using True by (auto simp: prefix_def)
    ultimately show ?thesis
      using True 1(3) by (subst replace_all.simps) simp
  next
    case False
    show ?thesis
    proof (cases s)
      case (Cons c cs)
      have "length (replace_all old new cs) \<le> length cs"
        using 1(2) [OF False Cons 1(3)] by simp
      then show ?thesis
        using False by (subst replace_all.simps) (auto simp: Cons)
    qed (subst replace_all.simps, use False in simp)
  qed
qed

lemma replace_all_shrinks:
  assumes "length new < length old" and "contains_str old s"
  shows "length (replace_all old new s) < length s"
  using assms
proof (induction s)
  case Nil
  then show ?case by simp
next
  case (Cons c cs)
  show ?case
  proof (cases "prefix old (c # cs)")
    case True
    then have len: "length old \<le> Suc (length cs)"
      by (auto dest: prefix_length_le)
    have "length (replace_all old new (drop (length old) (c # cs))) \<le> Suc (length cs) - length old"
      using replace_all_length [of new old "drop (length old) (c # cs)"] Cons.prems(1) by simp
    moreover have "old \<noteq> []"
      using Cons.prems(1) by auto
    ultimately show ?thesis
      using True Cons.prems(1) len by (subst replace_all.simps) simp
  next
    case False
    then show ?thesis
      using Cons by (subst replace_all.simps) simp
  qed
qed

text \<open>The loop that collapses runs of blank lines until none is left.\<close>

function collapse_blank :: "string \<Rightarrow> string" where
  "collapse_blank s = (if contains_str nl3 s then collapse_blank (replace_all nl3 nl2 s) else s)"
  by pat_completeness auto
termination
  by (relation "measure length") (auto intro: replace_all_shrinks [simplified])

declare collapse_blank.simps [simp del]

fun remove_loop ::
  "string \<Rightarrow> bool \<Rightarrow> bool \<Rightarrow> string list \<Rightarrow> string list \<Rightarrow> (caddy_error, bool \<times> bool \<times> string list) result"
where
  "remove_loop target active removed out [] = Inr (active, removed, out)"
| "remove_loop target active removed out (line # ls) =
     (case beginMarkerApp line of
        Some name \<Rightarrow>
          if active then Inl (NestedBegin name target)
          else if name = target then
            (if removed then Inl (DuplicateBlock target)
             else remove_loop target True True out ls)
          else remove_loop target active removed (out @ [line]) ls
      | None \<Rightarrow>
          (case endMarkerApp line of
             Some name \<Rightarrow>
               if active \<and> name = target then remove_loop target False removed out ls
               else if \<not> active \<and> name = target then Inl (UnmatchedEnd target)
               else remove_loop target active removed (out @ [line]) ls
           | None \<Rightarrow>
               remove_loop target active removed (if active then out else out @ [line]) ls))"

definition removeCaddyfileBlock :: "string \<Rightarrow> string \<Rightarrow> (caddy_error, string) result" where
  "removeCaddyfileBlock content b =
     (let target = block_target b
      in if \<not> markerName target then Inl (InvalidAppName target)
         else bind_result (remove_loop target False False [] (lines_of content))
           (\<lambda>(active, removed, out).
              if active then Inl (UnterminatedBlock target)
              else let res = unlines out
                   in Inr (if removed then
                             (let res = trim_newlines (collapse_blank res) @ [newline]
                              in if res = [newline] then [] else res)
                           else res)))"

section \<open>Site addresses\<close>

definition split_addresses :: "string \<Rightarrow> string list" where
  "split_addresses s = filter (\<lambda>a. a \<noteq> []) (map trim_space (split_on (CHR '','') s))"

definition splitAddressLine :: "string \<Rightarrow> string list" where
  "splitAddressLine addr = split_addresses addr"

definition address_host :: "string \<Rightarrow> string" where
  "address_host a =
     takeWhile (\<lambda>c. c \<noteq> CHR 0x20 \<and> c \<noteq> CHR 0x09)
       (trim_prefix ''http://'' (trim_prefix ''https://'' a))"

definition addressHosts :: "string list \<Rightarrow> string list" where
  "addressHosts addrs = map address_host addrs"

definition hostsWithin :: "string list \<Rightarrow> string list \<Rightarrow> bool" where
  "hostsWithin ah hosts \<longleftrightarrow> ah \<noteq> [] \<and> list_all (\<lambda>a. a \<in> set hosts) ah"

definition addressWithinHosts :: "string \<Rightarrow> string list \<Rightarrow> bool" where
  "addressWithinHosts addr hosts \<longleftrightarrow>
     (let as = map (\<lambda>a. address_host (trim_space a)) (split_on (CHR '','') addr)
      in as \<noteq> [] \<and> list_all (\<lambda>a. a \<in> set hosts) as)"

fun hosts_loop :: "string list \<Rightarrow> string list" where
  "hosts_loop [] = []"
| "hosts_loop (l # ls) =
     (let line = trim_space l
      in if line = [] \<or> prefix stamp_prefix line then hosts_loop ls
         else split_addresses (trim_space (trim_suffix ''{'' line)))"

definition managedBlockHosts :: "string \<Rightarrow> string \<Rightarrow> string list" where
  "managedBlockHosts content app =
     hosts_loop (lines_of (extractCaddyfileBlock content (marker_begin app)))"

definition bad_domain_char :: "char \<Rightarrow> bool" where
  "bad_domain_char c \<longleftrightarrow> c \<in> {CHR 0x20, CHR 0x09, CHR 0x0D, CHR 0x0A, CHR ''{'', CHR ''}'',
     CHR ''#'', CHR 0x22, CHR 0x5C}"

fun parse_domain_parts :: "string list \<Rightarrow> (caddy_error, string list) result" where
  "parse_domain_parts [] = Inr []"
| "parse_domain_parts (p # ps) =
     (let h = trim_space p
      in if h = [] then parse_domain_parts ps
         else if list_ex bad_domain_char h then Inl (InvalidDomain h)
         else bind_result (parse_domain_parts ps) (\<lambda>hs. Inr (h # hs)))"

definition parseDomains :: "string \<Rightarrow> (caddy_error, string list) result" where
  "parseDomains domain = parse_domain_parts (split_on (CHR '','') domain)"

section \<open>The structural parser\<close>

record SiteBlock =
  sb_Addresses :: "string list"
  sb_Lines :: "string list"

definition backtick :: char where
  "backtick = CHR 0x60"

definition oddBackticks :: "string \<Rightarrow> bool" where
  "oddBackticks line \<longleftrightarrow> odd (length (filter (\<lambda>c. c = backtick) line))"

text \<open>Physical lines are merged while a backtick literal is open.\<close>

fun logical_loop :: "string list \<Rightarrow> bool \<Rightarrow> string list \<Rightarrow> string list" where
  "logical_loop buf opened [] = (if buf = [] then [] else [unlines buf])"
| "logical_loop buf opened (l # ls) =
     (if opened then
        (if oddBackticks l then unlines (buf @ [l]) # logical_loop [] False ls
         else logical_loop (buf @ [l]) True ls)
      else if oddBackticks l then logical_loop [l] True ls
      else l # logical_loop buf False ls)"

definition logicalLines :: "string list \<Rightarrow> string list" where
  "logicalLines ls = logical_loop [] False ls"

definition is_quote :: "char \<Rightarrow> bool" where
  "is_quote c \<longleftrightarrow> c = CHR 0x27 \<or> c = CHR 0x22 \<or> c = backtick"

text \<open>The text before an unquoted \<open>#\<close>.\<close>

fun code_loop :: "char option \<Rightarrow> string \<Rightarrow> string \<Rightarrow> (caddy_error, string) result" where
  "code_loop (Some q) acc [] = Inl UnterminatedQuote"
| "code_loop None acc [] = Inr acc"
| "code_loop (Some q) acc (c # cs) = code_loop (if c = q then None else Some q) (acc @ [c]) cs"
| "code_loop None acc (c # cs) =
     (if is_quote c then code_loop (Some c) (acc @ [c]) cs
      else if c = CHR 0x5C then
        (case cs of [] \<Rightarrow> Inr (acc @ [c]) | d # ds \<Rightarrow> code_loop None (acc @ [c, d]) ds)
      else if c = CHR ''#'' then Inr acc
      else code_loop None (acc @ [c]) cs)"

definition codeLine :: "string \<Rightarrow> (caddy_error, string) result" where
  "codeLine raw = code_loop None [] raw"

fun brace_loop :: "char option \<Rightarrow> string \<Rightarrow> int" where
  "brace_loop q [] = 0"
| "brace_loop (Some q) (c # cs) = brace_loop (if c = q then None else Some q) cs"
| "brace_loop None (c # cs) =
     (if is_quote c then brace_loop (Some c) cs
      else if c = CHR 0x5C then (case cs of [] \<Rightarrow> 0 | d # ds \<Rightarrow> brace_loop None ds)
      else if c = CHR ''{'' then 1 + brace_loop None cs
      else if c = CHR ''}'' then brace_loop None cs - 1
      else brace_loop None cs)"

definition braceNet :: "string \<Rightarrow> int" where
  "braceNet code = brace_loop None code"

definition heredocTerminator :: "string \<Rightarrow> string option" where
  "heredocTerminator code =
     (let fs = fields_of code
      in if fs = [] then None
         else if prefix ''<<'' (List.last fs) \<and> length (List.last fs) \<noteq> 2
              then Some (drop 2 (List.last fs)) else None)"

text \<open>The lines after a heredoc's terminator; its body is skipped.\<close>

fun skip_heredoc :: "string \<Rightarrow> string list \<Rightarrow> string list" where
  "skip_heredoc term [] = []"
| "skip_heredoc term (l # ls) = (if trim_space l = term then ls else skip_heredoc term ls)"

lemma skip_heredoc_length [termination_simp]: "length (skip_heredoc t ls) \<le> length ls"
  by (induction ls) auto

definition is_import :: "string \<Rightarrow> bool" where
  "is_import t \<longleftrightarrow> prefix ''import'' t \<and> (length t = 6 \<or> t ! 6 = CHR '' '')"

fun parse_loop ::
  "nat \<Rightarrow> int \<Rightarrow> SiteBlock option \<Rightarrow> SiteBlock list \<Rightarrow> string list
     \<Rightarrow> (caddy_error, SiteBlock list) result"
where
  "parse_loop n_all depth cur blocks [] =
     (if depth \<noteq> 0 then Inl UnbalancedOpen else Inr blocks)"
| "parse_loop n_all depth cur blocks (raw # ls) =
     (let i = n_all - length (raw # ls)
      in case codeLine raw of
           Inl e \<Rightarrow> Inl (AtLine (i + 1) e)
         | Inr code \<Rightarrow>
             let keep = map_option (\<lambda>b. b\<lparr>sb_Lines := sb_Lines b @ [raw]\<rparr>) cur;
                 trimmed = trim_space code;
                 net = braceNet code
             in (case heredocTerminator code of
                   Some t \<Rightarrow> parse_loop n_all depth keep blocks (skip_heredoc t ls)
                 | None \<Rightarrow>
                     if depth = 0 then
                       (if trimmed = [] \<or> prefix ''#'' trimmed then
                          parse_loop n_all depth cur blocks ls
                        else if is_import trimmed then Inl (TopLevelImport trimmed)
                        else if trimmed = ''{'' \<or> prefix ''('' trimmed then
                          parse_loop n_all net cur blocks ls
                        else if \<not> suffix ''{'' trimmed \<or> net \<le> 0 then
                          Inl (UnrecognizedTopLevel trimmed)
                        else
                          parse_loop n_all net
                            (Some \<lparr>sb_Addresses =
                                     splitAddressLine (trim_space (trim_suffix ''{'' trimmed)),
                                   sb_Lines = [raw]\<rparr>) blocks ls)
                     else
                       (if depth + net = 0 then
                          parse_loop n_all 0 None
                            (case keep of Some b \<Rightarrow> blocks @ [b] | None \<Rightarrow> blocks) ls
                        else if depth + net < 0 then Inl (UnbalancedClose (i + 1))
                        else parse_loop n_all (depth + net) keep blocks ls)))"

definition ParseSites :: "string \<Rightarrow> (caddy_error, SiteBlock list) result" where
  "ParseSites content =
     (let ls = logicalLines (lines_of content) in parse_loop (length ls) 0 None [] ls)"

section \<open>Adopting hand-written blocks\<close>

text \<open>The parse view: the lines of managed regions are blanked.\<close>

fun view_loop :: "bool \<Rightarrow> string list \<Rightarrow> string list" where
  "view_loop managed [] = []"
| "view_loop managed (l # ls) =
     (let t = trim_space l;
          managed' = (if prefix markerBeginPrefix t then True
                      else if prefix markerEndPrefix t then False else managed)
      in (if managed' \<and> \<not> prefix markerBeginPrefix t then [] else l) # view_loop managed' ls)"

definition leadingWhitespace :: "string \<Rightarrow> string" where
  "leadingWhitespace s = takeWhile (\<lambda>c. c = CHR 0x20 \<or> c = CHR 0x09) s"

text \<open>An edit drops a block (no new address line) or rewrites its address line.\<close>

definition block_edit :: "string list \<Rightarrow> SiteBlock \<Rightarrow> (string option \<times> SiteBlock) option" where
  "block_edit hosts b =
     (let ah = addressHosts (sb_Addresses b)
      in if hostsWithin ah hosts then Some (None, b)
         else
           (let kept = filter (\<lambda>a. address_host a \<notin> set hosts) (sb_Addresses b)
            in if \<not> list_ex (\<lambda>a. a \<in> set hosts) ah then None
               else if kept = [] then Some (None, b)
               else Some (Some (leadingWhitespace (hd (sb_Lines b)) @ join_with '', '' kept @ '' {''), b)))"

definition foreign_edits ::
  "string \<Rightarrow> string list \<Rightarrow> (caddy_error, (string option \<times> SiteBlock) list) result" where
  "foreign_edits content hosts =
     (case ParseSites (unlines (view_loop False (lines_of content))) of
        Inl e \<Rightarrow> Inl (Structuring e)
      | Inr blocks \<Rightarrow> Inr (List.map_filter (block_edit hosts) blocks))"

type_synonym line_edits = "(string \<times> string option) list"

fun edit_keys :: "(string option \<times> SiteBlock) list \<Rightarrow> (caddy_error, line_edits) result" where
  "edit_keys [] = Inr []"
| "edit_keys ((f, b) # es) =
     (case codeLine (hd (sb_Lines b)) of
        Inl e \<Rightarrow> Inl (Structuring e)
      | Inr key \<Rightarrow> bind_result (edit_keys es) (\<lambda>ks. Inr ((key, f) # ks)))"

definition dropped :: "line_edits \<Rightarrow> string \<Rightarrow> bool" where
  "dropped keys code \<longleftrightarrow> (code, None) \<in> set keys"

definition rewritten :: "line_edits \<Rightarrow> string \<Rightarrow> string option" where
  "rewritten keys code =
     (case filter (\<lambda>(k, f). k = code \<and> f \<noteq> None) (rev keys) of [] \<Rightarrow> None | kf # _ \<Rightarrow> snd kf)"

fun apply_loop ::
  "line_edits \<Rightarrow> bool \<Rightarrow> int \<Rightarrow> string list \<Rightarrow> (caddy_error, string list) result" where
  "apply_loop keys skipping depth [] = Inr []"
| "apply_loop keys skipping depth (raw # ls) =
     (case codeLine raw of
        Inl e \<Rightarrow> Inl (Structuring e)
      | Inr code \<Rightarrow>
          let net = braceNet code
          in if skipping then apply_loop keys (0 < depth + net) (depth + net) ls
             else if dropped keys code \<and> 0 < net then apply_loop keys True net ls
             else bind_result (apply_loop keys False depth ls)
                    (\<lambda>rest. Inr ((case rewritten keys code of Some r \<Rightarrow> r | None \<Rightarrow> raw) # rest)))"

definition adoptForeignBlocks :: "string \<Rightarrow> string list \<Rightarrow> (caddy_error, string) result" where
  "adoptForeignBlocks content hosts =
     bind_result (foreign_edits content hosts)
       (\<lambda>edits.
          if edits = [] then Inr content
          else bind_result (edit_keys edits)
                 (\<lambda>keys. bind_result (apply_loop keys False 0 (logicalLines (lines_of content)))
                    (\<lambda>out. Inr (collapse_blank (unlines out)))))"

section \<open>One edit of the file\<close>

definition wrap_block :: "string \<Rightarrow> string \<Rightarrow> string" where
  "wrap_block app block =
     marker_begin app @ [newline] @ trim_newlines block @ [newline] @ marker_end app"

definition append_block :: "string \<Rightarrow> string \<Rightarrow> string \<Rightarrow> string" where
  "append_block content app block =
     trim_newlines content @ nl2 @ wrap_block app block @ [newline]"

definition remove_legacy ::
  "string \<Rightarrow> string \<Rightarrow> string list \<Rightarrow> string \<Rightarrow> (caddy_error, string) result" where
  "remove_legacy prev app hosts updated =
     (let legacy = managedBlockHosts prev (''lb-'' @ app);
          ref = (if hosts = [] then managedBlockHosts prev app else hosts)
      in if legacy \<noteq> [] \<and> addressWithinHosts (join_with '', '' legacy) ref
         then removeCaddyfileBlock updated (marker_begin (''lb-'' @ app))
         else Inr updated)"

definition renderUpdated ::
  "string \<Rightarrow> string \<Rightarrow> string list \<Rightarrow> string \<Rightarrow> (caddy_error, string) result" where
  "renderUpdated prev app hosts block =
     bind_result (removeCaddyfileBlock prev (marker_begin app))
       (\<lambda>u1. bind_result (remove_legacy prev app hosts u1)
         (\<lambda>u2. bind_result (if hosts \<noteq> [] then adoptForeignBlocks u2 hosts else Inr u2)
           (\<lambda>u3. Inr (if block \<noteq> [] then append_block u3 app block
                      else trim_newlines u3 @ [newline]))))"

definition redirect_block :: "string list \<Rightarrow> string \<Rightarrow> string" where
  "redirect_block hosts target =
     join_with '', '' hosts @ '' {'' @ [newline, CHR 0x09] @ ''redir '' @ target @ '' permanent''
       @ [newline] @ ''}''"

text \<open>The edit \<open>AppendRedirect\<close> passes to the transaction.\<close>

definition append_redirect ::
  "string \<Rightarrow> string list \<Rightarrow> string \<Rightarrow> string \<Rightarrow> (caddy_error, string) result" where
  "append_redirect app hosts target prev =
     (if hosts = [] then Inl NoRedirectDomains
      else bind_result (renderUpdated prev app hosts [])
        (\<lambda>u. Inr (trim_newlines u @ nl2 @ redirect_block hosts target @ [newline])))"

section \<open>The policy of a site block\<close>

record SitePolicy =
  sp_TLS :: string
  sp_Access :: "string list"

definition no_policy :: SitePolicy where
  "no_policy = \<lparr>sp_TLS = [], sp_Access = []\<rparr>"

fun opening_loop :: "nat \<Rightarrow> string list \<Rightarrow> (caddy_error, nat) result" where
  "opening_loop i [] = Inl NoOpeningLine"
| "opening_loop i (line # ls) =
     (let t = trim_space line
      in if t = [] \<or> prefix ''#'' t then opening_loop (i + 1) ls
         else if suffix ''{'' t \<and> 0 < braceNet line then Inr i
         else Inl (NotASiteBlock line))"

definition siteOpeningLine :: "string list \<Rightarrow> (caddy_error, nat) result" where
  "siteOpeningLine ls = opening_loop 0 ls"

definition directive_is :: "string \<Rightarrow> string \<Rightarrow> bool" where
  "directive_is name t \<longleftrightarrow> t = name \<or> prefix (name @ '' '') t"

text \<open>The lines of an access directive's nested span, and what follows it.\<close>

fun span_loop ::
  "string list \<Rightarrow> int \<Rightarrow> string list \<Rightarrow> (caddy_error, string list \<times> int \<times> string list) result"
where
  "span_loop span net [] = Inr (span, net, [])"
| "span_loop span net (l # ls) =
     (if 0 < net then
        (case codeLine l of
           Inl e \<Rightarrow> Inl e
         | Inr code \<Rightarrow> span_loop (span @ [l]) (net + braceNet code) ls)
      else Inr (span, net, l # ls))"

lemma span_loop_length [termination_simp]:
  "span_loop sp n ls = Inr (sp', n', rest) \<Longrightarrow> length rest \<le> length ls"
  by (induction sp n ls rule: span_loop.induct) (auto split: if_splits sum.splits)

function (sequential) policy_loop ::
  "SitePolicy \<Rightarrow> int \<Rightarrow> string list \<Rightarrow> (caddy_error, SitePolicy) result" where
  "policy_loop pol depth [] = Inl UnbalancedSite"
| "policy_loop pol depth (raw # ls) =
     (case codeLine raw of
        Inl e \<Rightarrow> Inl e
      | Inr code \<Rightarrow>
          (case heredocTerminator code of
             Some t \<Rightarrow> policy_loop pol depth (skip_heredoc t ls)
           | None \<Rightarrow>
               let trimmed = trim_space code;
                   direct = (depth = 1 \<and> trimmed \<noteq> [] \<and> \<not> prefix ''#'' trimmed);
                   depth' = depth + braceNet code
               in if direct \<and> directive_is ''tls'' trimmed then
                    (if sp_TLS pol \<noteq> [] then Inl DuplicateTLS
                     else if depth' \<le> 0 then Inr (pol\<lparr>sp_TLS := raw\<rparr>)
                     else policy_loop (pol\<lparr>sp_TLS := raw\<rparr>) depth' ls)
                  else if direct \<and> (directive_is ''basic_auth'' trimmed
                                     \<or> directive_is ''forward_auth'' trimmed) then
                    (case span_loop [raw] (braceNet code) ls of
                       Inl e \<Rightarrow> Inl e
                     | Inr (span, net, rest) \<Rightarrow>
                         if 0 < net then Inl (UnbalancedSpan (hd (fields_of trimmed)))
                         else policy_loop (pol\<lparr>sp_Access := sp_Access pol @ [unlines span]\<rparr>) depth rest)
                  else if depth' \<le> 0 then Inr pol
                  else policy_loop pol depth' ls))"
  by pat_completeness auto
termination
  by (relation "measure (\<lambda>(pol, depth, ls). length ls)")
     (auto simp: le_imp_less_Suc skip_heredoc_length dest!: sym [where t = "Inr _"] span_loop_length)

text \<open>
  The loop's variable \<open>pol\<close> is returned with each error too; no caller reads it.
\<close>

definition ExtractPolicy :: "string \<Rightarrow> (caddy_error, SitePolicy) result" where
  "ExtractPolicy block =
     (let ls = logicalLines (lines_of block)
      in if ls = [] then Inr no_policy
         else bind_result (siteOpeningLine ls)
           (\<lambda>i. policy_loop no_policy (braceNet (ls ! i)) (drop (i + 1) ls)))"

end
