(* ===== verification/CaddyRender.thy ===== *)
theory CaddyRender
  imports Caddyfile
begin

text \<open>
  The site blocks Teploy renders: reverse proxy, load balancer, static files and maintenance page
  (\<open>internal/caddy/caddy.go\<close>), the access gate (\<open>access.go\<close>), the edge firewall
  (\<open>firewall.go\<close>) and the webhook fragment (\<open>webhook.go\<close>).  Of the standard library the blocks
  use \<open>net.ParseIP\<close>, \<open>net/url.ParseRequestURI\<close> (on the paths \<open>validHealthURI\<close> lets through),
  \<open>strconv.Quote\<close> (the verb \<open>%q\<close>) and \<open>regexp.QuoteMeta\<close>; they are defined here.  A Go map
  is an association list with distinct keys.
\<close>

section \<open>The standard library\<close>

definition tab :: string where "tab = [CHR 0x09]"
definition nl :: string where "nl = [newline]"

definition int_to_string :: "int \<Rightarrow> string" where
  "int_to_string i = (if i < 0 then CHR ''-'' # nat_to_string (nat (- i)) else nat_to_string (nat i))"

definition hex_digit :: "char \<Rightarrow> bool" where
  "hex_digit c \<longleftrightarrow> is_digit c \<or> (97 \<le> (of_char c :: nat) \<and> (of_char c :: nat) \<le> 102)
     \<or> (65 \<le> (of_char c :: nat) \<and> (of_char c :: nat) \<le> 70)"

text \<open>Four decimal fields of at most three digits, at most 255, without leading zeros.\<close>

definition ipv4_field :: "string \<Rightarrow> bool" where
  "ipv4_field f \<longleftrightarrow> f \<noteq> [] \<and> list_all is_digit f \<and> length f \<le> 3 \<and> digits_value f \<le> 255
     \<and> (length f = 1 \<or> hd f \<noteq> CHR ''0'')"

definition parse_ipv4 :: "string \<Rightarrow> bool" where
  "parse_ipv4 s \<longleftrightarrow> length (split_on (CHR ''.'') s) = 4 \<and> list_all ipv4_field (split_on (CHR ''.'') s)"

text \<open>
  The loop of \<open>parseIPv6\<close>: \<open>i\<close> is the number of bytes filled, \<open>ell\<close> whether \<open>::\<close> was seen.
\<close>

fun ipv6_loop :: "nat \<Rightarrow> nat \<Rightarrow> bool \<Rightarrow> string \<Rightarrow> bool" where
  "ipv6_loop 0 i ell s = False"
| "ipv6_loop (Suc fuel) i ell s =
     (if i \<ge> 16 then s = [] \<and> \<not> ell
      else
        (let h = takeWhile hex_digit s; rest = dropWhile hex_digit s
         in if length h > 4 \<or> h = [] then False
            else if rest \<noteq> [] \<and> hd rest = CHR ''.'' then
              (\<not> (\<not> ell \<and> i \<noteq> 12) \<and> i + 4 \<le> 16 \<and> parse_ipv4 s \<and> (if i + 4 < 16 then ell else \<not> ell))
            else
              (let i' = i + 2
               in if rest = [] then (if i' < 16 then ell else \<not> ell)
                  else if hd rest \<noteq> CHR '':'' then False
                  else if length rest = 1 then False
                  else
                    (let s' = tl rest
                     in if hd s' = CHR '':'' then
                          (if ell then False
                           else if tl s' = [] then i' < 16
                           else ipv6_loop fuel i' True (tl s'))
                        else ipv6_loop fuel i' ell s'))))"

text \<open>A field takes at least one byte of the address, so its length is fuel enough.\<close>

definition parse_ipv6 :: "string \<Rightarrow> bool" where
  "parse_ipv6 s =
     (if prefix ''::'' s then (drop 2 s = [] \<or> ipv6_loop (Suc (length s)) 0 True (drop 2 s))
      else ipv6_loop (Suc (length s)) 0 False s)"

text \<open>\<open>net.ParseIP(s) != nil\<close>: the first of \<open>.\<close>, \<open>:\<close> and \<open>%\<close> decides the family.\<close>

definition parseIP :: "string \<Rightarrow> bool" where
  "parseIP s =
     (case dropWhile (\<lambda>c. c \<noteq> CHR ''.'' \<and> c \<noteq> CHR '':'' \<and> c \<noteq> CHR ''%'') s of
        [] \<Rightarrow> False
      | c # _ \<Rightarrow> if c = CHR ''.'' then parse_ipv4 s
                 else if c = CHR '':'' then parse_ipv6 s else False)"

text \<open>\<open>strconv.Quote\<close> on ASCII; the bytes of printable UTF-8 text are kept.\<close>

definition hex_char :: "nat \<Rightarrow> char" where
  "hex_char n = (if n < 10 then char_of (48 + n) else char_of (87 + n))"

definition quote_char :: "char \<Rightarrow> string" where
  "quote_char c =
     (if c = CHR 0x22 \<or> c = CHR 0x5C then [CHR 0x5C, c]
      else if c = CHR 0x07 then [CHR 0x5C, CHR ''a'']
      else if c = CHR 0x08 then [CHR 0x5C, CHR ''b'']
      else if c = CHR 0x0C then [CHR 0x5C, CHR ''f'']
      else if c = CHR 0x0A then [CHR 0x5C, CHR ''n'']
      else if c = CHR 0x0D then [CHR 0x5C, CHR ''r'']
      else if c = CHR 0x09 then [CHR 0x5C, CHR ''t'']
      else if c = CHR 0x0B then [CHR 0x5C, CHR ''v'']
      else if (of_char c :: nat) < 32 \<or> (of_char c :: nat) = 127 then
        [CHR 0x5C, CHR ''x'', hex_char (of_char c div 16), hex_char (of_char c mod 16)]
      else [c])"

definition go_quote :: "string \<Rightarrow> string" where
  "go_quote s = CHR 0x22 # concat (map quote_char s) @ [CHR 0x22]"

definition quote_meta :: "string \<Rightarrow> string" where
  "quote_meta s = concat (map (\<lambda>c. if c \<in> set ''.+*?()|[]{}^$'' \<or> c = CHR 0x5C
                                   then [CHR 0x5C, c] else [c]) s)"

fun percent_ok :: "string \<Rightarrow> bool" where
  "percent_ok [] \<longleftrightarrow> True"
| "percent_ok (c # cs) \<longleftrightarrow>
     (if c = CHR ''%'' then
        (case cs of a # b # rest \<Rightarrow> hex_digit a \<and> hex_digit b \<and> percent_ok rest | _ \<Rightarrow> False)
      else percent_ok cs)"

text \<open>\<open>ParseRequestURI\<close> on a path: no control byte, and every escape of the path well formed.\<close>

definition request_uri_ok :: "string \<Rightarrow> bool" where
  "request_uri_ok p \<longleftrightarrow>
     list_all (\<lambda>c. 32 \<le> (of_char c :: nat) \<and> (of_char c :: nat) \<noteq> 127) p
     \<and> percent_ok (before_char (CHR ''?'') p)"

section \<open>TLS and site addresses\<close>

record TLS =
  tls_Cert :: string
  tls_Key :: string
  tls_Internal :: bool
  tls_HTTPOnly :: bool

definition no_tls :: TLS where
  "no_tls = \<lparr>tls_Cert = [], tls_Key = [], tls_Internal = False, tls_HTTPOnly = False\<rparr>"

definition tls_directive :: "TLS \<Rightarrow> string" where
  "tls_directive t =
     (if tls_HTTPOnly t then []
      else if tls_Internal t then tab @ ''tls internal'' @ nl
      else if tls_Cert t = [] \<or> tls_Key t = [] then []
      else tab @ ''tls '' @ tls_Cert t @ '' '' @ tls_Key t @ nl)"

definition IsPubliclyRoutable :: "string \<Rightarrow> bool" where
  "IsPubliclyRoutable host = (\<not> parseIP host)"

definition siteAddresses :: "string list \<Rightarrow> TLS \<Rightarrow> string list" where
  "siteAddresses hosts tls =
     (let wantsTLS = (\<not> tls_HTTPOnly tls
                      \<and> (tls_Internal tls \<or> (tls_Cert tls \<noteq> [] \<and> tls_Key tls \<noteq> [])))
      in map (\<lambda>h. if tls_HTTPOnly tls \<or> (\<not> wantsTLS \<and> \<not> IsPubliclyRoutable h)
                  then ''http://'' @ h else h) hosts)"

definition validHealthURI :: "string \<Rightarrow> bool" where
  "validHealthURI p \<longleftrightarrow>
     prefix ''/'' p \<and> \<not> prefix ''//'' p
     \<and> \<not> list_ex (\<lambda>c. bad_domain_char c \<or> c = CHR 0x00) p \<and> request_uri_ok p"

section \<open>The access gate\<close>

record Access =
  ac_BasicAuthUsers :: "(string \<times> string) list"
  ac_ForwardAuthURL :: string
  ac_ForwardAuthURI :: string
  ac_ForwardAuthCopyHeaders :: "string list"

definition no_access :: Access where
  "no_access = \<lparr>ac_BasicAuthUsers = [], ac_ForwardAuthURL = [], ac_ForwardAuthURI = [],
     ac_ForwardAuthCopyHeaders = []\<rparr>"

definition Access_Empty :: "Access \<Rightarrow> bool" where
  "Access_Empty a \<longleftrightarrow> ac_BasicAuthUsers a = [] \<and> ac_ForwardAuthURL a = []"

definition sorted_entries :: "(string \<times> string) list \<Rightarrow> (string \<times> string) list" where
  "sorted_entries m = map (\<lambda>k. (k, the (map_of m k))) (sort (map fst m))"

definition render_basic :: "(string \<times> string) list \<Rightarrow> string" where
  "render_basic users =
     (if users = [] then []
      else tab @ ''basic_auth {'' @ nl
           @ concat (map (\<lambda>(u, h). tab @ tab @ u @ '' '' @ h @ nl) (sorted_entries users))
           @ tab @ ''}'' @ nl)"

definition render_forward :: "Access \<Rightarrow> string" where
  "render_forward a =
     (if ac_ForwardAuthURL a = [] then []
      else tab @ ''forward_auth '' @ ac_ForwardAuthURL a @ '' {'' @ nl
           @ (if ac_ForwardAuthURI a \<noteq> [] then tab @ tab @ ''uri '' @ ac_ForwardAuthURI a @ nl else [])
           @ (if ac_ForwardAuthCopyHeaders a \<noteq> []
              then tab @ tab @ ''copy_headers '' @ join_with '' '' (ac_ForwardAuthCopyHeaders a) @ nl
              else [])
           @ tab @ ''}'' @ nl)"

definition Access_render :: "Access \<Rightarrow> string" where
  "Access_render a =
     (if Access_Empty a then [] else render_basic (ac_BasicAuthUsers a) @ render_forward a)"

section \<open>The firewall\<close>

record Firewall =
  fw_AllowIPs :: "string list"
  fw_DenyIPs :: "string list"
  fw_BlockUserAgents :: "string list"
  fw_MaxBodySize :: string

definition Firewall_Empty :: "Firewall \<Rightarrow> bool" where
  "Firewall_Empty f \<longleftrightarrow> fw_AllowIPs f = [] \<and> fw_DenyIPs f = [] \<and> fw_BlockUserAgents f = []
     \<and> fw_MaxBodySize f = []"

definition no_firewall :: Firewall where
  "no_firewall = \<lparr>fw_AllowIPs = [], fw_DenyIPs = [], fw_BlockUserAgents = [], fw_MaxBodySize = []\<rparr>"

definition respond_403 :: "string \<Rightarrow> string" where
  "respond_403 matcher =
     tab @ ''handle @'' @ matcher @ '' {'' @ nl @ tab @ tab @ ''respond 403'' @ nl @ tab @ ''}'' @ nl"

definition Firewall_prelude :: "Firewall \<Rightarrow> string" where
  "Firewall_prelude f =
     (if fw_MaxBodySize f \<noteq> []
      then tab @ ''request_body {'' @ nl @ tab @ tab @ ''max_size '' @ fw_MaxBodySize f @ nl
           @ tab @ ''}'' @ nl
      else [])
     @ (if fw_DenyIPs f \<noteq> []
        then tab @ ''@teploy_fw_deny remote_ip '' @ join_with '' '' (fw_DenyIPs f) @ nl
             @ respond_403 ''teploy_fw_deny''
        else [])
     @ (if fw_BlockUserAgents f \<noteq> []
        then tab @ ''@teploy_fw_bots header_regexp User-Agent (?i)(''
             @ join_with ''|'' (map quote_meta (fw_BlockUserAgents f)) @ '')'' @ nl
             @ respond_403 ''teploy_fw_bots''
        else [])
     @ (if fw_AllowIPs f \<noteq> []
        then tab @ ''@teploy_fw_notallow not remote_ip '' @ join_with '' '' (fw_AllowIPs f) @ nl
             @ respond_403 ''teploy_fw_notallow''
        else [])"

text \<open>The lines of a text, each indented by one tab; an empty line stays empty.\<close>

definition indent_lines :: "string list \<Rightarrow> string" where
  "indent_lines ls = concat (map (\<lambda>l. if l = [] then nl else tab @ l @ nl) ls)"

definition wrapTerminal :: "Firewall \<Rightarrow> string \<Rightarrow> string" where
  "wrapTerminal f body =
     (if Firewall_Empty f then body
      else Firewall_prelude f @ tab @ ''handle {'' @ nl
           @ indent_lines (lines_of (trim_newlines body)) @ tab @ ''}'' @ nl)"

section \<open>Site blocks\<close>

fun cache_lines :: "nat \<Rightarrow> (string \<times> string) list \<Rightarrow> string" where
  "cache_lines i [] = []"
| "cache_lines i ((pattern, value) # es) =
     (let matcher = ''@cache'' @ nat_to_string (i + 1)
      in tab @ matcher @ '' path '' @ pattern @ nl
         @ tab @ ''header '' @ matcher @ '' Cache-Control '' @ go_quote value @ nl
         @ cache_lines (i + 1) es)"

definition renderCacheRules :: "(string \<times> string) list \<Rightarrow> string" where
  "renderCacheRules cache = cache_lines 0 (sorted_entries cache)"

definition render_extra :: "string \<Rightarrow> string" where
  "render_extra caddyExtra =
     (let extra = trim_space caddyExtra
      in if extra = [] then []
         else nl @ tab @ ''# user-supplied caddy_extra:'' @ nl @ indent_lines (lines_of extra))"

definition address_line :: "string list \<Rightarrow> TLS \<Rightarrow> string" where
  "address_line hosts tls = join_with '', '' (siteAddresses hosts tls) @ '' {'' @ nl"

definition reverseProxyBlock ::
  "string list \<Rightarrow> string \<Rightarrow> int \<Rightarrow> TLS \<Rightarrow> string \<Rightarrow> (string \<times> string) list \<Rightarrow> Firewall \<Rightarrow> Access \<Rightarrow> string"
where
  "reverseProxyBlock hosts upstream port tls caddyExtra cache fw access =
     address_line hosts tls @ tls_directive tls @ Access_render access
     @ wrapTerminal fw (tab @ ''reverse_proxy '' @ upstream @ '':'' @ int_to_string port @ nl)
     @ renderCacheRules cache @ render_extra caddyExtra @ ''}''"

definition balancer_directive :: "string list \<Rightarrow> string \<Rightarrow> string" where
  "balancer_directive dials healthPath =
     tab @ ''reverse_proxy '' @ join_with '' '' dials @ '' {'' @ nl
     @ tab @ tab @ ''lb_policy round_robin'' @ nl
     @ tab @ tab @ ''health_uri '' @ healthPath @ nl
     @ tab @ tab @ ''health_interval 10s'' @ nl
     @ tab @ tab @ ''health_timeout 5s'' @ nl @ tab @ ''}'' @ nl"

definition loadBalancerBlock ::
  "string list \<Rightarrow> string list \<Rightarrow> string \<Rightarrow> TLS \<Rightarrow> string \<Rightarrow> (string \<times> string) list \<Rightarrow> Firewall \<Rightarrow> Access
     \<Rightarrow> string" where
  "loadBalancerBlock hosts dials healthPath tls caddyExtra cache fw access =
     address_line hosts tls @ tls_directive tls @ Access_render access
     @ wrapTerminal fw (balancer_directive dials (if healthPath = [] then ''/health'' else healthPath))
     @ renderCacheRules cache @ render_extra caddyExtra @ ''}''"

definition maintenancePage :: string where
  "maintenancePage = unlines
     [''<!DOCTYPE html>'',
      ''<html><head>'',
      ''<title>Maintenance</title>'',
      ''<meta name='' @ [CHR 0x22] @ ''viewport'' @ [CHR 0x22] @ '' content='' @ [CHR 0x22]
        @ ''width=device-width, initial-scale=1'' @ [CHR 0x22] @ ''>'',
      ''<style>'',
      ''body{font-family:-apple-system,sans-serif;display:flex;justify-content:center;align-items:center;min-height:100vh;margin:0;background:#f5f5f5}'',
      ''.box{text-align:center;padding:2rem}'',
      ''h1{font-size:1.5rem;color:#333}'',
      ''p{color:#666}'',
      ''</style>'',
      ''</head><body>'',
      ''<div class='' @ [CHR 0x22] @ ''box'' @ [CHR 0x22] @ ''>'',
      ''<h1>We'' @ [CHR 0x27] @ ''ll be back soon</h1>'',
      ''<p>This site is currently undergoing maintenance. Please check back shortly.</p>'',
      ''</div>'',
      ''</body></html>'']"

definition maintenance_body :: string where
  "maintenance_body =
     tab @ ''header Content-Type '' @ [CHR 0x22] @ ''text/html; charset=utf-8'' @ [CHR 0x22] @ nl
     @ tab @ ''header Retry-After '' @ [CHR 0x22] @ ''3600'' @ [CHR 0x22] @ nl
     @ tab @ ''respond 503 {'' @ nl
     @ tab @ tab @ ''body '' @ [backtick] @ maintenancePage @ [backtick] @ nl
     @ tab @ ''}'' @ nl @ ''}''"

definition maintenanceBlock :: "string list \<Rightarrow> SitePolicy \<Rightarrow> string" where
  "maintenanceBlock hosts pol =
     (let t = trim_space (sp_TLS pol);
          tlsLine = (if t \<noteq> [] then t @ nl else []);
          schemeHosts = (if tlsLine = [] then siteAddresses hosts no_tls else hosts)
      in join_with '', '' schemeHosts @ '' {'' @ nl @ tlsLine
         @ concat (map (\<lambda>a. a @ nl) (sp_Access pol)) @ maintenance_body)"

record StaticBlockOpts =
  st_Hosts :: "string list"
  st_Root :: string
  st_SPA :: bool
  st_SPAFallback :: string
  st_Cache :: "(string \<times> string) list"
  st_Headers :: "(string \<times> string) list"
  st_CaddyExtra :: string

text \<open>
  \<open>st_Headers\<close> lists the map in the order in which the loop over it visits the entries, which
  Go leaves open.
\<close>

definition header_line :: "string \<times> string \<Rightarrow> string" where
  "header_line kv = tab @ tab @ fst kv @ '' '' @ go_quote (snd kv) @ nl"

definition default_headers :: "(string \<times> string) list" where
  "default_headers =
     [(''X-Content-Type-Options'', ''nosniff''),
      (''X-Frame-Options'', ''SAMEORIGIN''),
      (''Referrer-Policy'', ''strict-origin-when-cross-origin''),
      (''Permissions-Policy'', ''camera=(), microphone=(), geolocation=()'')]"

definition StaticBlock :: "StaticBlockOpts \<Rightarrow> string" where
  "StaticBlock opts =
     address_line (st_Hosts opts) no_tls
     @ tab @ ''encode gzip'' @ nl
     @ tab @ ''root * '' @ st_Root opts @ nl
     @ (if st_SPA opts
        then tab @ ''try_files {path} {path}/ {path}/index.html ''
             @ (if st_SPAFallback opts = [] then ''/index.html'' else st_SPAFallback opts) @ nl
        else [])
     @ tab @ ''file_server {'' @ nl @ tab @ tab @ ''precompressed gzip'' @ nl @ tab @ ''}'' @ nl
     @ tab @ ''header {'' @ nl
     @ concat (map header_line (default_headers @ st_Headers opts))
     @ tab @ ''}'' @ nl
     @ renderCacheRules (st_Cache opts) @ render_extra (st_CaddyExtra opts) @ ''}''"

section \<open>Maintenance mode\<close>

definition stamped :: "nat option \<Rightarrow> string \<Rightarrow> string" where
  "stamped g block =
     (case g of Some n \<Rightarrow> if 0 < n then generation_stamp n @ nl @ block else block | None \<Rightarrow> block)"

text \<open>The block \<open>SetMaintenance\<close> writes over the current one (\<open>cur\<close>, empty when there is none).\<close>

definition maintenance_replacement ::
  "string list \<Rightarrow> string \<Rightarrow> (caddy_error, string) result" where
  "maintenance_replacement hosts cur =
     (if cur = [] then Inr (maintenanceBlock hosts no_policy)
      else bind_result (ExtractPolicy cur)
             (\<lambda>pol. Inr (stamped (RegionGeneration cur) (maintenanceBlock hosts pol))))"

definition maintenance_edit ::
  "string \<Rightarrow> string list \<Rightarrow> string \<Rightarrow> (caddy_error, string) result" where
  "maintenance_edit app hosts prev =
     bind_result (maintenance_replacement hosts (extractCaddyfileBlock prev (marker_begin app)))
       (\<lambda>block. renderUpdated prev app hosts block)"

text \<open>The edit of \<open>RemoveMaintenance\<close>, given the stash it read.\<close>

definition restore_edit :: "string \<Rightarrow> string \<Rightarrow> string \<Rightarrow> (caddy_error, string) result" where
  "restore_edit app stash prev =
     (let restored = trim_nl_both stash
      in if restored = [] then Inl (EmptyStash app) else renderUpdated prev app [] restored)"

section \<open>The webhook fragment\<close>

record webhookRouteConfig =
  wh_Hosts :: "string list"
  wh_Path :: string
  wh_Port :: int

definition webhook_begin :: "string \<Rightarrow> string" where
  "webhook_begin app = tab @ ''# TEPLOY WEBHOOK BEGIN '' @ app"

definition webhook_end :: "string \<Rightarrow> string" where
  "webhook_end app = tab @ ''# TEPLOY WEBHOOK END '' @ app"

definition webhookFragment :: "string \<Rightarrow> webhookRouteConfig \<Rightarrow> string" where
  "webhookFragment app cfg =
     (let matcher = ''teploy_hook_'' @ app
      in webhook_begin app @ nl
         @ tab @ ''@'' @ matcher @ '' {'' @ nl @ tab @ tab @ ''method POST'' @ nl
         @ tab @ tab @ ''path '' @ wh_Path cfg @ nl @ tab @ ''}'' @ nl
         @ tab @ ''handle @'' @ matcher @ '' {'' @ nl
         @ tab @ tab @ ''reverse_proxy host.docker.internal:'' @ int_to_string (wh_Port cfg) @ nl
         @ tab @ ''}'' @ nl
         @ webhook_end app @ nl)"

fun strip_loop :: "string \<Rightarrow> bool \<Rightarrow> string list \<Rightarrow> string list" where
  "strip_loop app skipping [] = []"
| "strip_loop app skipping (line # ls) =
     (if trim_space line = trim_space (webhook_begin app) then strip_loop app True ls
      else if skipping then
        strip_loop app (trim_space line \<noteq> trim_space (webhook_end app)) ls
      else line # strip_loop app False ls)"

definition stripWebhookFragment :: "string \<Rightarrow> string \<Rightarrow> string" where
  "stripWebhookFragment block app = collapse_blank (unlines (strip_loop app False (lines_of block)))"

definition injectWebhookFragment ::
  "string \<Rightarrow> string \<Rightarrow> webhookRouteConfig \<Rightarrow> (caddy_error, string) result" where
  "injectWebhookFragment block app cfg =
     (let ls = lines_of block
      in case siteOpeningLine ls of
           Inl e \<Rightarrow> Inl (WebhookUnplaced app e)
         | Inr opening \<Rightarrow>
             Inr (unlines (take (opening + 1) ls @ trim_newlines (webhookFragment app cfg)
                           # drop (opening + 1) ls)))"

text \<open>
  \<open>applyWebhookToBlock\<close>, given the persisted descriptor that was read inside the transaction.
\<close>

definition apply_webhook ::
  "string \<Rightarrow> webhookRouteConfig option \<Rightarrow> string \<Rightarrow> (caddy_error, string) result" where
  "apply_webhook app cfg content =
     (let block = extractCaddyfileBlock content (marker_begin app)
      in if block = [] then Inr content
         else bind_result
                (case cfg of
                   None \<Rightarrow> Inr (stripWebhookFragment block app)
                 | Some c \<Rightarrow> injectWebhookFragment (stripWebhookFragment block app) app c)
                (\<lambda>b. bind_result (removeCaddyfileBlock content (marker_begin app))
                   (\<lambda>u. Inr (append_block u app b))))"

end
