(* ===== verification/Releases.thy ===== *)
theory Releases
  imports Inventory CaddyRender
begin

text \<open>
  The per-release records and the per-attempt artifacts of \<open>internal/releasemeta\<close>: identifiers
  and paths, reading and writing a record, what of a release's environment a record may carry,
  and the pruning of superseded attempts.  A record's file is its parsed value; fields no
  modelled operation looks at are not carried.  \<open>net/url.Parse\<close> is modelled as far as the
  userinfo check depends on it.
\<close>

section \<open>Identifiers and paths\<close>

definition lower_or_digit :: "char \<Rightarrow> bool" where
  "lower_or_digit c \<longleftrightarrow> (CHR ''a'' \<le> c \<and> c \<le> CHR ''z'') \<or> is_digit c"

definition letter :: "char \<Rightarrow> bool" where
  "letter c \<longleftrightarrow> (CHR ''a'' \<le> c \<and> c \<le> CHR ''z'') \<or> (CHR ''A'' \<le> c \<and> c \<le> CHR ''Z'')"

text \<open>The expression \<open>validName\<close>: inner hyphens only.\<close>

definition name_grammar :: "string \<Rightarrow> bool" where
  "name_grammar s \<longleftrightarrow>
     s \<noteq> [] \<and> list_all (\<lambda>c. lower_or_digit c \<or> c = CHR ''-'') s
     \<and> lower_or_digit (hd s) \<and> lower_or_digit (List.last s)"

definition ValidateIdentifier :: "string \<Rightarrow> bool" where
  "ValidateIdentifier name \<longleftrightarrow> name \<noteq> [] \<and> name_grammar name \<and> length name \<le> 63"

definition ValidateName :: "string \<Rightarrow> bool" where
  "ValidateName name \<longleftrightarrow> ValidateIdentifier name"

text \<open>\<open>^[A-Za-z0-9_][A-Za-z0-9._-]{0,127}$\<close>\<close>

definition validHash :: "string \<Rightarrow> bool" where
  "validHash s \<longleftrightarrow>
     (case s of
        [] \<Rightarrow> False
      | c # cs \<Rightarrow> (letter c \<or> is_digit c \<or> c = CHR ''_'') \<and> length cs \<le> 127
          \<and> list_all (\<lambda>d. letter d \<or> is_digit d \<or> d = CHR ''.'' \<or> d = CHR ''_'' \<or> d = CHR ''-'') cs)"

definition Path :: "string \<Rightarrow> string \<Rightarrow> string option" where
  "Path app hash =
     (if ValidateName app \<and> validHash hash
      then Some (''/deployments/'' @ app @ ''/meta/'' @ hash @ ''.json'') else None)"

definition SourcePath :: "string \<Rightarrow> string \<Rightarrow> string option" where
  "SourcePath app hash = map_option (\<lambda>p. trim_suffix ''.json'' p @ ''.source.yml'') (Path app hash)"

section \<open>Records\<close>

record Port =
  po_HostPort :: int
  po_ContainerPort :: int
  po_Proto :: string
  po_Bind :: string
  po_Primary :: bool
  po_Fixed :: bool

text \<open>Maps are association lists with distinct keys; a redaction is a key and its source.\<close>

type_synonym str_map = "(string \<times> string) list"

text \<open>The edge options of a release; a record older than the plain-HTTP flag has none.\<close>

record CaddyRoute =
  cr_TLSCert :: string
  cr_TLSKey :: string
  cr_TLSInternal :: bool
  cr_TLSHTTPOnly :: "bool option"
  cr_CaddyExtra :: string
  cr_Cache :: str_map
  cr_Firewall :: "Firewall option"
  cr_Access :: "Access option"

definition HTTPOnlyOr :: "CaddyRoute \<Rightarrow> bool \<Rightarrow> bool" where
  "HTTPOnlyOr r fallback = (case cr_TLSHTTPOnly r of None \<Rightarrow> fallback | Some b \<Rightarrow> b)"

record release_health =
  rh_Mode :: string
  rh_Path :: string
  rh_TimeoutSeconds :: int
  rh_IntervalSeconds :: int

record release_record =
  rr_SchemaVersion :: int
  rr_App :: string
  rr_Hash :: string
  rr_CreatedAt :: "int option"
  rr_Generation :: gen
  rr_Processes :: str_map
  rr_Env :: str_map
  rr_EnvRedacted :: str_map
  rr_Recreate :: "(string list \<times> str_map) option"
  rr_Publish :: "string list"
  rr_Ports :: "Port list"
  rr_EnvProvenance :: str_map
  rr_ImageEnv :: "str_map option"
  rr_DeploymentType :: string
  rr_IngressMode :: string
  rr_Domain :: string
  rr_ImageRef :: string
  rr_ImageDigest :: string
  rr_ManifestSHA256 :: string
  rr_ConfigCommit :: string
  rr_Replicas :: int
  rr_Cmd :: string
  rr_EnvFiles :: "string list"
  rr_Volumes :: str_map
  rr_Memory :: string
  rr_CPU :: string
  rr_StopTimeout :: int
  rr_Bind :: string
  rr_Health :: "release_health option"
  rr_Caddy :: "CaddyRoute option"

text \<open>\<open>&Record{}\<close>\<close>

definition blank_release :: release_record where
  "blank_release = \<lparr>rr_SchemaVersion = 0, rr_App = [], rr_Hash = [], rr_CreatedAt = None,
     rr_Generation = 0, rr_Processes = [], rr_Env = [], rr_EnvRedacted = [], rr_Recreate = None,
     rr_Publish = [], rr_Ports = [], rr_EnvProvenance = [], rr_ImageEnv = None,
     rr_DeploymentType = [], rr_IngressMode = [], rr_Domain = [], rr_ImageRef = [],
     rr_ImageDigest = [], rr_ManifestSHA256 = [], rr_ConfigCommit = [], rr_Replicas = 0, rr_Cmd = [],
     rr_EnvFiles = [], rr_Volumes = [], rr_Memory = [], rr_CPU = [], rr_StopTimeout = 0,
     rr_Bind = [], rr_Health = None, rr_Caddy = None\<rparr>"

datatype release_doc = RecordJunk | RecordDoc release_record

datatype release_error =
    BadReleaseName | RecordUnreadable exec_error | RecordUnparsable | RecordSchema int
  | RecordIdentity | RecordIncomplete

definition ReleaseSchemaVersion :: int where
  "ReleaseSchemaVersion = 1"

text \<open>\<open>Read\<close>, on what reading the record's file gives.\<close>

definition ReadRelease ::
  "string \<Rightarrow> string \<Rightarrow> (exec_error, release_doc option) result \<Rightarrow> (release_error, release_record option) result" where
  "ReadRelease app hash file =
     (if Path app hash = None then Inl BadReleaseName
      else
        (case file of
           Inl e \<Rightarrow> Inl (RecordUnreadable e)
         | Inr None \<Rightarrow> Inr None
         | Inr (Some RecordJunk) \<Rightarrow> Inl RecordUnparsable
         | Inr (Some (RecordDoc r)) \<Rightarrow>
             if rr_SchemaVersion r \<noteq> ReleaseSchemaVersion then Inl (RecordSchema (rr_SchemaVersion r))
             else if rr_App r \<noteq> app \<or> rr_Hash r \<noteq> hash then Inl RecordIdentity
             else Inr (Some r)))"

definition PrimaryContainerPort :: "release_record option \<Rightarrow> int \<times> bool" where
  "PrimaryContainerPort rec =
     (case rec of
        None \<Rightarrow> (0, False)
      | Some r \<Rightarrow>
          (case find (\<lambda>p. po_Primary p \<and> po_ContainerPort p > 0) (rr_Ports r) of
             None \<Rightarrow> (0, False) | Some p \<Rightarrow> (po_ContainerPort p, True)))"

definition HasFixedHostPorts :: "release_record option \<Rightarrow> bool" where
  "HasFixedHostPorts rec =
     (case rec of None \<Rightarrow> False | Some r \<Rightarrow> rr_Publish r \<noteq> [] \<or> list_ex po_Fixed (rr_Ports r))"

definition atoiOrZero :: "string \<Rightarrow> int" where
  "atoiOrZero s = fst (atoi s)"

definition cut_slash :: "string \<Rightarrow> string \<times> string" where
  "cut_slash s =
     (if CHR ''/'' \<in> set s
      then (takeWhile (\<lambda>c. c \<noteq> CHR ''/'') s, tl (dropWhile (\<lambda>c. c \<noteq> CHR ''/'') s)) else (s, []))"

definition PortFromPublishSpec :: "string \<Rightarrow> Port option" where
  "PortFromPublishSpec spec =
     (let s = trim_space spec; parts = split_on (CHR '':'') s
      in if s = [] \<or> length parts > 3 then None
         else
           (let rp = rev parts;
                (container, proto) = cut_slash (hd rp);
                host = (if length parts \<ge> 2 then rp ! 1 else []);
                bind = (if length parts = 3 then rp ! 2 else [])
            in if container = [] then None
               else
                 (let p = \<lparr>po_HostPort = atoiOrZero host, po_ContainerPort = atoiOrZero container,
                           po_Proto = proto, po_Bind = bind, po_Primary = False, po_Fixed = True\<rparr>
                  in if po_ContainerPort p > 0 then Some p else None)))"

section \<open>Credentials in a URL\<close>

text \<open>\<open>getScheme\<close>: \<open>None\<close> is the error of a leading colon.\<close>

fun scheme_loop :: "string \<Rightarrow> string \<Rightarrow> string \<Rightarrow> (string \<times> string) option" where
  "scheme_loop raw acc [] = Some ([], raw)"
| "scheme_loop raw acc (c # cs) =
     (if letter c then scheme_loop raw (acc @ [c]) cs
      else if is_digit c \<or> c = CHR ''+'' \<or> c = CHR ''-'' \<or> c = CHR ''.'' then
        (if acc = [] then Some ([], raw) else scheme_loop raw (acc @ [c]) cs)
      else if c = CHR '':'' then (if acc = [] then None else Some (acc, cs))
      else Some ([], raw))"

definition is_hex :: "char \<Rightarrow> bool" where
  "is_hex c \<longleftrightarrow> is_digit c \<or> (CHR ''a'' \<le> c \<and> c \<le> CHR ''f'') \<or> (CHR ''A'' \<le> c \<and> c \<le> CHR ''F'')"

text \<open>\<open>unescape\<close> succeeds on paths and passwords when every percent sign has two hex digits.\<close>

fun unescapes :: "string \<Rightarrow> bool" where
  "unescapes [] \<longleftrightarrow> True"
| "unescapes (c # cs) \<longleftrightarrow>
     (if c = CHR ''%'' then (case cs of a # b # ds \<Rightarrow> is_hex a \<and> is_hex b \<and> unescapes ds | _ \<Rightarrow> False)
      else unescapes cs)"

text \<open>What a host may contain unescaped; an escape there is of a byte above 127 or of a percent sign.\<close>

definition host_char :: "char \<Rightarrow> bool" where
  "host_char c \<longleftrightarrow>
     letter c \<or> is_digit c \<or> CHR 0x7F < c
     \<or> c \<in> set (''!$&()*+,;=:[]<>-_.~'' @ [CHR 0x27, CHR 0x22])"

fun host_unescapes :: "string \<Rightarrow> bool" where
  "host_unescapes [] \<longleftrightarrow> True"
| "host_unescapes (c # cs) \<longleftrightarrow>
     (if c = CHR ''%'' then
        (case cs of
           a # b # ds \<Rightarrow> is_hex a \<and> is_hex b \<and> (\<not> (is_digit a \<and> a < CHR ''8'') \<or> (a = CHR ''2'' \<and> b = CHR ''5''))
             \<and> host_unescapes ds
         | _ \<Rightarrow> False)
      else host_char c \<and> host_unescapes cs)"

definition valid_optional_port :: "string \<Rightarrow> bool" where
  "valid_optional_port p \<longleftrightarrow> (case p of [] \<Rightarrow> True | c # cs \<Rightarrow> c = CHR '':'' \<and> list_all is_digit cs)"

text \<open>The text up to and from the last occurrence of a character.\<close>

definition before_last :: "char \<Rightarrow> string \<Rightarrow> string" where
  "before_last c s = rev (tl (dropWhile (\<lambda>d. d \<noteq> c) (rev s)))"

definition after_last :: "char \<Rightarrow> string \<Rightarrow> string" where
  "after_last c s = rev (takeWhile (\<lambda>d. d \<noteq> c) (rev s))"

definition hex_value :: "char \<Rightarrow> nat" where
  "hex_value c =
     (if is_digit c then digit_value c
      else if CHR ''a'' \<le> c then of_char c - 87 else of_char c - 55)"

text \<open>A zone identifier may escape a percent sign, a blank and what a host may contain.\<close>

fun zone_unescapes :: "string \<Rightarrow> bool" where
  "zone_unescapes [] \<longleftrightarrow> True"
| "zone_unescapes (c # cs) \<longleftrightarrow>
     (if c = CHR ''%'' then
        (case cs of
           a # b # ds \<Rightarrow>
             (let v = char_of (16 * hex_value a + hex_value b)
              in is_hex a \<and> is_hex b
                 \<and> (v = CHR ''%'' \<or> v = CHR '' '' \<or> (host_char v \<and> v \<le> CHR 0x7F)))
             \<and> zone_unescapes ds
         | _ \<Rightarrow> False)
      else host_char c \<and> zone_unescapes cs)"

text \<open>The text before the first occurrence of a pattern, and from there on.\<close>

fun before_str :: "string \<Rightarrow> string \<Rightarrow> string" where
  "before_str p [] = []"
| "before_str p (c # cs) = (if prefix p (c # cs) then [] else c # before_str p cs)"

definition from_str :: "string \<Rightarrow> string \<Rightarrow> string" where
  "from_str p s = drop (length (before_str p s)) s"

definition parse_host_ok :: "string \<Rightarrow> bool" where
  "parse_host_ok h \<longleftrightarrow>
     (if prefix ''['' h then
        CHR '']'' \<in> set h \<and> valid_optional_port (after_last (CHR '']'') h)
        \<and> (let inner = before_last (CHR '']'') h
            in if contains_str ''%25'' inner then
                 host_unescapes (before_str ''%25'' inner) \<and> zone_unescapes (from_str ''%25'' inner)
                 \<and> host_unescapes (after_last (CHR '']'') h)
               else host_unescapes h)
      else (CHR '':'' \<in> set h \<longrightarrow> list_all is_digit (after_last (CHR '':'') h)) \<and> host_unescapes h)"

definition userinfo_char :: "char \<Rightarrow> bool" where
  "userinfo_char c \<longleftrightarrow> letter c \<or> is_digit c \<or> c \<in> set (''-._:~!$&()*+,;=%@'' @ [CHR 0x27])"

text \<open>\<open>url.Parse\<close> succeeds and reports a userinfo with a password.\<close>

definition url_has_password :: "string \<Rightarrow> bool" where
  "url_has_password raw =
     (let url = takeWhile (\<lambda>c. c \<noteq> CHR ''#'') raw; frag = dropWhile (\<lambda>c. c \<noteq> CHR ''#'') raw
      in unescapes frag \<and> list_all (\<lambda>c. CHR 0x20 \<le> c \<and> c \<noteq> CHR 0x7F) url
         \<and> (case scheme_loop url [] url of
              None \<Rightarrow> False
            | Some (scheme, rest) \<Rightarrow>
                (let rest = takeWhile (\<lambda>c. c \<noteq> CHR ''?'') rest
                 in prefix ''//'' rest \<and> (scheme \<noteq> [] \<or> \<not> prefix ''///'' rest)
                    \<and> (let auth = takeWhile (\<lambda>c. c \<noteq> CHR ''/'') (drop 2 rest);
                           path = dropWhile (\<lambda>c. c \<noteq> CHR ''/'') (drop 2 rest)
                       in CHR ''@'' \<in> set auth \<and> parse_host_ok (after_last (CHR ''@'') auth)
                          \<and> list_all userinfo_char (before_last (CHR ''@'') auth)
                          \<and> CHR '':'' \<in> set (before_last (CHR ''@'') auth)
                          \<and> unescapes (before_last (CHR ''@'') auth) \<and> unescapes path))))"

fun after_str :: "string \<Rightarrow> string \<Rightarrow> string option" where
  "after_str p [] = (if p = [] then Some [] else None)"
| "after_str p (c # cs) = (if prefix p (c # cs) then Some (drop (length p) (c # cs)) else after_str p cs)"

definition hasURLCredentials :: "string \<Rightarrow> bool" where
  "hasURLCredentials v \<longleftrightarrow>
     CHR ''@'' \<in> set v
     \<and> (url_has_password v
        \<or> (case after_str ''://'' v of
             None \<Rightarrow> False
           | Some rest \<Rightarrow>
               (let head = takeWhile (\<lambda>c. c \<noteq> CHR ''@'') rest
                in CHR ''@'' \<in> set rest \<and> head \<noteq> [] \<and> CHR '':'' \<in> set head)))"

section \<open>What a record may carry of the environment\<close>

definition EnvSourceConfig :: string where "EnvSourceConfig = ''config''"
definition EnvSourceConfigLiteral :: string where "EnvSourceConfigLiteral = ''config_literal''"
definition EnvSourceImage :: string where "EnvSourceImage = ''image''"
definition EnvSourceRuntime :: string where "EnvSourceRuntime = ''runtime''"
definition EnvSourceNamePattern :: string where "EnvSourceNamePattern = ''name_pattern''"
definition EnvSourceCredentialURL :: string where "EnvSourceCredentialURL = ''credential_url''"
definition EnvSourceUnclassified :: string where "EnvSourceUnclassified = ''unclassified''"

definition upper_char :: "char \<Rightarrow> char" where
  "upper_char c = (if CHR ''a'' \<le> c \<and> c \<le> CHR ''z'' then char_of (of_char c - 32 :: nat) else c)"

text \<open>The alternatives of the expression; \<open>API_?KEY\<close> stands for two.\<close>

definition secret_words :: "string list" where
  "secret_words =
     [''PASS'', ''PWD'', ''SECRET'', ''TOKEN'', ''SALT'', ''PRIVATE'', ''CREDENTIAL'', ''APIKEY'', ''API_KEY'',
      ''ACCESSKEY'', ''ACCESS_KEY'', ''AUTH'', ''COOKIE'', ''SIGNING'', ''JWT'', ''DSN'', ''SESSION'', ''CERT'']"

definition secretKeyName :: "string \<Rightarrow> bool" where
  "secretKeyName key \<longleftrightarrow>
     (let k = map upper_char key
      in list_ex (\<lambda>p. contains_str p k) secret_words \<or> suffix ''_KEY'' k \<or> k = ''KEY'')"

definition runtimeEnvKeys :: "string list" where
  "runtimeEnvKeys = [''PORT'']"

definition imageEnvHas :: "str_map \<Rightarrow> string \<Rightarrow> string \<Rightarrow> bool" where
  "imageEnvHas imageEnv key v \<longleftrightarrow> map_of imageEnv key = Some v"

definition plain_sources :: "string list" where
  "plain_sources = [EnvSourceConfig, EnvSourceConfigLiteral, EnvSourceImage, EnvSourceRuntime]"

text \<open>The recorded source of a key, else the image's default, else a key teploy sets itself.\<close>

definition env_source :: "str_map \<Rightarrow> str_map option \<Rightarrow> string \<Rightarrow> string \<Rightarrow> string option" where
  "env_source provenance imageEnv key v =
     (case map_of provenance key of
        Some s \<Rightarrow> Some s
      | None \<Rightarrow>
          if (case imageEnv of None \<Rightarrow> False | Some m \<Rightarrow> imageEnvHas m key v) then Some EnvSourceImage
          else if key \<in> set runtimeEnvKeys then Some EnvSourceRuntime
          else None)"

definition ClassifyEnv :: "str_map \<Rightarrow> str_map option \<Rightarrow> string \<Rightarrow> string \<Rightarrow> bool \<times> string" where
  "ClassifyEnv provenance imageEnv key v =
     (case env_source provenance imageEnv key v of
        None \<Rightarrow> (False, EnvSourceUnclassified)
      | Some s \<Rightarrow>
          if s \<in> set plain_sources then
            (if s \<noteq> EnvSourceRuntime \<and> secretKeyName key then (False, EnvSourceNamePattern)
             else if hasURLCredentials v then (False, EnvSourceCredentialURL)
             else (True, s))
          else (False, s))"

text \<open>Assignment in a Go map, and \<open>sortedRedactions\<close>.\<close>

definition put :: "string \<Rightarrow> string \<Rightarrow> str_map \<Rightarrow> str_map" where
  "put k v m = filter (\<lambda>(a, _). a \<noteq> k) m @ [(k, v)]"

definition put_all :: "str_map \<Rightarrow> str_map \<Rightarrow> str_map" where
  "put_all kvs m = fold (\<lambda>(k, v). put k v) kvs m"

definition sortedRedactions :: "str_map \<Rightarrow> str_map" where
  "sortedRedactions red = sort_key fst red"

text \<open>An entry \<open>KEY=VALUE\<close> that must go, with its source; a bare \<open>KEY\<close> stays.\<close>

definition entry_redaction :: "str_map \<Rightarrow> str_map option \<Rightarrow> string \<Rightarrow> (string \<times> string) option" where
  "entry_redaction provenance imageEnv kv =
     (case cut_eq kv of
        None \<Rightarrow> None
      | Some (k, v) \<Rightarrow>
          (let (keep, src) = ClassifyEnv provenance imageEnv k v in if keep then None else Some (k, src)))"

definition redactEnvList ::
  "str_map \<Rightarrow> str_map option \<Rightarrow> string list \<Rightarrow> str_map \<Rightarrow> string list \<times> str_map" where
  "redactEnvList provenance imageEnv env existing =
     (filter (\<lambda>kv. entry_redaction provenance imageEnv kv = None) env,
      sortedRedactions (put_all (List.map_filter (entry_redaction provenance imageEnv) env) (put_all existing [])))"

definition redact_map ::
  "str_map \<Rightarrow> str_map option \<Rightarrow> str_map \<Rightarrow> str_map \<Rightarrow> str_map \<times> str_map" where
  "redact_map provenance imageEnv env existing =
     (filter (\<lambda>(k, v). fst (ClassifyEnv provenance imageEnv k v)) env,
      sortedRedactions
        (put_all (map (\<lambda>(k, v). (k, snd (ClassifyEnv provenance imageEnv k v)))
             (filter (\<lambda>(k, v). \<not> fst (ClassifyEnv provenance imageEnv k v)) env)) (put_all existing [])))"

definition redactRecord :: "release_record \<Rightarrow> release_record" where
  "redactRecord r =
     (let p = rr_EnvProvenance r; im = rr_ImageEnv r;
          rc = map_option (\<lambda>(env, red). redactEnvList p im env red) (rr_Recreate r);
          (kept, red) = (if rr_Env r \<noteq> [] \<or> rr_EnvRedacted r \<noteq> []
                         then redact_map p im (rr_Env r) (rr_EnvRedacted r)
                         else (rr_Env r, rr_EnvRedacted r))
      in r\<lparr>rr_Recreate := rc, rr_Env := kept, rr_EnvRedacted := red\<rparr>)"

text \<open>\<open>Write\<close>: the path and the record it uploads; provenance and image environment are not part of the file.\<close>

definition WriteRelease :: "int \<Rightarrow> release_record option \<Rightarrow> (release_error, string \<times> release_record) result" where
  "WriteRelease now rec =
     (case rec of
        None \<Rightarrow> Inl RecordIncomplete
      | Some r0 \<Rightarrow>
          (let r = (if rr_SchemaVersion r0 = 0 then r0\<lparr>rr_SchemaVersion := ReleaseSchemaVersion\<rparr> else r0)
           in if rr_SchemaVersion r \<noteq> ReleaseSchemaVersion then Inl (RecordSchema (rr_SchemaVersion r))
              else if rr_App r = [] \<or> rr_Hash r = [] then Inl RecordIncomplete
              else
                (let r = (if rr_CreatedAt r = None then r\<lparr>rr_CreatedAt := Some now\<rparr> else r)
                 in case Path (rr_App r) (rr_Hash r) of
                      None \<Rightarrow> Inl BadReleaseName
                    | Some path \<Rightarrow>
                        Inr (path, (redactRecord r)\<lparr>rr_EnvProvenance := [], rr_ImageEnv := None\<rparr>))))"

lemma put_keys: "fst ` set (put k v m) = insert k (fst ` set m)"
  by (force simp: put_def)

lemma put_distinct: "distinct (map fst m) \<Longrightarrow> distinct (map fst (put k v m))"
proof -
  have "distinct (map fst m) \<Longrightarrow> distinct (map fst (filter P m))" for P
    by (induction m) auto
  then show "distinct (map fst m) \<Longrightarrow> distinct (map fst (put k v m))"
    by (auto simp: put_def)
qed

lemma put_all_Cons: "put_all ((k, v) # kvs) m = put_all kvs (put k v m)"
  by (simp add: put_all_def)

lemma put_all_Nil [simp]: "put_all [] m = m"
  by (simp add: put_all_def)

lemma put_all_keys: "fst ` set (put_all kvs m) = fst ` set kvs \<union> fst ` set m"
proof (induction kvs arbitrary: m)
  case (Cons kv kvs)
  then show ?case by (cases kv) (simp add: put_all_Cons put_keys)
qed simp

lemma put_all_distinct: "distinct (map fst m) \<Longrightarrow> distinct (map fst (put_all kvs m))"
proof (induction kvs arbitrary: m)
  case (Cons kv kvs)
  then show ?case by (cases kv) (simp add: put_all_Cons put_distinct)
qed simp

lemma put_all_fresh: "distinct (map fst (m @ kvs)) \<Longrightarrow> put_all kvs m = m @ kvs"
proof (induction kvs arbitrary: m)
  case (Cons kv kvs)
  obtain k v where kv: "kv = (k, v)" by (rule prod.exhaust)
  have "filter (\<lambda>(a, _). a \<noteq> k) m = m"
    using Cons.prems kv by (intro filter_True) (force)
  then have "put k v m = m @ [(k, v)]"
    by (simp add: put_def)
  with Cons kv show ?case
    by (simp add: put_all_Cons)
qed simp

definition redactions_normal :: "str_map \<Rightarrow> bool" where
  "redactions_normal red \<longleftrightarrow> sorted (map fst red) \<and> distinct (map fst red)"

lemma sortedRedactions_normal: "distinct (map fst m) \<Longrightarrow> redactions_normal (sortedRedactions m)"
  by (simp add: redactions_normal_def sortedRedactions_def distinct_map)

lemma redactions_normal_fixpoint:
  "redactions_normal red \<Longrightarrow> sortedRedactions (put_all red []) = red"
  by (simp add: redactions_normal_def sortedRedactions_def put_all_fresh sort_key_id_if_sorted)

lemma redactEnvList_idem:
  assumes "redactEnvList p im env ex = (kept, red)"
  shows "redactEnvList p im kept red = (kept, red)"
proof -
  let ?r = "entry_redaction p im"
  have kept: "kept = filter (\<lambda>kv. ?r kv = None) env"
    and red: "red = sortedRedactions (put_all (List.map_filter ?r env) (put_all ex []))"
    using assms by (simp_all add: redactEnvList_def)
  have "List.map_filter ?r kept = []"
    unfolding kept by (induction env) (auto simp: List.map_filter_simps)
  moreover have "redactions_normal red"
    unfolding red by (intro sortedRedactions_normal put_all_distinct) simp
  ultimately show ?thesis
    by (simp add: redactEnvList_def redactions_normal_fixpoint) (simp add: kept)
qed

lemma redact_map_idem:
  assumes "redact_map p im env ex = (kept, red)"
  shows "redact_map p im kept red = (kept, red)"
proof -
  have kept: "kept = filter (\<lambda>(k, v). fst (ClassifyEnv p im k v)) env"
    using assms by (simp add: redact_map_def)
  have "filter (\<lambda>(k, v). \<not> fst (ClassifyEnv p im k v)) kept = []"
    unfolding kept by (auto simp: filter_empty_conv)
  moreover have "redactions_normal red"
    using assms unfolding redact_map_def
    by (auto intro!: sortedRedactions_normal put_all_distinct)
  ultimately show ?thesis
    by (simp add: redact_map_def redactions_normal_fixpoint) (simp add: kept)
qed

lemma redactRecord_idem: "redactRecord (redactRecord r) = redactRecord r"
proof -
  let ?p = "rr_EnvProvenance r" and ?im = "rr_ImageEnv r"
  obtain kept red where m: "redact_map ?p ?im (rr_Env r) (rr_EnvRedacted r) = (kept, red)"
    by (rule prod.exhaust)
  note m' = redact_map_idem [OF m]
  have rc: "map_option (\<lambda>(env, red). redactEnvList ?p ?im env red)
          (map_option (\<lambda>(env, red). redactEnvList ?p ?im env red) x)
        = map_option (\<lambda>(env, red). redactEnvList ?p ?im env red) x" for x
    by (cases x) (auto simp: redactEnvList_idem split: prod.split)
  show ?thesis
    by (simp add: redactRecord_def Let_def m m' rc)
qed

text \<open>
  Why a value may be persisted: its source is plain configuration, the image or the runtime, its
  key does not look like a credential's unless the runtime sets it, and it carries no password in
  a URL.
\<close>

definition persistable :: "str_map \<Rightarrow> str_map option \<Rightarrow> string \<times> string \<Rightarrow> bool" where
  "persistable p im kv \<longleftrightarrow>
     (\<exists>s \<in> set plain_sources. env_source p im (fst kv) (snd kv) = Some s
        \<and> (s = EnvSourceRuntime \<or> \<not> secretKeyName (fst kv)))
     \<and> \<not> hasURLCredentials (snd kv)"

lemma ClassifyEnv_persistable: "fst (ClassifyEnv p im k v) \<longleftrightarrow> persistable p im (k, v)"
  by (auto simp: ClassifyEnv_def persistable_def split: option.splits)

lemma entry_redaction_persistable:
  "entry_redaction p im kv = None \<longleftrightarrow> (\<forall>k v. cut_eq kv = Some (k, v) \<longrightarrow> persistable p im (k, v))"
  by (auto simp: entry_redaction_def ClassifyEnv_persistable [symmetric] split: option.splits prod.splits)


definition demo_release :: release_record where
  "demo_release = blank_release\<lparr>rr_SchemaVersion := 1, rr_App := ''shop'', rr_Hash := ''v1'', rr_CreatedAt := Some 0,
     rr_Generation := 7, rr_Processes := [(''web'', [])],
     rr_Env := [(''LEVEL'', ''debug''), (''DB'', ''postgres://u:pw@db/x''), (''API_KEY'', ''k''), (''BARE'', ''x'')],
     rr_EnvRedacted := [], rr_Recreate := Some ([''LEVEL=debug'', ''STRIPE=sk'', ''FLAG''], []),
     rr_Publish := [], rr_Ports := [],
     rr_EnvProvenance := [(''LEVEL'', ''config''), (''DB'', ''config''), (''API_KEY'', ''config''), (''STRIPE'', ''vault'')],
     rr_ImageEnv := None\<rparr>"

lemma demo_release_written:
  "WriteRelease 0 (Some demo_release) = Inr (''/deployments/shop/meta/v1.json'',
     blank_release\<lparr>rr_SchemaVersion := 1, rr_App := ''shop'', rr_Hash := ''v1'', rr_CreatedAt := Some 0,
     rr_Generation := 7, rr_Processes := [(''web'', [])],
     rr_Env := [(''LEVEL'', ''debug'')],
     rr_EnvRedacted := [(''API_KEY'', ''name_pattern''), (''BARE'', ''unclassified''), (''DB'', ''credential_url'')],
     rr_Recreate := Some ([''LEVEL=debug'', ''FLAG''], [(''STRIPE'', ''vault'')]),
     rr_Publish := [], rr_Ports := [], rr_EnvProvenance := [], rr_ImageEnv := None\<rparr>)"
  by code_simp


text \<open>A credential before a host without a scheme reads as an opaque URL and is not seen.\<close>

lemma scheme_less_credentials_missed: "\<not> hasURLCredentials ''user:pw@db.example/app''"
  by code_simp

section \<open>Attempts\<close>

record Attempt =
  at_App :: string
  at_Hash :: string
  at_ID :: string

text \<open>\<open>NewAttempt\<close> with the eight random bytes as their hexadecimal text.\<close>

definition NewAttempt :: "string \<Rightarrow> string \<Rightarrow> string \<Rightarrow> Attempt option" where
  "NewAttempt app hash random =
     (if ValidateName app \<and> validHash hash
      then Some \<lparr>at_App = app, at_Hash = hash, at_ID = random\<rparr> else None)"

definition Attempt_Name :: "Attempt \<Rightarrow> string" where
  "Attempt_Name a = at_Hash a @ ''.'' @ at_ID a"

definition attemptRoot :: "string \<Rightarrow> string" where
  "attemptRoot app = ''/deployments/'' @ app @ ''/meta/att''"

definition Attempt_Dir :: "Attempt \<Rightarrow> string" where
  "Attempt_Dir a = ''/deployments/'' @ at_App a @ ''/meta/att/'' @ Attempt_Name a"

definition Attempt_BuildDir :: "Attempt \<Rightarrow> string" where
  "Attempt_BuildDir a = Attempt_Dir a @ ''/build''"

definition Attempt_EnvFile :: "Attempt \<Rightarrow> string" where
  "Attempt_EnvFile a = Attempt_Dir a @ ''/env''"

definition tlsAttemptRootFor :: "string \<Rightarrow> string" where
  "tlsAttemptRootFor app = ''/deployments/caddy/tls/att/'' @ app"

definition Attempt_TLSDir :: "Attempt \<Rightarrow> string" where
  "Attempt_TLSDir a = tlsAttemptRootFor (at_App a) @ ''/'' @ Attempt_Name a"

definition Attempt_TLSCertPath :: "Attempt \<Rightarrow> string" where
  "Attempt_TLSCertPath a = ''/etc/caddy/tls/att/'' @ at_App a @ ''/'' @ Attempt_Name a @ ''/'' @ at_App a @ ''.crt''"

definition Attempt_TLSKeyPath :: "Attempt \<Rightarrow> string" where
  "Attempt_TLSKeyPath a = ''/etc/caddy/tls/att/'' @ at_App a @ ''/'' @ Attempt_Name a @ ''/'' @ at_App a @ ''.key''"

definition attempt_id :: "string \<Rightarrow> bool" where
  "attempt_id s \<longleftrightarrow> length s = 16 \<and> list_all (\<lambda>c. is_digit c \<or> (CHR ''a'' \<le> c \<and> c \<le> CHR ''f'')) s"

text \<open>\<open>attemptDirRE\<close>: the last seventeen characters are the dot and the id.\<close>

definition parse_attempt :: "string \<Rightarrow> (string \<times> string) option" where
  "parse_attempt name =
     (let n = length name - 17; hash = take n name; rest = drop n name
      in if 17 \<le> length name \<and> hd rest = CHR ''.'' \<and> attempt_id (tl rest) \<and> validHash hash
         then Some (hash, tl rest) else None)"

definition keepAttemptsPerHash :: nat where
  "keepAttemptsPerHash = 2"

text \<open>\<open>listAttemptsByMtime\<close>: the non-blank lines of the listing, newest first.\<close>

definition listAttemptsByMtime :: "string \<Rightarrow> string list" where
  "listAttemptsByMtime out = filter (\<lambda>l. l \<noteq> []) (map trim_space (lines_of out))"

text \<open>The names one root loses; \<open>kept\<close> counts the attempts seen of each kept hash.\<close>

fun doomed_attempts :: "string list \<Rightarrow> (string \<Rightarrow> nat) \<Rightarrow> string list \<Rightarrow> string list" where
  "doomed_attempts keep kept [] = []"
| "doomed_attempts keep kept (n # ns) =
     (case parse_attempt n of
        None \<Rightarrow> doomed_attempts keep kept ns
      | Some (h, _) \<Rightarrow>
          if h \<in> set keep then
            (let k = kept h + 1; kept' = kept(h := k)
             in if k \<le> keepAttemptsPerHash then doomed_attempts keep kept' ns
                else n # doomed_attempts keep kept' ns)
          else n # doomed_attempts keep kept ns)"

text \<open>
  \<open>PruneAttempts\<close>: \<open>list_root\<close> is what listing a root prints (or that it failed), \<open>rm_fails\<close> says
  which removals fail.  The result: the paths removed, and whether the prune reports no error.
\<close>

definition prune_root ::
  "string list \<Rightarrow> (string \<Rightarrow> bool) \<Rightarrow> string \<Rightarrow> string \<Rightarrow> string list \<times> bool" where
  "prune_root keep rm_fails root out =
     (let doomed = map (\<lambda>n. root @ ''/'' @ n)
            (doomed_attempts (filter (\<lambda>h. h \<noteq> []) keep) (\<lambda>_. 0) (listAttemptsByMtime out))
      in (filter (\<lambda>p. \<not> rm_fails p) doomed, \<not> list_ex rm_fails doomed))"

definition PruneAttempts ::
  "(string \<Rightarrow> string option) \<Rightarrow> (string \<Rightarrow> bool) \<Rightarrow> string \<Rightarrow> string list \<Rightarrow> string list \<times> bool" where
  "PruneAttempts list_root rm_fails app keep =
     (case list_root (attemptRoot app) of
        None \<Rightarrow> ([], False)
      | Some out1 \<Rightarrow>
          (let (gone1, ok1) = prune_root keep rm_fails (attemptRoot app) out1
           in case list_root (tlsAttemptRootFor app) of
                None \<Rightarrow> (gone1, False)
              | Some out2 \<Rightarrow>
                  (let (gone2, ok2) = prune_root keep rm_fails (tlsAttemptRootFor app) out2
                   in (gone1 @ gone2, ok1 \<and> ok2))))"

text \<open>\<open>previousAttemptSubDir\<close>: the newest other attempt whose directory exists.\<close>

definition previousAttemptSubDir ::
  "string option \<Rightarrow> (string \<Rightarrow> bool) \<Rightarrow> string \<Rightarrow> string \<Rightarrow> string \<Rightarrow> string" where
  "previousAttemptSubDir listing exists app excludeID sub =
     (case listing of
        None \<Rightarrow> []
      | Some out \<Rightarrow>
          (case find (\<lambda>n. (case parse_attempt n of None \<Rightarrow> False | Some (_, i) \<Rightarrow> i \<noteq> excludeID)
                  \<and> exists (attemptRoot app @ ''/'' @ n @ ''/'' @ sub)) (listAttemptsByMtime out) of
             None \<Rightarrow> [] | Some n \<Rightarrow> attemptRoot app @ ''/'' @ n @ ''/'' @ sub))"

text \<open>\<open>AttemptEnvFiles\<close>\<close>

definition attempt_env_file :: "string \<Rightarrow> string \<Rightarrow> bool" where
  "attempt_env_file app f \<longleftrightarrow>
     (case cut_prefix (''/deployments/'' @ app @ ''/meta/att/'') f of
        None \<Rightarrow> False
      | Some rest \<Rightarrow>
          suffix ''/env'' rest
          \<and> (let name = trim_suffix ''/env'' rest
             in name \<noteq> [] \<and> CHR ''/'' \<notin> set name \<and> \<not> contains_str ''..'' name))"

definition AttemptEnvFiles :: "string \<Rightarrow> string list \<Rightarrow> string list" where
  "AttemptEnvFiles app envFiles = filter (attempt_env_file app) envFiles"

section \<open>What pruning attempts leaves\<close>

definition of_hash :: "string \<Rightarrow> string \<Rightarrow> bool" where
  "of_hash h n \<longleftrightarrow> (\<exists>i. parse_attempt n = Some (h, i))"

lemma doomed_subset: "set (doomed_attempts keep kept ns) \<subseteq> set ns"
proof (induction ns arbitrary: kept)
  case (Cons n ns)
  have "set (doomed_attempts keep k ns) \<subseteq> set (n # ns)" for k
    using Cons.IH [of k] by auto
  then show ?case
    by (simp add: Let_def split: option.split prod.split)
qed simp

lemma of_hash_ex: "(\<exists>h. of_hash h n \<and> Q h) \<longleftrightarrow> (case parse_attempt n of None \<Rightarrow> False | Some (h, _) \<Rightarrow> Q h)"
  by (auto simp: of_hash_def split: option.splits)

lemma doomed_iff:
  assumes "distinct (xs @ n # ys)"
  shows "n \<in> set (doomed_attempts keep kept (xs @ n # ys)) \<longleftrightarrow>
    (\<exists>h. of_hash h n \<and> (h \<notin> set keep \<or> keepAttemptsPerHash \<le> kept h + length (filter (of_hash h) xs)))"
  using assms
proof (induction xs arbitrary: kept)
  case Nil
  then have "n \<notin> set (doomed_attempts keep k ys)" for k
    using doomed_subset by auto
  then show ?case
    by (auto simp: of_hash_def Let_def split: option.splits)
next
  case (Cons x xs)
  then have IH: "n \<in> set (doomed_attempts keep k (xs @ n # ys)) \<longleftrightarrow>
      (\<exists>h. of_hash h n \<and> (h \<notin> set keep \<or> keepAttemptsPerHash \<le> k h + length (filter (of_hash h) xs)))" for k
    by auto
  have nx: "n \<noteq> x" using Cons.prems by auto
  show ?case
  proof (cases "parse_attempt x")
    case None
    then have "\<not> of_hash h x" for h by (simp add: of_hash_def)
    with None IH show ?thesis by simp
  next
    case (Some hi)
    obtain g j where hi: "hi = (g, j)" by (rule prod.exhaust)
    have x: "of_hash h x \<longleftrightarrow> h = g" for h
      using Some hi by (auto simp: of_hash_def)
    show ?thesis
      using Some hi nx x IH unfolding of_hash_ex
      by (cases "parse_attempt n") (auto simp: Let_def split: if_splits)
  qed
qed

lemma attempt_id_dot: "attempt_id s \<Longrightarrow> CHR ''.'' \<notin> set s \<and> CHR ''/'' \<notin> set s"
  by (auto simp: attempt_id_def list_all_iff is_digit_def less_eq_char_def)

lemma parse_attempt_Name:
  assumes "NewAttempt app hash random = Some a" and "attempt_id random"
  shows "parse_attempt (Attempt_Name a) = Some (hash, random)"
proof -
  have "length random = 16" using assms(2) by (simp add: attempt_id_def)
  with assms show ?thesis
    by (auto simp: NewAttempt_def parse_attempt_def Attempt_Name_def split: if_splits)
qed

text \<open>
  C28. Which attempts a prune of one root takes, exactly: of the distinct entries listed newest
  first, an entry that does not parse as an attempt stays, one of a hash not kept goes, and one of
  a kept hash goes exactly when two newer entries of that hash come before it; and the name of a
  new attempt parses back into its hash and its id, so the artifacts of the two newest attempts of
  every kept release survive.
\<close>

theorem prune_attempts_exact:
  assumes "distinct (xs @ n # ys)"
  shows "(n \<in> set (doomed_attempts keep (\<lambda>_. 0) (xs @ n # ys)) \<longleftrightarrow>
      (case parse_attempt n of
         None \<Rightarrow> False
       | Some (h, _) \<Rightarrow> h \<notin> set keep
           \<or> 2 \<le> length (filter (\<lambda>m. case parse_attempt m of None \<Rightarrow> False | Some (g, _) \<Rightarrow> g = h) xs)))
    \<and> (\<forall>app hash random a. NewAttempt app hash random = Some a \<longrightarrow> attempt_id random \<longrightarrow>
         parse_attempt (Attempt_Name a) = Some (hash, random))"
proof (intro conjI allI impI)
  have "(\<lambda>m. case parse_attempt m of None \<Rightarrow> False | Some (g, _) \<Rightarrow> g = h) = of_hash h" for h
    by (auto simp: of_hash_def fun_eq_iff split: option.splits)
  then show "n \<in> set (doomed_attempts keep (\<lambda>_. 0) (xs @ n # ys)) \<longleftrightarrow>
      (case parse_attempt n of
         None \<Rightarrow> False
       | Some (h, _) \<Rightarrow> h \<notin> set keep
           \<or> 2 \<le> length (filter (\<lambda>m. case parse_attempt m of None \<Rightarrow> False | Some (g, _) \<Rightarrow> g = h) xs))"
    using doomed_iff [OF assms, of keep "\<lambda>_. 0"]
    unfolding of_hash_ex by (auto simp: keepAttemptsPerHash_def split: option.split)
qed (rule parse_attempt_Name)

theorem prune_attempts_exact_witness:
  "''v1.00000000000000ab'' \<notin> set (doomed_attempts [''v1''] (\<lambda>_. 0)
      ([''v1.00000000000000aa'', ''notes''] @ ''v1.00000000000000ab'' # [''v1.00000000000000ac'', ''v2.00000000000000ad'']))"
proof -
  have d: "distinct ([''v1.00000000000000aa'', ''notes''] @ ''v1.00000000000000ab''
      # [''v1.00000000000000ac'', ''v2.00000000000000ad''])" by simp
  have "parse_attempt ''v1.00000000000000ab'' = Some (''v1'', ''00000000000000ab'')"
    "parse_attempt ''v1.00000000000000aa'' = Some (''v1'', ''00000000000000aa'')"
    "parse_attempt ''notes'' = None" by code_simp+
  with prune_attempts_exact [OF d, of "[''v1'']"] show ?thesis by simp
qed

text \<open>
  A release id may contain two dots in a row, which the recognizer of attempt env files refuses
  as a path traversal: the plaintext env file of such an attempt is never removed after a deploy.
\<close>

lemma attempt_env_file_iff:
  assumes "NewAttempt app hash random = Some a" and "attempt_id random"
  shows "attempt_env_file app (Attempt_EnvFile a) \<longleftrightarrow> \<not> contains_str ''..'' (Attempt_Name a)"
proof -
  have a: "at_App a = app" "Attempt_Name a = hash @ ''.'' @ random" "validHash hash"
    using assms(1) by (auto simp: NewAttempt_def Attempt_Name_def split: if_splits)
  have "CHR ''/'' \<notin> set hash"
    using a(3) by (auto simp: validHash_def list_all_iff letter_def is_digit_def less_eq_char_def split: list.splits)
  then have "CHR ''/'' \<notin> set (Attempt_Name a)" and "Attempt_Name a \<noteq> []"
    using a(2) attempt_id_dot [OF assms(2)] by auto
  then show ?thesis
    by (simp add: attempt_env_file_def Attempt_EnvFile_def Attempt_Dir_def a(1) cut_prefix_def
        trim_suffix_def suffix_def)
qed

end
