(* ===== verification/Health.thy ===== *)
theory Health
  imports CaddyRender Server
begin

text \<open>
  The readiness gate of \<open>internal/deploy/health.go\<close>: the probe modes, the address and path checks of
  a probe, and the polling loop with its total deadline.  An attempt is given by what the commands
  it runs on the server answer and how long they take; attempt \<open>i\<close> of a gate is \<open>atts i\<close>.  Times
  are nanoseconds.
\<close>

section \<open>Configuration\<close>

record HealthConfig =
  hc_Mode :: string
  hc_Path :: string
  hc_Timeout :: int
  hc_Interval :: int

definition HealthModeHTTP :: string where "HealthModeHTTP = ''http''"
definition HealthModeTCP :: string where "HealthModeTCP = ''tcp''"
definition HealthModeAuto :: string where "HealthModeAuto = ''auto''"

definition withDefaults :: "HealthConfig \<Rightarrow> HealthConfig" where
  "withDefaults h =
     \<lparr>hc_Mode = (if hc_Mode h = [] then HealthModeAuto else hc_Mode h),
      hc_Path = (if hc_Path h = [] then ''/health'' else hc_Path h),
      hc_Timeout = (if hc_Timeout h = 0 then 30 * second else hc_Timeout h),
      hc_Interval = (if hc_Interval h = 0 then second else hc_Interval h)\<rparr>"

definition defaultHealthConfig :: HealthConfig where
  "defaultHealthConfig = withDefaults \<lparr>hc_Mode = [], hc_Path = [], hc_Timeout = 0, hc_Interval = 0\<rparr>"

definition healthProbeHost :: "string \<Rightarrow> string" where
  "healthProbeHost bindHost =
     (if bindHost \<in> {[], ''0.0.0.0'', ''::'', ''[::]''} then ''localhost'' else bindHost)"

section \<open>One attempt\<close>

text \<open>
  The answers of the two commands an attempt may run: what curl printed (\<open>None\<close> when the command
  failed) and whether the TCP probe exited with 0; and the time the attempt took.
\<close>

record attempt =
  at_curl :: "string option"
  at_dial :: bool
  at_took :: int

definition trim_brackets :: "string \<Rightarrow> string" where
  "trim_brackets s =
     trim_right (\<lambda>c. c = CHR ''['' \<or> c = CHR '']'') (trim_left (\<lambda>c. c = CHR ''['' \<or> c = CHR '']'') s)"

definition probe_host_ok :: "string \<Rightarrow> bool" where
  "probe_host_ok host \<longleftrightarrow> trim_brackets host = ''localhost'' \<or> parseIP (trim_brackets host)"

text \<open>Whether a URL can be built; its text goes to curl as one quoted argument.\<close>

definition probeURL :: "string \<Rightarrow> int \<Rightarrow> string \<Rightarrow> bool" where
  "probeURL host port path \<longleftrightarrow>
     1 \<le> port \<and> port \<le> 65535 \<and> probe_host_ok host
     \<and> prefix ''/'' path \<and> \<not> prefix ''//'' path
     \<and> list_all (\<lambda>c. c \<noteq> CHR 0x0D \<and> c \<noteq> CHR 0x0A \<and> c \<noteq> CHR 0x00) path
     \<and> request_uri_ok path"

definition httpStatus :: "attempt \<Rightarrow> string \<Rightarrow> int \<Rightarrow> string \<Rightarrow> string" where
  "httpStatus a host port path =
     (if \<not> probeURL host port path then []
      else (case at_curl a of None \<Rightarrow> [] | Some out \<Rightarrow> trim_space out))"

text \<open>\<open>TCPProbeCommand\<close> refuses a host that is no address and a port out of range.\<close>

definition TCPProbeCommand :: "string \<Rightarrow> int \<Rightarrow> bool" where
  "TCPProbeCommand host port \<longleftrightarrow> probe_host_ok host \<and> 1 \<le> port \<and> port \<le> 65535"

definition checkTCP :: "attempt \<Rightarrow> string \<Rightarrow> int \<Rightarrow> bool" where
  "checkTCP a host port \<longleftrightarrow> TCPProbeCommand host port \<and> at_dial a"

definition checkHTTP :: "attempt \<Rightarrow> string \<Rightarrow> int \<Rightarrow> string \<Rightarrow> bool" where
  "checkHTTP a host port path \<longleftrightarrow> httpStatus a host port path = ''200''"

definition checkHealth :: "attempt \<Rightarrow> string \<Rightarrow> int \<Rightarrow> string \<Rightarrow> bool" where
  "checkHealth a host port path =
     (let code = httpStatus a host port path
      in if code = ''200'' then True
         else if code = ''404'' \<or> prefix ''3'' code then checkTCP a host port
         else False)"

definition probeOnce :: "HealthConfig \<Rightarrow> string \<Rightarrow> int \<Rightarrow> attempt \<Rightarrow> bool" where
  "probeOnce cfg host port a =
     (if hc_Mode cfg = HealthModeHTTP then checkHTTP a host port (hc_Path cfg)
      else if hc_Mode cfg = HealthModeTCP then checkTCP a host port
      else checkHealth a host port (hc_Path cfg))"

section \<open>The gate\<close>

text \<open>
  A command takes some time, and \<open>time.After\<close> of a negative interval fires at once.  An attempt
  that outlives the deadline is cancelled with the context and fails; after a failed attempt the
  wait for the interval ends the gate when the deadline comes first.  The result: whether the gate
  passed, and the number of attempts.
\<close>

definition took :: "attempt \<Rightarrow> int" where
  "took a = max 1 (at_took a)"

definition pause :: "HealthConfig \<Rightarrow> int" where
  "pause cfg = max 0 (hc_Interval cfg)"

function health_loop ::
  "HealthConfig \<Rightarrow> string \<Rightarrow> int \<Rightarrow> (nat \<Rightarrow> attempt) \<Rightarrow> nat \<Rightarrow> int \<Rightarrow> bool \<times> nat" where
  "health_loop cfg host port atts i t =
     (let t1 = t + took (atts i)
      in if t1 \<le> hc_Timeout cfg \<and> probeOnce cfg host port (atts i) then (True, Suc i)
         else if hc_Timeout cfg \<le> t1 + pause cfg then (False, Suc i)
         else health_loop cfg host port atts (Suc i) (t1 + pause cfg))"
  by pat_completeness auto
termination
  by (relation "measure (\<lambda>(cfg, host, port, atts, i, t). nat (hc_Timeout cfg - t))")
     (auto simp: took_def pause_def)

declare health_loop.simps [simp del]

definition healthCheck :: "HealthConfig \<Rightarrow> string \<Rightarrow> int \<Rightarrow> (nat \<Rightarrow> attempt) \<Rightarrow> bool" where
  "healthCheck cfg bindHost port atts =
     fst (health_loop (withDefaults cfg) (healthProbeHost bindHost) port atts 0 0)"

definition HealthCheckAtWithConfig ::
  "HealthConfig \<Rightarrow> int \<Rightarrow> string \<Rightarrow> (string \<Rightarrow> string) \<Rightarrow> (nat \<Rightarrow> attempt) \<Rightarrow> bool" where
  "HealthCheckAtWithConfig cfg port containerName hostBindIP atts =
     healthCheck cfg (if containerName = [] then [] else hostBindIP containerName) port atts"

definition HealthCheckPublic :: "int \<Rightarrow> (nat \<Rightarrow> attempt) \<Rightarrow> bool" where
  "HealthCheckPublic port atts = healthCheck defaultHealthConfig [] port atts"

section \<open>What the gate decides\<close>

text \<open>When attempt \<open>i\<close> begins, if the gate gets that far.\<close>

definition attempt_start :: "HealthConfig \<Rightarrow> (nat \<Rightarrow> attempt) \<Rightarrow> nat \<Rightarrow> int" where
  "attempt_start cfg atts i = (\<Sum>j<i. took (atts j) + pause cfg)"

definition in_time :: "HealthConfig \<Rightarrow> string \<Rightarrow> int \<Rightarrow> (nat \<Rightarrow> attempt) \<Rightarrow> nat \<Rightarrow> bool" where
  "in_time cfg host port atts i \<longleftrightarrow>
     attempt_start cfg atts i + took (atts i) \<le> hc_Timeout cfg \<and> probeOnce cfg host port (atts i)"

lemma took_pos: "1 \<le> took a" "0 \<le> pause cfg"
  by (simp_all add: took_def pause_def)

lemma attempt_start_Suc: "attempt_start cfg atts (Suc i) = attempt_start cfg atts i + took (atts i) + pause cfg"
  by (simp add: attempt_start_def algebra_simps)

lemma attempt_start_mono: "i \<le> j \<Longrightarrow> attempt_start cfg atts i \<le> attempt_start cfg atts j"
proof (induction j)
  case (Suc j)
  then show ?case
    using took_pos(1) [of "atts j"] took_pos(2) [of cfg]
    by (cases "i = Suc j") (auto simp: attempt_start_Suc)
qed simp

lemma attempt_start_lower: "int i * (1 + pause cfg) \<le> attempt_start cfg atts i"
proof (induction i)
  case (Suc i)
  then show ?case
    using took_pos(1) [of "atts i"] by (simp add: attempt_start_Suc algebra_simps)
qed (simp add: attempt_start_def)

lemma ex_from: "(\<exists>j\<ge>i. P j) \<longleftrightarrow> P i \<or> (\<exists>j\<ge>Suc i. P j)" for i :: nat
proof -
  have "i \<le> j \<longleftrightarrow> j = i \<or> Suc i \<le> j" for j by linarith
  then show ?thesis by auto
qed

lemma health_loop_spec:
  "t = attempt_start cfg atts i \<Longrightarrow>
     (fst (health_loop cfg host port atts i t) \<longleftrightarrow> (\<exists>j\<ge>i. in_time cfg host port atts j))
     \<and> i < snd (health_loop cfg host port atts i t)
     \<and> (\<forall>j. i < j \<and> j < snd (health_loop cfg host port atts i t) \<longrightarrow> attempt_start cfg atts j < hc_Timeout cfg)"
proof (induction cfg host port atts i t rule: health_loop.induct)
  case (1 cfg host port atts i t)
  let ?t1 = "t + took (atts i)" and ?next = "t + took (atts i) + pause cfg"
  let ?res = "health_loop cfg host port atts i t" and ?rec = "health_loop cfg host port atts (Suc i) ?next"
  have start: "?next = attempt_start cfg atts (Suc i)"
    using 1(2) by (simp add: attempt_start_Suc)
  have now: "in_time cfg host port atts i \<longleftrightarrow> ?t1 \<le> hc_Timeout cfg \<and> probeOnce cfg host port (atts i)"
    using 1(2) by (simp add: in_time_def)
  have late: False if "hc_Timeout cfg \<le> ?next" "Suc i \<le> j" "in_time cfg host port atts j" for j
    using that took_pos(1) [of "atts j"] attempt_start_mono [OF that(2), of cfg atts] start
    by (simp add: in_time_def)
  have split: "(\<exists>j\<ge>i. in_time cfg host port atts j) \<longleftrightarrow>
      in_time cfg host port atts i \<or> (\<exists>j\<ge>Suc i. in_time cfg host port atts j)"
    by (rule ex_from)
  consider (ready) "in_time cfg host port atts i"
    | (over) "\<not> in_time cfg host port atts i" "hc_Timeout cfg \<le> ?next"
    | (again) "\<not> in_time cfg host port atts i" "\<not> hc_Timeout cfg \<le> ?next"
    by blast
  then show ?case
  proof cases
    case ready
    then have "?res = (True, Suc i)"
      using now by (subst health_loop.simps) (simp add: Let_def)
    with ready split show ?thesis by simp
  next
    case over
    then have "?res = (False, Suc i)"
      using now by (subst health_loop.simps) (simp add: Let_def)
    with over(1) late [OF over(2)] split show ?thesis by auto
  next
    case again
    then have eq: "?res = ?rec"
      using now by (subst health_loop.simps) (auto simp: Let_def)
    have IH: "(fst ?rec \<longleftrightarrow> (\<exists>j\<ge>Suc i. in_time cfg host port atts j)) \<and> Suc i < snd ?rec
        \<and> (\<forall>j. Suc i < j \<and> j < snd ?rec \<longrightarrow> attempt_start cfg atts j < hc_Timeout cfg)"
      using again now by (intro "1.IH" [OF refl _ _ start]) auto
    have "attempt_start cfg atts j < hc_Timeout cfg" if "i < j" "j < snd ?rec" for j
      using IH that again(2) start by (cases "j = Suc i") auto
    with IH again(1) split show ?thesis unfolding eq by auto
  qed
qed

text \<open>
  C40. The readiness gate passes exactly when some attempt, counted from the first and each started
  one interval after the end of the one before, both succeeds and ends within the total timeout;
  no attempt begins at or after the deadline, and so the number of attempts is bounded by the
  timeout over the interval: the gate always returns.
\<close>

theorem healthCheck_iff:
  "let h = withDefaults cfg; host = healthProbeHost bind
   in (healthCheck cfg bind port atts \<longleftrightarrow>
        (\<exists>i. attempt_start h atts i + took (atts i) \<le> hc_Timeout h \<and> probeOnce h host port (atts i)))
      \<and> int (snd (health_loop h host port atts 0 0) - 1) * (1 + pause h) < max 1 (hc_Timeout h)"
proof -
  let ?h = "withDefaults cfg" and ?host = "healthProbeHost bind"
  let ?n = "snd (health_loop ?h ?host port atts 0 0)"
  have zero: "0 = attempt_start ?h atts 0" by (simp add: attempt_start_def)
  note spec = health_loop_spec [OF zero, of ?host port]
  have "int (?n - 1) * (1 + pause ?h) < max 1 (hc_Timeout ?h)"
  proof (cases "?n = 1")
    case False
    with spec have "attempt_start ?h atts (?n - 1) < hc_Timeout ?h" by auto
    with attempt_start_lower [of "?n - 1" ?h atts] show ?thesis by linarith
  qed simp
  with spec show ?thesis
    by (simp add: healthCheck_def in_time_def)
qed

end
