(* ===== verification/Workload.thy ===== *)
theory Workload
  imports Releases Health
begin

text \<open>
  The container commands of a deploy that create and change containers
  (\<open>internal/docker/docker.go\<close>: run, start, exec; \<open>internal/docker/recreate.go\<close>: the fenced
  recreation) and the helpers of \<open>internal/deploy/deploy.go\<close> that judge a started container.  The
  daemon's side of a \<open>docker run\<close> is the record \<open>docker_env\<close>: what it refuses, whether a created
  container starts, and the ID it gives.  What a recreated container needs beside its name, image
  and labels is not carried; whether it can be represented on a command line is \<open>dk_represents\<close>.
\<close>

section \<open>Commands that fail after an effect\<close>

text \<open>
  A job performs its effects and then answers, with a value or with an error of its own.  The
  caller of a lost job learns nothing, and a prefix of its effects has landed.
\<close>

type_synonym ('s, 'e, 'a) job = "'s \<Rightarrow> 's effect list \<times> ('e, 'a) result"

definition run_job :: "('s, 'e, 'a) job \<Rightarrow> 's world \<Rightarrow> ('e option, 'a) result \<times> 's world" where
  "run_job j w =
     (let env = next_env w; d = fst env (dir w); rest = tl (script w); (effs, r) = j d
      in case snd env of
           Delivered \<Rightarrow> (map_sum Some id r, \<lparr>dir = fold id effs d, script = rest\<rparr>)
         | Lost k \<Rightarrow> (Inl None, \<lparr>dir = fold id (take k effs) d, script = rest\<rparr>))"

lemma run_job_script [simp]: "script (snd (run_job j w)) = tl (script w)"
  by (simp add: run_job_def Let_def split_beta split: answer.split)

lemma run_job_stable: "stable P w \<Longrightarrow> stable P (snd (run_job j w))"
  by (auto simp: stable_def dest: in_set_tl)

lemma run_job_invariant:
  assumes "stable P w" and "P (dir w)"
    and "\<And>d e d'. P d \<Longrightarrow> e \<in> set (fst (j d)) \<Longrightarrow> P d' \<Longrightarrow> P (e d')"
  shows "P (dir (snd (run_job j w)))"
proof -
  let ?d = "fst (next_env w) (dir w)"
  have P: "P ?d" using assms(1,2) by (rule next_env_stable)
  have "P (fold id xs ?d)" if "set xs \<subseteq> set (fst (j ?d))" for xs
    by (rule fold_id_invariant [where P = P]) (use that assms(3) [OF P] P in blast)+
  from this [of "fst (j ?d)"] this [OF set_take_subset] show ?thesis
    by (simp add: run_job_def Let_def split_beta split: answer.split)
qed

section \<open>Creating a container\<close>

record docker_env =
  dk_refuses :: daemon
  dk_starts :: "string \<Rightarrow> docker_host \<Rightarrow> bool"
  dk_new_id :: "docker_host \<Rightarrow> string"
  dk_created :: stamp
  dk_represents :: "Container \<Rightarrow> bool"

text \<open>
  A new ID is none in use and no container's name: the 64 hexadecimal digits docker draws at
  random.
\<close>

definition fresh_ids :: "docker_env \<Rightarrow> bool" where
  "fresh_ids dk \<longleftrightarrow>
     (\<forall>d. dk_new_id dk d \<noteq> []
        \<and> (\<forall>c \<in> set (dh_containers d). ct_ID c \<noteq> dk_new_id dk d \<and> ct_Name c \<noteq> dk_new_id dk d))"

record RunConfig =
  rn_App :: string
  rn_Process :: string
  rn_Version :: string
  rn_Image :: string
  rn_Port :: int
  rn_BindHost :: string
  rn_ContainerPort :: int
  rn_Publish :: "string list"
  rn_EnvFiles :: "string list"
  rn_Env :: str_map
  rn_Volumes :: str_map
  rn_Cmd :: string
  rn_Memory :: string
  rn_CPU :: string
  rn_Name :: string
  rn_Runtime :: string
  rn_SecurityOpt :: "string list"
  rn_NoHealthcheck :: bool
  rn_Generation :: gen

definition join_host_port :: "string \<Rightarrow> string \<Rightarrow> string" where
  "join_host_port host port =
     (if CHR '':'' \<in> set host then ''['' @ host @ '']:'' @ port else host @ '':'' @ port)"

definition publishBinding :: "string \<Rightarrow> int \<Rightarrow> int \<Rightarrow> string option" where
  "publishBinding bind hostPort containerPort =
     (let normalized = trim_suffix '']'' (trim_prefix ''['' bind)
      in if \<not> parseIP normalized then None
         else if hostPort < 1 \<or> hostPort > 65535 then None
         else if containerPort < 1 \<or> containerPort > 65535 then None
         else Some (join_host_port normalized (int_to_string hostPort) @ '':'' @ int_to_string containerPort))"

datatype run_error =
    RunIncomplete
  | RunBadBinding
  | RunOccupied
  | RunClearFailed exec_error
  | NameInUse
  | RunFenced
  | RunRefused
  | StartRefused
  | RunTransport

definition run_name :: "RunConfig \<Rightarrow> string" where
  "run_name cfg =
     (if rn_Name cfg = [] then ContainerName (rn_App cfg) (rn_Process cfg) (rn_Version cfg) else rn_Name cfg)"

definition run_labels :: "RunConfig \<Rightarrow> labels" where
  "run_labels cfg =
     [(''teploy.app'', rn_App cfg), (''teploy.process'', rn_Process cfg), (''teploy.version'', rn_Version cfg)]
     @ (if 0 < rn_Generation cfg then [(GenerationLabelName, nat_to_string (unat (rn_Generation cfg)))] else [])"

definition new_container :: "docker_env \<Rightarrow> string \<Rightarrow> string \<Rightarrow> labels \<Rightarrow> docker_host \<Rightarrow> Container" where
  "new_container dk name img ls d =
     \<lparr>ct_ID = dk_new_id dk d, ct_Name = name, ct_Image = img, ct_State = ''created'',
      ct_Status = ''Created'', ct_CreatedAt = dk_created dk, ct_Labels = ls\<rparr>"

definition create_effect :: "Container \<Rightarrow> docker_host effect" where
  "create_effect c d = d\<lparr>dh_containers := dh_containers d @ [c]\<rparr>"

definition start_effect :: "string \<Rightarrow> docker_host effect" where
  "start_effect ref d =
     d\<lparr>dh_containers := map (\<lambda>c. if refers ref c then c\<lparr>ct_State := ''running''\<rparr> else c) (dh_containers d)\<rparr>"

text \<open>
  \<open>docker run\<close>: refused when the name is taken or the daemon says so; otherwise the container is
  created, and it may then fail to start.  It prints the new ID.
\<close>

definition docker_create :: "docker_env \<Rightarrow> string \<Rightarrow> string \<Rightarrow> labels \<Rightarrow> (docker_host, run_error, string) job" where
  "docker_create dk name img ls d =
     (if list_ex (\<lambda>c. ct_Name c = name) (dh_containers d) then ([], Inl NameInUse)
      else if dk_refuses dk (OpRun name) d then ([], Inl RunRefused)
      else
        (let c = new_container dk name img ls d
         in if dk_starts dk name d then ([create_effect c, start_effect (ct_ID c)], Inr (ct_ID c))
            else ([create_effect c], Inl StartRefused)))"

definition guarded_create :: "string option \<Rightarrow> (docker_host, run_error, string) job \<Rightarrow> (docker_host, run_error, string) job" where
  "guarded_create guardPrefix j d =
     (case guardPrefix of
        Some owner \<Rightarrow> if host_holds owner d then j d else ([], Inl RunFenced)
      | None \<Rightarrow> j d)"

definition run_sent :: "('e option, 'a) result \<times> 'w \<Rightarrow> ('e \<Rightarrow> 'f) \<Rightarrow> 'f \<Rightarrow> ('f, 'a) result \<times> 'w" where
  "run_sent r f lost = (case fst r of Inl None \<Rightarrow> Inl lost | Inl (Some e) \<Rightarrow> Inl (f e) | Inr x \<Rightarrow> Inr x, snd r)"

text \<open>\<open>docker inspect\<close> of one field of the container a reference names.\<close>

definition inspect :: "(Container \<Rightarrow> 'a) \<Rightarrow> string \<Rightarrow> docker_host \<Rightarrow> 'a option" where
  "inspect f ref d = map_option f (find (refers ref) (dh_containers d))"

definition clearStoppedContainer ::
  "docker_env \<Rightarrow> string \<Rightarrow> docker_host world \<Rightarrow> (run_error, unit) result \<times> docker_host world" where
  "clearStoppedContainer dk name w =
     (case run_read (inspect running name) w of
        (Inr (Some True), w1) \<Rightarrow> (Inl RunOccupied, w1)
      | (Inr (Some False), w1) \<Rightarrow>
          (case docker_Remove (dk_refuses dk) name w1 of
             (Inl e, w2) \<Rightarrow> (Inl (RunClearFailed e), w2) | (Inr _, w2) \<Rightarrow> (Inr (), w2))
      | (_, w1) \<Rightarrow> (Inr (), w1))"

definition RunGuarded ::
  "docker_env \<Rightarrow> RunConfig \<Rightarrow> string option \<Rightarrow> docker_host world \<Rightarrow> (run_error, string) result \<times> docker_host world" where
  "RunGuarded dk cfg guardPrefix w =
     (if rn_App cfg = [] \<or> rn_Process cfg = [] \<or> rn_Version cfg = [] \<or> rn_Image cfg = [] then (Inl RunIncomplete, w)
      else if rn_Port cfg > 0
        \<and> publishBinding (if rn_BindHost cfg = [] then ''127.0.0.1'' else rn_BindHost cfg) (rn_Port cfg)
            (if rn_ContainerPort cfg = 0 then 80 else rn_ContainerPort cfg) = None then (Inl RunBadBinding, w)
      else
        (let job = guarded_create guardPrefix (docker_create dk (run_name cfg) (rn_Image cfg) (run_labels cfg))
         in case run_sent (run_job job w) id RunTransport of
              (Inl e, w1) \<Rightarrow>
                if e = NameInUse then
                  (case clearStoppedContainer dk (run_name cfg) w1 of
                     (Inl f, w2) \<Rightarrow> (Inl f, w2)
                   | (Inr _, w2) \<Rightarrow> run_sent (run_job job w2) id RunTransport)
                else (Inl e, w1)
            | (Inr cid, w1) \<Rightarrow> (Inr cid, w1)))"

text \<open>\<open>docker start\<close>: not on a container that is missing, and the daemon may refuse.\<close>

definition docker_start :: "docker_env \<Rightarrow> string \<Rightarrow> docker_host cmd" where
  "docker_start dk ref d =
     (if dk_refuses dk (OpStart ref) d \<or> \<not> list_ex (refers ref) (dh_containers d) then Inl 1
      else Inr [start_effect ref])"

definition docker_Start :: "docker_env \<Rightarrow> string \<Rightarrow> docker_host world \<Rightarrow> (exec_error, unit) result \<times> docker_host world" where
  "docker_Start dk ref w = run_cmd (docker_start dk ref) w"

definition rename_effect :: "string \<Rightarrow> string \<Rightarrow> docker_host effect" where
  "rename_effect old new d =
     d\<lparr>dh_containers := map (\<lambda>c. if refers old c then c\<lparr>ct_Name := new\<rparr> else c) (dh_containers d)\<rparr>"

definition docker_rename :: "docker_env \<Rightarrow> string \<Rightarrow> string \<Rightarrow> docker_host cmd" where
  "docker_rename dk old new d =
     (if dk_refuses dk (OpRename old) d \<or> \<not> list_ex (refers old) (dh_containers d)
         \<or> list_ex (\<lambda>c. ct_Name c = new) (dh_containers d)
      then Inl 1 else Inr [rename_effect old new])"

section \<open>Recreating a container\<close>

datatype restart_error =
    RestartInspect
  | RestartUnrepresentable
  | RestartStaging exec_error
  | RestartGenerationFenced
  | RestartFenceLost
  | RestartRemove exec_error
  | RestartRun run_error

text \<open>
  \<open>RestartFenced\<close> without ports to avoid: inspect, render, stage the environment file, remove
  behind the guards, run again under the name, and remove the staged file.
\<close>

definition RestartFenced ::
  "docker_env \<Rightarrow> string \<Rightarrow> gen \<Rightarrow> string option \<Rightarrow> docker_host world
     \<Rightarrow> (restart_error, unit) result \<times> docker_host world" where
  "RestartFenced dk name expected guardPrefix w =
     (case run_read (find (refers name) \<circ> dh_containers) w of
        (Inr (Some c), w1) \<Rightarrow>
          if \<not> dk_represents dk c then (Inl RestartUnrepresentable, w1)
          else
            (case run_cmd (upload id) w1 of
               (Inl e, w2) \<Rightarrow> (Inl (RestartStaging e), w2)
             | (Inr _, w2) \<Rightarrow>
                 (let (r, w3) =
                    (case run_cmd (with_prefix guardPrefix
                             (generationCheckFragment (name, expected) (docker_rm_force (dk_refuses dk) name))) w2 of
                       (Inl e, w3) \<Rightarrow>
                         (Inl (if stateGenerationRefused e then RestartGenerationFenced
                               else if fenceLostErr e then RestartFenceLost else RestartRemove e), w3)
                     | (Inr _, w3) \<Rightarrow>
                         (case run_sent (run_job (docker_create dk name (ct_Image c) (ct_Labels c)) w3) id RunTransport of
                            (Inl e, w4) \<Rightarrow> (Inl (RestartRun e), w4)
                          | (Inr _, w4) \<Rightarrow> (Inr (), w4)))
                  in (r, snd (run_cmd (upload id) w3))))
      | (_, w1) \<Rightarrow> (Inl RestartInspect, w1))"

text \<open>\<open>Restart\<close>: the same without the guards.\<close>

definition Restart ::
  "docker_env \<Rightarrow> string \<Rightarrow> docker_host world \<Rightarrow> (restart_error, unit) result \<times> docker_host world" where
  "Restart dk name w =
     (case run_read (find (refers name) \<circ> dh_containers) w of
        (Inr (Some c), w1) \<Rightarrow>
          if \<not> dk_represents dk c then (Inl RestartUnrepresentable, w1)
          else
            (case run_cmd (upload id) w1 of
               (Inl e, w2) \<Rightarrow> (Inl (RestartStaging e), w2)
             | (Inr _, w2) \<Rightarrow>
                 (let (r, w3) =
                    (case run_cmd (docker_rm_force (dk_refuses dk) name) w2 of
                       (Inl e, w3) \<Rightarrow> (Inl (RestartRemove e), w3)
                     | (Inr _, w3) \<Rightarrow>
                         (case run_sent (run_job (docker_create dk name (ct_Image c) (ct_Labels c)) w3) id RunTransport of
                            (Inl e, w4) \<Rightarrow> (Inl (RestartRun e), w4)
                          | (Inr _, w4) \<Rightarrow> (Inr (), w4)))
                  in (r, snd (run_cmd (upload id) w3))))
      | (_, w1) \<Rightarrow> (Inl RestartInspect, w1))"

section \<open>Judging a started container\<close>

definition reconcilePartialRun :: "docker_env \<Rightarrow> string \<Rightarrow> docker_host world \<Rightarrow> docker_host world" where
  "reconcilePartialRun dk name w =
     (case run_read (inspect ct_State name) w of
        (Inr (Some st), w1) \<Rightarrow>
          if trim_space st = [] \<or> trim_space st = ''running'' then w1
          else snd (run_cmd (docker_rm_force (dk_refuses dk) name) w1)
      | (_, w1) \<Rightarrow> w1)"

text \<open>The state docker prints as JSON; a document that does not parse counts as unreadable.\<close>

record workerStateJSON =
  ws_Status :: string
  ws_Restarting :: bool
  ws_Health :: "string option"

definition workerStateViable :: "workerStateJSON \<Rightarrow> bool" where
  "workerStateViable st \<longleftrightarrow>
     \<not> (ws_Restarting st \<or> ws_Status st = ''exited'' \<or> ws_Status st = ''dead'')
     \<and> ws_Status st = ''running'' \<and> ws_Health st \<noteq> Some ''unhealthy''"

text \<open>\<open>json\<close> is the parsed state document of a container.\<close>

type_synonym state_reader = "Container \<Rightarrow> workerStateJSON option"

definition inspectWorkerState ::
  "state_reader \<Rightarrow> string \<Rightarrow> docker_host world \<Rightarrow> workerStateJSON option \<times> docker_host world" where
  "inspectWorkerState json name w =
     (case run_read (inspect json name) w of
        (Inr (Some st), w1) \<Rightarrow> (st, w1) | (_, w1) \<Rightarrow> (None, w1))"

fun inspect_attempts ::
  "nat \<Rightarrow> state_reader \<Rightarrow> string \<Rightarrow> docker_host world \<Rightarrow> workerStateJSON option \<times> docker_host world" where
  "inspect_attempts 0 json name w = (None, w)"
| "inspect_attempts (Suc n) json name w =
     (case inspectWorkerState json name w of
        (Some st, w1) \<Rightarrow> (Some st, w1)
      | (None, w1) \<Rightarrow> inspect_attempts n json name w1)"

definition inspectWorkerStateRetry ::
  "state_reader \<Rightarrow> string \<Rightarrow> docker_host world \<Rightarrow> workerStateJSON option \<times> docker_host world" where
  "inspectWorkerStateRetry json name w = inspect_attempts 3 json name w"

definition workerRemainsRunning ::
  "state_reader \<Rightarrow> string \<Rightarrow> docker_host world \<Rightarrow> bool \<times> docker_host world" where
  "workerRemainsRunning json name w =
     (case inspectWorkerStateRetry json name w of
        (None, w1) \<Rightarrow> (False, w1)
      | (Some st, w1) \<Rightarrow>
          if \<not> workerStateViable st then (False, w1)
          else
            (case inspectWorkerStateRetry json name w1 of
               (None, w2) \<Rightarrow> (False, w2)
             | (Some st', w2) \<Rightarrow> (workerStateViable st', w2)))"

section \<open>Preservation\<close>

text \<open>
  An operation keeps a predicate when it leads from every world whose state has it and whose other
  clients keep it to such a world, wherever the connection breaks.
\<close>

definition safe :: "('s \<Rightarrow> bool) \<Rightarrow> 's world \<Rightarrow> bool" where
  "safe P w \<longleftrightarrow> stable P w \<and> P (dir w)"

definition keeps :: "('s \<Rightarrow> bool) \<Rightarrow> ('s world \<Rightarrow> 'r \<times> 's world) \<Rightarrow> bool" where
  "keeps P f \<longleftrightarrow> (\<forall>w. safe P w \<longrightarrow> safe P (snd (f w)))"

lemma keepsI: "(\<And>w. safe P w \<Longrightarrow> safe P (snd (f w))) \<Longrightarrow> keeps P f"
  by (simp add: keeps_def)

lemma keepsD: "keeps P f \<Longrightarrow> safe P w \<Longrightarrow> f w = (r, w') \<Longrightarrow> safe P w'"
  by (metis keeps_def snd_conv)

lemma keeps_snd: "keeps P f \<Longrightarrow> safe P w \<Longrightarrow> safe P (snd (f w))"
  by (simp add: keeps_def)

lemma keeps_read: "keeps P (run_read f)"
  by (simp add: keeps_def safe_def run_read_stable run_read_invariant)

lemma keeps_cmd:
  "(\<And>d effs e d'. P d \<Longrightarrow> c d = Inr effs \<Longrightarrow> e \<in> set effs \<Longrightarrow> P d' \<Longrightarrow> P (e d')) \<Longrightarrow> keeps P (run_cmd c)"
  unfolding keeps_def safe_def by (blast intro: run_cmd_stable run_cmd_invariant)

lemma keeps_job:
  "(\<And>d e d'. P d \<Longrightarrow> e \<in> set (fst (j d)) \<Longrightarrow> P d' \<Longrightarrow> P (e d')) \<Longrightarrow> keeps P (run_job j)"
  unfolding keeps_def safe_def by (blast intro: run_job_stable run_job_invariant)

lemma keeps_upload_id: "keeps P (run_cmd (upload id))"
  by (rule keeps_cmd) (auto simp: upload_def)

lemma keeps_run_sent: "keeps P f \<Longrightarrow> safe P w \<Longrightarrow> safe P (snd (run_sent (f w) g x))"
  by (simp add: run_sent_def keeps_snd)

section \<open>Sparing a running container\<close>

text \<open>The container is there and running, and no other container has a reference of its own.\<close>

definition spared :: "Container \<Rightarrow> docker_host \<Rightarrow> bool" where
  "spared c d \<longleftrightarrow>
     c \<in> set (dh_containers d) \<and> running c
     \<and> (\<forall>b \<in> set (dh_containers d). \<forall>ref. refers ref b \<and> refers ref c \<longrightarrow> b = c)"

lemma spared_find: "spared c d \<Longrightarrow> refers ref c \<Longrightarrow> find (refers ref) (dh_containers d) = Some c"
proof (cases "find (refers ref) (dh_containers d)")
  case None
  then show "spared c d \<Longrightarrow> refers ref c \<Longrightarrow> ?thesis"
    by (auto simp: find_None_iff spared_def)
next
  case (Some b)
  then have "b \<in> set (dh_containers d)" "refers ref b" by (auto simp: find_Some_iff)
  with Some show "spared c d \<Longrightarrow> refers ref c \<Longrightarrow> ?thesis"
    by (auto simp: spared_def)
qed

lemma spared_inspect: "spared c d \<Longrightarrow> refers ref c \<Longrightarrow> inspect f ref d = Some (f c)"
  by (simp add: inspect_def spared_find)

lemma spared_stop_other: "spared c d \<Longrightarrow> \<not> refers ref c \<Longrightarrow> spared c (stop_effect ref d)"
  by (force simp: spared_def stop_effect_def image_iff)

lemma spared_remove_other: "spared c d \<Longrightarrow> \<not> refers ref c \<Longrightarrow> spared c (remove_effect ref d)"
  by (auto simp: spared_def remove_effect_def)

lemma spared_start: "spared c d \<Longrightarrow> spared c (start_effect ref d)"
proof -
  assume sp: "spared c d"
  have "refers r (b\<lparr>ct_State := s\<rparr>) = refers r b" for r b s
    by (simp add: refers_def)
  moreover have "c\<lparr>ct_State := ''running''\<rparr> = c"
    using sp by (simp add: spared_def running_def)
  ultimately show ?thesis
    using sp by (force simp: spared_def start_effect_def image_iff)
qed

lemma spared_create:
  "spared c d \<Longrightarrow> \<not> refers (ct_ID b) c \<Longrightarrow> \<not> refers (ct_Name b) c \<Longrightarrow> spared c (create_effect b d)"
  by (auto simp: spared_def create_effect_def refers_def)

lemma spared_rename:
  assumes "spared c d" and "\<not> refers old c" and "\<not> refers new c"
  shows "spared c (rename_effect old new d)"
proof -
  define f where "f = (\<lambda>b. if refers old b then b\<lparr>ct_Name := new\<rparr> else b)"
  have unique: "f b = c" if "b \<in> set (dh_containers d)" "refers ref (f b)" "refers ref c" for b ref
  proof (cases "refers old b")
    case True
    with that(2,3) assms(3) have "refers ref b"
      by (auto simp: refers_def f_def)
    with that assms(1) have "b = c" by (auto simp: spared_def)
    with True assms(2) show ?thesis by simp
  next
    case False
    with that assms(1) show ?thesis by (auto simp: spared_def f_def)
  qed
  have "f c = c" using assms(2) by (simp add: f_def)
  then have "c \<in> f ` set (dh_containers d)"
    using assms(1) by (metis imageI spared_def)
  with unique show ?thesis
    using assms(1) unfolding spared_def rename_effect_def f_def [symmetric] by auto
qed

lemmas spared_effects = spared_stop_other spared_remove_other spared_start spared_create spared_rename

lemma keeps_StopGenerationFenced:
  "\<not> refers ref c \<Longrightarrow> keeps (spared c) (StopGenerationFenced dm ref expected gp)"
  unfolding StopGenerationFenced_def
  by (rule keeps_cmd)
     (auto simp: with_prefix_def host_guarded_def generationCheckFragment_def docker_stop_def
       intro: spared_effects split: option.splits if_splits)

lemma keeps_docker_Stop: "\<not> refers ref c \<Longrightarrow> keeps (spared c) (docker_Stop dm ref)"
  unfolding docker_Stop_def
  by (rule keeps_cmd) (auto simp: docker_stop_def intro: spared_effects split: if_splits)

text \<open>\<open>docker rm\<close> refuses a running container by itself.\<close>

lemma keeps_docker_Remove: "keeps (spared c) (docker_Remove dm ref)"
  unfolding docker_Remove_def
proof (rule keeps_cmd)
  fix d effs e d'
  assume "spared c d" "docker_rm dm ref d = Inr effs" "e \<in> set effs" "spared c d'"
  then show "spared c (e d')"
    by (cases "refers ref c") (auto simp: docker_rm_def spared_def list_ex_iff remove_effect_def split: if_splits)
qed

lemma keeps_rm_force: "\<not> refers ref c \<Longrightarrow> keeps (spared c) (run_cmd (docker_rm_force dm ref))"
  by (rule keeps_cmd) (auto simp: docker_rm_force_def intro: spared_effects split: if_splits)

lemma keeps_docker_Start: "keeps (spared c) (docker_Start dk ref)"
  unfolding docker_Start_def
  by (rule keeps_cmd) (auto simp: docker_start_def intro: spared_effects split: if_splits)

lemma keeps_rename:
  "\<not> refers old c \<Longrightarrow> \<not> refers new c \<Longrightarrow> keeps (spared c) (run_cmd (docker_rename dk old new))"
  by (rule keeps_cmd) (auto simp: docker_rename_def intro: spared_effects split: if_splits)

lemma create_spares:
  assumes "fresh_ids dk" and "name \<noteq> ct_ID c" and d: "spared c d"
    and e: "e \<in> set (fst (docker_create dk name img ls d))" and d': "spared c d'"
  shows "spared c (e d')"
proof -
  let ?b = "new_container dk name img ls d"
  have c: "c \<in> set (dh_containers d)" using d by (simp add: spared_def)
  with assms(1) have "\<not> refers (ct_ID ?b) c"
    by (auto simp: new_container_def fresh_ids_def refers_def)
  moreover have "ct_Name c \<noteq> name" if "\<not> list_ex (\<lambda>c. ct_Name c = name) (dh_containers d)"
    using that c by (auto simp: list_ex_iff)
  ultimately show ?thesis
    using e d' assms(2)
    by (auto simp: docker_create_def Let_def new_container_def refers_def intro!: spared_effects split: if_splits)
qed

lemma keeps_create:
  "fresh_ids dk \<Longrightarrow> name \<noteq> ct_ID c \<Longrightarrow> keeps (spared c) (run_job (docker_create dk name img ls))"
  by (rule keeps_job) (rule create_spares)

lemma keeps_guarded_create:
  assumes "fresh_ids dk" and "name \<noteq> ct_ID c"
  shows "keeps (spared c) (run_job (guarded_create gp (docker_create dk name img ls)))"
  by (rule keeps_job)
     (use create_spares [OF assms] in \<open>auto simp: guarded_create_def split: option.splits if_splits\<close>)

text \<open>A read of a spared container's state, wherever it happens, finds it running.\<close>

lemma read_spared:
  assumes "safe (spared c) w" and "refers ref c" and "run_read (inspect f ref) w = (Inr x, w')"
  shows "x = Some (f c)"
proof -
  have "spared c (dir w')"
    using keepsD [OF keeps_read assms(1,3)] by (simp add: safe_def)
  moreover have "x = inspect f ref (dir w')"
    using run_read_Inr [of "inspect f ref" w x] assms(3) by simp
  ultimately show ?thesis
    using spared_inspect [OF _ assms(2)] by simp
qed

lemma keeps_clearStoppedContainer: "keeps (spared c) (clearStoppedContainer dk name)"
proof (rule keepsI)
  fix w
  assume w: "safe (spared c) w"
  obtain r w1 where r: "run_read (inspect running name) w = (r, w1)" by (rule prod.exhaust)
  note w1 = keepsD [OF keeps_read w r]
  obtain q w2 where q: "docker_Remove (dk_refuses dk) name w1 = (q, w2)" by (rule prod.exhaust)
  note w2 = keepsD [OF keeps_docker_Remove w1 q]
  show "safe (spared c) (snd (clearStoppedContainer dk name w))"
    using w1 w2 by (simp add: clearStoppedContainer_def r q split: sum.split option.split bool.split)
qed

lemma keeps_RunGuarded:
  assumes "fresh_ids dk" and "run_name cfg \<noteq> ct_ID c"
  shows "keeps (spared c) (RunGuarded dk cfg gp)"
proof (rule keepsI)
  fix w
  assume w: "safe (spared c) w"
  let ?j = "guarded_create gp (docker_create dk (run_name cfg) (rn_Image cfg) (run_labels cfg))"
  note job = keeps_guarded_create [OF assms, of gp "rn_Image cfg" "run_labels cfg"]
  obtain r w1 where r: "run_sent (run_job ?j w) id RunTransport = (r, w1)" by (rule prod.exhaust)
  have w1: "safe (spared c) w1" using keeps_run_sent [OF job w, of id RunTransport] r by simp
  obtain q w2 where q: "clearStoppedContainer dk (run_name cfg) w1 = (q, w2)" by (rule prod.exhaust)
  note w2 = keepsD [OF keeps_clearStoppedContainer w1 q]
  show "safe (spared c) (snd (RunGuarded dk cfg gp w))"
    using w w1 w2 keeps_run_sent [OF job w2, of id RunTransport]
    by (simp add: RunGuarded_def Let_def r q split: sum.split)
qed

lemma keeps_RestartFenced:
  assumes "fresh_ids dk" and "\<not> refers name c"
  shows "keeps (spared c) (RestartFenced dk name expected gp)"
proof (rule keepsI)
  fix w
  assume w: "safe (spared c) w"
  let ?rm = "with_prefix gp (generationCheckFragment (name, expected) (docker_rm_force (dk_refuses dk) name))"
  have rm: "keeps (spared c) (run_cmd ?rm)"
    by (rule keeps_cmd)
       (use assms(2) in \<open>auto simp: with_prefix_def host_guarded_def generationCheckFragment_def docker_rm_force_def
          intro: spared_effects split: option.splits if_splits\<close>)
  have run: "keeps (spared c) (run_job (docker_create dk name img ls))" for img ls
    using keeps_create [OF assms(1)] assms(2) by (auto simp: refers_def)
  obtain r w1 where r: "run_read (find (refers name) \<circ> dh_containers) w = (r, w1)" by (rule prod.exhaust)
  note w1 = keepsD [OF keeps_read w r]
  obtain q w2 where q: "run_cmd (upload id) w1 = (q, w2)" by (rule prod.exhaust)
  note w2 = keepsD [OF keeps_upload_id w1 q]
  obtain s w3 where s: "run_cmd ?rm w2 = (s, w3)" by (rule prod.exhaust)
  note w3 = keepsD [OF rm w2 s]
  have w4: "safe (spared c) w4"
    if "run_sent (run_job (docker_create dk name (ct_Image b) (ct_Labels b)) w3) id RunTransport = (x, w4)" for b x w4
    using keeps_run_sent [OF run w3, of "ct_Image b" "ct_Labels b" id RunTransport] that by simp
  show "safe (spared c) (snd (RestartFenced dk name expected gp w))"
    using w1 w2 w3
    by (auto simp: RestartFenced_def r q s Let_def intro: w4 keeps_snd [OF keeps_upload_id]
        split: sum.split option.split prod.split)
qed

lemma keeps_reconcilePartialRun: "safe (spared c) w \<Longrightarrow> safe (spared c) (reconcilePartialRun dk name w)"
proof -
  assume w: "safe (spared c) w"
  obtain r w1 where r: "run_read (inspect ct_State name) w = (r, w1)" by (rule prod.exhaust)
  note w1 = keepsD [OF keeps_read w r]
  show ?thesis
  proof (cases "refers name c")
    case True
    have "r = Inr x \<Longrightarrow> x = Some ''running''" for x
      using read_spared [OF w True, of ct_State x w1] r w
      by (simp add: safe_def spared_def running_def)
    moreover have "trim_space ''running'' = ''running''" by code_simp
    ultimately show ?thesis
      using w1 by (auto simp: reconcilePartialRun_def r split: sum.split)
  next
    case False
    show ?thesis
      using w1 keeps_snd [OF keeps_rm_force [OF False, of "dk_refuses dk"] w1]
      by (auto simp: reconcilePartialRun_def r split: sum.split option.split)
  qed
qed

lemma keeps_inspect_attempts: "safe P w \<Longrightarrow> safe P (snd (inspect_attempts n json name w))"
proof (induction n arbitrary: w)
  case (Suc n)
  obtain r w1 where r: "run_read (inspect json name) w = (r, w1)" by (rule prod.exhaust)
  note w1 = keepsD [OF keeps_read Suc.prems r]
  show ?case
    using w1 Suc.IH [OF w1] by (auto simp: inspectWorkerState_def r split: sum.split option.split)
qed simp

lemma keeps_workerRemainsRunning: "keeps P (workerRemainsRunning json name)"
proof (rule keepsI)
  fix w
  assume w: "safe P w"
  have "snd (workerRemainsRunning json name w) = snd (inspect_attempts 3 json name w)
      \<or> snd (workerRemainsRunning json name w)
          = snd (inspect_attempts 3 json name (snd (inspect_attempts 3 json name w)))"
    by (auto simp: workerRemainsRunning_def inspectWorkerStateRetry_def split: prod.split option.split)
  with keeps_inspect_attempts [OF w] keeps_inspect_attempts [OF keeps_inspect_attempts [OF w]]
  show "safe P (snd (workerRemainsRunning json name w))" by metis
qed

end
