(* ===== verification/Publish.thy ===== *)
theory Publish
  imports CaddyRender
begin

text \<open>
  The publish entries of an app (\<open>internal/config/app.go\<close>): the grammar of one entry and the check
  that no two entries bind the same host port, which the config file's validation and the deploy's
  own validation share.
\<close>

record PublishSpec =
  sp_Bind :: string
  sp_HostPort :: int
  sp_ContainerPort :: int
  sp_Proto :: string

text \<open>Only the default may be empty: \<open>allowZero\<close>.\<close>

definition publish_port :: "string \<Rightarrow> bool \<Rightarrow> int option" where
  "publish_port field allowZero =
     (if field = [] then (if allowZero then Some 0 else None)
      else (let (n, ok) = atoi field in if ok \<and> 1 \<le> n \<and> n \<le> 65535 then Some n else None))"

text \<open>The protocol after the last slash, and what is before it.\<close>

definition cut_proto :: "string \<Rightarrow> (string \<times> string) option" where
  "cut_proto s =
     (if CHR ''/'' \<notin> set s then Some ([], s)
      else
        (let proto = rev (takeWhile (\<lambda>c. c \<noteq> CHR ''/'') (rev s));
             rest = rev (tl (dropWhile (\<lambda>c. c \<noteq> CHR ''/'') (rev s)))
         in if proto \<in> {''tcp'', ''udp'', ''sctp''} then Some (proto, rest) else None))"

text \<open>The segments between colons; a bracketed address is one segment.\<close>

definition publish_segments :: "string \<Rightarrow> string list option" where
  "publish_segments s =
     (if prefix ''['' s then
        (if CHR '']'' \<notin> set s then None
         else
           (let addr = takeWhile (\<lambda>c. c \<noteq> CHR '']'') s @ '']''; rest = tl (dropWhile (\<lambda>c. c \<noteq> CHR '']'') s)
            in if prefix '':'' rest then Some (addr # split_on (CHR '':'') (tl rest)) else None))
      else Some (split_on (CHR '':'') s))"

definition publish_of_segments :: "string \<Rightarrow> string list \<Rightarrow> PublishSpec option" where
  "publish_of_segments proto segs =
     (case segs of
        [c] \<Rightarrow>
          (case publish_port c False of
             None \<Rightarrow> None
           | Some cp \<Rightarrow> Some \<lparr>sp_Bind = [], sp_HostPort = 0, sp_ContainerPort = cp, sp_Proto = proto\<rparr>)
      | [h, c] \<Rightarrow>
          (case (publish_port h False, publish_port c False) of
             (Some hp, Some cp) \<Rightarrow>
               Some \<lparr>sp_Bind = [], sp_HostPort = hp, sp_ContainerPort = cp, sp_Proto = proto\<rparr>
           | _ \<Rightarrow> None)
      | [b, h, c] \<Rightarrow>
          (let bind = trim_suffix '']'' (trim_prefix ''['' b)
           in if \<not> parseIP bind then None
              else (case (publish_port h True, publish_port c False) of
                      (Some hp, Some cp) \<Rightarrow>
                        Some \<lparr>sp_Bind = bind, sp_HostPort = hp, sp_ContainerPort = cp, sp_Proto = proto\<rparr>
                    | _ \<Rightarrow> None))
      | _ \<Rightarrow> None)"

definition ParsePublishSpec :: "string \<Rightarrow> PublishSpec option" where
  "ParsePublishSpec spec =
     (let s = trim_space spec
      in if s = [] then None
         else (case cut_proto s of
                 None \<Rightarrow> None
               | Some (proto, rest) \<Rightarrow>
                   (case publish_segments rest of
                      None \<Rightarrow> None
                    | Some segs \<Rightarrow> publish_of_segments proto segs)))"

text \<open>The binds seen of a host port and protocol: the addresses, and whether one covers all.\<close>

type_synonym bind_sets = "(int \<times> string) \<Rightarrow> string list \<times> bool"

definition publish_key :: "PublishSpec \<Rightarrow> int \<times> string" where
  "publish_key s = (sp_HostPort s, if sp_Proto s = [] then ''tcp'' else sp_Proto s)"

definition wildcard_bind :: "PublishSpec \<Rightarrow> bool" where
  "wildcard_bind s \<longleftrightarrow> sp_Bind s \<in> {[], ''0.0.0.0'', ''::''}"

fun publish_loop :: "bind_sets \<Rightarrow> string list \<Rightarrow> bool" where
  "publish_loop seen [] \<longleftrightarrow> True"
| "publish_loop seen (e # es) \<longleftrightarrow>
     (case ParsePublishSpec e of
        None \<Rightarrow> False
      | Some s \<Rightarrow>
          if sp_HostPort s = 0 then publish_loop seen es
          else
            (let (binds, wildcard) = seen (publish_key s)
             in if wildcard_bind s then
                  \<not> (wildcard \<or> binds \<noteq> []) \<and> publish_loop (seen(publish_key s := (binds, True))) es
                else
                  \<not> (wildcard \<or> sp_Bind s \<in> set binds)
                  \<and> publish_loop (seen(publish_key s := (sp_Bind s # binds, wildcard))) es))"

definition ValidatePublishEntries :: "string list \<Rightarrow> bool" where
  "ValidatePublishEntries entries = publish_loop (\<lambda>_. ([], False)) entries"

section \<open>What the check accepts\<close>

definition publish_conflict :: "PublishSpec \<Rightarrow> PublishSpec \<Rightarrow> bool" where
  "publish_conflict a b \<longleftrightarrow>
     sp_HostPort a \<noteq> 0 \<and> publish_key a = publish_key b
     \<and> (wildcard_bind a \<or> wildcard_bind b \<or> sp_Bind a = sp_Bind b)"

text \<open>The sets are those of specs already accepted.\<close>

definition sets_of :: "PublishSpec list \<Rightarrow> bind_sets \<Rightarrow> bool" where
  "sets_of ps seen \<longleftrightarrow>
     (\<forall>k. (snd (seen k) \<longleftrightarrow> (\<exists>p \<in> set ps. sp_HostPort p \<noteq> 0 \<and> publish_key p = k \<and> wildcard_bind p))
        \<and> set (fst (seen k)) = sp_Bind ` {p \<in> set ps. sp_HostPort p \<noteq> 0 \<and> publish_key p = k \<and> \<not> wildcard_bind p})"

lemma sets_ofD:
  assumes "sets_of ps seen"
  shows "snd (seen k) \<longleftrightarrow> (\<exists>p \<in> set ps. sp_HostPort p \<noteq> 0 \<and> publish_key p = k \<and> wildcard_bind p)"
    and "x \<in> set (fst (seen k)) \<longleftrightarrow>
      (\<exists>p \<in> set ps. sp_HostPort p \<noteq> 0 \<and> publish_key p = k \<and> \<not> wildcard_bind p \<and> sp_Bind p = x)"
proof -
  note k = spec [OF assms [unfolded sets_of_def], of k]
  show "snd (seen k) \<longleftrightarrow> (\<exists>p \<in> set ps. sp_HostPort p \<noteq> 0 \<and> publish_key p = k \<and> wildcard_bind p)"
    using k by blast
  show "x \<in> set (fst (seen k)) \<longleftrightarrow>
      (\<exists>p \<in> set ps. sp_HostPort p \<noteq> 0 \<and> publish_key p = k \<and> \<not> wildcard_bind p \<and> sp_Bind p = x)"
    unfolding conjunct2 [OF k] by blast
qed

lemma sets_ofI:
  assumes "\<And>k. snd (seen k) \<longleftrightarrow> (\<exists>p \<in> set ps. sp_HostPort p \<noteq> 0 \<and> publish_key p = k \<and> wildcard_bind p)"
    and "\<And>k x. x \<in> set (fst (seen k)) \<longleftrightarrow>
      (\<exists>p \<in> set ps. sp_HostPort p \<noteq> 0 \<and> publish_key p = k \<and> \<not> wildcard_bind p \<and> sp_Bind p = x)"
  shows "sets_of ps seen"
  unfolding sets_of_def
proof (intro allI conjI)
  show "set (fst (seen k)) = sp_Bind ` {p \<in> set ps. sp_HostPort p \<noteq> 0 \<and> publish_key p = k \<and> \<not> wildcard_bind p}" for k
    by (intro set_eqI) (simp add: assms(2) image_iff, blast)
qed (rule assms(1))

lemma sets_of_Nil: "sets_of [] (\<lambda>_. ([], False))"
  by (simp add: sets_of_def)

lemma sets_of_skip: "sets_of ps seen \<Longrightarrow> sp_HostPort s = 0 \<Longrightarrow> sets_of (s # ps) seen"
  by (rule sets_ofI) (simp_all add: sets_ofD)

lemma sets_of_wild:
  "sets_of ps seen \<Longrightarrow> sp_HostPort s \<noteq> 0 \<Longrightarrow> wildcard_bind s
     \<Longrightarrow> sets_of (s # ps) (seen(publish_key s := (fst (seen (publish_key s)), True)))"
  by (rule sets_ofI) (auto simp: sets_ofD)

lemma sets_of_bind:
  "sets_of ps seen \<Longrightarrow> sp_HostPort s \<noteq> 0 \<Longrightarrow> \<not> wildcard_bind s
     \<Longrightarrow> sets_of (s # ps) (seen(publish_key s := (sp_Bind s # fst (seen (publish_key s)), snd (seen (publish_key s)))))"
  by (rule sets_ofI) (auto simp: sets_ofD)

lemma sets_of_conflict:
  assumes "sets_of ps seen" and "sp_HostPort s \<noteq> 0"
  shows "(\<exists>p \<in> set ps. publish_conflict s p) \<longleftrightarrow>
     (if wildcard_bind s then snd (seen (publish_key s)) \<or> fst (seen (publish_key s)) \<noteq> []
      else snd (seen (publish_key s)) \<or> sp_Bind s \<in> set (fst (seen (publish_key s))))"
proof -
  have port: "publish_key p = publish_key s \<Longrightarrow> sp_HostPort p \<noteq> 0" for p
    using assms(2) by (simp add: publish_key_def)
  have empty: "xs \<noteq> [] \<longleftrightarrow> (\<exists>x. x \<in> set xs)" for xs :: "string list"
    by (cases xs) auto
  show ?thesis
    unfolding empty sets_ofD [OF assms(1)] publish_conflict_def
    using assms(2) port by (cases "wildcard_bind s") (auto simp: eq_commute [of "publish_key s"] eq_commute [of "sp_Bind s"])
qed

lemma publish_loop_iff:
  "sets_of ps seen \<Longrightarrow> publish_loop seen es \<longleftrightarrow>
     list_all (\<lambda>e. ParsePublishSpec e \<noteq> None) es
     \<and> (let qs = map (\<lambda>e. the (ParsePublishSpec e)) es
        in (\<forall>q \<in> set qs. \<forall>p \<in> set ps. \<not> publish_conflict q p) \<and> sorted_wrt (\<lambda>a b. \<not> publish_conflict b a) qs)"
proof (induction es arbitrary: ps seen)
  case (Cons e es)
  show ?case
  proof (cases "ParsePublishSpec e")
    case (Some s)
    show ?thesis
    proof (cases "sp_HostPort s = 0")
      case True
      have "\<not> publish_conflict q s" "\<not> publish_conflict s q" for q
        using True by (auto simp: publish_conflict_def publish_key_def)
      then show ?thesis
        using Cons.IH [OF Cons.prems] Some True by (auto simp: Let_def)
    next
      case False
      let ?seen = "if wildcard_bind s then seen(publish_key s := (fst (seen (publish_key s)), True))
        else seen(publish_key s := (sp_Bind s # fst (seen (publish_key s)), snd (seen (publish_key s))))"
      have "sets_of (s # ps) ?seen"
        using sets_of_wild [OF Cons.prems False] sets_of_bind [OF Cons.prems False] by simp
      note IH = Cons.IH [OF this]
      have "publish_loop seen (e # es) \<longleftrightarrow>
          \<not> (\<exists>p \<in> set ps. publish_conflict s p) \<and> publish_loop ?seen es"
        unfolding sets_of_conflict [OF Cons.prems False]
        using Some False by (simp add: split_beta)
      then show ?thesis
        unfolding IH using Some by (auto simp: Let_def)
    qed
  qed simp
qed simp

text \<open>
  The publish check accepts exactly the lists in which every entry follows the grammar and no
  two entries bind one host port and protocol on addresses that are textually equal or of which
  one covers every address; the order of the entries does not matter.
\<close>

theorem ValidatePublishEntries_iff:
  "ValidatePublishEntries es \<longleftrightarrow>
     list_all (\<lambda>e. ParsePublishSpec e \<noteq> None) es
     \<and> sorted_wrt (\<lambda>a b. \<not> publish_conflict a b) (map (\<lambda>e. the (ParsePublishSpec e)) es)"
proof -
  have "publish_conflict a b \<longleftrightarrow> publish_conflict b a" for a b
    by (auto simp: publish_conflict_def publish_key_def)
  then show ?thesis
    unfolding ValidatePublishEntries_def publish_loop_iff [OF sets_of_Nil]
    by (simp add: Let_def)
qed

text \<open>
  Addresses are compared as text, and a sign passes the number check: two spellings of one address
  are no conflict, and a port may carry a plus sign.
\<close>

lemma spellings_pass: "ValidatePublishEntries [''[::1]:80:80'', ''[0:0:0:0:0:0:0:1]:80:81'']"
  by code_simp

lemma signed_port_passes: "ValidatePublishEntries [''+3001:3001'']"
  by code_simp

end
