(* ===== verification/StateStore.thy ===== *)
theory StateStore
  imports Lock
begin

text \<open>
  The authoritative applied state of an app: \<open>internal/state/state.go\<close> (reading, validating,
  migrating and writing \<open>state.json\<close>, the committed-generation sidecar, tombstones and the home
  marker), \<open>internal/state/lock.go\<close> (the fenced commit), \<open>internal/state/publication.go\<close> (what a
  failed publication proves), \<open>internal/state/pins.go\<close> and the gate of
  \<open>internal/confighome/gate.go\<close>.  What the code takes from Go's library is a parameter:
  SHA-256 in hex, \<open>json.Valid\<close>, and the compaction \<open>json.Marshal\<close> applies to raw messages.
\<close>

record go_lib =
  sha256_hex :: "string \<Rightarrow> string"
  json_valid :: "string \<Rightarrow> bool"
  json_compact :: "string \<Rightarrow> string"

section \<open>Errors\<close>

datatype digest_error = NotJson | DigestMismatch

datatype state_error =
    UnsupportedSchema int
  | TombstoneWithoutV3
  | BadManifest digest_error
  | BadPrevious digest_error
  | CanonicalEmpty
  | CanonicalJunk
  | ReadFailed exec_error
  | UploadFailed exec_error
  | EffectFailed exec_error
  | LockFenceLost
  | GenerationFenced
  | WrongLease
  | GenerationUnreadable
  | Publication bool bool
  | PlanBaselineChanged
  | Orphaned

text \<open>\<open>PreservePublishedState\<close>: destructive compensation is unsafe.\<close>

definition PreservePublishedState :: "state_error \<Rightarrow> bool" where
  "PreservePublishedState e = (case e of Publication committed unknown \<Rightarrow> committed \<or> unknown | _ \<Rightarrow> False)"

section \<open>Reading\<close>

definition SchemaVersionV2 :: int where "SchemaVersionV2 = 2"
definition SchemaVersionV3 :: int where "SchemaVersionV3 = 3"

text \<open>
  The framing \<open>ReadRemoteFile\<close> puts around a file (a line \<open>absent\<close> or \<open>present\<close>, then the
  content) and the parse of the command's output.
\<close>

definition frame_file :: "string option \<Rightarrow> string" where
  "frame_file f = (case f of None \<Rightarrow> ''absent'' @ [newline] | Some txt \<Rightarrow> ''present'' @ newline # txt)"

definition parse_frame :: "string \<Rightarrow> string option option" where
  "parse_frame output =
     (let out = trim_newlines output
      in if out = ''absent'' \<or> prefix (''absent'' @ [newline]) out then Some None
         else if out = ''present'' then Some (Some [])
         else if \<not> prefix (''present'' @ [newline]) out then None
         else Some (Some (trim_prefix (''present'' @ [newline]) out)))"

definition ReadRemoteFile :: "(app_dir \<Rightarrow> 'a) \<Rightarrow> app_dir world \<Rightarrow> (state_error, 'a) result \<times> app_dir world" where
  "ReadRemoteFile f w =
     (case run_read f w of (Inl e, w') \<Rightarrow> (Inl (ReadFailed e), w') | (Inr x, w') \<Rightarrow> (Inr x, w'))"

definition ReadCommittedGeneration :: "app_dir world \<Rightarrow> (state_error, gen) result \<times> app_dir world" where
  "ReadCommittedGeneration w =
     (case ReadRemoteFile gen_sidecar w of
        (Inl e, w') \<Rightarrow> (Inl e, w')
      | (Inr None, w') \<Rightarrow> (Inr 0, w')
      | (Inr (Some (GenNum g)), w') \<Rightarrow> (Inr g, w')
      | (Inr (Some GenJunk), w') \<Rightarrow> (Inl GenerationUnreadable, w'))"

definition normalizePorts :: "AppState \<Rightarrow> AppState" where
  "normalizePorts s =
     (let s1 = (if CurrentPorts s = [] \<and> CurrentPort s > 0 then s\<lparr>CurrentPorts := [CurrentPort s]\<rparr> else s)
      in if PreviousPorts s1 = [] \<and> PreviousPort s1 > 0 then s1\<lparr>PreviousPorts := [PreviousPort s1]\<rparr> else s1)"

definition parsePorts :: "string \<Rightarrow> int list" where
  "parsePorts s = concat (map (\<lambda>p. (let r = atoi (trim_space p) in if snd r \<and> fst r > 0 then [fst r] else []))
     (split_on CHR '','' s))"

definition int_to_string :: "int \<Rightarrow> string" where
  "int_to_string n = (if n < 0 then CHR ''-'' # nat_to_string (nat (- n)) else nat_to_string (nat n))"

definition formatPorts :: "int list \<Rightarrow> string" where
  "formatPorts ports = join_with '','' (map int_to_string ports)"

text \<open>\<open>SplitN(line, "=", 2)\<close>, of which the loop keeps the lines with two parts.\<close>

fun cut_at :: "char \<Rightarrow> string \<Rightarrow> (string \<times> string) option" where
  "cut_at c [] = None"
| "cut_at c (x # xs) = (if x = c then Some ([], xs) else map_option (\<lambda>(a, b). (x # a, b)) (cut_at c xs))"

definition legacy_line :: "AppState \<Rightarrow> string \<Rightarrow> AppState" where
  "legacy_line s raw =
     (let line = trim_space raw
      in if line = [] then s
         else case cut_at CHR ''='' line of
                None \<Rightarrow> s
              | Some (k, v) \<Rightarrow>
                  if k = ''current_port'' then s\<lparr>CurrentPort := fst (atoi v)\<rparr>
                  else if k = ''current_hash'' then s\<lparr>CurrentHash := v\<rparr>
                  else if k = ''previous_port'' then s\<lparr>PreviousPort := fst (atoi v)\<rparr>
                  else if k = ''previous_hash'' then s\<lparr>PreviousHash := v\<rparr>
                  else if k = ''domain'' then s\<lparr>Domain := v\<rparr>
                  else if k = ''current_ports'' then s\<lparr>CurrentPorts := parsePorts v\<rparr>
                  else if k = ''previous_ports'' then s\<lparr>PreviousPorts := parsePorts v\<rparr>
                  else s)"

definition ParseLegacy :: "string \<Rightarrow> AppState option" where
  "ParseLegacy data =
     (if trim_space data = [] then None
      else Some (normalizePorts
        ((foldl legacy_line zero_state (lines_of data))\<lparr>SchemaVersion := 1, legacyImported := True\<rparr>)))"

definition validateManifestDigest :: "go_lib \<Rightarrow> AppState \<Rightarrow> (digest_error, AppState) result" where
  "validateManifestDigest G s =
     (if AppliedManifest s = [] then Inr s
      else if \<not> json_valid G (AppliedManifest s) then Inl NotJson
      else (let want = sha256_hex G (AppliedManifest s)
            in if ManifestSHA256 s = [] then Inr (s\<lparr>ManifestSHA256 := want\<rparr>)
               else if ManifestSHA256 s \<noteq> want then Inl DigestMismatch
               else Inr s))"

definition validateReleaseDigest ::
  "go_lib \<Rightarrow> ReleaseMetadata option \<Rightarrow> (digest_error, ReleaseMetadata option) result" where
  "validateReleaseDigest G rel =
     (case rel of
        None \<Rightarrow> Inr None
      | Some r \<Rightarrow>
          if rm_AppliedManifest r = [] then Inr rel
          else if \<not> json_valid G (rm_AppliedManifest r) then Inl NotJson
          else (let want = sha256_hex G (rm_AppliedManifest r)
                in if rm_ManifestSHA256 r = [] then Inr (Some (r\<lparr>rm_ManifestSHA256 := want\<rparr>))
                   else if rm_ManifestSHA256 r \<noteq> want then Inl DigestMismatch
                   else Inr rel))"

definition validateDigests :: "go_lib \<Rightarrow> AppState \<Rightarrow> (state_error, AppState) result" where
  "validateDigests G s =
     (case validateManifestDigest G s of
        Inl e \<Rightarrow> Inl (BadManifest e)
      | Inr s1 \<Rightarrow>
          (case validateReleaseDigest G (PreviousRelease s1) of
             Inl e \<Rightarrow> Inl (BadPrevious e)
           | Inr rel \<Rightarrow> Inr (s1\<lparr>PreviousRelease := rel\<rparr>)))"

definition ParseCanonical :: "go_lib \<Rightarrow> state_doc \<Rightarrow> (state_error, AppState) result" where
  "ParseCanonical G doc =
     (case doc of
        StateBlank \<Rightarrow> Inl CanonicalEmpty
      | StateJunk \<Rightarrow> Inl CanonicalJunk
      | StateDoc s \<Rightarrow>
          if SchemaVersion s \<noteq> SchemaVersionV2 \<and> SchemaVersion s \<noteq> SchemaVersionV3 then
            Inl (UnsupportedSchema (SchemaVersion s))
          else if Tombstone s \<and> SchemaVersion s \<noteq> SchemaVersionV3 then Inl TombstoneWithoutV3
          else map_sum id normalizePorts (validateDigests G s))"

definition ReadState :: "go_lib \<Rightarrow> app_dir world \<Rightarrow> (state_error, AppState option) result \<times> app_dir world" where
  "ReadState G w =
     (case ReadRemoteFile state_json w of
        (Inl e, w1) \<Rightarrow> (Inl e, w1)
      | (Inr (Some doc), w1) \<Rightarrow>
          ((case ParseCanonical G doc of
              Inl e \<Rightarrow> Inl e
            | Inr s \<Rightarrow> Inr (if Tombstone s then None else Some s)), w1)
      | (Inr None, w1) \<Rightarrow>
          (case ReadRemoteFile legacy_state w1 of
             (Inl e, w2) \<Rightarrow> (Inl e, w2)
           | (Inr None, w2) \<Rightarrow> (Inr None, w2)
           | (Inr (Some txt), w2) \<Rightarrow> (Inr (ParseLegacy txt), w2)))"

definition ReadIncludingTombstone ::
  "go_lib \<Rightarrow> app_dir world \<Rightarrow> (state_error, AppState option) result \<times> app_dir world" where
  "ReadIncludingTombstone G w =
     (case ReadRemoteFile state_json w of
        (Inl e, w1) \<Rightarrow> (Inl e, w1)
      | (Inr (Some doc), w1) \<Rightarrow> (map_sum id Some (ParseCanonical G doc), w1)
      | (Inr None, w1) \<Rightarrow> ReadState G w1)"

section \<open>Building the next state\<close>

text \<open>The release identity of a state (\<open>cloneRawMessage\<close> copies bytes).\<close>

definition AppState_ReleaseMetadata :: "AppState option \<Rightarrow> ReleaseMetadata option" where
  "AppState_ReleaseMetadata st =
     (case st of
        None \<Rightarrow> None
      | Some s \<Rightarrow>
          if CurrentHash s = [] then None
          else Some \<lparr>rm_TriggerOperationKey = TriggerOperationKey s,
                 rm_ExecutionBindingDigest = ExecutionBindingDigest s, rm_Hash = CurrentHash s,
                 rm_ManifestSHA256 = ManifestSHA256 s, rm_SourceRevision = SourceRevision s,
                 rm_ImageRef = ImageRef s, rm_ImageDigest = ImageDigest s, rm_UpdatedAt = UpdatedAt s,
                 rm_OperationID = OperationID s, rm_Generation = Generation s,
                 rm_AppliedManifest = AppliedManifest s\<rparr>)"

definition ApplyRelease :: "ReleaseMetadata option \<Rightarrow> AppState \<Rightarrow> AppState" where
  "ApplyRelease rel s =
     (case rel of
        None \<Rightarrow> s
      | Some r \<Rightarrow> s\<lparr>TriggerOperationKey := rm_TriggerOperationKey r,
           ExecutionBindingDigest := rm_ExecutionBindingDigest r,
           ManifestSHA256 := rm_ManifestSHA256 r, SourceRevision := rm_SourceRevision r,
           ImageRef := rm_ImageRef r, ImageDigest := rm_ImageDigest r,
           AppliedManifest := rm_AppliedManifest r\<rparr>)"

definition NewAppliedState ::
  "AppState option \<Rightarrow> string \<Rightarrow> string \<Rightarrow> string \<Rightarrow> int \<Rightarrow> string \<Rightarrow> AppState" where
  "NewAppliedState current deploymentType ingressMode domain now opid =
     (let s = zero_state\<lparr>SchemaVersion := SchemaVersionV2,
            DeploymentType := (if deploymentType = [] then ''container'' else deploymentType),
            IngressMode := (if ingressMode = [] then ''caddy'' else ingressMode),
            Domain := domain, UpdatedAt := Some now, OperationID := opid, Generation := 1\<rparr>
      in case current of
           None \<Rightarrow> s
         | Some c \<Rightarrow>
             s\<lparr>SchemaVersion := (if SchemaVersion c = SchemaVersionV3 then SchemaVersionV3 else SchemaVersion s),
               Generation := Generation c + 1,
               Migration := (if legacyImported c then Some ''legacy-key-value'' else Migration c),
               PreviousRelease := AppState_ReleaseMetadata current\<rparr>)"

section \<open>Writing\<close>

definition marshal_release :: "go_lib \<Rightarrow> ReleaseMetadata \<Rightarrow> ReleaseMetadata" where
  "marshal_release G r = r\<lparr>rm_AppliedManifest := json_compact G (rm_AppliedManifest r)\<rparr>"

text \<open>
  The document \<open>json.Marshal\<close> produces for a state: raw messages are compacted, an empty one is
  omitted, and the unexported field is not written.
\<close>

definition marshal_state :: "go_lib \<Rightarrow> AppState \<Rightarrow> AppState" where
  "marshal_state G s =
     s\<lparr>legacyImported := False,
       AppliedManifest := (if AppliedManifest s = [] then [] else json_compact G (AppliedManifest s)),
       PreviousRelease := map_option
         (\<lambda>r. if rm_AppliedManifest r = [] then r else marshal_release G r) (PreviousRelease s)\<rparr>"

text \<open>
  \<open>prepareState\<close> fills the defaults in place and validates; the caller's state is the result.
\<close>

definition prepareState :: "go_lib \<Rightarrow> int \<Rightarrow> string \<Rightarrow> AppState \<Rightarrow> (state_error, AppState) result" where
  "prepareState G now opid s0 =
     (let s = (if SchemaVersion s0 = 0 then s0\<lparr>SchemaVersion := SchemaVersionV2\<rparr> else s0)
      in if SchemaVersion s \<noteq> SchemaVersionV2 \<and> SchemaVersion s \<noteq> SchemaVersionV3 then
           Inl (UnsupportedSchema (SchemaVersion s))
         else if Tombstone s \<and> SchemaVersion s \<noteq> SchemaVersionV3 then Inl TombstoneWithoutV3
         else validateDigests G
           (s\<lparr>DeploymentType := (if DeploymentType s = [] then ''container'' else DeploymentType s),
              IngressMode := (if IngressMode s = [] then ''caddy'' else IngressMode s),
              UpdatedAt := (case UpdatedAt s of None \<Rightarrow> Some now | Some t \<Rightarrow> Some t),
              OperationID := (if OperationID s = [] then opid else OperationID s),
              Generation := (if Generation s = 0 then 1 else Generation s)\<rparr>))"

text \<open>
  \<open>GenerationCASPrefix\<close> composed with an effect: an absent sidecar passes (it reads as 0), an
  unreadable or a newer one refuses with status 74.
\<close>

definition gen_cas :: "gen option \<Rightarrow> app_dir cmd \<Rightarrow> app_dir cmd" where
  "gen_cas expected c d =
     (case expected of
        None \<Rightarrow> c d
      | Some e \<Rightarrow>
          (case gen_sidecar d of
             None \<Rightarrow> c d
           | Some GenJunk \<Rightarrow> Inl 74
           | Some (GenNum g) \<Rightarrow> if g \<le> e then c d else Inl 74))"

text \<open>
  The two renames of a commit, \<open>mv tmp state.json && mv tmp2 .generation\<close>.  The staged siblings
  have random names and are touched by nobody else, so both are there or the upload failed.
\<close>

definition mv_commit :: "string \<Rightarrow> string \<Rightarrow> app_dir cmd" where
  "mv_commit tmp tmp2 d =
     (case (staged d tmp, staged d tmp2) of
        (Some (StagedState s), Some (StagedGen g)) \<Rightarrow>
          Inr [\<lambda>d. d\<lparr>state_json := Some (StateDoc s), staged := (staged d)(tmp := None)\<rparr>,
               \<lambda>d. d\<lparr>gen_sidecar := Some (GenNum g), staged := (staged d)(tmp2 := None)\<rparr>]
      | _ \<Rightarrow> Inl 1)"

definition mv_gen :: "string \<Rightarrow> app_dir cmd" where
  "mv_gen tmp d =
     (case staged d tmp of
        Some (StagedGen g) \<Rightarrow> Inr [\<lambda>d. d\<lparr>gen_sidecar := Some (GenNum g), staged := (staged d)(tmp := None)\<rparr>]
      | _ \<Rightarrow> Inl 1)"

text \<open>The fixed staging name of \<open>writeGenerationSidecarFenced\<close>.\<close>

definition gen_tmp_commit :: string where
  "gen_tmp_commit = ''.generation.tmp-commit''"

definition guard_to_state_error :: "guard_error \<Rightarrow> state_error" where
  "guard_to_state_error e = (case e of FenceLost \<Rightarrow> LockFenceLost | EffectError x \<Rightarrow> EffectFailed x)"

definition writeGenerationSidecarFenced ::
  "gen \<Rightarrow> Lock option \<Rightarrow> app_dir world \<Rightarrow> (state_error, unit) result \<times> app_dir world" where
  "writeGenerationSidecarFenced g lk w =
     (case run_cmd (upload (stage gen_tmp_commit (StagedGen g))) w of
        (Inl e, w1) \<Rightarrow> (Inl (UploadFailed e), w1)
      | (Inr _, w1) \<Rightarrow>
          (case Guarded lk (mv_gen gen_tmp_commit) w1 of
             (Inl e, w2) \<Rightarrow> (Inl (guard_to_state_error e), w2)
           | (Inr _, w2) \<Rightarrow> (Inr (), w2)))"

definition resolvePublication ::
  "go_lib \<Rightarrow> AppState \<Rightarrow> gen \<Rightarrow> Lock option \<Rightarrow> state_error \<Rightarrow> app_dir world
     \<Rightarrow> (state_error, unit) result \<times> app_dir world" where
  "resolvePublication G data g lk cause w =
     (case ReadRemoteFile state_json w of
        (Inl _, w1) \<Rightarrow> (Inl (Publication False True), w1)
      | (Inr None, w1) \<Rightarrow> (Inl cause, w1)
      | (Inr (Some doc), w1) \<Rightarrow>
          if doc \<noteq> StateDoc data then
            (case ReadState G w1 of
               (Inr (Some prior), w2) \<Rightarrow>
                 (Inl (if Generation prior < g then cause else Publication False True), w2)
             | (_, w2) \<Rightarrow> (Inl (Publication False True), w2))
          else
            (case (case lk of None \<Rightarrow> (Inr (), w1) | Some _ \<Rightarrow> Lock_Check lk w1) of
               (Inl _, w2) \<Rightarrow> (Inl (Publication True False), w2)
             | (Inr _, w2) \<Rightarrow>
                 (case writeGenerationSidecarFenced g lk w2 of
                    (Inl _, w3) \<Rightarrow> (Inl (Publication True False), w3)
                  | (Inr _, w3) \<Rightarrow> (Inr (), w3))))"

text \<open>\<open>ssh.UploadAtomic\<close> of the state: stage, rename, and remove the staged file on any failure.\<close>

definition mv_state :: "string \<Rightarrow> app_dir cmd" where
  "mv_state tmp d =
     (case staged d tmp of
        Some (StagedState s) \<Rightarrow> Inr [\<lambda>d. d\<lparr>state_json := Some (StateDoc s), staged := (staged d)(tmp := None)\<rparr>]
      | _ \<Rightarrow> Inl 1)"

definition UploadAtomic_state ::
  "string \<Rightarrow> AppState \<Rightarrow> app_dir world \<Rightarrow> (state_error, unit) result \<times> app_dir world" where
  "UploadAtomic_state tmp data w =
     (case run_cmd (upload (stage tmp (StagedState data))) w of
        (Inl e, w1) \<Rightarrow> (Inl (UploadFailed e), snd (run_cmd (upload (unstage tmp)) w1))
      | (Inr _, w1) \<Rightarrow>
          (case run_cmd (mv_state tmp) w1 of
             (Inl e, w2) \<Rightarrow> (Inl (EffectFailed e), snd (run_cmd (upload (unstage tmp)) w2))
           | (Inr _, w2) \<Rightarrow> (Inr (), w2)))"

definition WriteState ::
  "go_lib \<Rightarrow> int \<Rightarrow> string \<Rightarrow> string \<Rightarrow> AppState \<Rightarrow> app_dir world
     \<Rightarrow> (state_error, unit) result \<times> app_dir world" where
  "WriteState G now opid tmp s0 w =
     (case prepareState G now opid s0 of
        Inl e \<Rightarrow> (Inl e, w)
      | Inr s \<Rightarrow>
          (case UploadAtomic_state tmp (marshal_state G s) w of
             (Inl e, w1) \<Rightarrow> resolvePublication G (marshal_state G s) (Generation s) None e w1
           | (Inr _, w1) \<Rightarrow>
               (case writeGenerationSidecarFenced (Generation s) None w1 of
                  (Inl e, w2) \<Rightarrow> resolvePublication G (marshal_state G s) (Generation s) None e w2
                | (Inr _, w2) \<Rightarrow> (Inr (), w2))))"

definition writeFenced ::
  "go_lib \<Rightarrow> string \<Rightarrow> int \<Rightarrow> string \<Rightarrow> string \<Rightarrow> string \<Rightarrow> AppState \<Rightarrow> Lock option \<Rightarrow> gen option
     \<Rightarrow> app_dir world \<Rightarrow> (state_error, unit) result \<times> app_dir world" where
  "writeFenced G app now opid tmp tmp2 s0 lk expected w =
     (case lk of
        None \<Rightarrow> WriteState G now opid tmp s0 w
      | Some l \<Rightarrow>
          if lk_app l \<noteq> app then (Inl WrongLease, w)
          else case prepareState G now opid s0 of
                 Inl e \<Rightarrow> (Inl e, w)
               | Inr s \<Rightarrow>
                   (case run_cmd (upload (stage tmp (StagedState (marshal_state G s)))) w of
                      (Inl e, w1) \<Rightarrow> (Inl (UploadFailed e), w1)
                    | (Inr _, w1) \<Rightarrow>
                        (case run_cmd (upload (stage tmp2 (StagedGen (Generation s)))) w1 of
                           (Inl e, w2) \<Rightarrow> (Inl (UploadFailed e), w2)
                         | (Inr _, w2) \<Rightarrow>
                             (case Guarded lk (gen_cas expected (mv_commit tmp tmp2)) w2 of
                                (Inr _, w3) \<Rightarrow> (Inr (), w3)
                              | (Inl e, w3) \<Rightarrow>
                                  if e = EffectError (Exit 74) then (Inl GenerationFenced, w3)
                                  else resolvePublication G (marshal_state G s) (Generation s) lk
                                         (guard_to_state_error e) w3))))"

section \<open>Reading back what was written\<close>

text \<open>
  The framed read tells absence from presence and loses only trailing newlines: parsing the
  framing of a missing file gives a confirmed absence, of a file with any content (also one that
  reads \<open>absent\<close>) the content without its trailing newlines.
\<close>

theorem frame_roundtrip: "parse_frame (frame_file f) = Some (map_option trim_newlines f)"
proof (cases f)
  case None
  then show ?thesis
    by (simp add: frame_file_def parse_frame_def Let_def trim_newlines_def trim_right_def)
next
  case (Some body)
  have pre: "trim_newlines (''present'' @ newline # body) =
      (if trim_newlines body = [] then ''present'' else ''present'' @ newline # trim_newlines body)"
    using trim_right_append [of "\<lambda>c. c = newline" "''present'' @ [newline]" body]
    by (simp add: trim_newlines_def trim_right_def)
  with Some show ?thesis
    by (simp add: frame_file_def parse_frame_def Let_def trim_prefix_def)
qed

text \<open>A state every reader accepts and no writer changes.\<close>

definition digest_ok :: "go_lib \<Rightarrow> string \<Rightarrow> string \<Rightarrow> bool" where
  "digest_ok G manifest digest \<longleftrightarrow>
     manifest = [] \<or> (json_valid G manifest \<and> digest = sha256_hex G manifest)"

definition wf_state :: "go_lib \<Rightarrow> AppState \<Rightarrow> bool" where
  "wf_state G s \<longleftrightarrow>
     (SchemaVersion s = SchemaVersionV2 \<or> SchemaVersion s = SchemaVersionV3)
     \<and> (Tombstone s \<longrightarrow> SchemaVersion s = SchemaVersionV3)
     \<and> DeploymentType s \<noteq> [] \<and> IngressMode s \<noteq> [] \<and> UpdatedAt s \<noteq> None
     \<and> OperationID s \<noteq> [] \<and> Generation s \<noteq> 0
     \<and> digest_ok G (AppliedManifest s) (ManifestSHA256 s)
     \<and> (\<forall>r. PreviousRelease s = Some r \<longrightarrow> digest_ok G (rm_AppliedManifest r) (rm_ManifestSHA256 r))"

lemma validateManifestDigest_Inr:
  "validateManifestDigest G s = Inr s' \<longleftrightarrow>
     (AppliedManifest s = [] \<and> s' = s)
     \<or> (AppliedManifest s \<noteq> [] \<and> json_valid G (AppliedManifest s)
        \<and> (ManifestSHA256 s = [] \<or> ManifestSHA256 s = sha256_hex G (AppliedManifest s))
        \<and> s' = s\<lparr>ManifestSHA256 := sha256_hex G (AppliedManifest s)\<rparr>)"
  by (auto simp: validateManifestDigest_def Let_def)

lemma validateReleaseDigest_ok:
  "validateReleaseDigest G rel = Inr rel' \<Longrightarrow>
     (\<forall>r. rel' = Some r \<longrightarrow> digest_ok G (rm_AppliedManifest r) (rm_ManifestSHA256 r))
     \<and> validateReleaseDigest G rel' = Inr rel'"
  by (auto simp: validateReleaseDigest_def digest_ok_def Let_def split: option.splits if_splits)

lemma validateDigests_fix:
  "wf_state G s \<Longrightarrow> validateDigests G s = Inr s"
  by (auto simp: validateDigests_def validateManifestDigest_def validateReleaseDigest_def wf_state_def
      digest_ok_def Let_def split: option.splits)

lemma validateDigests_Inr:
  assumes "validateDigests G s = Inr s'"
  obtains m p where "s' = s\<lparr>ManifestSHA256 := m, PreviousRelease := p\<rparr>"
    and "digest_ok G (AppliedManifest s) m"
    and "\<forall>r. p = Some r \<longrightarrow> digest_ok G (rm_AppliedManifest r) (rm_ManifestSHA256 r)"
proof -
  from assms obtain s1 rel where m: "validateManifestDigest G s = Inr s1"
    and r: "validateReleaseDigest G (PreviousRelease s1) = Inr rel" and s': "s' = s1\<lparr>PreviousRelease := rel\<rparr>"
    by (auto simp: validateDigests_def split: sum.splits)
  from m obtain h where h: "s1 = s\<lparr>ManifestSHA256 := h\<rparr>" and "digest_ok G (AppliedManifest s) h"
  proof -
    have "s = s\<lparr>ManifestSHA256 := ManifestSHA256 s\<rparr>" by simp
    with m that show thesis
      unfolding validateManifestDigest_Inr digest_ok_def by blast
  qed
  with validateReleaseDigest_ok [OF r] s' that show thesis by simp
qed

lemma prepareState_Inr:
  assumes prep: "prepareState G now opid s = Inr s'" and opid: "opid \<noteq> []"
  shows "wf_state G s'"
proof -
  define s1 where "s1 = (if SchemaVersion s = 0 then s\<lparr>SchemaVersion := SchemaVersionV2\<rparr> else s)"
  define t where "t = s1\<lparr>DeploymentType := (if DeploymentType s1 = [] then ''container'' else DeploymentType s1),
        IngressMode := (if IngressMode s1 = [] then ''caddy'' else IngressMode s1),
        UpdatedAt := (case UpdatedAt s1 of None \<Rightarrow> Some now | Some t \<Rightarrow> Some t),
        OperationID := (if OperationID s1 = [] then opid else OperationID s1),
        Generation := (if Generation s1 = 0 then 1 else Generation s1)\<rparr>"
  from prep have schema: "SchemaVersion s1 = SchemaVersionV2 \<or> SchemaVersion s1 = SchemaVersionV3"
    and tomb: "Tombstone s1 \<longrightarrow> SchemaVersion s1 = SchemaVersionV3"
    and v: "validateDigests G t = Inr s'"
    unfolding prepareState_def Let_def s1_def [symmetric] t_def [symmetric]
    by (simp_all split: if_splits)
  from v obtain m p where "s' = t\<lparr>ManifestSHA256 := m, PreviousRelease := p\<rparr>"
    and "digest_ok G (AppliedManifest t) m"
    and "\<forall>r. p = Some r \<longrightarrow> digest_ok G (rm_AppliedManifest r) (rm_ManifestSHA256 r)"
    by (rule validateDigests_Inr)
  with schema tomb opid show ?thesis
    by (auto simp: wf_state_def t_def split: option.splits)
qed

lemma prepareState_fix: "wf_state G s \<Longrightarrow> prepareState G now opid s = Inr s"
  by (auto simp: prepareState_def Let_def validateDigests_fix wf_state_def SchemaVersionV2_def
      SchemaVersionV3_def split: option.splits)

text \<open>Compaction, which \<open>json.Marshal\<close> applies to raw messages, leaves both manifests alone.\<close>

definition compact_manifests :: "go_lib \<Rightarrow> AppState \<Rightarrow> bool" where
  "compact_manifests G s \<longleftrightarrow> json_compact G (AppliedManifest s) = AppliedManifest s
     \<and> (\<forall>r. PreviousRelease s = Some r \<longrightarrow> json_compact G (rm_AppliedManifest r) = rm_AppliedManifest r)"

lemma marshal_state_compact:
  assumes "compact_manifests G s"
  shows "marshal_state G s = s\<lparr>legacyImported := False\<rparr>"
proof -
  have "map_option (\<lambda>r. if rm_AppliedManifest r = [] then r else marshal_release G r) (PreviousRelease s)
      = PreviousRelease s"
    using assms by (cases "PreviousRelease s") (simp_all add: compact_manifests_def marshal_release_def)
  with assms show ?thesis by (simp add: marshal_state_def compact_manifests_def)
qed

lemma ParseCanonical_wf:
  "wf_state G s \<Longrightarrow> ParseCanonical G (StateDoc s) = Inr (normalizePorts s)"
  by (simp add: ParseCanonical_def validateDigests_fix wf_state_def)

text \<open>
  C10. A state that passes \<open>prepareState\<close> is complete and valid (known schema, tombstones only under
  version 3, every defaulted field filled, both manifest digests matching), preparing it again
  changes nothing, and when JSON compaction leaves its manifests as they are, the document written
  for it is one \<open>ParseCanonical\<close> accepts and reads back as the same state with its port lists
  normalized.
\<close>

theorem prepared_state_reads_back:
  assumes "prepareState G now opid s = Inr s'" and "opid \<noteq> []" and "compact_manifests G s'"
  shows "wf_state G s' \<and> prepareState G now' opid' s' = Inr s'
    \<and> ParseCanonical G (StateDoc (marshal_state G s')) = Inr (normalizePorts (s'\<lparr>legacyImported := False\<rparr>))"
proof -
  have wf: "wf_state G s'"
    using assms(1,2) by (rule prepareState_Inr)
  then have "wf_state G (s'\<lparr>legacyImported := False\<rparr>)"
    by (simp add: wf_state_def)
  with wf assms(3) show ?thesis
    by (simp add: prepareState_fix ParseCanonical_wf marshal_state_compact)
qed

text \<open>A library good enough to evaluate on: compaction drops blanks, the digest is the length.\<close>

definition demo_lib :: go_lib where
  "demo_lib = \<lparr>sha256_hex = (\<lambda>s. ''sha'' @ nat_to_string (length s)), json_valid = (\<lambda>s. s \<noteq> []),
     json_compact = (\<lambda>s. [c \<leftarrow> s. c \<noteq> CHR '' ''])\<rparr>"

definition demo_state :: AppState where
  "demo_state = zero_state\<lparr>Domain := ''example.com'', CurrentHash := ''abc'', CurrentPort := 8080,
     AppliedManifest := ''{}''\<rparr>"

theorem prepared_state_reads_back_witness:
  "\<exists>s'. prepareState demo_lib 7 ''op'' demo_state = Inr s' \<and> wf_state demo_lib s'
    \<and> ParseCanonical demo_lib (StateDoc (marshal_state demo_lib s')) = Inr (normalizePorts (s'\<lparr>legacyImported := False\<rparr>))"
proof -
  let ?s = "demo_state\<lparr>SchemaVersion := 2, DeploymentType := ''container'', IngressMode := ''caddy'',
    UpdatedAt := Some 7, OperationID := ''op'', Generation := 1, ManifestSHA256 := sha256_hex demo_lib ''{}''\<rparr>"
  have p: "prepareState demo_lib 7 ''op'' demo_state = Inr ?s"
    by (simp add: prepareState_def demo_state_def zero_state_def validateDigests_def SchemaVersionV2_def
        SchemaVersionV3_def validateManifestDigest_def validateReleaseDigest_def demo_lib_def Let_def)
  have "compact_manifests demo_lib ?s"
    by (simp add: compact_manifests_def demo_state_def zero_state_def demo_lib_def)
  with prepared_state_reads_back [OF p] p show ?thesis by blast
qed

section \<open>Ports, lineage, absence\<close>

lemma int_to_string_digits: "0 < p \<Longrightarrow> list_all is_digit (int_to_string p)"
  by (simp add: int_to_string_def nat_to_string_digits)

lemma digits_plain: "list_all is_digit s \<Longrightarrow> CHR '','' \<notin> set s \<and> trim_space s = s"
  using trim_space_no_space [of s]
  by (auto simp: list_all_iff digit_not_space) (auto simp: is_digit_def)

text \<open>
  Port lists survive the legacy comma format: what \<open>formatPorts\<close> prints for positive machine
  integers, \<open>parsePorts\<close> reads back, in order and with duplicates.
\<close>

theorem parse_format_ports:
  assumes "\<forall>p \<in> set ports. 0 < p \<and> p \<le> max_int64"
  shows "parsePorts (formatPorts ports) = ports"
proof (cases "ports = []")
  case True
  then show ?thesis
    by (simp add: parsePorts_def formatPorts_def trim_space_def trim_left_def trim_right_def atoi_def parse_nat_def)
next
  case False
  have digits: "list_all is_digit (int_to_string p)" if "p \<in> set ports" for p
    using that assms int_to_string_digits by blast
  have atoi: "atoi (trim_space (int_to_string p)) = (p, True)" if "p \<in> set ports" for p
    using that assms digits [OF that] atoi_nat_to_string [of "nat p"]
    by (simp add: digits_plain) (auto simp: int_to_string_def)
  have "split_on CHR '','' (formatPorts ports) = map int_to_string ports"
    unfolding formatPorts_def
    by (rule split_join) (use False digits digits_plain in auto)
  moreover have "concat (map (\<lambda>p. [p]) ports) = ports"
    by (induction ports) auto
  ultimately show ?thesis
    using assms atoi by (simp add: parsePorts_def Let_def o_def cong: map_cong)
qed

theorem parse_format_ports_witness: "parsePorts (formatPorts [8080, 81, 8080]) = [8080, 81, 8080]"
  by (rule parse_format_ports) (simp add: max_int64_def)

lemma word_less_succ: "g \<noteq> - 1 \<Longrightarrow> g < g + (1 :: gen)"
  using unatSuc [of g] by (simp add: word_less_nat_alt add.commute [of 1] eq_neg_iff_add_eq_0)

text \<open>
  The lineage of a redeploy: the next state's generation is strictly above the current one
  (short of the last 64-bit number), its previous release is exactly the release identity of the
  current state, a version 3 app stays at version 3, and rolling back by applying that release
  restores manifest, image and source identity of the current state.
\<close>

theorem redeploy_lineage:
  assumes "Generation c \<noteq> - 1" and "CurrentHash c \<noteq> []"
  shows "Generation c < Generation (NewAppliedState (Some c) ty ingress host now opid)
    \<and> (SchemaVersion c = SchemaVersionV3 \<longrightarrow>
         SchemaVersion (NewAppliedState (Some c) ty ingress host now opid) = SchemaVersionV3)
    \<and> (\<exists>r. PreviousRelease (NewAppliedState (Some c) ty ingress host now opid) = Some r
         \<and> rm_Hash r = CurrentHash c \<and> rm_Generation r = Generation c
         \<and> (let back = ApplyRelease (Some r) (NewAppliedState (Some c) ty ingress host now opid)
            in AppliedManifest back = AppliedManifest c \<and> ManifestSHA256 back = ManifestSHA256 c
               \<and> ImageRef back = ImageRef c \<and> ImageDigest back = ImageDigest c
               \<and> SourceRevision back = SourceRevision c))"
proof -
  have "Generation c < Generation c + 1"
    using word_less_succ [OF assms(1)] .
  with assms(2) show ?thesis
    by (auto simp: NewAppliedState_def AppState_ReleaseMetadata_def ApplyRelease_def Let_def)
qed

theorem redeploy_lineage_witness:
  "(41::gen) < Generation (NewAppliedState (Some (demo_state\<lparr>Generation := 41\<rparr>)) [] [] ''example.com'' 9 ''op2'')"
  using redeploy_lineage [of "demo_state\<lparr>Generation := 41\<rparr>" "[]" "[]" "''example.com''" 9 "''op2''"]
  by (simp add: demo_state_def)

definition no_app :: "app_dir \<Rightarrow> bool" where
  "no_app d \<longleftrightarrow>
     (state_json d = None \<and> (case legacy_state d of None \<Rightarrow> True | Some t \<Rightarrow> trim_space t = []))
     \<or> (\<exists>s. state_json d = Some (StateDoc s) \<and> Tombstone s \<and> SchemaVersion s = SchemaVersionV3)"

lemma normalizePorts_simps [simp]:
  "Tombstone (normalizePorts s) = Tombstone s" "SchemaVersion (normalizePorts s) = SchemaVersion s"
  "Generation (normalizePorts s) = Generation s" "CurrentHash (normalizePorts s) = CurrentHash s"
  "AppliedManifest (normalizePorts s) = AppliedManifest s" "ManifestSHA256 (normalizePorts s) = ManifestSHA256 s"
  "PreviousRelease (normalizePorts s) = PreviousRelease s"
  by (simp_all add: normalizePorts_def Let_def)

lemma ParseCanonical_Inr:
  assumes "ParseCanonical G doc = Inr s"
  obtains s0 where "doc = StateDoc s0" and "Tombstone s = Tombstone s0" and "SchemaVersion s = SchemaVersion s0"
    and "Generation s = Generation s0" and "CurrentHash s = CurrentHash s0"
    and "SchemaVersion s0 = SchemaVersionV2 \<or> SchemaVersion s0 = SchemaVersionV3"
    and "Tombstone s0 \<longrightarrow> SchemaVersion s0 = SchemaVersionV3"
proof (cases doc)
  case (StateDoc s0)
  with assms have ok: "SchemaVersion s0 = SchemaVersionV2 \<or> SchemaVersion s0 = SchemaVersionV3"
      "Tombstone s0 \<longrightarrow> SchemaVersion s0 = SchemaVersionV3"
    and "map_sum id normalizePorts (validateDigests G s0) = Inr s"
    by (auto simp: ParseCanonical_def split: if_splits)
  then obtain s1 where v: "validateDigests G s0 = Inr s1" and s: "s = normalizePorts s1"
    by (cases "validateDigests G s0") auto
  from v obtain m p where "s1 = s0\<lparr>ManifestSHA256 := m, PreviousRelease := p\<rparr>"
    by (rule validateDigests_Inr)
  with s ok StateDoc that show thesis by simp
qed (use assms in \<open>simp_all add: ParseCanonical_def\<close>)

lemma ReadRemoteFile_Inr:
  assumes "ReadRemoteFile f w = (Inr x, w')" and "quiet w"
  shows "x = f (dir w)" and "dir w' = dir w" and "quiet w'"
  using assms run_read_Inr [of f w] run_read_dir_quiet [of w f] run_read_quiet [of w f]
  by (auto simp: ReadRemoteFile_def split: prod.splits sum.splits)

lemma legacy_line_alive: "Tombstone (legacy_line s raw) = Tombstone s"
  by (simp add: legacy_line_def Let_def split: option.splits)

lemma ParseLegacy_alive: "ParseLegacy t = Some s \<Longrightarrow> \<not> Tombstone s"
proof -
  have "Tombstone (foldl legacy_line s0 ls) = Tombstone s0" for s0 ls
    by (induction ls arbitrary: s0) (simp_all add: legacy_line_alive)
  then show "ParseLegacy t = Some s \<Longrightarrow> \<not> Tombstone s"
    by (auto simp: ParseLegacy_def zero_state_def split: if_splits)
qed

text \<open>
  C11. Reading never mistakes a failure for absence.  While nobody else writes, and wherever the
  connection breaks, \<open>ReadState\<close> answers "no app" only when there is no \<open>state.json\<close> and no
  non-blank legacy file, or when \<open>state.json\<close> is a version 3 tombstone; and it answers a state only
  if that state is no tombstone.
\<close>

theorem ReadState_absence_sound:
  assumes "quiet w"
  shows "(fst (ReadState G w) = Inr None \<longrightarrow> no_app (dir w))
    \<and> (\<forall>s. fst (ReadState G w) = Inr (Some s) \<longrightarrow> \<not> Tombstone s)"
proof (cases "ReadRemoteFile state_json w")
  case (Pair r w1)
  show ?thesis
  proof (cases r)
    case (Inl e)
    with Pair show ?thesis by (simp add: ReadState_def)
  next
    case (Inr doc)
    note one = ReadRemoteFile_Inr [OF Pair [unfolded Inr] assms]
    show ?thesis
    proof (cases doc)
      case (Some d)
      with one(1) have d: "state_json (dir w) = Some d" by simp
      show ?thesis
        using Pair Inr Some d
        by (auto simp: ReadState_def no_app_def split: sum.splits if_splits elim!: ParseCanonical_Inr)
    next
      case None
      obtain r2 w2 where two: "ReadRemoteFile legacy_state w1 = (r2, w2)" by fastforce
      show ?thesis
      proof (cases r2)
        case (Inl e)
        with None Pair Inr two show ?thesis by (simp add: ReadState_def)
      next
        fix l
        assume l: "r2 = Inr l"
        note leg = ReadRemoteFile_Inr [OF two [unfolded l] one(3)]
        show ?thesis
          using None Pair \<open>r = Inr doc\<close> two l one leg
          by (auto simp: ReadState_def no_app_def ParseLegacy_def ParseLegacy_alive split: option.splits)
      qed
    qed
  qed
qed

theorem ReadState_absence_sound_witness:
  "fst (ReadState demo_lib \<lparr>dir = empty_dir\<lparr>legacy_state := Some '' ''\<rparr>, script = []\<rparr>) = Inr None
   \<and> no_app (empty_dir\<lparr>legacy_state := Some '' ''\<rparr>)"
proof -
  let ?w = "\<lparr>dir = empty_dir\<lparr>legacy_state := Some '' ''\<rparr>, script = []\<rparr>"
  have "fst (ReadState demo_lib ?w) = Inr None"
    by (simp add: ReadState_def ReadRemoteFile_def run_read_def next_env_def Let_def empty_dir_def
        ParseLegacy_def trim_space_def trim_left_def trim_right_def is_space_def)
  with ReadState_absence_sound [of ?w demo_lib] show ?thesis
    by (simp add: quiet_def)
qed

end
