(* ===== verification/Commit.thy ===== *)
theory Commit
  imports StateStore
begin

text \<open>
  Committing under the fence: what a fenced state commit (\<open>internal/state/lock.go\<close>, \<open>writeFenced\<close>)
  leaves behind at every point it can be cut, tombstones and the home marker
  (\<open>internal/state/state.go\<close>, \<open>WriteTombstone\<close> and \<open>SetSchemaVersion\<close>), the baseline check of a
  reviewed plan (\<open>internal/state/publication.go\<close>), version pins (\<open>internal/state/pins.go\<close>), the
  lease-holding executor (\<open>internal/state/fenced_executor.go\<close>) and the home gate
  (\<open>internal/confighome/gate.go\<close>).
\<close>

section \<open>What others see\<close>

text \<open>What a reader or a contender can see of the app, as opposed to staged files.\<close>

definition visible :: "app_dir \<Rightarrow> lock_file option \<times> state_doc option \<times> string option \<times> gen_doc option \<times> string option" where
  "visible d = (lock_dir d, state_json d, legacy_state d, gen_sidecar d, config_git d)"

definition others :: "app_dir \<Rightarrow> lock_file option \<times> string option" where
  [simp]: "others d = (lock_dir d, config_git d)"

lemma visible_stage [simp]:
  "visible (stage tmp x d) = visible d" "visible (unstage tmp d) = visible d"
  by (simp_all add: visible_def stage_def unstage_def)

lemma visible_eqD:
  assumes "visible d = visible d'"
  shows "lock_dir d = lock_dir d'" "state_json d = state_json d'" "legacy_state d = legacy_state d'"
    "gen_sidecar d = gen_sidecar d'" "config_git d = config_git d'"
  using assms by (simp_all add: visible_def)

lemma names_owner_visible: "visible d = visible d' \<Longrightarrow> names_owner u d = names_owner u d'"
  by (simp add: visible_def names_owner_def)

lemma upload_quiet:
  assumes "quiet w"
  shows "quiet (snd (run_cmd (upload e) w))"
    and "dir (snd (run_cmd (upload e) w)) = dir w \<or> dir (snd (run_cmd (upload e) w)) = e (dir w)"
    and "fst (run_cmd (upload e) w) = Inr () \<Longrightarrow> dir (snd (run_cmd (upload e) w)) = e (dir w)"
proof -
  show "quiet (snd (run_cmd (upload e) w))"
    using assms by (rule run_cmd_quiet)
  show "dir (snd (run_cmd (upload e) w)) = dir w \<or> dir (snd (run_cmd (upload e) w)) = e (dir w)"
    by (cases rule: run_cmd_quiet_cases [OF assms, of "upload e"]) (auto simp: upload_def take_Cons')
  show "fst (run_cmd (upload e) w) = Inr () \<Longrightarrow> dir (snd (run_cmd (upload e) w)) = e (dir w)"
    by (cases rule: run_cmd_quiet_cases [OF assms, of "upload e"]) (auto simp: upload_def)
qed

lemma upload_visible:
  assumes "quiet w" and "\<And>d. visible (e d) = visible d"
  shows "visible (dir (snd (run_cmd (upload e) w))) = visible (dir w)"
  using upload_quiet(2) [OF assms(1), of e] assms(2) by metis

section \<open>Publishing the sidecar\<close>

lemma Guarded_cases:
  obtains c' where "snd (Guarded lk c w) = snd (run_cmd c' w)"
    and "fst (Guarded lk c w) = Inr () \<longleftrightarrow> fst (run_cmd c' w) = Inr ()"
    and "\<And>d effs. c' d = Inr effs \<Longrightarrow> c d = Inr effs \<and> (\<forall>l. lk = Some l \<longrightarrow> names_owner (lk_owner l) d)"
proof (cases lk)
  case None
  show thesis
    by (rule that [of c]) (auto simp: None Guarded_def split: prod.splits sum.splits)
next
  case (Some l)
  show thesis
    by (rule that [of "guarded_cmd (lk_owner l) c"])
      (auto simp: Some Guarded_def guarded_cmd_def split: prod.splits sum.splits if_splits)
qed

lemma Guarded_quiet: "quiet w \<Longrightarrow> quiet (snd (Guarded lk c w))"
  by (rule Guarded_cases [of lk c w]) (simp add: run_cmd_quiet)

lemma writeGenerationSidecarFenced_quiet:
  assumes "quiet w" and "writeGenerationSidecarFenced g lk w = (r, w')"
  shows "quiet w' \<and> state_json (dir w') = state_json (dir w) \<and> others (dir w') = others (dir w)
    \<and> (r = Inr () \<longrightarrow> gen_sidecar (dir w') = Some (GenNum g))
    \<and> (gen_sidecar (dir w') = gen_sidecar (dir w) \<or> gen_sidecar (dir w') = Some (GenNum g))"
proof -
  let ?up = "run_cmd (upload (stage gen_tmp_commit (StagedGen g))) w"
  note up = upload_quiet [OF assms(1), of "stage gen_tmp_commit (StagedGen g)"]
  have vis: "visible (dir (snd ?up)) = visible (dir w)"
    using assms(1) by (rule upload_visible) simp
  show ?thesis
  proof (cases "fst ?up")
    case (Inl e)
    with assms(2) have "w' = snd ?up" "r = Inl (UploadFailed e)"
      by (auto simp: writeGenerationSidecarFenced_def split: prod.splits sum.splits)
    with up(1) visible_eqD [OF vis] show ?thesis by simp
  next
    case (Inr u)
    then have staged: "staged (dir (snd ?up)) gen_tmp_commit = Some (StagedGen g)"
      using up(3) by (simp add: stage_def)
    let ?w1 = "snd ?up"
    from Inr assms(2) have w': "w' = snd (Guarded lk (mv_gen gen_tmp_commit) ?w1)"
      and r: "r = Inr () \<longleftrightarrow> fst (Guarded lk (mv_gen gen_tmp_commit) ?w1) = Inr ()"
      by (auto simp: writeGenerationSidecarFenced_def split: prod.splits sum.splits)
    obtain c' where c': "snd (Guarded lk (mv_gen gen_tmp_commit) ?w1) = snd (run_cmd c' ?w1)"
      "fst (Guarded lk (mv_gen gen_tmp_commit) ?w1) = Inr () \<longleftrightarrow> fst (run_cmd c' ?w1) = Inr ()"
      "\<And>d effs. c' d = Inr effs \<Longrightarrow> mv_gen gen_tmp_commit d = Inr effs"
      by (rule Guarded_cases [of lk "mv_gen gen_tmp_commit" ?w1]) blast
    let ?d = "dir ?w1"
    have effs: "effs = [\<lambda>d. d\<lparr>gen_sidecar := Some (GenNum g), staged := (staged d)(gen_tmp_commit := None)\<rparr>]"
      if "c' ?d = Inr effs" for effs
      using c'(3) [OF that] staged by (simp add: mv_gen_def)
    have "quiet w'"
      using up(1) w' by (simp add: Guarded_quiet)
    with c'(1,2) r w' visible_eqD [OF vis] show ?thesis
      by (cases rule: run_cmd_quiet_cases [OF up(1), of c']) (auto dest!: effs simp: take_Cons')
  qed
qed

section \<open>Resolving an uncertain publication\<close>

lemma Lock_Check_quiet:
  assumes "quiet w" and "Lock_Check lk w = (r, w')"
  shows "quiet w' \<and> dir w' = dir w
    \<and> (\<forall>l. lk = Some l \<and> r = Inr () \<longrightarrow> names_owner (lk_owner l) (dir w))"
proof (cases lk)
  case None
  with assms show ?thesis by (simp add: Lock_Check_def)
next
  case (Some l)
  let ?f = "names_owner (lk_owner l)"
  obtain x w1 where rd: "run_read ?f w = (x, w1)" by fastforce
  have "quiet w1" "dir w1 = dir w" "\<And>b. x = Inr b \<Longrightarrow> b = ?f (dir w1)"
    using rd run_read_quiet [OF assms(1), of ?f] run_read_dir_quiet [OF assms(1), of ?f]
      run_read_Inr [of ?f w] by simp_all
  with assms Some rd show ?thesis
    by (cases x) (auto simp: Lock_Check_def split: if_splits bool.splits)
qed

lemma ReadRemoteFile_quiet:
  assumes "quiet w" and "ReadRemoteFile f w = (r, w')"
  shows "quiet w' \<and> dir w' = dir w \<and> (\<forall>x. r = Inr x \<longrightarrow> x = f (dir w))"
  using assms run_read_quiet [of w f] run_read_dir_quiet [of w f] run_read_Inr [of f w]
  by (auto simp: ReadRemoteFile_def split: prod.splits sum.splits)

lemma ReadState_quiet:
  assumes "quiet w" and "ReadState G w = (r, w')"
  shows "quiet w' \<and> dir w' = dir w"
proof -
  obtain r1 w1 where one: "ReadRemoteFile state_json w = (r1, w1)" by fastforce
  obtain r2 w2 where two: "ReadRemoteFile legacy_state w1 = (r2, w2)" by fastforce
  note q1 = ReadRemoteFile_quiet [OF assms(1) one]
  note q2 = ReadRemoteFile_quiet [OF conjunct1 [OF q1] two]
  from assms(2) one two q1 q2 show ?thesis
    by (auto simp: ReadState_def split: sum.splits option.splits)
qed

lemma resolvePublication_quiet:
  assumes "quiet w" and "resolvePublication G data g lk cause w = (r, w')"
    and "\<not> PreservePublishedState cause"
  shows "quiet w' \<and> state_json (dir w') = state_json (dir w) \<and> others (dir w') = others (dir w)
    \<and> (r = Inr () \<longrightarrow> state_json (dir w) = Some (StateDoc data) \<and> gen_sidecar (dir w') = Some (GenNum g))
    \<and> (\<forall>e. r = Inl e \<and> \<not> PreservePublishedState e \<longrightarrow>
         state_json (dir w) \<noteq> Some (StateDoc data) \<and> dir w' = dir w)
    \<and> (state_json (dir w) \<noteq> Some (StateDoc data) \<longrightarrow> dir w' = dir w)
    \<and> (\<forall>u. r = Inl (Publication True u) \<longrightarrow> state_json (dir w) = Some (StateDoc data))
    \<and> (gen_sidecar (dir w') = gen_sidecar (dir w) \<or> gen_sidecar (dir w') = Some (GenNum g))"
proof -
  obtain r1 w1 where one: "ReadRemoteFile state_json w = (r1, w1)" by fastforce
  obtain r2 w2 where two: "ReadState G w1 = (r2, w2)" by fastforce
  have chk: "(case lk of None \<Rightarrow> (Inr (), w1) | Some l \<Rightarrow> Lock_Check (Some l) w1) = Lock_Check lk w1"
    by (simp add: Lock_Check_def split: option.split)
  obtain r3 w3 where three: "Lock_Check lk w1 = (r3, w3)" by fastforce
  obtain r4 w4 where four: "writeGenerationSidecarFenced g lk w3 = (r4, w4)" by fastforce
  note q1 = ReadRemoteFile_quiet [OF assms(1) one]
  note q2 = ReadState_quiet [OF conjunct1 [OF q1] two]
  have q3: "quiet w3 \<and> dir w3 = dir w1"
    using three q1 Lock_Check_quiet [of w1 lk r3 w3] by blast
  note q4 = writeGenerationSidecarFenced_quiet [OF conjunct1 [OF q3] four]
  have res: "resolvePublication G data g lk cause w =
     (case r1 of
        Inl _ \<Rightarrow> (Inl (Publication False True), w1)
      | Inr None \<Rightarrow> (Inl cause, w1)
      | Inr (Some doc) \<Rightarrow>
          if doc \<noteq> StateDoc data then
            (case r2 of
               Inr (Some prior) \<Rightarrow> (Inl (if Generation prior < g then cause else Publication False True), w2)
             | _ \<Rightarrow> (Inl (Publication False True), w2))
          else
            (case r3 of
               Inl _ \<Rightarrow> (Inl (Publication True False), w3)
             | Inr _ \<Rightarrow> (case r4 of Inl _ \<Rightarrow> (Inl (Publication True False), w4) | Inr _ \<Rightarrow> (Inr (), w4))))"
    by (simp add: resolvePublication_def one two chk three four cong: sum.case_cong option.case_cong if_cong)
  show ?thesis
    using assms(2,3) q1 q2 q3 q4 unfolding res
    by (auto simp: PreservePublishedState_def split: sum.splits option.splits if_splits)
qed

section \<open>The outcome of a commit\<close>

text \<open>
  How the authority moved between two server states: not at all, or to the new document, with a
  sidecar that is the old one or the new one.
\<close>

definition authority_kept :: "app_dir \<Rightarrow> app_dir \<Rightarrow> bool" where
  "authority_kept d d' \<longleftrightarrow> state_json d' = state_json d \<and> gen_sidecar d' = gen_sidecar d"

definition authority_moved :: "app_dir \<Rightarrow> AppState \<Rightarrow> gen \<Rightarrow> app_dir \<Rightarrow> bool" where
  "authority_moved d data g d' \<longleftrightarrow> state_json d' = Some (StateDoc data)
     \<and> (gen_sidecar d' = gen_sidecar d \<or> gen_sidecar d' = Some (GenNum g))"

lemma take_two: "take k [a, b] = [] \<or> take k [a, b] = [a] \<or> take k [a, b] = [a, b]"
  by (cases k; cases "k - 1") auto

lemma commit_step:
  assumes "quiet w" and "staged (dir w) tmp = Some (StagedState data)"
    and "staged (dir w) tmp2 = Some (StagedGen g)"
    and "Guarded (Some l) (gen_cas expected (mv_commit tmp tmp2)) w = (r, w')"
  shows "quiet w' \<and> others (dir w') = others (dir w)
    \<and> ((authority_kept (dir w) (dir w') \<and> r \<noteq> Inr ())
       \<or> (authority_moved (dir w) data g (dir w') \<and> r \<noteq> Inl (EffectError (Exit 74))
          \<and> names_owner (lk_owner l) (dir w)))
    \<and> (r = Inr () \<longrightarrow> gen_sidecar (dir w') = Some (GenNum g))"
proof -
  let ?c = "guarded_cmd (lk_owner l) (gen_cas expected (mv_commit tmp tmp2))"
  have w': "w' = snd (run_cmd ?c w)"
    and r: "r = Inr () \<longleftrightarrow> fst (run_cmd ?c w) = Inr ()"
    and r74: "r = Inl (EffectError (Exit 74)) \<longleftrightarrow> fst (run_cmd ?c w) = Inl (Exit 74)"
    using assms(4) by (auto simp: Guarded_def fenceLostErr_def split: prod.splits sum.splits if_splits)
  have q: "quiet w'"
    using assms(1) by (simp add: w' run_cmd_quiet)
  have effs: "names_owner (lk_owner l) (dir w) \<and>
      effs = [\<lambda>d. d\<lparr>state_json := Some (StateDoc data), staged := (staged d)(tmp := None)\<rparr>,
        \<lambda>d. d\<lparr>gen_sidecar := Some (GenNum g), staged := (staged d)(tmp2 := None)\<rparr>]"
    if "?c (dir w) = Inr effs" for effs
    using that assms(2,3)
    by (auto simp: guarded_cmd_def gen_cas_def mv_commit_def split: if_splits option.splits gen_doc.splits)
  show ?thesis
  proof (cases rule: run_cmd_quiet_cases [OF assms(1), of ?c])
    case (1 n)
    with q w' r r74 show ?thesis by (auto simp: authority_kept_def)
  next
    case (2 es)
    with q w' r r74 effs [OF 2(1)] show ?thesis by (simp add: authority_moved_def)
  next
    case (3 es k)
    note e = conjunct2 [OF effs [OF 3(1)]]
    from 3(3) take_two [of k "hd es" "hd (tl es)"] show ?thesis
      using q w' r r74 3(2) effs [OF 3(1)] unfolding e
      by (auto simp: authority_moved_def authority_kept_def)
  qed
qed

lemma upload_stage_quiet:
  assumes "quiet w" and "run_cmd (upload (stage tmp x)) w = (r, w')"
  shows "quiet w' \<and> visible (dir w') = visible (dir w)
    \<and> (r = Inr () \<longrightarrow> staged (dir w') = (staged (dir w))(tmp \<mapsto> x))"
  using upload_quiet [OF assms(1), of "stage tmp x"] upload_visible [OF assms(1), of "stage tmp x"] assms(2)
  by (auto simp: stage_def visible_def)

lemma UploadAtomic_state_quiet:
  assumes "quiet w" and "UploadAtomic_state tmp data w = (r, w')"
  shows "quiet w' \<and> others (dir w') = others (dir w) \<and> gen_sidecar (dir w') = gen_sidecar (dir w)
    \<and> (state_json (dir w') = state_json (dir w) \<or> state_json (dir w') = Some (StateDoc data))
    \<and> (r = Inr () \<longrightarrow> state_json (dir w') = Some (StateDoc data))
    \<and> (\<forall>e. r = Inl e \<longrightarrow> \<not> PreservePublishedState e)"
proof -
  obtain r1 w1 where one: "run_cmd (upload (stage tmp (StagedState data))) w = (r1, w1)" by fastforce
  obtain r2 w2 where two: "run_cmd (mv_state tmp) w1 = (r2, w2)" by fastforce
  note q1 = upload_stage_quiet [OF assms(1) one]
  have q2: "quiet w2"
    using run_cmd_quiet [of w1 "mv_state tmp"] q1 two by simp
  have clean: "quiet (snd (run_cmd (upload (unstage tmp)) v)) \<and> visible (dir (snd (run_cmd (upload (unstage tmp)) v))) = visible (dir v)"
    if "quiet v" for v :: "app_dir world"
    using that by (simp add: upload_quiet(1) upload_visible)
  have mv: "others (dir w2) = others (dir w1) \<and> gen_sidecar (dir w2) = gen_sidecar (dir w1)
      \<and> (state_json (dir w2) = state_json (dir w1) \<or> state_json (dir w2) = Some (StateDoc data))
      \<and> (r2 = Inr () \<longrightarrow> state_json (dir w2) = Some (StateDoc data))" if "r1 = Inr ()"
  proof -
    have effs: "effs = [\<lambda>d. d\<lparr>state_json := Some (StateDoc data), staged := (staged d)(tmp := None)\<rparr>]"
      if "mv_state tmp (dir w1) = Inr effs" for effs
      using that q1 \<open>r1 = Inr ()\<close> by (simp add: mv_state_def)
    have q: "quiet w1" using q1 by blast
    show ?thesis
      using two by (cases rule: run_cmd_quiet_cases [OF q, of "mv_state tmp"]) (auto dest!: effs simp: take_Cons')
  qed
  show ?thesis
    using assms(2) one two q1 q2 mv clean [of w1] clean [of w2]
    by (auto simp: UploadAtomic_state_def PreservePublishedState_def visible_def split: sum.splits)
qed

definition outcome_ok ::
  "app_dir \<Rightarrow> AppState \<Rightarrow> gen \<Rightarrow> (state_error, unit) result \<times> app_dir world \<Rightarrow> bool" where
  "outcome_ok d data g out \<longleftrightarrow> quiet (snd out) \<and> others (dir (snd out)) = others d
     \<and> (authority_kept d (dir (snd out)) \<or> authority_moved d data g (dir (snd out)))
     \<and> (fst out = Inr () \<longrightarrow> state_json (dir (snd out)) = Some (StateDoc data)
          \<and> gen_sidecar (dir (snd out)) = Some (GenNum g))
     \<and> (\<forall>e. fst out = Inl e \<and> \<not> PreservePublishedState e \<longrightarrow> authority_kept d (dir (snd out)))
     \<and> (\<forall>u. fst out = Inl (Publication True u) \<longrightarrow> state_json (dir (snd out)) = Some (StateDoc data))"

lemma outcome_refused:
  "quiet w' \<Longrightarrow> visible (dir w') = visible d \<Longrightarrow> \<not> PreservePublishedState e \<Longrightarrow> outcome_ok d data g (Inl e, w')"
  by (auto simp: outcome_ok_def authority_kept_def visible_def PreservePublishedState_def)

lemma outcome_resolved:
  assumes "quiet w" and "\<not> PreservePublishedState cause" and "others (dir w) = others d"
    and "authority_kept d (dir w) \<or> authority_moved d data g (dir w)"
    and "state_json d \<noteq> Some (StateDoc data)"
  shows "outcome_ok d data g (resolvePublication G data g lk cause w)"
proof -
  obtain r w' where res: "resolvePublication G data g lk cause w = (r, w')" by fastforce
  note q = resolvePublication_quiet [OF assms(1) res assms(2)]
  from assms(4) show ?thesis
  proof
    assume "authority_kept d (dir w)"
    with q assms(3,5) res show ?thesis
      by (auto simp: outcome_ok_def authority_kept_def)
  next
    assume moved: "authority_moved d data g (dir w)"
    with q assms(3) res show ?thesis
      by (auto simp: outcome_ok_def authority_moved_def)
  qed
qed

lemma WriteState_outcome:
  assumes "quiet w" and "prepareState G now opid s0 = Inr s"
    and "state_json (dir w) \<noteq> Some (StateDoc (marshal_state G s))"
  shows "outcome_ok (dir w) (marshal_state G s) (Generation s) (WriteState G now opid tmp s0 w)"
proof -
  let ?data = "marshal_state G s" and ?g = "Generation s"
  obtain r1 w1 where one: "UploadAtomic_state tmp ?data w = (r1, w1)" by fastforce
  obtain r2 w2 where two: "writeGenerationSidecarFenced ?g None w1 = (r2, w2)" by fastforce
  note q1 = UploadAtomic_state_quiet [OF assms(1) one]
  note q2 = writeGenerationSidecarFenced_quiet [OF conjunct1 [OF q1] two]
  have sidecar_error: "r2 = Inl e \<Longrightarrow> \<not> PreservePublishedState e" for e
    using two by (auto simp: writeGenerationSidecarFenced_def PreservePublishedState_def
        guard_to_state_error_def split: prod.splits sum.splits guard_error.splits)
  show ?thesis
  proof (cases r1)
    case (Inl e)
    then have "WriteState G now opid tmp s0 w = resolvePublication G ?data ?g None e w1"
      by (simp add: WriteState_def assms(2) one)
    with q1 Inl assms(3) show ?thesis
      by (auto simp: authority_kept_def authority_moved_def intro!: outcome_resolved)
  next
    case (Inr u)
    show ?thesis
    proof (cases r2)
      case (Inl e)
      with \<open>r1 = Inr u\<close> have "WriteState G now opid tmp s0 w = resolvePublication G ?data ?g None e w2"
        by (simp add: WriteState_def assms(2) one two)
      with q1 q2 sidecar_error [OF Inl] \<open>r1 = Inr u\<close> assms(3) show ?thesis
        by (auto simp: authority_moved_def intro!: outcome_resolved)
    next
      fix v
      assume "r2 = Inr v"
      with Inr have "WriteState G now opid tmp s0 w = (Inr (), w2)"
        by (simp add: WriteState_def assms(2) one two)
      with q1 q2 Inr \<open>r2 = Inr v\<close> show ?thesis
        by (simp add: outcome_ok_def authority_moved_def)
    qed
  qed
qed

lemma writeFenced_outcome:
  assumes "quiet w" and "prepareState G now opid s0 = Inr s"
    and "state_json (dir w) \<noteq> Some (StateDoc (marshal_state G s))" and "tmp \<noteq> tmp2"
  shows "outcome_ok (dir w) (marshal_state G s) (Generation s)
    (writeFenced G app now opid tmp tmp2 s0 lk expected w)"
proof (cases lk)
  case None
  then show ?thesis
    using WriteState_outcome [OF assms(1-3)] by (simp add: writeFenced_def)
next
  case (Some l)
  let ?data = "marshal_state G s" and ?g = "Generation s"
  obtain r1 w1 where one: "run_cmd (upload (stage tmp (StagedState ?data))) w = (r1, w1)" by fastforce
  obtain r2 w2 where two: "run_cmd (upload (stage tmp2 (StagedGen ?g))) w1 = (r2, w2)" by fastforce
  obtain r3 w3 where three: "Guarded (Some l) (gen_cas expected (mv_commit tmp tmp2)) w2 = (r3, w3)" by fastforce
  note q1 = upload_stage_quiet [OF assms(1) one]
  note q2 = upload_stage_quiet [OF conjunct1 [OF q1] two]
  have vis2: "visible (dir w2) = visible (dir w)" using q1 q2 by simp
  note d2 = visible_eqD [OF vis2]
  consider (app) "lk_app l \<noteq> app" | (up1) e where "lk_app l = app" "r1 = Inl e"
    | (up2) e where "lk_app l = app" "r1 = Inr ()" "r2 = Inl e"
    | (sent) "lk_app l = app" "r1 = Inr ()" "r2 = Inr ()"
    by (cases r1; cases r2; auto)
  then show ?thesis
  proof cases
    case app
    with Some assms(1) show ?thesis
      by (simp add: writeFenced_def outcome_refused PreservePublishedState_def)
  next
    case up1
    with Some q1 show ?thesis
      by (simp add: writeFenced_def assms(2) one outcome_refused PreservePublishedState_def)
  next
    case up2
    with Some q2 vis2 show ?thesis
      by (simp add: writeFenced_def assms(2) one two outcome_refused PreservePublishedState_def)
  next
    case sent
    have "staged (dir w2) tmp = Some (StagedState ?data)" "staged (dir w2) tmp2 = Some (StagedGen ?g)"
      using sent q1 q2 assms(4) by simp_all
    note step = commit_step [OF conjunct1 [OF q2] this three]
    have moves: "authority_kept (dir w) (dir w3) \<or> authority_moved (dir w) ?data ?g (dir w3)"
      using step d2 by (auto simp: authority_kept_def authority_moved_def)
    show ?thesis
    proof (cases r3)
      case (Inr u)
      with sent Some step moves d2 show ?thesis
        by (auto simp: writeFenced_def assms(2) one two three outcome_ok_def authority_kept_def authority_moved_def)
    next
      case (Inl e)
      show ?thesis
      proof (cases "e = EffectError (Exit 74)")
        case True
        with sent Some Inl step d2 show ?thesis
          by (auto simp: writeFenced_def assms(2) one two three outcome_ok_def authority_kept_def
              PreservePublishedState_def)
      next
        case False
        have "\<not> PreservePublishedState (guard_to_state_error e)"
          by (cases e) (simp_all add: guard_to_state_error_def PreservePublishedState_def)
        with False sent Some Inl step moves d2 assms(3) show ?thesis
          by (simp add: writeFenced_def assms(2) one two three outcome_resolved)
      qed
    qed
  qed
qed

text \<open>
  C5. A state commit cut at any point tells the truth.  While nobody else writes, wherever the
  connection breaks: success means that exactly the new document and its generation are
  authoritative; an error that does not ask to preserve the published state means that neither
  \<open>state.json\<close> nor the sidecar moved, so compensation is safe; an error that says "committed"
  means the new document is there; and in every case the sidecar is the old one or the new one,
  never ahead of a document that was not committed.
\<close>

theorem commit_outcome:
  assumes "quiet w" and "prepareState G now opid s0 = Inr s"
    and "state_json (dir w) \<noteq> Some (StateDoc (marshal_state G s))" and "tmp \<noteq> tmp2"
    and "writeFenced G app now opid tmp tmp2 s0 lk expected w = (r, w')"
  shows "(r = Inr () \<longrightarrow> state_json (dir w') = Some (StateDoc (marshal_state G s))
        \<and> gen_sidecar (dir w') = Some (GenNum (Generation s)))
    \<and> (\<forall>e. r = Inl e \<and> \<not> PreservePublishedState e \<longrightarrow>
        state_json (dir w') = state_json (dir w) \<and> gen_sidecar (dir w') = gen_sidecar (dir w))
    \<and> (\<forall>u. r = Inl (Publication True u) \<longrightarrow> state_json (dir w') = Some (StateDoc (marshal_state G s)))
    \<and> (gen_sidecar (dir w') \<noteq> gen_sidecar (dir w) \<longrightarrow>
        state_json (dir w') = Some (StateDoc (marshal_state G s)) \<and> gen_sidecar (dir w') = Some (GenNum (Generation s)))"
  using writeFenced_outcome [OF assms(1-4), of app lk expected] assms(5)
  by (auto simp: outcome_ok_def authority_kept_def authority_moved_def)

text \<open>A holder whose commit lands its first rename and then loses the connection.\<close>

definition web_lock :: Lock where
  "web_lock = \<lparr>lk_app = ''web'', lk_owner = ''a1'', lk_tookOver = False, lk_lost = False\<rparr>"

definition cut_world :: "app_dir world" where
  "cut_world = \<lparr>dir = empty_dir\<lparr>lock_dir := Some (Info sample_lock)\<rparr>,
     script = [(id, Delivered), (id, Delivered), (id, Lost 1)]\<rparr>"

definition prepared_demo :: AppState where
  "prepared_demo = demo_state\<lparr>SchemaVersion := 2, DeploymentType := ''container'', IngressMode := ''caddy'',
    UpdatedAt := Some 7, OperationID := ''op'', Generation := 1, ManifestSHA256 := sha256_hex demo_lib ''{}''\<rparr>"

lemma prepare_demo: "prepareState demo_lib 7 ''op'' demo_state = Inr prepared_demo"
  by (simp add: prepareState_def demo_state_def zero_state_def validateDigests_def SchemaVersionV2_def
      SchemaVersionV3_def validateManifestDigest_def validateReleaseDigest_def demo_lib_def Let_def
      prepared_demo_def)

theorem commit_outcome_witness:
  "fst (writeFenced demo_lib ''web'' 7 ''op'' ''t1'' ''t2'' demo_state (Some web_lock) (Some 0) cut_world) = Inr ()
   \<and> gen_sidecar (dir (snd (writeFenced demo_lib ''web'' 7 ''op'' ''t1'' ''t2'' demo_state (Some web_lock) (Some 0) cut_world)))
       = Some (GenNum 1)"
proof -
  let ?out = "writeFenced demo_lib ''web'' 7 ''op'' ''t1'' ''t2'' demo_state (Some web_lock) (Some 0) cut_world"
  have names: "names_owner ''a1'' d" if "lock_dir d = Some (Info sample_lock)" for d
    using that by (simp add: names_owner_def lock_names_def sample_lock_def auto_info_def)
  have r: "fst ?out = Inr ()"
    by (simp add: writeFenced_def web_lock_def prepare_demo cut_world_def run_cmd_def next_env_def Let_def
        upload_def stage_def Guarded_def guarded_cmd_def names gen_cas_def empty_dir_def mv_commit_def
        fenceLostErr_def resolvePublication_def ReadRemoteFile_def run_read_def Lock_Check_def
        writeGenerationSidecarFenced_def mv_gen_def gen_tmp_commit_def)
  have "quiet cut_world" "state_json (dir cut_world) = None"
    by (auto simp: quiet_def cut_world_def empty_dir_def)
  moreover from r obtain w' where out: "?out = (Inr (), w')"
    by (metis prod.collapse)
  ultimately have "gen_sidecar (dir w') = Some (GenNum (Generation prepared_demo))"
    using commit_outcome [OF _ prepare_demo _ _ out] by simp
  with out show ?thesis by (simp add: prepared_demo_def)
qed

section \<open>Writers that lost the lock or the race\<close>

lemma upload_stable:
  assumes "stable P w" and "P (dir w)" and "\<And>d f. P d \<Longrightarrow> P (d\<lparr>staged := f\<rparr>)"
  shows "stable P (snd (run_cmd (upload (stage tmp x)) w))" and "P (dir (snd (run_cmd (upload (stage tmp x)) w)))"
proof -
  show "stable P (snd (run_cmd (upload (stage tmp x)) w))"
    using assms(1) by (rule run_cmd_stable)
  show "P (dir (snd (run_cmd (upload (stage tmp x)) w)))"
    by (rule run_cmd_invariant [where P = P, OF assms(1,2)]) (auto simp: upload_def stage_def assms(3))
qed

lemma ReadRemoteFile_stable:
  assumes "stable P w" and "P (dir w)" and "ReadRemoteFile f w = (r, w')"
  shows "stable P w' \<and> P (dir w') \<and> (\<forall>x. r = Inr x \<longrightarrow> x = f (dir w'))"
  using assms run_read_stable [of P w f] run_read_invariant [of P w f] run_read_Inr [of f w]
  by (auto simp: ReadRemoteFile_def split: prod.splits sum.splits)

lemma ReadState_stable:
  assumes "stable P w" and "P (dir w)" and "ReadState G w = (r, w')"
  shows "stable P w' \<and> P (dir w')"
proof -
  obtain r1 w1 where one: "ReadRemoteFile state_json w = (r1, w1)" by fastforce
  obtain r2 w2 where two: "ReadRemoteFile legacy_state w1 = (r2, w2)" by fastforce
  note q1 = ReadRemoteFile_stable [OF assms(1,2) one]
  with two have q2: "stable P w2 \<and> P (dir w2)"
    using ReadRemoteFile_stable [of P w1 legacy_state r2 w2] by blast
  from assms(3) one two q1 q2 show ?thesis
    by (auto simp: ReadState_def split: sum.splits option.splits)
qed

lemma Lock_Check_stable:
  assumes "stable P w" and "P (dir w)" and "Lock_Check (Some l) w = (r, w')"
  shows "stable P w' \<and> P (dir w') \<and> (r = Inr () \<longrightarrow> names_owner (lk_owner l) (dir w'))"
proof -
  let ?f = "names_owner (lk_owner l)"
  obtain x w1 where rd: "run_read ?f w = (x, w1)" by fastforce
  have "stable P w1" "P (dir w1)" "\<And>b. x = Inr b \<Longrightarrow> b = ?f (dir w1)"
    using rd run_read_stable [OF assms(1), of ?f] run_read_invariant [OF assms(1,2), of ?f]
      run_read_Inr [of ?f w] by simp_all
  with assms rd show ?thesis
    by (cases x) (auto simp: Lock_Check_def split: if_splits bool.splits)
qed

text \<open>
  A resolution can succeed or change anything only if the lock still names its owner and the
  published document is the one it wrote.
\<close>

lemma resolvePublication_refused:
  assumes "stable P w" and "P (dir w)"
    and "(\<forall>d. P d \<longrightarrow> \<not> names_owner (lk_owner l) d) \<or> (\<forall>d. P d \<longrightarrow> state_json d \<noteq> Some (StateDoc data))"
    and "resolvePublication G data g (Some l) cause w = (r, w')"
  shows "(\<exists>e. r = Inl e) \<and> P (dir w')"
proof -
  obtain r1 w1 where one: "ReadRemoteFile state_json w = (r1, w1)" by fastforce
  obtain r2 w2 where two: "ReadState G w1 = (r2, w2)" by fastforce
  obtain r3 w3 where three: "Lock_Check (Some l) w1 = (r3, w3)" by fastforce
  note q1 = ReadRemoteFile_stable [OF assms(1,2) one]
  then have q2: "stable P w2 \<and> P (dir w2)"
    using ReadState_stable [of P w1, OF _ _ two] by blast
  have q3: "stable P w3 \<and> P (dir w3) \<and> (r3 = Inr () \<longrightarrow> names_owner (lk_owner l) (dir w3))"
    using q1 Lock_Check_stable [of P w1, OF _ _ three] by blast
  from assms(3) show ?thesis
  proof
    assume "\<forall>d. P d \<longrightarrow> \<not> names_owner (lk_owner l) d"
    with q3 have "\<exists>e. r3 = Inl e" by (cases r3) auto
    with assms(4) q1 q2 q3 show ?thesis
      by (auto simp: resolvePublication_def one two three split: sum.splits option.splits if_splits)
  next
    assume no: "\<forall>d. P d \<longrightarrow> state_json d \<noteq> Some (StateDoc data)"
    with q1 have "r1 = Inr (Some doc) \<Longrightarrow> doc \<noteq> StateDoc data" for doc
      by metis
    with assms(4) q1 q2 show ?thesis
      by (auto simp: resolvePublication_def one two three split: sum.splits option.splits if_splits)
  qed
qed

definition superseded :: "gen \<Rightarrow> app_dir \<Rightarrow> bool" where
  "superseded e d \<longleftrightarrow> (\<exists>g. gen_sidecar d = Some (GenNum g) \<and> e < g)"

text \<open>
  C6. A writer that lost its lock, or that planned against a generation its successor has already
  replaced, commits nothing.  Let \<open>P\<close> be anything true of the server that the other clients keep
  and that does not depend on staged files.  If \<open>P\<close> implies that the lock does not name this
  writer, or that a newer generation than the one it expects is committed (with a document that
  is not its own), then its fenced commit reports an error and \<open>P\<close> still holds, at every
  interleaving and every lost command.
\<close>

theorem stale_writer_commits_nothing:
  assumes "stable P w" and "P (dir w)" and "\<And>d f. P d \<Longrightarrow> P (d\<lparr>staged := f\<rparr>)"
    and "prepareState G now opid s0 = Inr s"
    and "(\<forall>d. P d \<longrightarrow> \<not> names_owner (lk_owner l) d)
      \<or> (\<forall>d. P d \<longrightarrow> superseded e d \<and> state_json d \<noteq> Some (StateDoc (marshal_state G s)))"
  shows "(\<exists>x. fst (writeFenced G app now opid tmp tmp2 s0 (Some l) (Some e) w) = Inl x)
    \<and> P (dir (snd (writeFenced G app now opid tmp tmp2 s0 (Some l) (Some e) w)))"
proof (cases "lk_app l = app")
  case False
  with assms(2) show ?thesis by (simp add: writeFenced_def)
next
  case True
  let ?data = "marshal_state G s" and ?g = "Generation s"
  let ?c = "gen_cas (Some e) (mv_commit tmp tmp2)"
  obtain r1 w1 where one: "run_cmd (upload (stage tmp (StagedState ?data))) w = (r1, w1)" by fastforce
  obtain r2 w2 where two: "run_cmd (upload (stage tmp2 (StagedGen ?g))) w1 = (r2, w2)" by fastforce
  obtain r3 w3 where three: "Guarded (Some l) ?c w2 = (r3, w3)" by fastforce
  have q1: "stable P w1" "P (dir w1)"
    using upload_stable [of P w tmp "StagedState ?data"] assms(1-3) one by simp_all
  have q2: "stable P w2" "P (dir w2)"
    using upload_stable [of P w1 tmp2 "StagedGen ?g"] q1 assms(3) two by simp_all
  have refuse: "\<exists>n. guarded_cmd (lk_owner l) ?c d = Inl n" if "P d" for d
    using that assms(5)
    by (fastforce simp: guarded_cmd_def gen_cas_def superseded_def not_le)
  note refused = run_cmd_refused [of P w2 "guarded_cmd (lk_owner l) ?c", OF q2 refuse]
  have w3: "w3 = snd (run_cmd (guarded_cmd (lk_owner l) ?c) w2)" and "\<exists>x. r3 = Inl x"
    using three refused(1) by (auto simp: Guarded_def split: prod.splits sum.splits)
  then obtain x where r3: "r3 = Inl x" by blast
  have q3: "stable P w3" "P (dir w3)"
    using w3 refused(2) run_cmd_stable [OF q2(1)] by simp_all
  obtain r4 w4 where four: "resolvePublication G ?data ?g (Some l) (guard_to_state_error x) w3 = (r4, w4)"
    by fastforce
  have "(\<exists>e. r4 = Inl e) \<and> P (dir w4)"
    by (rule resolvePublication_refused [OF q3 _ four]) (use assms(5) in blast)
  with True q1 q2 q3 show ?thesis
    by (auto simp: writeFenced_def assms(4) one two three r3 four split: sum.split)
qed

theorem stale_writer_commits_nothing_witness:
  "\<exists>x. fst (writeFenced demo_lib ''web'' 7 ''op'' ''t1'' ''t2'' demo_state (Some web_lock) (Some 4)
    \<lparr>dir = empty_dir\<lparr>gen_sidecar := Some (GenNum 5)\<rparr>, script = [(id, Lost 2)]\<rparr>) = Inl x"
proof -
  let ?w = "\<lparr>dir = empty_dir\<lparr>gen_sidecar := Some (GenNum 5)\<rparr>, script = [(id, Lost 2)]\<rparr>"
  let ?P = "\<lambda>d. gen_sidecar d = Some (GenNum 5) \<and> state_json d = None"
  have "stable ?P ?w" "?P (dir ?w)"
    by (simp_all add: stable_def empty_dir_def)
  moreover have "\<forall>d. ?P d \<longrightarrow> superseded 4 d \<and> state_json d \<noteq> Some (StateDoc (marshal_state demo_lib prepared_demo))"
    by (simp add: superseded_def)
  ultimately show ?thesis
    using stale_writer_commits_nothing [of ?P ?w, OF _ _ _ prepare_demo] by simp
qed

section \<open>Tombstones and the home marker\<close>

definition EnsureAppDir :: "app_dir world \<Rightarrow> (state_error, unit) result \<times> app_dir world" where
  "EnsureAppDir w =
     (case run_cmd (upload id) w of (Inl e, w') \<Rightarrow> (Inl (EffectFailed e), w') | (Inr _, w') \<Rightarrow> (Inr (), w'))"

text \<open>The tombstone for the state that was read: no release, one generation further.\<close>

definition tombstone_of :: "AppState option \<Rightarrow> int \<Rightarrow> string \<Rightarrow> AppState" where
  "tombstone_of current now opid =
     (let t = zero_state\<lparr>SchemaVersion := SchemaVersionV3, Tombstone := True, DeploymentType := ''container'',
            IngressMode := ''caddy'', UpdatedAt := Some now, OperationID := opid, Generation := 1\<rparr>
      in case current of
           None \<Rightarrow> t
         | Some c \<Rightarrow> t\<lparr>Generation := Generation c + 1, DeploymentType := DeploymentType c,
                      IngressMode := IngressMode c, Domain := Domain c\<rparr>)"

definition WriteTombstone ::
  "go_lib \<Rightarrow> string \<Rightarrow> int \<Rightarrow> string \<Rightarrow> string \<Rightarrow> string \<Rightarrow> Lock option \<Rightarrow> app_dir world
     \<Rightarrow> (state_error, unit) result \<times> app_dir world" where
  "WriteTombstone G app now opid tmp tmp2 lk w =
     (case ReadIncludingTombstone G w of
        (Inl e, w1) \<Rightarrow> (Inl e, w1)
      | (Inr current, w1) \<Rightarrow>
          (case EnsureAppDir w1 of
             (Inl e, w2) \<Rightarrow> (Inl e, w2)
           | (Inr _, w2) \<Rightarrow>
               writeFenced G app now opid tmp tmp2 (tombstone_of current now opid) lk
                 (case current of None \<Rightarrow> None | Some c \<Rightarrow> Some (Generation c)) w2))"

definition rm_state :: "app_dir cmd" where
  "rm_state d = Inr [\<lambda>d. d\<lparr>state_json := None\<rparr>]"

definition SetSchemaVersion ::
  "go_lib \<Rightarrow> string \<Rightarrow> int \<Rightarrow> int \<Rightarrow> string \<Rightarrow> string \<Rightarrow> string \<Rightarrow> Lock option \<Rightarrow> app_dir world
     \<Rightarrow> (state_error, unit) result \<times> app_dir world" where
  "SetSchemaVersion G app version now opid tmp tmp2 lk w =
     (case ReadIncludingTombstone G w of
        (Inl e, w1) \<Rightarrow> (Inl e, w1)
      | (Inr None, w1) \<Rightarrow>
          if version = SchemaVersionV3 then WriteTombstone G app now opid tmp tmp2 lk w1 else (Inr (), w1)
      | (Inr (Some c0), w1) \<Rightarrow>
          if SchemaVersion c0 = version then (Inr (), w1)
          else
            (let c = (if legacyImported c0 then c0\<lparr>SchemaVersion := SchemaVersionV2\<rparr> else c0)
             in if version = SchemaVersionV2 \<and> Tombstone c then
                  (case Guarded lk rm_state w1 of
                     (Inl e, w2) \<Rightarrow> (Inl (guard_to_state_error e), w2)
                   | (Inr _, w2) \<Rightarrow> (Inr (), w2))
                else writeFenced G app now opid tmp tmp2
                       (c\<lparr>SchemaVersion := version, Generation := Generation c + 1, OperationID := opid,
                          UpdatedAt := Some now\<rparr>)
                       lk (Some (Generation c)) w1))"

section \<open>The home gate\<close>

record GateStatus =
  gs_Server :: bool
  gs_Head :: string

definition Head :: "app_dir world \<Rightarrow> (state_error, bool \<times> string) result \<times> app_dir world" where
  "Head w =
     (case ReadRemoteFile config_git w of
        (Inl e, w1) \<Rightarrow> (Inl e, w1)
      | (Inr None, w1) \<Rightarrow> (Inr (False, []), w1)
      | (Inr (Some _), w1) \<Rightarrow>
          (case ReadRemoteFile (\<lambda>d. case config_git d of Some h \<Rightarrow> if h = [] then None else Some h | None \<Rightarrow> None) w1 of
             (Inl e, w2) \<Rightarrow> (Inl e, w2)
           | (Inr None, w2) \<Rightarrow> (Inr (True, []), w2)
           | (Inr (Some ref), w2) \<Rightarrow> (Inr (True, trim_space ref), w2)))"

definition CheckGate ::
  "go_lib \<Rightarrow> string \<Rightarrow> int \<Rightarrow> string \<Rightarrow> string \<Rightarrow> string \<Rightarrow> Lock option \<Rightarrow> app_dir world
     \<Rightarrow> (state_error, GateStatus) result \<times> app_dir world" where
  "CheckGate G app now opid tmp tmp2 lk w =
     (case Head w of
        (Inl e, w1) \<Rightarrow> (Inl e, w1)
      | (Inr (exists, head), w1) \<Rightarrow>
          (case ReadIncludingTombstone G w1 of
             (Inl e, w2) \<Rightarrow> (Inl e, w2)
           | (Inr st, w2) \<Rightarrow>
               if \<not> exists then
                 (case st of
                    Some s \<Rightarrow> if SchemaVersion s = SchemaVersionV3 then (Inl Orphaned, w2)
                              else (Inr \<lparr>gs_Server = False, gs_Head = []\<rparr>, w2)
                  | None \<Rightarrow> (Inr \<lparr>gs_Server = False, gs_Head = []\<rparr>, w2))
               else
                 (case (case st of
                          None \<Rightarrow> WriteTombstone G app now opid tmp tmp2 lk w2
                        | Some s \<Rightarrow>
                            if SchemaVersion s \<noteq> SchemaVersionV3 then
                              SetSchemaVersion G app SchemaVersionV3 now opid tmp tmp2 lk w2
                            else (Inr (), w2)) of
                    (Inl e, w3) \<Rightarrow> (Inl e, w3)
                  | (Inr _, w3) \<Rightarrow> (Inr \<lparr>gs_Server = True, gs_Head = head\<rparr>, w3))))"

section \<open>Plan baselines, pins and the fenced executor\<close>

definition GenerationExpectation_Check ::
  "(bool \<times> gen) option \<Rightarrow> AppState option \<Rightarrow> (state_error, unit) result" where
  "GenerationExpectation_Check e current =
     (case e of
        None \<Rightarrow> Inr ()
      | Some (expects, g) \<Rightarrow>
          if expects \<noteq> (current \<noteq> None)
             \<or> (case current of None \<Rightarrow> False | Some c \<Rightarrow> Generation c \<noteq> g) then Inl PlanBaselineChanged
          else Inr ())"

definition parse_pins :: "string \<Rightarrow> string list" where
  "parse_pins data = [v. l \<leftarrow> lines_of data, v \<leftarrow> [trim_space l], v \<noteq> []]"

definition ReadPins :: "app_dir world \<Rightarrow> (state_error, string list) result \<times> app_dir world" where
  "ReadPins w =
     (case ReadRemoteFile pins_file w of
        (Inl e, w1) \<Rightarrow> (Inl e, w1)
      | (Inr None, w1) \<Rightarrow> (Inr [], w1)
      | (Inr (Some data), w1) \<Rightarrow> (Inr (parse_pins data), w1))"

definition render_pins :: "string list \<Rightarrow> string" where
  "render_pins pins = (let content = unlines (sort pins) in if content \<noteq> [] then content @ [newline] else content)"

definition mv_pins :: "string \<Rightarrow> app_dir cmd" where
  "mv_pins tmp d =
     (case staged d tmp of
        Some (StagedText t) \<Rightarrow> Inr [\<lambda>d. d\<lparr>pins_file := Some t, staged := (staged d)(tmp := None)\<rparr>]
      | _ \<Rightarrow> Inl 1)"

definition writePins ::
  "string \<Rightarrow> string list \<Rightarrow> app_dir world \<Rightarrow> (state_error, unit) result \<times> app_dir world" where
  "writePins tmp pins w =
     (case EnsureAppDir w of
        (Inl e, w1) \<Rightarrow> (Inl e, w1)
      | (Inr _, w1) \<Rightarrow>
          (case run_cmd (upload (stage tmp (StagedText (render_pins pins)))) w1 of
             (Inl e, w2) \<Rightarrow> (Inl (UploadFailed e), snd (run_cmd (upload (unstage tmp)) w2))
           | (Inr _, w2) \<Rightarrow>
               (case run_cmd (mv_pins tmp) w2 of
                  (Inl e, w3) \<Rightarrow> (Inl (EffectFailed e), snd (run_cmd (upload (unstage tmp)) w3))
                | (Inr _, w3) \<Rightarrow> (Inr (), w3))))"

definition AddPin ::
  "string \<Rightarrow> string \<Rightarrow> app_dir world \<Rightarrow> (state_error, unit) result \<times> app_dir world" where
  "AddPin tmp version w =
     (case ReadPins w of
        (Inl e, w1) \<Rightarrow> (Inl e, w1)
      | (Inr pins, w1) \<Rightarrow> if version \<in> set pins then (Inr (), w1) else writePins tmp (pins @ [version]) w1)"

definition RemovePin ::
  "string \<Rightarrow> string \<Rightarrow> app_dir world \<Rightarrow> (state_error, unit) result \<times> app_dir world" where
  "RemovePin tmp version w =
     (case ReadPins w of
        (Inl e, w1) \<Rightarrow> (Inl e, w1)
      | (Inr pins, w1) \<Rightarrow> writePins tmp [p \<leftarrow> pins. p \<noteq> version] w1)"

text \<open>\<open>FencedExecutor\<close>: every command runs under the guard; an upload checks the lease first.\<close>

definition FencedExecutor_Run ::
  "Lock \<Rightarrow> app_dir cmd \<Rightarrow> app_dir world \<Rightarrow> (guard_error, unit) result \<times> app_dir world" where
  "FencedExecutor_Run l c w = Guarded (Some l) c w"

definition FencedExecutor_RunInput ::
  "Lock \<Rightarrow> app_dir cmd \<Rightarrow> app_dir world \<Rightarrow> (exec_error, unit) result \<times> app_dir world" where
  "FencedExecutor_RunInput l c w = run_cmd (guarded_cmd (lk_owner l) c) w"

definition FencedExecutor_Upload ::
  "Lock \<Rightarrow> app_dir effect \<Rightarrow> app_dir world \<Rightarrow> (guard_error, unit) result \<times> app_dir world" where
  "FencedExecutor_Upload l e w =
     (case Lock_Check (Some l) w of
        (Inl x, w1) \<Rightarrow> (Inl x, w1)
      | (Inr _, w1) \<Rightarrow>
          (case run_cmd (upload e) w1 of
             (Inl x, w2) \<Rightarrow> (Inl (EffectError x), w2)
           | (Inr _, w2) \<Rightarrow> (Inr (), w2)))"

section \<open>What the gate restores\<close>

text \<open>The home invariant: the state is marked version 3 iff the app has a config repository.\<close>

definition home_marked :: "app_dir \<Rightarrow> bool" where
  "home_marked d \<longleftrightarrow> (\<exists>s. state_json d = Some (StateDoc s) \<and> SchemaVersion s = SchemaVersionV3)"

definition home_invariant :: "app_dir \<Rightarrow> bool" where
  "home_invariant d \<longleftrightarrow> (home_marked d \<longleftrightarrow> config_git d \<noteq> None)"

definition fresh_operation :: "app_dir \<Rightarrow> string \<Rightarrow> bool" where
  "fresh_operation d opid \<longleftrightarrow> (case state_json d of Some (StateDoc s) \<Rightarrow> OperationID s \<noteq> opid | _ \<Rightarrow> True)"

lemma marshal_state_simps [simp]:
  "SchemaVersion (marshal_state G s) = SchemaVersion s" "OperationID (marshal_state G s) = OperationID s"
  "Tombstone (marshal_state G s) = Tombstone s" "Generation (marshal_state G s) = Generation s"
  by (simp_all add: marshal_state_def)

lemma prepareState_keeps:
  assumes "prepareState G now opid s = Inr s'"
  shows "(SchemaVersion s \<noteq> 0 \<longrightarrow> SchemaVersion s' = SchemaVersion s) \<and> Tombstone s' = Tombstone s
    \<and> (OperationID s \<noteq> [] \<longrightarrow> OperationID s' = OperationID s)
    \<and> Generation s' = (if Generation s = 0 then 1 else Generation s)"
  using assms
  by (auto simp: prepareState_def Let_def split: if_splits elim!: validateDigests_Inr)

lemma writeFenced_success:
  assumes "quiet w" and "tmp \<noteq> tmp2" and "opid \<noteq> []" and "OperationID s = opid"
    and "fresh_operation (dir w) opid" and "SchemaVersion s \<noteq> 0"
    and "writeFenced G app now opid tmp tmp2 s lk expected w = (Inr (), w')"
  shows "quiet w' \<and> config_git (dir w') = config_git (dir w)
    \<and> (\<exists>s'. state_json (dir w') = Some (StateDoc s') \<and> SchemaVersion s' = SchemaVersion s
         \<and> Tombstone s' = Tombstone s
         \<and> Generation s' = (if Generation s = 0 then 1 else Generation s)
         \<and> gen_sidecar (dir w') = Some (GenNum (Generation s')))"
proof -
  obtain s' where prep: "prepareState G now opid s = Inr s'"
  proof (cases "prepareState G now opid s")
    case (Inl e)
    with assms(7) have "writeFenced G app now opid tmp tmp2 s lk expected w = (Inl e, w)
        \<or> writeFenced G app now opid tmp tmp2 s lk expected w = (Inl WrongLease, w)"
      by (auto simp: writeFenced_def WriteState_def split: option.splits if_splits)
    with assms(7) show thesis by simp
  qed (rule that)
  note keeps = prepareState_keeps [OF prep]
  have "state_json (dir w) \<noteq> Some (StateDoc (marshal_state G s'))"
    using assms(3-5) keeps by (auto simp: fresh_operation_def)
  from writeFenced_outcome [OF assms(1) prep this assms(2), of app lk expected] assms(6,7) keeps
  show ?thesis by (auto simp: outcome_ok_def)
qed

lemma EnsureAppDir_quiet:
  assumes "quiet w" and "EnsureAppDir w = (r, w')"
  shows "quiet w' \<and> dir w' = dir w"
  using assms upload_quiet [OF assms(1), of id]
  by (auto simp: EnsureAppDir_def split: prod.splits sum.splits)

lemma ReadIncludingTombstone_quiet:
  assumes "quiet w" and "ReadIncludingTombstone G w = (r, w')"
  shows "quiet w' \<and> dir w' = dir w
    \<and> (\<forall>s. r = Inr (Some s) \<and> state_json (dir w) \<noteq> None \<longrightarrow> (\<exists>s0. state_json (dir w) = Some (StateDoc s0)
          \<and> SchemaVersion s0 = SchemaVersion s \<and> Tombstone s0 = Tombstone s \<and> Generation s0 = Generation s))
    \<and> (r = Inr None \<longrightarrow> state_json (dir w) = None)
    \<and> (\<forall>s. r = Inr (Some s) \<and> state_json (dir w) = None \<longrightarrow> SchemaVersion s = 1 \<and> \<not> Tombstone s)"
proof -
  obtain r1 w1 where one: "ReadRemoteFile state_json w = (r1, w1)" by fastforce
  obtain r2 w2 where two: "ReadState G w1 = (r2, w2)" by fastforce
  note q1 = ReadRemoteFile_quiet [OF assms(1) one]
  note q2 = ReadState_quiet [OF conjunct1 [OF q1] two]
  have legacy: "SchemaVersion s = 1 \<and> \<not> Tombstone s"
    if "r2 = Inr (Some s)" "state_json (dir w1) = None" for s
  proof -
    obtain r3 w3 where "ReadRemoteFile state_json w1 = (r3, w3)" by fastforce
    with that two ReadRemoteFile_quiet [OF conjunct1 [OF q1] this] obtain t where "ParseLegacy t = Some s"
      by (auto simp: ReadState_def split: sum.splits option.splits prod.splits)
    then show ?thesis
      using ParseLegacy_alive by (auto simp: ParseLegacy_def split: if_splits)
  qed
  show ?thesis
  proof (cases r1)
    case (Inl e)
    with assms(2) one q1 show ?thesis by (auto simp: ReadIncludingTombstone_def)
  next
    case (Inr doc)
    with q1 have doc: "doc = state_json (dir w)" by simp
    show ?thesis
    proof (cases doc)
      case None
      have "ReadIncludingTombstone G w = (r2, w2)"
        by (simp add: ReadIncludingTombstone_def one Inr None two)
      with assms(2) have "r = r2" "w' = w2" by simp_all
      moreover have "state_json (dir w) = None" using doc None by simp
      ultimately show ?thesis
        using q1 q2 legacy by simp
    next
      case (Some x)
      have "ReadIncludingTombstone G w = (map_sum id Some (ParseCanonical G x), w1)"
        by (simp add: ReadIncludingTombstone_def one Inr Some)
      with assms(2) have r: "r = map_sum id Some (ParseCanonical G x)" "w' = w1"
        by simp_all
      have "\<exists>s0. x = StateDoc s0 \<and> SchemaVersion s0 = SchemaVersion s \<and> Tombstone s0 = Tombstone s
          \<and> Generation s0 = Generation s" if "ParseCanonical G x = Inr s" for s
        using that by (rule ParseCanonical_Inr) auto
      moreover have "state_json (dir w) = Some x" using doc Some by simp
      ultimately show ?thesis
        using r conjunct1 [OF q1] conjunct1 [OF conjunct2 [OF q1]]
        by (cases "ParseCanonical G x") simp_all
    qed
  qed
qed

lemma WriteTombstone_success:
  assumes "quiet w" and "tmp \<noteq> tmp2" and "opid \<noteq> []" and "fresh_operation (dir w) opid"
    and "WriteTombstone G app now opid tmp tmp2 lk w = (Inr (), w')"
  shows "quiet w' \<and> config_git (dir w') = config_git (dir w) \<and> home_marked (dir w')"
proof -
  obtain r1 w1 where one: "ReadIncludingTombstone G w = (r1, w1)" by fastforce
  obtain r2 w2 where two: "EnsureAppDir w1 = (r2, w2)" by fastforce
  note q1 = ReadIncludingTombstone_quiet [OF assms(1) one]
  note q2 = EnsureAppDir_quiet [OF conjunct1 [OF q1] two]
  from assms(5) one two obtain current expected where
    wr: "writeFenced G app now opid tmp tmp2 (tombstone_of current now opid) lk expected w2 = (Inr (), w')"
    by (auto simp: WriteTombstone_def split: sum.splits)
  have t: "OperationID (tombstone_of current now opid) = opid"
    "SchemaVersion (tombstone_of current now opid) = SchemaVersionV3"
    by (simp_all add: tombstone_of_def Let_def split: option.split)
  from writeFenced_success [OF _ assms(2,3) t(1) _ _ wr] q1 q2 assms(4) t(2) show ?thesis
    by (auto simp: home_marked_def SchemaVersionV3_def)
qed

lemma SetSchemaVersion_v3_success:
  assumes "quiet w" and "tmp \<noteq> tmp2" and "opid \<noteq> []" and "fresh_operation (dir w) opid"
    and "SetSchemaVersion G app SchemaVersionV3 now opid tmp tmp2 lk w = (Inr (), w')"
  shows "quiet w' \<and> config_git (dir w') = config_git (dir w) \<and> home_marked (dir w')"
proof -
  obtain r1 w1 where one: "ReadIncludingTombstone G w = (r1, w1)" by fastforce
  note q1 = ReadIncludingTombstone_quiet [OF assms(1) one]
  from assms(5) one consider (none) "r1 = Inr None" | (some) c where "r1 = Inr (Some c)"
    by (auto simp: SetSchemaVersion_def split: sum.splits option.splits)
  then show ?thesis
  proof cases
    case none
    with assms(5) one have "WriteTombstone G app now opid tmp tmp2 lk w1 = (Inr (), w')"
      by (simp add: SetSchemaVersion_def)
    from WriteTombstone_success [OF _ assms(2,3) _ this] q1 assms(4) show ?thesis by simp
  next
    case (some c)
    show ?thesis
    proof (cases "SchemaVersion c = SchemaVersionV3")
      case True
      with assms(5) one some q1 show ?thesis
        by (cases "state_json (dir w)") (auto simp: SetSchemaVersion_def home_marked_def SchemaVersionV3_def)
    next
      case False
      let ?c = "if legacyImported c then c\<lparr>SchemaVersion := SchemaVersionV2\<rparr> else c"
      let ?n = "?c\<lparr>SchemaVersion := SchemaVersionV3, Generation := Generation ?c + 1, OperationID := opid, UpdatedAt := Some now\<rparr>"
      have v: "SchemaVersionV3 \<noteq> SchemaVersionV2" "SchemaVersionV3 \<noteq> 0"
        by (simp_all add: SchemaVersionV2_def SchemaVersionV3_def)
      from False assms(5) one some v have
        wr: "writeFenced G app now opid tmp tmp2 ?n lk (Some (Generation ?c)) w1 = (Inr (), w')"
        by (simp add: SetSchemaVersion_def Let_def)
      have q: "quiet w1" "fresh_operation (dir w1) opid" "dir w1 = dir w"
        using q1 assms(4) by simp_all
      have n: "OperationID ?n = opid" "SchemaVersion ?n = SchemaVersionV3"
        by simp_all
      from writeFenced_success [OF q(1) assms(2,3) n(1) q(2) _ wr] q(3) n(2) v(2) show ?thesis
        unfolding home_marked_def by metis
    qed
  qed
qed

lemma Head_quiet:
  assumes "quiet w" and "Head w = (r, w')"
  shows "quiet w' \<and> dir w' = dir w \<and> (\<forall>h b. r = Inr (b, h) \<longrightarrow> (b \<longleftrightarrow> config_git (dir w) \<noteq> None))"
proof -
  let ?f = "\<lambda>d. case config_git d of Some h \<Rightarrow> if h = [] then None else Some h | None \<Rightarrow> None"
  obtain r1 w1 where one: "ReadRemoteFile config_git w = (r1, w1)" by fastforce
  obtain r2 w2 where two: "ReadRemoteFile ?f w1 = (r2, w2)" by fastforce
  note q1 = ReadRemoteFile_quiet [OF assms(1) one]
  note q2 = ReadRemoteFile_quiet [OF conjunct1 [OF q1] two]
  from assms(2) one two q1 q2 show ?thesis
    by (auto simp: Head_def split: sum.splits option.splits)
qed

text \<open>
  C12. The home gate leaves the invariant behind.  Under its lock on a server nobody else writes,
  wherever the connection breaks: when \<open>CheckGate\<close> lets an operation through, the state is marked
  version 3 exactly if the app has a config repository, whatever combination it found, and its
  answer says which of the two it is.
\<close>

theorem CheckGate_restores_home:
  assumes "quiet w" and "tmp \<noteq> tmp2" and "opid \<noteq> []" and "fresh_operation (dir w) opid"
    and "CheckGate G app now opid tmp tmp2 lk w = (Inr st, w')"
  shows "home_invariant (dir w') \<and> (gs_Server st \<longleftrightarrow> config_git (dir w') \<noteq> None)"
proof -
  obtain r1 w1 where one: "Head w = (r1, w1)" by fastforce
  note q1 = Head_quiet [OF assms(1) one]
  obtain r2 w2 where two: "ReadIncludingTombstone G w1 = (r2, w2)" by fastforce
  note q2 = ReadIncludingTombstone_quiet [OF conjunct1 [OF q1] two]
  from assms(5) one two obtain ex head cur where r1: "r1 = Inr (ex, head)" and r2: "r2 = Inr cur"
    by (auto simp: CheckGate_def split: sum.splits)
  have ex: "ex \<longleftrightarrow> config_git (dir w) \<noteq> None" using q1 r1 by blast
  have d2: "dir w2 = dir w" and quiet2: "quiet w2" using q1 q2 by simp_all
  have fresh2: "fresh_operation (dir w2) opid" using d2 assms(4) by simp
  have marked: "home_marked (dir w) \<longleftrightarrow> (\<exists>s. cur = Some s \<and> SchemaVersion s = SchemaVersionV3)"
    using q1 q2 unfolding r2 home_marked_def
    by (cases cur; cases "state_json (dir w)") (auto simp: SchemaVersionV3_def)
  show ?thesis
  proof (cases ex)
    case False
    with assms(5) one two r1 r2 have "w' = w2" "\<not> gs_Server st" "\<not> (\<exists>s. cur = Some s \<and> SchemaVersion s = SchemaVersionV3)"
      by (auto simp: CheckGate_def split: option.splits if_splits)
    with marked ex False d2 show ?thesis
      by (simp add: home_invariant_def)
  next
    case True
    let ?fix = "case cur of None \<Rightarrow> WriteTombstone G app now opid tmp tmp2 lk w2
        | Some s \<Rightarrow> if SchemaVersion s \<noteq> SchemaVersionV3 then SetSchemaVersion G app SchemaVersionV3 now opid tmp tmp2 lk w2
                  else (Inr (), w2)"
    obtain r3 where three: "?fix = (r3, w')" "r3 = Inr ()" and st: "gs_Server st"
      using assms(5) True by (auto simp: CheckGate_def one two r1 r2 split: sum.splits prod.splits)
    have "config_git (dir w') = config_git (dir w2) \<and> home_marked (dir w')"
    proof (cases cur)
      case None
      with three have "WriteTombstone G app now opid tmp tmp2 lk w2 = (Inr (), w')" by simp
      from WriteTombstone_success [OF quiet2 assms(2,3) fresh2 this] show ?thesis by simp
    next
      case (Some s)
      show ?thesis
      proof (cases "SchemaVersion s = SchemaVersionV3")
        case True
        with Some three marked d2 show ?thesis by simp
      next
        case False
        with Some three have "SetSchemaVersion G app SchemaVersionV3 now opid tmp tmp2 lk w2 = (Inr (), w')" by simp
        from SetSchemaVersion_v3_success [OF quiet2 assms(2,3) fresh2 this] show ?thesis by simp
      qed
    qed
    with ex True st d2 show ?thesis
      by (simp add: home_invariant_def)
  qed
qed

text \<open>A config repository whose app an older client removed, under the holder's lock.\<close>

definition orphan_world :: "app_dir world" where
  "orphan_world = \<lparr>dir = empty_dir\<lparr>lock_dir := Some (Info sample_lock), config_git := Some ''c0ffee''\<rparr>, script = []\<rparr>"

lemma orphan_gate:
  "fst (CheckGate demo_lib ''web'' 7 ''op'' ''t1'' ''t2'' (Some web_lock) orphan_world)
     = Inr \<lparr>gs_Server = True, gs_Head = ''c0ffee''\<rparr>"
  by (simp add: CheckGate_def Head_def ReadRemoteFile_def run_read_def next_env_def Let_def orphan_world_def
      empty_dir_def ReadIncludingTombstone_def ReadState_def WriteTombstone_def EnsureAppDir_def run_cmd_def
      upload_def stage_def writeFenced_def web_lock_def prepareState_def tombstone_of_def zero_state_def
      validateDigests_def validateManifestDigest_def validateReleaseDigest_def SchemaVersionV2_def
      SchemaVersionV3_def Guarded_def guarded_cmd_def names_owner_def lock_names_def sample_lock_def
      auto_info_def gen_cas_def mv_commit_def trim_space_def trim_left_def trim_right_def is_space_def)

theorem CheckGate_restores_home_witness:
  "home_invariant (dir (snd (CheckGate demo_lib ''web'' 7 ''op'' ''t1'' ''t2'' (Some web_lock) orphan_world)))"
proof -
  obtain w' where out: "CheckGate demo_lib ''web'' 7 ''op'' ''t1'' ''t2'' (Some web_lock) orphan_world
      = (Inr \<lparr>gs_Server = True, gs_Head = ''c0ffee''\<rparr>, w')"
    using orphan_gate by (metis prod.collapse)
  have "quiet orphan_world" "fresh_operation (dir orphan_world) ''op''"
    by (simp_all add: quiet_def orphan_world_def fresh_operation_def empty_dir_def)
  with CheckGate_restores_home [OF _ _ _ _ out] out show ?thesis by simp
qed

section \<open>Two sharp edges\<close>

text \<open>
  Moving a removed server-home app back to a folder leaves its generation sidecar behind, and
  the app can then not be deployed: for every tombstone with a committed generation,
  \<open>SetSchemaVersion\<close> to version 2 under the lock succeeds and the app reads as never deployed, but
  a first deploy, which expects generation 0, is refused by the generation fence whatever state
  it wants to commit.
\<close>

theorem home_reset_blocks_first_deploy:
  assumes "reliable w" and "names_owner (lk_owner l) (dir w)" and "lk_app l = app"
    and "state_json (dir w) = Some (StateDoc t)" and "wf_state G t" and "Tombstone t" and "\<not> legacyImported t"
    and "legacy_state (dir w) = None" and "gen_sidecar (dir w) = Some (GenNum (Generation t))"
    and "prepareState G now' opid' s = Inr s'" and "tmp \<noteq> tmp2"
  shows "\<exists>w'. SetSchemaVersion G app SchemaVersionV2 now opid tmp tmp2 (Some l) w = (Inr (), w')
    \<and> ReadIncludingTombstone G w' = (Inr None, w')
    \<and> fst (writeFenced G app now' opid' tmp tmp2 s (Some l) (Some 0) w') = Inl GenerationFenced"
proof -
  let ?d = "(dir w)\<lparr>state_json := None\<rparr>"
  let ?w = "w\<lparr>dir := ?d\<rparr>"
  have v3: "SchemaVersion t = SchemaVersionV3" and g: "0 < Generation t"
    using assms(5,6) by (auto simp: wf_state_def word_gt_0)
  have r: "reliable w'" if "script w' = script w" for w' :: "app_dir world"
    using assms(1) that by (simp add: reliable_def)
  have "legacyImported (normalizePorts t) = legacyImported t"
    by (simp add: normalizePorts_def Let_def)
  then have "SetSchemaVersion G app SchemaVersionV2 now opid tmp tmp2 (Some l) w = (Inr (), ?w)"
    using assms v3
    by (simp add: SetSchemaVersion_def ReadIncludingTombstone_def ReadRemoteFile_def ParseCanonical_wf
        SchemaVersionV2_def SchemaVersionV3_def Guarded_def guarded_cmd_def rm_state_def)
  moreover have "ReadIncludingTombstone G ?w = (Inr None, ?w)"
    using assms(8) r [of ?w] by (simp add: ReadIncludingTombstone_def ReadState_def ReadRemoteFile_def)
  moreover have "fst (writeFenced G app now' opid' tmp tmp2 s (Some l) (Some 0) ?w) = Inl GenerationFenced"
    using assms(2,3,9-11) g r less_imp_neq [OF g, symmetric]
    by (simp add: writeFenced_def upload_def stage_def Guarded_def guarded_cmd_def names_owner_def
        gen_cas_def fenceLostErr_def not_le)
  ultimately show ?thesis by blast
qed

definition tomb_world :: "app_dir world" where
  "tomb_world = \<lparr>dir = empty_dir\<lparr>lock_dir := Some (Info sample_lock), gen_sidecar := Some (GenNum 1),
     state_json := Some (StateDoc (tombstone_of None 3 ''op0''))\<rparr>, script = []\<rparr>"

theorem home_reset_blocks_first_deploy_witness:
  "\<exists>w'. SetSchemaVersion demo_lib ''web'' SchemaVersionV2 5 ''op1'' ''t1'' ''t2'' (Some web_lock) tomb_world = (Inr (), w')
    \<and> fst (writeFenced demo_lib ''web'' 7 ''op'' ''t1'' ''t2'' demo_state (Some web_lock) (Some 0) w') = Inl GenerationFenced"
proof -
  have "names_owner ''a1'' (dir tomb_world)" "reliable tomb_world"
    by (simp_all add: names_owner_def lock_names_def sample_lock_def auto_info_def tomb_world_def empty_dir_def
        reliable_def)
  moreover have "wf_state demo_lib (tombstone_of None 3 ''op0'')"
    by (simp add: wf_state_def tombstone_of_def zero_state_def digest_ok_def)
  ultimately show ?thesis
    using home_reset_blocks_first_deploy [of tomb_world web_lock "''web''" "tombstone_of None 3 ''op0''" demo_lib
        7 "''op''" demo_state prepared_demo "''t1''" "''t2''" 5 "''op1''"] prepare_demo
    by (auto simp: tomb_world_def web_lock_def empty_dir_def tombstone_of_def zero_state_def)
qed

text \<open>
  The sidecar is staged under one fixed name, so two repairs that overlap can publish each
  other's number: a writer that stages generation 5 reports success although generation 9, staged
  by another client between its upload and its rename, is what it published.
\<close>

theorem shared_staging_name_publishes_foreign_generation:
  "writeGenerationSidecarFenced 5 None
     \<lparr>dir = empty_dir, script = [(id, Delivered), (stage gen_tmp_commit (StagedGen 9), Delivered)]\<rparr>
   = (Inr (), \<lparr>dir = empty_dir\<lparr>gen_sidecar := Some (GenNum 9), staged := Map.empty\<rparr>, script = []\<rparr>)"
  by (simp add: writeGenerationSidecarFenced_def run_cmd_def next_env_def Let_def upload_def stage_def
      empty_dir_def Guarded_def mv_gen_def)

section \<open>Pins\<close>

definition pin_ok :: "string \<Rightarrow> bool" where
  "pin_ok v \<longleftrightarrow> v \<noteq> [] \<and> list_all (\<lambda>c. \<not> is_space c) v"

lemma newline_space [simp]: "is_space newline"
  by (simp add: is_space_def)

lemma parse_pins_simp: "parse_pins data = filter (\<lambda>v. v \<noteq> []) (map trim_space (lines_of data))"
proof -
  have "concat (map (\<lambda>l. concat (map (\<lambda>v. if v \<noteq> [] then [v] else []) [trim_space l])) ls)
      = filter (\<lambda>v. v \<noteq> []) (map trim_space ls)" for ls
    by (induction ls) auto
  then show ?thesis by (simp add: parse_pins_def)
qed

lemma trim_space_Nil [simp]: "trim_space [] = []"
  by (simp add: trim_space_def trim_left_def trim_right_def)

lemma split_on_snoc: "split_on c (s @ [c]) = split_on c s @ [[]]"
proof (induction s)
  case (Cons x s)
  then show ?case
    by (cases "split_on c s") (auto split: list.splits)
qed simp

lemma render_pins_parse:
  assumes "\<forall>v \<in> set pins. pin_ok v"
  shows "parse_pins (render_pins pins) = sort pins"
proof (cases "pins = []")
  case True
  then show ?thesis by (simp add: render_pins_def parse_pins_simp)
next
  case False
  then have ne: "sort pins \<noteq> []" by (metis length_0_conv length_sort)
  have ok: "\<forall>v \<in> set (sort pins). newline \<notin> set v \<and> trim_space v = v \<and> v \<noteq> []"
    using assms trim_space_no_space newline_space unfolding pin_ok_def list_all_iff by (metis set_sort)
  then have sp: "lines_of (unlines (sort pins)) = sort pins"
    using ne by (intro split_join) auto
  have "unlines (sort pins) \<noteq> []"
  proof
    assume "unlines (sort pins) = []"
    with sp have "sort pins = [[]]" by simp
    with ok show False by simp
  qed
  moreover have "filter (\<lambda>v. v \<noteq> []) (map trim_space (sort pins)) = sort pins"
  proof -
    have "map trim_space (sort pins) = sort pins"
      using ok by (intro map_idI) blast
    with ok show ?thesis by (simp add: filter_id_conv)
  qed
  ultimately show ?thesis
    using sp by (simp add: render_pins_def parse_pins_simp split_on_snoc Let_def)
qed

lemma mv_pins_atomic:
  assumes "quiet w" and "writePins tmp pins w = (r, w')"
  shows "quiet w' \<and> (pins_file (dir w') = pins_file (dir w) \<or> pins_file (dir w') = Some (render_pins pins))
    \<and> (r = Inr () \<longrightarrow> pins_file (dir w') = Some (render_pins pins))"
proof -
  let ?x = "StagedText (render_pins pins)"
  obtain r1 w1 where one: "EnsureAppDir w = (r1, w1)" by fastforce
  obtain r2 w2 where two: "run_cmd (upload (stage tmp ?x)) w1 = (r2, w2)" by fastforce
  obtain r3 w3 where three: "run_cmd (mv_pins tmp) w2 = (r3, w3)" by fastforce
  note q1 = EnsureAppDir_quiet [OF assms(1) one]
  have q2: "quiet w2" and p2: "pins_file (dir w2) = pins_file (dir w)"
    and s2: "r2 = Inr () \<Longrightarrow> staged (dir w2) tmp = Some ?x"
    using upload_quiet [OF conjunct1 [OF q1], of "stage tmp ?x"] q1 two by (auto simp: stage_def)
  have q3: "quiet w3"
    using run_cmd_quiet [OF q2, of "mv_pins tmp"] three by simp
  have p3: "(pins_file (dir w3) = pins_file (dir w) \<or> pins_file (dir w3) = Some (render_pins pins))
      \<and> (r3 = Inr () \<longrightarrow> pins_file (dir w3) = Some (render_pins pins))" if "r2 = Inr ()"
  proof -
    have effs: "effs = [\<lambda>d. d\<lparr>pins_file := Some (render_pins pins), staged := (staged d)(tmp := None)\<rparr>]"
      if "mv_pins tmp (dir w2) = Inr effs" for effs
      using that s2 [OF \<open>r2 = Inr ()\<close>] by (simp add: mv_pins_def)
    show ?thesis
      using three p2 by (cases rule: run_cmd_quiet_cases [OF q2, of "mv_pins tmp"]) (auto dest!: effs simp: take_Cons')
  qed
  have clean: "quiet (snd (run_cmd (upload (unstage tmp)) v)) \<and> pins_file (dir (snd (run_cmd (upload (unstage tmp)) v))) = pins_file (dir v)"
    if "quiet v" for v :: "app_dir world"
    using upload_quiet [OF that, of "unstage tmp"] by (auto simp: unstage_def)
  show ?thesis
    using assms(2) one two three q1 q2 q3 p2 p3 clean [OF q2] clean [OF q3]
    by (auto simp: writePins_def split: sum.splits)
qed

definition pins_in :: "app_dir \<Rightarrow> string list" where
  "pins_in d = (case pins_file d of None \<Rightarrow> [] | Some t \<Rightarrow> parse_pins t)"

lemma ReadPins_quiet:
  assumes "quiet w" and "ReadPins w = (r, w')"
  shows "quiet w' \<and> dir w' = dir w \<and> (\<forall>pins. r = Inr pins \<longrightarrow> pins = pins_in (dir w))"
proof -
  obtain r1 w1 where one: "ReadRemoteFile pins_file w = (r1, w1)" by fastforce
  note q1 = ReadRemoteFile_quiet [OF assms(1) one]
  from assms(2) one q1 show ?thesis
    by (cases r1; cases "pins_file (dir w)") (auto simp: ReadPins_def pins_in_def)
qed

lemma pins_in_written:
  assumes "\<forall>v \<in> set pins. pin_ok v" and "pins_file d = Some (render_pins pins)"
  shows "set (pins_in d) = set pins"
  using render_pins_parse [OF assms(1)] assms(2) by (simp add: pins_in_def)

lemma pins_in_kept: "pins_file d' = pins_file d \<Longrightarrow> pins_in d' = pins_in d"
  by (simp add: pins_in_def)

text \<open>
  C13. Pins are never lost by a partial update.  For versions without white space, on a server
  nobody else writes and wherever the connection breaks: after \<open>AddPin\<close> the pin file still protects
  every version it protected, and on success the new one too; after \<open>RemovePin\<close> every other version
  is still protected, and on success exactly the removed one is gone.
\<close>

theorem pins_survive:
  assumes "quiet w" and "\<forall>v \<in> set (pins_in (dir w)). pin_ok v" and "pin_ok version"
    and "AddPin tmp version w = (r, w')" and "RemovePin tmp version w = (r2, w2)"
  shows "set (pins_in (dir w)) \<subseteq> set (pins_in (dir w'))
    \<and> (r = Inr () \<longrightarrow> set (pins_in (dir w')) = insert version (set (pins_in (dir w))))
    \<and> set (pins_in (dir w)) - {version} \<subseteq> set (pins_in (dir w2))
    \<and> (r2 = Inr () \<longrightarrow> set (pins_in (dir w2)) = set (pins_in (dir w)) - {version})"
proof -
  let ?pins = "pins_in (dir w)"
  obtain r1 w1 where one: "ReadPins w = (r1, w1)" by fastforce
  note q1 = ReadPins_quiet [OF assms(1) one]
  obtain ra wa where add: "writePins tmp (?pins @ [version]) w1 = (ra, wa)" by fastforce
  obtain rr wr where rem: "writePins tmp [p \<leftarrow> ?pins. p \<noteq> version] w1 = (rr, wr)" by fastforce
  note qa = mv_pins_atomic [OF conjunct1 [OF q1] add]
  note qr = mv_pins_atomic [OF conjunct1 [OF q1] rem]
  have ok: "\<forall>v \<in> set (?pins @ [version]). pin_ok v" "\<forall>v \<in> set [p \<leftarrow> ?pins. p \<noteq> version]. pin_ok v"
    using assms(2,3) by auto
  have a: "set (pins_in (dir wa)) = insert version (set ?pins)" if "pins_file (dir wa) = Some (render_pins (?pins @ [version]))"
    using pins_in_written [OF ok(1) that] by simp
  have b: "set (pins_in (dir wr)) = set ?pins - {version}" if "pins_file (dir wr) = Some (render_pins [p \<leftarrow> ?pins. p \<noteq> version])"
    using pins_in_written [OF ok(2) that] by auto
  have ka: "pins_in (dir wa) = ?pins" if "pins_file (dir wa) = pins_file (dir w1)"
    using that q1 by (simp add: pins_in_def)
  have kr: "pins_in (dir wr) = ?pins" if "pins_file (dir wr) = pins_file (dir w1)"
    using that q1 by (simp add: pins_in_def)
  have added: "set ?pins \<subseteq> set (pins_in (dir w')) \<and> (r = Inr () \<longrightarrow> set (pins_in (dir w')) = insert version (set ?pins))"
  proof (cases r1)
    case (Inl e)
    with assms(4) one q1 show ?thesis by (auto simp: AddPin_def)
  next
    case (Inr pins)
    with q1 have p: "r1 = Inr ?pins" by simp
    show ?thesis
    proof (cases "version \<in> set ?pins")
      case True
      with assms(4) one p have "w' = w1" by (simp add: AddPin_def)
      with True q1 show ?thesis by auto
    next
      case False
      with assms(4) one p add have "r = ra" "w' = wa" by (simp_all add: AddPin_def)
      with qa a ka show ?thesis by auto
    qed
  qed
  have removed: "set ?pins - {version} \<subseteq> set (pins_in (dir w2)) \<and> (r2 = Inr () \<longrightarrow> set (pins_in (dir w2)) = set ?pins - {version})"
  proof (cases r1)
    case (Inl e)
    with assms(5) one q1 show ?thesis by (auto simp: RemovePin_def)
  next
    case (Inr pins)
    with q1 have p: "r1 = Inr ?pins" by simp
    with assms(5) one rem have "r2 = rr" "w2 = wr" by (simp_all add: RemovePin_def)
    with qr b kr show ?thesis by auto
  qed
  from added removed show ?thesis by blast
qed

definition pinned_world :: "app_dir world" where
  "pinned_world = \<lparr>dir = empty_dir\<lparr>pins_file := Some (''v1'' @ newline # ''v2'' @ [newline])\<rparr>, script = [(id, Delivered), (id, Delivered), (id, Delivered), (id, Lost 1)]\<rparr>"

theorem pins_survive_witness:
  "{''v1'', ''v2''} \<subseteq> set (pins_in (dir (snd (AddPin ''t'' ''v3'' pinned_world))))"
proof -
  obtain r w' r2 w2 where out: "AddPin ''t'' ''v3'' pinned_world = (r, w')" "RemovePin ''t'' ''v3'' pinned_world = (r2, w2)"
    by (metis prod.collapse)
  have pins: "pins_in (dir pinned_world) = [''v1'', ''v2'']"
    by (simp add: pins_in_def pinned_world_def parse_pins_simp trim_space_def trim_left_def trim_right_def is_space_def)
  moreover have "quiet pinned_world"
    by (auto simp: quiet_def pinned_world_def)
  ultimately have "set (pins_in (dir pinned_world)) \<subseteq> set (pins_in (dir w'))"
    using pins_survive [OF _ _ _ out] by (auto simp: pin_ok_def is_space_def)
  with pins out show ?thesis by simp
qed

text \<open>
  The fenced executor adds the lease to every effect: with a lock that does not name the
  caller, a command run or piped through it is refused and an upload is not sent; with the
  caller's own lock on a working connection it does exactly what the plain executor does.
\<close>

theorem fenced_executor_transparent:
  assumes "reliable w"
  shows "(\<not> names_owner (lk_owner l) (dir w) \<longrightarrow>
      FencedExecutor_Run l c w = (Inl FenceLost, w)
      \<and> FencedExecutor_RunInput l c w = (Inl (Exit 75), w)
      \<and> FencedExecutor_Upload l e w = (Inl FenceLost, w))
    \<and> (names_owner (lk_owner l) (dir w) \<and> \<not> lk_lost l \<longrightarrow>
      snd (FencedExecutor_Run l c w) = snd (run_cmd c w)
      \<and> FencedExecutor_RunInput l c w = run_cmd c w
      \<and> FencedExecutor_Upload l e w = (Inr (), w\<lparr>dir := e (dir w)\<rparr>))"
  using assms
  by (auto simp: FencedExecutor_Run_def FencedExecutor_RunInput_def FencedExecutor_Upload_def Guarded_def
      guarded_cmd_def fenceLostErr_def Lock_Check_def upload_def split: sum.split)

theorem fenced_executor_transparent_witness:
  "FencedExecutor_Upload web_lock (stage ''f'' (StagedGen 1)) \<lparr>dir = empty_dir, script = []\<rparr>
     = (Inl FenceLost, \<lparr>dir = empty_dir, script = []\<rparr>)"
  using fenced_executor_transparent [of "\<lparr>dir = empty_dir, script = []\<rparr>" web_lock]
  by (simp add: reliable_def names_owner_def empty_dir_def)

end
