(* ===== verification/CaddyCommit.thy ===== *)
theory CaddyCommit
  imports CaddyRender Server
begin

text \<open>
  The Caddyfile transaction of \<open>internal/caddy/caddy.go\<close>: the shared edit lock, staging, the
  guarded commit with its exact-block compare-and-swap, the reload, the delivery check and the
  rollback (\<open>mutateWithCAS\<close>), and the operations built on it, with those of
  \<open>internal/caddy/webhook.go\<close> and the retirement of a stale route
  (\<open>internal/deploy/staleroute.go\<close>).  The server is a state \<open>proxy\<close>, reached through the commands
  of \<open>Remote\<close>.  The proxy itself is not under src/: what its binary accepts (\<open>caddy adapt\<close>) and
  what a reload loads are the parameters \<open>en_adapts\<close> and \<open>en_loads\<close>, as is the digest \<open>en_sha\<close>.
  Random names and the clock's readings are arguments.
\<close>

section \<open>The server\<close>

record caddyLockInfo =
  cl_Type :: string
  cl_Owner :: string
  cl_TS :: stamp

text \<open>A lock directory without an info file is dated by its modification time.\<close>

datatype edit_lock = BareLock int | JunkInfo string | EditLock caddyLockInfo

datatype small_file = TextFile string | HookFile webhookRouteConfig

text \<open>
  \<open>px_pinned\<close> is the stale inode a single-file bind mount pins the container to; \<open>px_running\<close> is
  the configuration the proxy serves; \<open>px_files\<close> holds the other files under /deployments.
\<close>

record proxy =
  px_file :: "string option"
  px_staged :: "string \<Rightarrow> string option"
  px_lock :: "edit_lock option"
  px_pinned :: "string option"
  px_running :: "string option"
  px_files :: "string \<Rightarrow> small_file option"

definition container_view :: "proxy \<Rightarrow> string option" where
  "container_view d = (case px_pinned d of Some s \<Rightarrow> Some s | None \<Rightarrow> px_file d)"

record edit_env =
  en_adapts :: "string \<Rightarrow> bool"
  en_loads :: "string \<Rightarrow> bool"
  en_sha :: "string \<Rightarrow> string"
  en_owner :: string
  en_times :: "int list"
  en_tmp :: string
  en_tmp_restore :: string

section \<open>The edit lock\<close>

definition staleLockSeconds :: int where
  "staleLockSeconds = 120"

definition lockWaitTries :: nat where
  "lockWaitTries = 60"

definition mkdir_edit_lock :: "int \<Rightarrow> proxy cmd" where
  "mkdir_edit_lock now d =
     (if px_lock d = None then Inr [\<lambda>d. d\<lparr>px_lock := Some (BareLock now)\<rparr>] else Inl 1)"

definition rm_edit_lock :: "proxy cmd" where
  "rm_edit_lock d = Inr [\<lambda>d. d\<lparr>px_lock := None\<rparr>]"

definition edit_lock_info :: "string \<Rightarrow> int \<Rightarrow> caddyLockInfo" where
  "edit_lock_info owner now =
     \<lparr>cl_Type = ''caddy-edit'', cl_Owner = owner, cl_TS = rfc3339 now\<rparr>"

definition writeCaddyLockInfo ::
  "string \<Rightarrow> int \<Rightarrow> proxy world \<Rightarrow> (exec_error, unit) result \<times> proxy world" where
  "writeCaddyLockInfo owner now w =
     run_cmd (\<lambda>d. Inr
       [\<lambda>d. (case px_lock d of None \<Rightarrow> d\<lparr>px_lock := Some (BareLock now)\<rparr> | Some _ \<Rightarrow> d),
        \<lambda>d. d\<lparr>px_lock := Some (EditLock (edit_lock_info owner now))\<rparr>]) w"

text \<open>\<open>cat .lock/info\<close> fails without an info file; then the directory's age decides.\<close>

definition info_of :: "proxy \<Rightarrow> edit_lock option" where
  "info_of d = (case px_lock d of
     Some (BareLock _) \<Rightarrow> None | Some (JunkInfo s) \<Rightarrow> if trim_space s = [] then None else Some (JunkInfo s)
   | l \<Rightarrow> l)"

definition bare_age_stale :: "int \<Rightarrow> proxy \<Rightarrow> bool" where
  "bare_age_stale now d =
     (case px_lock d of Some (BareLock t) \<Rightarrow> now div second - t div second > staleLockSeconds
      | _ \<Rightarrow> False)"

definition caddyLockStale :: "int \<Rightarrow> proxy world \<Rightarrow> bool \<times> proxy world" where
  "caddyLockStale now w =
     (case run_read info_of w of
        (Inr (Some (EditLock i)), w1) \<Rightarrow>
          ((case cl_TS i of BadStamp \<Rightarrow> True | Stamp t \<Rightarrow> now - t > staleLockSeconds * second), w1)
      | (Inr (Some _), w1) \<Rightarrow> (True, w1)
      | (_, w1) \<Rightarrow>
          (case run_read (bare_age_stale now) w1 of
             (Inr b, w2) \<Rightarrow> (b, w2)
           | (Inl _, w2) \<Rightarrow> (False, w2)))"

datatype caddy_failure =
    LockInfoFailed exec_error
  | LockTimeout
  | ReadFailed exec_error
  | BadEdit caddy_error
  | AuxRead exec_error
  | AuxWrite exec_error
  | HookUnreadable
  | HookIncomplete
  | AdaptRefused exec_error
  | StageFailed exec_error
  | FenceRefused
  | RouteCASRefused "nat option"
  | CommitFailed exec_error
  | RestoreFailed
  | ReloadBackFailed
  | RolledBack
  | CASNamesOtherApp
  | BadPort

text \<open>One round per clock reading; \<open>mkdir\<close>, else break a stale holder, else sleep.\<close>

fun acquire_rounds ::
  "string \<Rightarrow> int list \<Rightarrow> proxy world \<Rightarrow> (caddy_failure, string) result \<times> proxy world" where
  "acquire_rounds owner [] w = (Inl LockTimeout, w)"
| "acquire_rounds owner (now # clock) w =
     (case run_cmd (mkdir_edit_lock now) w of
        (Inr _, w1) \<Rightarrow>
          (case writeCaddyLockInfo owner now w1 of
             (Inr _, w2) \<Rightarrow> (Inr owner, w2)
           | (Inl e, w2) \<Rightarrow> (Inl (LockInfoFailed e), snd (run_cmd rm_edit_lock w2)))
      | (Inl _, w1) \<Rightarrow>
          (let (stale, w2) = caddyLockStale now w1
           in if stale then acquire_rounds owner clock (snd (run_cmd rm_edit_lock w2))
              else acquire_rounds owner clock (snd (run_cmd (\<lambda>d. Inr []) w2))))"

definition caddy_acquireLock ::
  "edit_env \<Rightarrow> proxy world \<Rightarrow> (caddy_failure, string) result \<times> proxy world" where
  "caddy_acquireLock env w = acquire_rounds (en_owner env) (take lockWaitTries (en_times env)) w"

text \<open>\<open>grep -q <owner> .lock/info\<close>\<close>

definition names_editor :: "string \<Rightarrow> proxy \<Rightarrow> bool" where
  "names_editor owner d =
     (case px_lock d of
        Some (EditLock i) \<Rightarrow> contains_str owner (cl_Owner i) \<or> contains_str owner (cl_Type i)
      | Some (JunkInfo s) \<Rightarrow> contains_str owner s
      | _ \<Rightarrow> False)"

definition caddy_releaseLock :: "string \<Rightarrow> proxy world \<Rightarrow> proxy world" where
  "caddy_releaseLock owner w =
     snd (run_cmd (\<lambda>d. if names_editor owner d then rm_edit_lock d else Inr []) w)"

section \<open>The guards of the commit\<close>

text \<open>The app's fence: an owner token and the path of the lock info it must occur in.\<close>

type_synonym app_guard = "string \<times> string"

definition app_guard_holds :: "app_guard \<Rightarrow> proxy \<Rightarrow> bool" where
  "app_guard_holds g d =
     (case px_files d (snd g) of Some (TextFile s) \<Rightarrow> contains_str (fst g) s | _ \<Rightarrow> False)"

definition app_guarded :: "app_guard \<Rightarrow> proxy cmd \<Rightarrow> proxy cmd" where
  "app_guarded g c d = (if app_guard_holds g d then c d else Inl 75)"

definition caddyGuardFragment :: "string \<Rightarrow> proxy cmd \<Rightarrow> proxy cmd" where
  "caddyGuardFragment owner c d = (if names_editor owner d then c d else Inl 75)"

record routeExpectation =
  re_app :: string
  re_acceptable :: "string list"
  re_generation :: nat

text \<open>\<open>sed -n '/^begin$/,/^end$/p'\<close>: the ranges from a begin line to the next end line.\<close>

type_synonym sed_line = "string \<times> string"

fun sed_range :: "string \<Rightarrow> string \<Rightarrow> bool \<Rightarrow> sed_line list \<Rightarrow> sed_line list" where
  "sed_range b e active [] = []"
| "sed_range b e active ((l, t) # ls) =
     (if active then (l, t) # sed_range b e (l \<noteq> e) ls
      else if l = b then (l, t) # sed_range b e True ls
      else sed_range b e False ls)"

text \<open>
  The lines of the input with their terminators: a last line without a newline is printed
  without one.
\<close>

definition sed_lines :: "string \<Rightarrow> sed_line list" where
  "sed_lines s =
     map (\<lambda>l. (l, [newline])) (butlast (lines_of s))
     @ (if List.last (lines_of s) = [] then [] else [(List.last (lines_of s), [])])"

definition server_region :: "string \<Rightarrow> string \<Rightarrow> string" where
  "server_region app content =
     concat (map (\<lambda>(l, t). l @ t)
       (sed_range (marker_begin app) (marker_end app) False (sed_lines content)))"

definition live_region :: "string \<Rightarrow> proxy \<Rightarrow> string" where
  "live_region app d = (case px_file d of None \<Rightarrow> [] | Some s \<Rightarrow> server_region app s)"

definition acceptable_hashes :: "(string \<Rightarrow> string) \<Rightarrow> routeExpectation \<Rightarrow> string list" where
  "acceptable_hashes sha cas =
     (if re_acceptable cas = [] then [ManagedRegionHash sha []] else re_acceptable cas)"

definition route_current :: "(string \<Rightarrow> string) \<Rightarrow> routeExpectation \<Rightarrow> proxy \<Rightarrow> bool" where
  "route_current sha cas d \<longleftrightarrow>
     sha (live_region (re_app cas) d) \<in> set (acceptable_hashes sha cas)"

definition routeCASFragment ::
  "(string \<Rightarrow> string) \<Rightarrow> routeExpectation \<Rightarrow> proxy cmd \<Rightarrow> proxy cmd" where
  "routeCASFragment sha cas c d = (if route_current sha cas d then c d else Inl 76)"

interpretation app_fence_of_edit: holdership_guard app_guard_holds app_guarded 75
  by unfold_locales (simp_all add: app_guarded_def)

interpretation edit_fence: holdership_guard names_editor caddyGuardFragment 75
  by unfold_locales (simp_all add: caddyGuardFragment_def)

interpretation route_cas: holdership_guard "route_current sha" "routeCASFragment sha" 76
  for sha :: "string \<Rightarrow> string"
  by unfold_locales (simp_all add: routeCASFragment_def)

text \<open>The guards a commit composes, in the order of the shell command.\<close>

definition commit_guards ::
  "edit_env \<Rightarrow> app_guard option \<Rightarrow> string \<Rightarrow> routeExpectation option \<Rightarrow> proxy cmd \<Rightarrow> proxy cmd" where
  "commit_guards env ag owner cas c =
     (let inner = caddyGuardFragment owner
                    (case cas of None \<Rightarrow> c | Some k \<Rightarrow> routeCASFragment (en_sha env) k c)
      in case ag of None \<Rightarrow> inner | Some g \<Rightarrow> app_guarded g inner)"

section \<open>Files\<close>

definition caddyfile_of :: "proxy \<Rightarrow> string option" where
  "caddyfile_of d = px_file d"

text \<open>
  The output of a command arrives without the white space around it.  A framed read starts with
  its frame, so it loses only the white space at the end of the file.
\<close>

definition readServerFile ::
  "string \<Rightarrow> proxy world \<Rightarrow> (exec_error, small_file option) result \<times> proxy world" where
  "readServerFile path w =
     run_read (\<lambda>d. map_option (\<lambda>f. case f of TextFile s \<Rightarrow> TextFile (trim_right is_space s) | h \<Rightarrow> h)
                     (px_files d path)) w"

definition put_file :: "string \<Rightarrow> small_file option \<Rightarrow> proxy effect" where
  "put_file path f d = d\<lparr>px_files := (px_files d)(path := f)\<rparr>"

definition stageCaddyfile ::
  "string \<Rightarrow> string \<Rightarrow> proxy world \<Rightarrow> (exec_error, unit) result \<times> proxy world" where
  "stageCaddyfile tmp content w =
     run_cmd (upload (\<lambda>d. d\<lparr>px_staged := (px_staged d)(tmp := Some content)\<rparr>)) w"

definition rm_staged :: "string \<Rightarrow> proxy world \<Rightarrow> proxy world" where
  "rm_staged tmp w =
     snd (run_cmd (\<lambda>d. Inr [\<lambda>d. d\<lparr>px_staged := (px_staged d)(tmp := None)\<rparr>]) w)"

text \<open>\<open>mv -fT -- tmp Caddyfile\<close>\<close>

definition mv_caddyfile :: "string \<Rightarrow> proxy cmd" where
  "mv_caddyfile tmp d =
     (case px_staged d tmp of
        Some s \<Rightarrow> Inr [\<lambda>d. d\<lparr>px_file := Some s, px_staged := (px_staged d)(tmp := None)\<rparr>]
      | None \<Rightarrow> Inl 1)"

definition writeCaddyfile ::
  "string \<Rightarrow> string \<Rightarrow> proxy world \<Rightarrow> (exec_error, unit) result \<times> proxy world" where
  "writeCaddyfile tmp content w =
     (case stageCaddyfile tmp content w of
        (Inl e, w1) \<Rightarrow> (Inl e, w1)
      | (Inr _, w1) \<Rightarrow>
          (case run_cmd (mv_caddyfile tmp) w1 of
             (Inr _, w2) \<Rightarrow> (Inr (), w2)
           | (Inl e, w2) \<Rightarrow> (Inl e, rm_staged tmp w2)))"

section \<open>The running proxy\<close>

definition adaptCheck ::
  "edit_env \<Rightarrow> string \<Rightarrow> proxy world \<Rightarrow> (exec_error, unit) result \<times> proxy world" where
  "adaptCheck env content w =
     run_cmd (\<lambda>d. if en_adapts env content then Inr [] else Inl 1) w"

definition reload_cmd :: "edit_env \<Rightarrow> proxy cmd" where
  "reload_cmd env d =
     (case container_view d of
        Some s \<Rightarrow> if en_loads env s then Inr [\<lambda>d. d\<lparr>px_running := Some s\<rparr>] else Inl 1
      | None \<Rightarrow> Inl 1)"

definition caddy_reload :: "edit_env \<Rightarrow> proxy world \<Rightarrow> (exec_error, unit) result \<times> proxy world" where
  "caddy_reload env w = run_cmd (reload_cmd env) w"

text \<open>The checksums of both sides agree and are not empty.\<close>

definition delivered :: "proxy \<Rightarrow> bool" where
  "delivered d \<longleftrightarrow> px_file d \<noteq> None \<and> container_view d = px_file d"

definition verifyDelivered :: "proxy world \<Rightarrow> bool \<times> proxy world" where
  "verifyDelivered w =
     (case run_read delivered w of (Inr ok, w1) \<Rightarrow> (ok, w1) | (Inl _, w1) \<Rightarrow> (False, w1))"

section \<open>The transaction\<close>

definition fenceRefused :: "exec_error \<Rightarrow> bool" where
  "fenceRefused e \<longleftrightarrow> e = Exit 75"

definition routeCASRefused :: "exec_error \<Rightarrow> bool" where
  "routeCASRefused e \<longleftrightarrow> e = Exit 76"

definition ReadManagedBlock ::
  "string \<Rightarrow> proxy world \<Rightarrow> (exec_error, string option) result \<times> proxy world" where
  "ReadManagedBlock app w =
     (case run_read caddyfile_of w of
        (Inl e, w1) \<Rightarrow> (Inl e, w1)
      | (Inr None, w1) \<Rightarrow> (Inr None, w1)
      | (Inr (Some s), w1) \<Rightarrow>
          (let r = extractManagedRegion (trim_right is_space s) app
           in (Inr (if r = [] then None else Some r), w1)))"

text \<open>The evidence of a refused swap: the generation the live region carries.\<close>

definition routeCASError ::
  "routeExpectation \<Rightarrow> proxy world \<Rightarrow> caddy_failure \<times> proxy world" where
  "routeCASError cas w =
     (case ReadManagedBlock (re_app cas) w of
        (Inr (Some r), w1) \<Rightarrow> (RouteCASRefused (RegionGeneration r), w1)
      | (_, w1) \<Rightarrow> (RouteCASRefused None, w1))"

definition roll_back ::
  "edit_env \<Rightarrow> string \<Rightarrow> proxy world \<Rightarrow> caddy_failure \<times> proxy world" where
  "roll_back env prev w =
     (case writeCaddyfile (en_tmp_restore env) prev w of
        (Inl _, w1) \<Rightarrow> (RestoreFailed, w1)
      | (Inr _, w1) \<Rightarrow>
          (case caddy_reload env w1 of
             (Inl _, w2) \<Rightarrow> (ReloadBackFailed, w2)
           | (Inr _, w2) \<Rightarrow> (RolledBack, w2)))"

text \<open>
  An edit of the text; \<open>noted_transform\<close> also returns what the caller's closure noted on the way.
\<close>

type_synonym transform = "string \<Rightarrow> proxy world \<Rightarrow> (caddy_failure, string) result \<times> proxy world"
type_synonym 'x noted_transform =
  "string \<Rightarrow> proxy world \<Rightarrow> (caddy_failure, string \<times> 'x) result \<times> proxy world"

definition no_note :: "transform \<Rightarrow> unit noted_transform" where
  "no_note t prev w =
     (case t prev w of (Inl e, w1) \<Rightarrow> (Inl e, w1) | (Inr u, w1) \<Rightarrow> (Inr (u, ()), w1))"

definition commit_edit ::
  "edit_env \<Rightarrow> app_guard option \<Rightarrow> routeExpectation option \<Rightarrow> string \<Rightarrow> string \<Rightarrow> string
     \<Rightarrow> proxy world \<Rightarrow> (caddy_failure, unit) result \<times> proxy world" where
  "commit_edit env ag cas owner prev updated w =
     (case stageCaddyfile (en_tmp env) updated w of
        (Inl e, w1) \<Rightarrow> (Inl (StageFailed e), w1)
      | (Inr _, w1) \<Rightarrow>
          (case run_cmd (commit_guards env ag owner cas (mv_caddyfile (en_tmp env))) w1 of
             (Inl e, w2) \<Rightarrow>
               (let (f, w3) = (case cas of
                      Some k \<Rightarrow> if routeCASRefused e then routeCASError k w2
                                else ((if fenceRefused e then FenceRefused else CommitFailed e), w2)
                    | None \<Rightarrow> ((if fenceRefused e then FenceRefused else CommitFailed e), w2))
                in (Inl f, rm_staged (en_tmp env) w3))
           | (Inr _, w2) \<Rightarrow>
               (case caddy_reload env w2 of
                  (Inl _, w3) \<Rightarrow> (let (f, w4) = roll_back env prev w3 in (Inl f, w4))
                | (Inr _, w3) \<Rightarrow>
                    (let (ok, w4) = verifyDelivered w3
                     in if ok then (Inr (), w4)
                        else (let (f, w5) = roll_back env prev w4 in (Inl f, w5))))))"

definition edit_locked ::
  "edit_env \<Rightarrow> app_guard option \<Rightarrow> routeExpectation option \<Rightarrow> 'x noted_transform \<Rightarrow> string
     \<Rightarrow> proxy world \<Rightarrow> (caddy_failure, 'x) result \<times> proxy world" where
  "edit_locked env ag cas transform owner w =
     (case run_read caddyfile_of w of
        (Inl e, w1) \<Rightarrow> (Inl (ReadFailed e), w1)
      | (Inr None, w1) \<Rightarrow> (Inl (ReadFailed (Exit 1)), w1)
      | (Inr (Some s), w1) \<Rightarrow>
          (let prev = trim_space s
           in case transform prev w1 of
                (Inl e, w2) \<Rightarrow> (Inl e, w2)
              | (Inr (updated, x), w2) \<Rightarrow>
                  if updated = prev then (Inr x, w2)
                  else
                    (case adaptCheck env updated w2 of
                       (Inl e, w3) \<Rightarrow> (Inl (AdaptRefused e), w3)
                     | (Inr _, w3) \<Rightarrow>
                         (case commit_edit env ag cas owner prev updated w3 of
                            (Inl f, w4) \<Rightarrow> (Inl f, w4)
                          | (Inr _, w4) \<Rightarrow> (Inr x, w4)))))"

definition mutateWithCAS ::
  "edit_env \<Rightarrow> app_guard option \<Rightarrow> routeExpectation option \<Rightarrow> 'x noted_transform
     \<Rightarrow> proxy world \<Rightarrow> (caddy_failure, 'x) result \<times> proxy world" where
  "mutateWithCAS env ag cas transform w =
     (case caddy_acquireLock env w of
        (Inl e, w1) \<Rightarrow> (Inl e, w1)
      | (Inr owner, w1) \<Rightarrow>
          (let (r, w2) = edit_locked env ag cas transform owner w1
           in (r, caddy_releaseLock owner w2)))"

definition caddy_mutate ::
  "edit_env \<Rightarrow> app_guard option \<Rightarrow> 'x noted_transform \<Rightarrow> proxy world
     \<Rightarrow> (caddy_failure, 'x) result \<times> proxy world" where
  "caddy_mutate env ag transform w = mutateWithCAS env ag None transform w"


section \<open>The operations\<close>

text \<open>
  A client: the app fence it commits under, the generation it stamps, and the compare-and-swap
  the next managed edit consumes.
\<close>

record CaddyClient =
  cc_guard :: "app_guard option"
  cc_stamp :: nat
  cc_cas :: "routeExpectation option"

definition WithCommitGuard :: "CaddyClient \<Rightarrow> app_guard option \<Rightarrow> CaddyClient" where
  "WithCommitGuard c g = c\<lparr>cc_guard := g\<rparr>"

definition WithGeneration :: "CaddyClient \<Rightarrow> nat \<Rightarrow> CaddyClient" where
  "WithGeneration c g = c\<lparr>cc_stamp := g\<rparr>"

definition WithRouteCAS :: "CaddyClient \<Rightarrow> string \<Rightarrow> string list \<Rightarrow> nat \<Rightarrow> CaddyClient" where
  "WithRouteCAS c app hashes g =
     c\<lparr>cc_cas := Some \<lparr>re_app = app, re_acceptable = hashes, re_generation = g\<rparr>\<rparr>"

definition webhookConfigPath :: "string \<Rightarrow> string" where
  "webhookConfigPath app = ''/deployments/'' @ app @ ''/.webhook-route''"

definition maint_stash :: "string \<Rightarrow> string" where
  "maint_stash app = ''/deployments/'' @ app @ ''/.maintenance-block''"

definition loadWebhookConfig ::
  "string \<Rightarrow> proxy world \<Rightarrow> (caddy_failure, webhookRouteConfig option) result \<times> proxy world" where
  "loadWebhookConfig app w =
     (case readServerFile (webhookConfigPath app) w of
        (Inl e, w1) \<Rightarrow> (Inl (AuxRead e), w1)
      | (Inr None, w1) \<Rightarrow> (Inr None, w1)
      | (Inr (Some (TextFile _)), w1) \<Rightarrow> (Inl HookUnreadable, w1)
      | (Inr (Some (HookFile cfg)), w1) \<Rightarrow>
          (if wh_Hosts cfg = [] \<or> wh_Path cfg = [] \<or> wh_Port cfg < 1 \<or> 65535 < wh_Port cfg
           then Inl HookIncomplete else Inr (Some cfg), w1))"

definition applyWebhookToBlock :: "string \<Rightarrow> transform" where
  "applyWebhookToBlock app content w =
     (if extractCaddyfileBlock content (marker_begin app) = [] then (Inr content, w)
      else
        (case loadWebhookConfig app w of
           (Inl e, w1) \<Rightarrow> (Inl e, w1)
         | (Inr cfg, w1) \<Rightarrow>
             ((case apply_webhook app cfg content of Inl e \<Rightarrow> Inl (BadEdit e) | Inr u \<Rightarrow> Inr u), w1)))"

definition then_webhook ::
  "string \<Rightarrow> (caddy_error, string) result \<Rightarrow> proxy world \<Rightarrow> (caddy_failure, string) result \<times> proxy world"
where
  "then_webhook app r w =
     (case r of Inl e \<Rightarrow> (Inl (BadEdit e), w) | Inr u \<Rightarrow> applyWebhookToBlock app u w)"

definition applyManagedBlock ::
  "edit_env \<Rightarrow> CaddyClient \<Rightarrow> string \<Rightarrow> string list \<Rightarrow> string \<Rightarrow> proxy world
     \<Rightarrow> (caddy_failure, unit) result \<times> CaddyClient \<times> proxy world" where
  "applyManagedBlock env c app hosts block w =
     (if (case cc_cas c of Some k \<Rightarrow> re_app k \<noteq> app | None \<Rightarrow> False) then (Inl CASNamesOtherApp, c, w)
      else
        (let block = (if block \<noteq> [] \<and> 0 < cc_stamp c
                      then generation_stamp (cc_stamp c) @ nl @ block else block);
             (r, w1) = mutateWithCAS env (cc_guard c) (cc_cas c)
                         (no_note (\<lambda>prev v. then_webhook app (renderUpdated prev app hosts block) v)) w
         in (r, c\<lparr>cc_cas := None\<rparr>, w1)))"

definition with_hosts ::
  "string \<Rightarrow> CaddyClient \<Rightarrow> proxy world
     \<Rightarrow> (string list \<Rightarrow> (caddy_failure, unit) result \<times> CaddyClient \<times> proxy world)
     \<Rightarrow> (caddy_failure, unit) result \<times> CaddyClient \<times> proxy world" where
  "with_hosts domain c w f =
     (case parseDomains domain of
        Inl e \<Rightarrow> (Inl (BadEdit e), c, w)
      | Inr hosts \<Rightarrow> if hosts = [] then (Inl (BadEdit EmptyDomain), c, w) else f hosts)"

definition SetRoute ::
  "edit_env \<Rightarrow> CaddyClient \<Rightarrow> string \<Rightarrow> string \<Rightarrow> string \<Rightarrow> int \<Rightarrow> TLS \<Rightarrow> string \<Rightarrow> (string \<times> string) list
     \<Rightarrow> Firewall \<Rightarrow> Access \<Rightarrow> proxy world \<Rightarrow> (caddy_failure, unit) result \<times> CaddyClient \<times> proxy world"
where
  "SetRoute env c app domain upstream port tls extra cache fw access w =
     with_hosts domain c w (\<lambda>hosts. applyManagedBlock env c app hosts
       (reverseProxyBlock hosts upstream port tls extra cache fw access) w)"

definition SetLoadBalancerHealth ::
  "edit_env \<Rightarrow> CaddyClient \<Rightarrow> string \<Rightarrow> string \<Rightarrow> string list \<Rightarrow> string \<Rightarrow> TLS \<Rightarrow> string
     \<Rightarrow> (string \<times> string) list \<Rightarrow> Firewall \<Rightarrow> Access \<Rightarrow> proxy world
     \<Rightarrow> (caddy_failure, unit) result \<times> CaddyClient \<times> proxy world" where
  "SetLoadBalancerHealth env c app domain dials healthPath tls extra cache fw access w =
     with_hosts domain c w (\<lambda>hosts.
       if healthPath \<noteq> [] \<and> \<not> validHealthURI healthPath
       then (Inl (BadEdit (InvalidHealthPath healthPath)), c, w)
       else applyManagedBlock env c app hosts
              (loadBalancerBlock hosts dials healthPath tls extra cache fw access) w)"

definition SetLoadBalancer ::
  "edit_env \<Rightarrow> CaddyClient \<Rightarrow> string \<Rightarrow> string \<Rightarrow> string list \<Rightarrow> TLS \<Rightarrow> string
     \<Rightarrow> (string \<times> string) list \<Rightarrow> Firewall \<Rightarrow> Access \<Rightarrow> proxy world
     \<Rightarrow> (caddy_failure, unit) result \<times> CaddyClient \<times> proxy world" where
  "SetLoadBalancer env c app domain dials tls extra cache fw access w =
     SetLoadBalancerHealth env c app domain dials [] tls extra cache fw access w"

definition SetStaticRoute ::
  "edit_env \<Rightarrow> CaddyClient \<Rightarrow> string \<Rightarrow> string \<Rightarrow> StaticBlockOpts \<Rightarrow> proxy world
     \<Rightarrow> (caddy_failure, unit) result \<times> CaddyClient \<times> proxy world" where
  "SetStaticRoute env c app domain opts w =
     with_hosts domain c w (\<lambda>hosts. applyManagedBlock env c app hosts
       (StaticBlock (opts\<lparr>st_Hosts := hosts\<rparr>)) w)"

definition RemoveRoute ::
  "edit_env \<Rightarrow> CaddyClient \<Rightarrow> string \<Rightarrow> proxy world
     \<Rightarrow> (caddy_failure, unit) result \<times> CaddyClient \<times> proxy world" where
  "RemoveRoute env c app w = applyManagedBlock env c app [] [] w"

definition HasCaddyfile :: "proxy world \<Rightarrow> bool \<times> proxy world" where
  "HasCaddyfile w =
     (case run_read caddyfile_of w of (Inr (Some _), w1) \<Rightarrow> (True, w1) | (_, w1) \<Rightarrow> (False, w1))"

definition HasManagedBlock ::
  "string \<Rightarrow> proxy world \<Rightarrow> (caddy_failure, bool) result \<times> proxy world" where
  "HasManagedBlock app w =
     (case run_read caddyfile_of w of
        (Inr (Some s), w1) \<Rightarrow> (Inr (extractCaddyfileBlock (trim_space s) (marker_begin app) \<noteq> []), w1)
      | (Inr None, w1) \<Rightarrow> (Inl (ReadFailed (Exit 1)), w1)
      | (Inl e, w1) \<Rightarrow> (Inl (ReadFailed e), w1))"

definition AppendRedirect ::
  "edit_env \<Rightarrow> CaddyClient \<Rightarrow> string \<Rightarrow> string list \<Rightarrow> string \<Rightarrow> proxy world
     \<Rightarrow> (caddy_failure, unit) result \<times> proxy world" where
  "AppendRedirect env c app hosts target w =
     (if hosts = [] then (Inl (BadEdit NoRedirectDomains), w)
      else caddy_mutate env (cc_guard c)
             (no_note (\<lambda>prev v. ((case append_redirect app hosts target prev of
                           Inl e \<Rightarrow> Inl (BadEdit e) | Inr u \<Rightarrow> Inr u), v))) w)"

text \<open>The stash of the current route: written once, and only when its absence is confirmed.\<close>

definition stash_route ::
  "string \<Rightarrow> string \<Rightarrow> proxy world \<Rightarrow> (caddy_failure, unit) result \<times> proxy world" where
  "stash_route app cur w =
     (case readServerFile (maint_stash app) w of
        (Inl e, w1) \<Rightarrow> (Inl (AuxRead e), w1)
      | (Inr (Some _), w1) \<Rightarrow> (Inr (), w1)
      | (Inr None, w1) \<Rightarrow>
          (case run_cmd (upload (put_file (maint_stash app) (Some (TextFile cur)))) w1 of
             (Inl e, w2) \<Rightarrow> (Inl (AuxWrite e), w2)
           | (Inr _, w2) \<Rightarrow> (Inr (), w2)))"

definition maintenance_transform :: "string \<Rightarrow> string list \<Rightarrow> transform" where
  "maintenance_transform app hosts prev w =
     (let cur = extractCaddyfileBlock prev (marker_begin app)
      in case maintenance_replacement hosts cur of
           Inl e \<Rightarrow> (Inl (BadEdit e), w)
         | Inr block \<Rightarrow>
             (case (if cur = [] then (Inr (), w) else stash_route app cur w) of
                (Inl e, w1) \<Rightarrow> (Inl e, w1)
              | (Inr _, w1) \<Rightarrow> then_webhook app (renderUpdated prev app hosts block) w1))"

definition SetMaintenance ::
  "edit_env \<Rightarrow> CaddyClient \<Rightarrow> string \<Rightarrow> string \<Rightarrow> proxy world
     \<Rightarrow> (caddy_failure, unit) result \<times> CaddyClient \<times> proxy world" where
  "SetMaintenance env c app domain w =
     with_hosts domain c w (\<lambda>hosts.
       (let (r, w1) = caddy_mutate env (cc_guard c) (no_note (maintenance_transform app hosts)) w in (r, c, w1)))"

text \<open>The note of the restore says whether a stash was found and restored.\<close>

definition restore_transform :: "string \<Rightarrow> bool noted_transform" where
  "restore_transform app prev w =
     (case readServerFile (maint_stash app) w of
        (Inl e, w1) \<Rightarrow> (Inl (AuxRead e), w1)
      | (Inr None, w1) \<Rightarrow> (Inr (prev, False), w1)
      | (Inr (Some (HookFile _)), w1) \<Rightarrow> (Inl HookUnreadable, w1)
      | (Inr (Some (TextFile s)), w1) \<Rightarrow>
          (case then_webhook app (restore_edit app s prev) w1 of
             (Inl e, w2) \<Rightarrow> (Inl e, w2)
           | (Inr u, w2) \<Rightarrow> (Inr (u, True), w2)))"

definition RemoveMaintenance ::
  "edit_env \<Rightarrow> CaddyClient \<Rightarrow> string \<Rightarrow> proxy world \<Rightarrow> (caddy_failure, unit) result \<times> proxy world" where
  "RemoveMaintenance env c app w =
     (case caddy_mutate env (cc_guard c) (restore_transform app) w of
        (Inl e, w1) \<Rightarrow> (Inl e, w1)
      | (Inr stashRemoved, w1) \<Rightarrow>
          (Inr (),
           if stashRemoved then snd (run_cmd (upload (put_file (maint_stash app) None)) w1) else w1))"

text \<open>\<open>ssh.UploadAtomic\<close>: a random sibling, renamed into place, cleaned up on failure.\<close>

definition write_descriptor ::
  "edit_env \<Rightarrow> string \<Rightarrow> small_file \<Rightarrow> proxy world \<Rightarrow> (exec_error, unit) result \<times> proxy world" where
  "write_descriptor env path f w =
     (let tmp = path @ ''.tmp-'' @ en_tmp env; clean = (\<lambda>v. snd (run_cmd (upload (put_file tmp None)) v))
      in case run_cmd (upload (put_file tmp (Some f))) w of
           (Inl e, w1) \<Rightarrow> (Inl e, clean w1)
         | (Inr _, w1) \<Rightarrow>
             (case run_cmd (\<lambda>d. case px_files d tmp of
                       None \<Rightarrow> Inl 1
                     | Some g \<Rightarrow> Inr [\<lambda>d. d\<lparr>px_files := (px_files d)(path := Some g, tmp := None)\<rparr>]) w1 of
                (Inl e, w2) \<Rightarrow> (Inl e, clean w2)
              | (Inr _, w2) \<Rightarrow> (Inr (), w2)))"

definition SetWebhookRoute ::
  "edit_env \<Rightarrow> CaddyClient \<Rightarrow> string \<Rightarrow> string \<Rightarrow> int \<Rightarrow> proxy world
     \<Rightarrow> (caddy_failure, unit) result \<times> CaddyClient \<times> proxy world" where
  "SetWebhookRoute env c app domain port w =
     with_hosts domain c w (\<lambda>hosts.
       if port < 1 \<or> 65535 < port then (Inl BadPort, c, w)
       else
         (case write_descriptor env (webhookConfigPath app)
                  (HookFile \<lparr>wh_Hosts = hosts, wh_Path = ''/teploy-webhook/'' @ app,
                             wh_Port = port\<rparr>) w of
            (Inl e, w1) \<Rightarrow> (Inl (AuxWrite e), c, w1)
          | (Inr _, w1) \<Rightarrow>
              (let (r, w2) = caddy_mutate env (cc_guard c) (no_note (applyWebhookToBlock app)) w1
               in (r, c, w2))))"

definition RemoveWebhookRoute ::
  "edit_env \<Rightarrow> CaddyClient \<Rightarrow> string \<Rightarrow> proxy world \<Rightarrow> (caddy_failure, unit) result \<times> proxy world" where
  "RemoveWebhookRoute env c app w =
     (case run_cmd (upload (put_file (webhookConfigPath app) None)) w of
        (Inl e, w1) \<Rightarrow> (Inl (AuxWrite e), w1)
      | (Inr _, w1) \<Rightarrow> caddy_mutate env (cc_guard c) (no_note (applyWebhookToBlock app)) w1)"

section \<open>Retiring a stale route\<close>

record staleRouteBlock =
  sr_present :: bool
  sr_hash :: string
  sr_webhook :: bool

definition no_stale_route :: staleRouteBlock where
  "no_stale_route = \<lparr>sr_present = False, sr_hash = [], sr_webhook = False\<rparr>"

definition staleRouteFromRegion :: "(string \<Rightarrow> string) \<Rightarrow> string \<Rightarrow> staleRouteBlock" where
  "staleRouteFromRegion sha region =
     \<lparr>sr_present = True, sr_hash = ManagedRegionHash sha region,
      sr_webhook = contains_str ''# TEPLOY WEBHOOK BEGIN'' region\<rparr>"

definition resolveStaleRoute ::
  "(string \<Rightarrow> string) \<Rightarrow> string \<Rightarrow> proxy world \<Rightarrow> staleRouteBlock \<times> proxy world" where
  "resolveStaleRoute sha app w =
     (case ReadManagedBlock app w of
        (Inr (Some r), w1) \<Rightarrow> (staleRouteFromRegion sha r, w1)
      | (_, w1) \<Rightarrow> (no_stale_route, w1))"

definition retireStaleRoute ::
  "edit_env \<Rightarrow> CaddyClient \<Rightarrow> string \<Rightarrow> staleRouteBlock \<Rightarrow> nat \<Rightarrow> app_guard option \<Rightarrow> proxy world
     \<Rightarrow> (caddy_failure, unit) result \<times> proxy world" where
  "retireStaleRoute env c app block generation guard w =
     (if \<not> sr_present block then (Inr (), w)
      else
        (let (r, c', w1) =
           RemoveRoute env (WithRouteCAS (WithCommitGuard c guard) app [sr_hash block] generation) app w
         in (r, w1)))"

end
