(* ===== verification/Recovery.thy ===== *)
theory Recovery
  imports Prelude
begin

text \<open>
  The crash-recovery state table of \<open>internal/deploy/recovery/recovery.go\<close>: the lifecycle of a
  deploy attempt, the tri-state evidence a recovery owner observes on the target, the decision
  function \<open>Decide\<close> over (recorded state, observation), and the forward transition table
  \<open>Lattice\<close> with its canonical crash dispositions.  The prose fields \<open>Evidence\<close> and \<open>Note\<close> of a
  \<open>Transition\<close> document the table for its readers and are not carried.
\<close>

section \<open>Lifecycle states\<close>

datatype lifecycle =
    Admitted | Prepared | CandidatesRunning | ReadinessPassed | TrafficSwitched
  | AuthoritativeStateCommitted | PredecessorRetired | TerminalReceiptPersisted

definition AllStates :: "lifecycle list" where
  "AllStates = [Admitted, Prepared, CandidatesRunning, ReadinessPassed, TrafficSwitched,
     AuthoritativeStateCommitted, PredecessorRetired, TerminalReceiptPersisted]"

text \<open>The Go constants are consecutive \<open>uint8\<close> values (\<open>iota\<close>), compared with \<open>>=\<close>.\<close>

primrec lifecycle_iota :: "lifecycle \<Rightarrow> nat" where
  "lifecycle_iota Admitted = 0"
| "lifecycle_iota Prepared = 1"
| "lifecycle_iota CandidatesRunning = 2"
| "lifecycle_iota ReadinessPassed = 3"
| "lifecycle_iota TrafficSwitched = 4"
| "lifecycle_iota AuthoritativeStateCommitted = 5"
| "lifecycle_iota PredecessorRetired = 6"
| "lifecycle_iota TerminalReceiptPersisted = 7"

lemma lifecycle_iota_inj: "lifecycle_iota s = lifecycle_iota t \<Longrightarrow> s = t"
  by (cases s; cases t) simp_all

instantiation lifecycle :: linorder
begin

definition less_eq_lifecycle :: "lifecycle \<Rightarrow> lifecycle \<Rightarrow> bool" where
  "less_eq_lifecycle s t \<longleftrightarrow> lifecycle_iota s \<le> lifecycle_iota t"

definition less_lifecycle :: "lifecycle \<Rightarrow> lifecycle \<Rightarrow> bool" where
  "less_lifecycle s t \<longleftrightarrow> lifecycle_iota s < lifecycle_iota t"

instance
  by standard (auto simp: less_eq_lifecycle_def less_lifecycle_def intro: lifecycle_iota_inj)

end

primrec lifecycle_String :: "lifecycle \<Rightarrow> string" where
  "lifecycle_String Admitted = ''admitted''"
| "lifecycle_String Prepared = ''prepared''"
| "lifecycle_String CandidatesRunning = ''candidates-running''"
| "lifecycle_String ReadinessPassed = ''readiness-passed''"
| "lifecycle_String TrafficSwitched = ''traffic-switched''"
| "lifecycle_String AuthoritativeStateCommitted = ''authoritative-state-committed''"
| "lifecycle_String PredecessorRetired = ''predecessor-retired''"
| "lifecycle_String TerminalReceiptPersisted = ''terminal-receipt-persisted''"

section \<open>Dispositions, evidence, observations\<close>

datatype disposition = Retry | Inspect | Compensate | Manual

primrec disposition_String :: "disposition \<Rightarrow> string" where
  "disposition_String Retry = ''RETRY''"
| "disposition_String Inspect = ''INSPECT''"
| "disposition_String Compensate = ''COMPENSATE''"
| "disposition_String Manual = ''MANUAL''"

text \<open>The zero value of the Go type is \<open>Absent\<close>.\<close>

datatype evidence = Absent | Present | Unknown

primrec evidence_String :: "evidence \<Rightarrow> string" where
  "evidence_String Absent = ''absent''"
| "evidence_String Present = ''present''"
| "evidence_String Unknown = ''unknown''"

record observation =
  Candidates :: evidence
  CandidateCorpses :: evidence
  ForeignCandidates :: evidence
  RouteToCandidate :: evidence
  RouteToPredecessor :: evidence
  StateToCandidate :: evidence
  StateToPredecessor :: evidence
  PredecessorServing :: evidence
  PredecessorStopped :: evidence
  ReleaseRecord :: evidence

text \<open>The zero observation \<open>var o recovery.Observation\<close>.\<close>

definition zero_observation :: observation where
  "zero_observation = \<lparr>Candidates = Absent, CandidateCorpses = Absent, ForeignCandidates = Absent,
     RouteToCandidate = Absent, RouteToPredecessor = Absent, StateToCandidate = Absent,
     StateToPredecessor = Absent, PredecessorServing = Absent, PredecessorStopped = Absent,
     ReleaseRecord = Absent\<rparr>"

section \<open>The decision\<close>

definition authority_dispatch :: "observation \<Rightarrow> disposition" where
  "authority_dispatch ob =
     (if StateToCandidate ob = Present then
        (if RouteToPredecessor ob = Present then Inspect else Retry)
      else if StateToPredecessor ob = Present then
        (if RouteToCandidate ob = Present then Compensate
         else if Candidates ob = Present then Inspect
         else if PredecessorStopped ob = Present then Compensate
         else Retry)
      else (if Candidates ob = Present then Inspect else Retry))"

definition Decide :: "lifecycle \<Rightarrow> observation \<Rightarrow> disposition" where
  "Decide st ob =
     (if StateToCandidate ob = Present \<and> StateToPredecessor ob = Present then Manual
      else if PredecessorServing ob = Present \<and> PredecessorStopped ob = Present then Manual
      else if ForeignCandidates ob = Present then Manual
      else if StateToCandidate ob = Unknown \<or> StateToPredecessor ob = Unknown then Manual
      else if RouteToCandidate ob = Present \<and> StateToCandidate ob = Absent
           \<and> PredecessorServing ob = Absent \<and> PredecessorStopped ob = Absent then Manual
      else if Candidates ob = Unknown \<or> CandidateCorpses ob = Unknown
           \<or> ForeignCandidates ob = Unknown \<or> RouteToCandidate ob = Unknown
           \<or> RouteToPredecessor ob = Unknown \<or> PredecessorServing ob = Unknown
           \<or> PredecessorStopped ob = Unknown then Inspect
      else if RouteToCandidate ob = Present \<and> RouteToPredecessor ob = Present then Inspect
      else if (AuthoritativeStateCommitted \<le> st) \<noteq> (StateToCandidate ob = Present) then Inspect
      else authority_dispatch ob)"

section \<open>The transition table\<close>

record transition =
  tr_From :: lifecycle
  tr_To :: lifecycle
  CrashDisposition :: disposition

definition Lattice :: "transition list" where
  "Lattice =
    [\<lparr>tr_From = Admitted, tr_To = Prepared, CrashDisposition = Retry\<rparr>,
     \<lparr>tr_From = Prepared, tr_To = CandidatesRunning, CrashDisposition = Inspect\<rparr>,
     \<lparr>tr_From = CandidatesRunning, tr_To = ReadinessPassed, CrashDisposition = Inspect\<rparr>,
     \<lparr>tr_From = ReadinessPassed, tr_To = TrafficSwitched, CrashDisposition = Compensate\<rparr>,
     \<lparr>tr_From = TrafficSwitched, tr_To = AuthoritativeStateCommitted, CrashDisposition = Compensate\<rparr>,
     \<lparr>tr_From = AuthoritativeStateCommitted, tr_To = PredecessorRetired, CrashDisposition = Retry\<rparr>,
     \<lparr>tr_From = PredecessorRetired, tr_To = TerminalReceiptPersisted, CrashDisposition = Retry\<rparr>]"

text \<open>
  The canonical partial state of each window, as the code's own tests describe them: the
  attempt's effects of the transition may have begun, its receipt does not exist yet.
\<close>

definition predecessor_world :: observation where
  "predecessor_world = zero_observation\<lparr>RouteToPredecessor := Present, StateToPredecessor := Present,
     PredecessorServing := Present\<rparr>"

definition committed_world :: observation where
  "committed_world = zero_observation\<lparr>Candidates := Present, RouteToCandidate := Present,
     StateToCandidate := Present, PredecessorServing := Present\<rparr>"

fun window_world :: "lifecycle \<Rightarrow> observation" where
  "window_world CandidatesRunning = predecessor_world\<lparr>Candidates := Present\<rparr>"
| "window_world ReadinessPassed = predecessor_world\<lparr>Candidates := Present\<rparr>"
| "window_world TrafficSwitched =
     predecessor_world\<lparr>Candidates := Present, RouteToCandidate := Present, RouteToPredecessor := Absent\<rparr>"
| "window_world AuthoritativeStateCommitted =
     predecessor_world\<lparr>Candidates := Present, RouteToCandidate := Present, RouteToPredecessor := Absent\<rparr>"
| "window_world PredecessorRetired = committed_world"
| "window_world TerminalReceiptPersisted =
     committed_world\<lparr>PredecessorServing := Absent\<rparr>"
| "window_world _ = predecessor_world"

section \<open>Facts about the decision\<close>

lemma evidence_not_Unknown: "e \<noteq> Unknown \<longleftrightarrow> e = Absent \<or> e = Present"
  by (cases e) auto

lemma evidence_not_Absent: "e \<noteq> Absent \<longleftrightarrow> e = Present \<or> e = Unknown"
  by (cases e) auto

lemmas Decide_unfold = Decide_def authority_dispatch_def

text \<open>The classes the decision reads (the release record never selects a disposition).\<close>

definition readable :: "observation \<Rightarrow> bool" where
  "readable ob \<longleftrightarrow> Candidates ob \<noteq> Unknown \<and> CandidateCorpses ob \<noteq> Unknown
     \<and> ForeignCandidates ob \<noteq> Unknown \<and> RouteToCandidate ob \<noteq> Unknown
     \<and> RouteToPredecessor ob \<noteq> Unknown \<and> StateToCandidate ob \<noteq> Unknown
     \<and> StateToPredecessor ob \<noteq> Unknown \<and> PredecessorServing ob \<noteq> Unknown
     \<and> PredecessorStopped ob \<noteq> Unknown"

text \<open>Traffic sits on a generation that no readable authority names.\<close>

definition uncommitted_traffic :: "observation \<Rightarrow> bool" where
  "uncommitted_traffic ob \<longleftrightarrow> RouteToCandidate ob = Present \<and> StateToCandidate ob \<noteq> Present"

lemma Decide_acts_only_on_readable:
  "Decide st ob = Retry \<or> Decide st ob = Compensate \<Longrightarrow> readable ob \<and> ForeignCandidates ob = Absent"
  by (auto simp: Decide_unfold readable_def evidence_not_Unknown split: if_splits)

lemma Decide_Retry_agrees:
  "Decide st ob = Retry \<Longrightarrow>
     (AuthoritativeStateCommitted \<le> st) = (StateToCandidate ob = Present)"
  by (auto simp: Decide_unfold split: if_splits)

lemma Decide_Retry_uncommitted_no_candidate:
  "Decide st ob = Retry \<Longrightarrow> StateToCandidate ob \<noteq> Present \<Longrightarrow> Candidates ob = Absent"
  using Decide_acts_only_on_readable [of st ob]
  by (auto simp: Decide_unfold readable_def evidence_not_Unknown split: if_splits)

lemma Decide_ReleaseRecord [simp]: "Decide st (ob\<lparr>ReleaseRecord := e\<rparr>) = Decide st ob"
  by (simp add: Decide_unfold)

text \<open>
  RETRY is exactly the quiescent verdict.  Automation may redo a deploy if and only if
  every evidence class is readable, nothing unattributable runs, the two authority classes and
  the two predecessor classes do not contradict each other, the recorded state and the observed
  authority agree on whether the commit happened, and either the release is committed and the
  edge has left the predecessor, or it is not committed, no candidate runs, and with a
  predecessor recorded neither the edge has moved nor the predecessor is stopped.
\<close>

theorem Decide_Retry_iff:
  "Decide st ob = Retry \<longleftrightarrow>
     readable ob \<and> ForeignCandidates ob = Absent
     \<and> \<not> (StateToCandidate ob = Present \<and> StateToPredecessor ob = Present)
     \<and> \<not> (PredecessorServing ob = Present \<and> PredecessorStopped ob = Present)
     \<and> (AuthoritativeStateCommitted \<le> st) = (StateToCandidate ob = Present)
     \<and> (if StateToCandidate ob = Present then RouteToPredecessor ob = Absent
        else Candidates ob = Absent
          \<and> \<not> (RouteToCandidate ob = Present \<and> RouteToPredecessor ob = Present)
          \<and> \<not> (RouteToCandidate ob = Present \<and> PredecessorServing ob = Absent
                 \<and> PredecessorStopped ob = Absent)
          \<and> (StateToPredecessor ob = Present \<longrightarrow>
               RouteToCandidate ob = Absent \<and> PredecessorStopped ob = Absent))"
  by (auto simp: Decide_unfold readable_def evidence_not_Unknown split: if_splits)

theorem Decide_Retry_iff_witness:
  "Decide Prepared predecessor_world = Retry \<and> readable predecessor_world
   \<and> StateToPredecessor predecessor_world = Present \<and> PredecessorStopped predecessor_world = Absent"
proof -
  have "Decide Prepared predecessor_world = Retry"
    by (simp add: Decide_unfold predecessor_world_def zero_observation_def less_eq_lifecycle_def)
  with Decide_Retry_iff [of Prepared predecessor_world] show ?thesis
    by (simp add: predecessor_world_def zero_observation_def)
qed

text \<open>
  COMPENSATE is only ever chosen when there is something to compensate to: all evidence is
  readable, the attempted release is not the authority, and the predecessor is proven to be
  running or to be stopped and restorable.
\<close>

theorem Decide_Compensate_restorable:
  assumes "Decide st ob = Compensate"
  shows "readable ob \<and> StateToCandidate ob = Absent \<and> StateToPredecessor ob = Present
    \<and> st < AuthoritativeStateCommitted
    \<and> (PredecessorServing ob = Present \<or> PredecessorStopped ob = Present)"
  using assms
  by (auto simp: Decide_unfold readable_def evidence_not_Unknown not_le split: if_splits)

theorem Decide_Compensate_restorable_witness:
  "Decide ReadinessPassed (window_world TrafficSwitched) = Compensate
   \<and> PredecessorServing (window_world TrafficSwitched) = Present"
proof -
  have h: "Decide ReadinessPassed (window_world TrafficSwitched) = Compensate"
    by (simp add: Decide_unfold predecessor_world_def zero_observation_def less_eq_lifecycle_def)
  with Decide_Compensate_restorable [OF h] show ?thesis
    by (simp add: predecessor_world_def zero_observation_def)
qed

text \<open>
  The transition table and the decision function agree: the table is a chain through all
  lifecycle states in commit order, and for each of its transitions the decision on the
  canonical partial state of that window, taken from the transition's source state, is the
  disposition the table records.
\<close>

theorem Lattice_agrees_with_Decide:
  "map tr_From Lattice @ [TerminalReceiptPersisted] = AllStates
   \<and> Admitted # map tr_To Lattice = AllStates
   \<and> sorted_wrt (<) AllStates
   \<and> (\<forall>tr \<in> set Lattice. Decide (tr_From tr) (window_world (tr_To tr)) = CrashDisposition tr)"
  by (simp add: Lattice_def AllStates_def less_lifecycle_def less_eq_lifecycle_def Decide_unfold
      predecessor_world_def committed_world_def zero_observation_def)

theorem Lattice_agrees_with_Decide_witness:
  "Lattice ! 3 \<in> set Lattice
   \<and> Decide (tr_From (Lattice ! 3)) (window_world (tr_To (Lattice ! 3))) = Compensate"
  using Lattice_agrees_with_Decide by (simp add: Lattice_def)

end
