(* ===== verification/Reconcile.thy ===== *)
theory Reconcile
  imports Recovery StateStore Releases
begin

text \<open>
  What a deploy does after its lock acquisition broke a dead holder's lock
  (\<open>internal/deploy/reconcile.go\<close>), the receipts a deploy attempt leaves for its recovery owner
  (\<open>internal/deploy/journal.go\<close>), and the marker of a release record that failed to persist
  (\<open>internal/deploy/repairdebt.go\<close>).  The reads of the target are given by what they return; the
  decision over them is \<open>Decide\<close> of theory \<open>Recovery\<close>.
\<close>

section \<open>Observing the target\<close>

text \<open>
  One round of reads: the app's containers, its state, the shared Caddyfile, and the file of each
  version's release record.
\<close>

record readings =
  rd_Containers :: "(exec_error, Container list) result"
  rd_State :: "(state_error, AppState option) result"
  rd_Caddyfile :: "(state_error, string option) result"
  rd_Record :: "string \<Rightarrow> (exec_error, release_doc option) result"

definition read_record :: "string \<Rightarrow> readings \<Rightarrow> string \<Rightarrow> (release_error, release_record option) result" where
  "read_record app rd version = ReadRelease app version (rd_Record rd version)"

text \<open>The two attributions of a container; without a version label the name decides.\<close>

definition is_candidate :: "string \<Rightarrow> string \<Rightarrow> Container \<Rightarrow> bool" where
  "is_candidate app attempted c =
     (let name = app @ ''-web-'' @ attempted
      in if version_of c = [] then ct_Name c = name \<or> prefix (name @ ''-'') (ct_Name c)
         else version_of c = attempted \<and> label c ''teploy.process'' = ''web'')"

definition is_predecessor :: "string \<Rightarrow> string \<Rightarrow> Container \<Rightarrow> bool" where
  "is_predecessor app predecessor c =
     (let name = app @ ''-web-'' @ predecessor
      in predecessor \<noteq> []
         \<and> (if version_of c = []
            then ct_Name c = name \<or> ct_Name c = name @ ''_replaced'' \<or> prefix (name @ ''-'') (ct_Name c)
            else version_of c = predecessor \<and> label c ''teploy.process'' = ''web''))"

definition managed_accessory :: "Container \<Rightarrow> bool" where
  "managed_accessory c \<longleftrightarrow> is_accessory c \<and> label c ''teploy.accessory'' \<noteq> []"

text \<open>A worker process of one of the two releases, and whether its record names it.\<close>

definition is_worker :: "string \<Rightarrow> string \<Rightarrow> Container \<Rightarrow> bool" where
  "is_worker attempted predecessor c \<longleftrightarrow>
     label c ''teploy.process'' \<noteq> [] \<and> label c ''teploy.process'' \<noteq> ''web''
     \<and> (version_of c = attempted \<or> version_of c = predecessor)"

definition recorded_worker :: "string \<Rightarrow> readings \<Rightarrow> Container \<Rightarrow> bool" where
  "recorded_worker app rd c \<longleftrightarrow>
     (case read_record app rd (version_of c) of
        Inr (Some r) \<Rightarrow> map_of (rr_Processes r) (label c ''teploy.process'') \<noteq> None
      | _ \<Rightarrow> False)"

definition observe_container :: "string \<Rightarrow> string \<Rightarrow> string \<Rightarrow> readings \<Rightarrow> Container \<Rightarrow> observation \<Rightarrow> observation" where
  "observe_container app attempted predecessor rd c ob =
     (if managed_accessory c then ob
      else if is_worker attempted predecessor c then
        (if \<not> recorded_worker app rd c \<and> running c then ob\<lparr>ForeignCandidates := Present\<rparr> else ob)
      else if is_candidate app attempted c then
        (if running c then ob\<lparr>Candidates := Present\<rparr> else ob\<lparr>CandidateCorpses := Present\<rparr>)
      else if is_predecessor app predecessor c then
        (if suffix ''_replaced'' (ct_Name c) \<or> running c then ob\<lparr>PredecessorServing := Present\<rparr>
         else ob\<lparr>PredecessorStopped := Present\<rparr>)
      else if running c then ob\<lparr>ForeignCandidates := Present\<rparr>
      else ob)"

definition observe_containers :: "string \<Rightarrow> string \<Rightarrow> string \<Rightarrow> readings \<Rightarrow> observation \<Rightarrow> observation" where
  "observe_containers app attempted predecessor rd ob =
     (case rd_Containers rd of
        Inl _ \<Rightarrow> ob\<lparr>Candidates := Unknown, CandidateCorpses := Unknown, ForeignCandidates := Unknown\<rparr>
      | Inr cs \<Rightarrow> fold (observe_container app attempted predecessor rd) cs ob)"

definition observe_state :: "string \<Rightarrow> readings \<Rightarrow> observation \<Rightarrow> observation" where
  "observe_state attempted rd ob =
     (case rd_State rd of
        Inl _ \<Rightarrow> ob\<lparr>StateToCandidate := Unknown, StateToPredecessor := Unknown\<rparr>
      | Inr None \<Rightarrow> ob\<lparr>StateToCandidate := Absent, StateToPredecessor := Absent\<rparr>
      | Inr (Some s) \<Rightarrow>
          if CurrentHash s = attempted then ob\<lparr>StateToCandidate := Present\<rparr>
          else ob\<lparr>StateToPredecessor := Present\<rparr>)"

definition upstream_name :: "string \<Rightarrow> string \<Rightarrow> string" where
  "upstream_name app version = app @ ''-web-'' @ version"

definition block_opening :: "string \<Rightarrow> string" where
  "block_opening app = ''# TEPLOY BEGIN '' @ app @ [newline]"

definition observe_route :: "string \<Rightarrow> string \<Rightarrow> string \<Rightarrow> readings \<Rightarrow> observation \<Rightarrow> observation" where
  "observe_route app attempted predecessor rd ob =
     (case rd_Caddyfile rd of
        Inl _ \<Rightarrow> ob\<lparr>RouteToCandidate := Unknown, RouteToPredecessor := Unknown\<rparr>
      | Inr None \<Rightarrow> ob\<lparr>RouteToCandidate := Absent, RouteToPredecessor := Absent\<rparr>
      | Inr (Some content) \<Rightarrow>
          (let toCandidate = contains_str (upstream_name app attempted) content;
               toPredecessor = (predecessor \<noteq> [] \<and> contains_str (upstream_name app predecessor) content)
           in if toCandidate then
                (let ob = ob\<lparr>RouteToCandidate := Present\<rparr>
                 in if toPredecessor then ob\<lparr>RouteToPredecessor := Present\<rparr> else ob)
              else if toPredecessor then ob\<lparr>RouteToPredecessor := Present\<rparr>
              else if contains_str (block_opening app) content then
                ob\<lparr>RouteToCandidate := Unknown, RouteToPredecessor := Unknown\<rparr>
              else ob\<lparr>RouteToCandidate := Absent, RouteToPredecessor := Absent\<rparr>))"

definition observe_record :: "string \<Rightarrow> string \<Rightarrow> readings \<Rightarrow> observation \<Rightarrow> observation" where
  "observe_record app attempted rd ob =
     ob\<lparr>ReleaseRecord := (case read_record app rd attempted of
          Inl _ \<Rightarrow> Unknown | Inr (Some _) \<Rightarrow> Present | Inr None \<Rightarrow> Absent)\<rparr>"

definition Observe :: "string \<Rightarrow> string \<Rightarrow> string \<Rightarrow> readings \<Rightarrow> observation" where
  "Observe app attempted predecessor rd =
     observe_record app attempted rd
       (observe_route app attempted predecessor rd
         (observe_state attempted rd
           (observe_containers app attempted predecessor rd zero_observation)))"

section \<open>The takeover\<close>

definition evidence_lines :: "observation \<Rightarrow> (string \<times> evidence) list" where
  "evidence_lines ob =
     [(''running workload under this deploy'' @ [CHR 0x27] @ ''s candidate names'', Candidates ob),
      (''stopped corpses under this deploy'' @ [CHR 0x27] @ ''s candidate names'', CandidateCorpses ob),
      (''running unattributable teploy-labeled workload (foreign names)'', ForeignCandidates ob),
      (''route (Caddyfile) naming this deploy'' @ [CHR 0x27] @ ''s candidates'', RouteToCandidate ob),
      (''route (Caddyfile) naming the predecessor generation'', RouteToPredecessor ob),
      (''state.json naming this deploy'' @ [CHR 0x27] @ ''s release'', StateToCandidate ob),
      (''state.json naming the predecessor release'', StateToPredecessor ob),
      (''predecessor workload serving'', PredecessorServing ob),
      (''predecessor workload stopped (restorable)'', PredecessorStopped ob),
      (''release record for this deploy'' @ [CHR 0x27] @ ''s version'', ReleaseRecord ob)]"

definition describeEvidence :: "observation \<Rightarrow> string" where
  "describeEvidence ob =
     (let out = map (\<lambda>(n, e). ''  '' @ n @ '': '' @ evidence_String e)
            (filter (\<lambda>(_, e). e \<noteq> Absent) (evidence_lines ob))
      in if out = [] then ''  (no leftover effects observed)'' else unlines out)"

text \<open>Proceed, or refuse with the disposition and the evidence the message names.\<close>

datatype takeover = Proceed | Refuse disposition string

text \<open>\<open>reads\<close> and \<open>again\<close> are the reads of the first observation and of the one after the delay.\<close>

definition ReconcileAfterTakeover ::
  "string \<Rightarrow> string \<Rightarrow> AppState option \<Rightarrow> readings \<Rightarrow> readings \<Rightarrow> takeover" where
  "ReconcileAfterTakeover app version current reads again =
     (let predecessor = (case current of None \<Rightarrow> [] | Some s \<Rightarrow> CurrentHash s);
          o1 = Observe app version predecessor reads;
          ob = (if Decide Admitted o1 = Inspect then Observe app version predecessor again else o1);
          disp = Decide Admitted ob
      in if disp = Retry then Proceed else Refuse disp (describeEvidence ob))"

section \<open>What the observation says\<close>

text \<open>How a container that is no managed accessory is attributed, in the order of the code.\<close>

definition unattributed :: "string \<Rightarrow> string \<Rightarrow> string \<Rightarrow> readings \<Rightarrow> Container \<Rightarrow> bool" where
  "unattributed app attempted predecessor rd c \<longleftrightarrow>
     \<not> managed_accessory c
     \<and> (if is_worker attempted predecessor c then \<not> recorded_worker app rd c
        else \<not> is_candidate app attempted c \<and> \<not> is_predecessor app predecessor c)"

definition web_candidate :: "string \<Rightarrow> string \<Rightarrow> string \<Rightarrow> Container \<Rightarrow> bool" where
  "web_candidate app attempted predecessor c \<longleftrightarrow>
     \<not> managed_accessory c \<and> \<not> is_worker attempted predecessor c \<and> is_candidate app attempted c"

lemma fold_observe:
  "ForeignCandidates (fold (observe_container app att pre rd) cs ob) = Absent \<longleftrightarrow>
     ForeignCandidates ob = Absent \<and> (\<forall>c \<in> set cs. running c \<longrightarrow> \<not> unattributed app att pre rd c)"
  "Candidates (fold (observe_container app att pre rd) cs ob) = Absent \<longleftrightarrow>
     Candidates ob = Absent \<and> (\<forall>c \<in> set cs. running c \<longrightarrow> \<not> web_candidate app att pre c)"
  by (induction cs arbitrary: ob)
    (auto simp: observe_container_def unattributed_def web_candidate_def Let_def split: if_splits)

lemma observe_container_keeps [simp]:
  "StateToCandidate (fold (observe_container app att pre rd) cs ob) = StateToCandidate ob"
  "StateToPredecessor (fold (observe_container app att pre rd) cs ob) = StateToPredecessor ob"
  "RouteToCandidate (fold (observe_container app att pre rd) cs ob) = RouteToCandidate ob"
  "RouteToPredecessor (fold (observe_container app att pre rd) cs ob) = RouteToPredecessor ob"
  by (induction cs arbitrary: ob) (auto simp: observe_container_def Let_def)

lemma evidence_Present_or_Absent: "e \<noteq> Unknown \<Longrightarrow> e \<noteq> Present \<Longrightarrow> e = Absent"
  by (cases e) auto

lemmas observe_defs = Observe_def observe_record_def observe_route_def observe_state_def
  observe_containers_def zero_observation_def Let_def

text \<open>
  The world in which a takeover may go on: every class of evidence was read; every running
  container is a managed accessory, a worker the release's record names, or the web workload of
  the predecessor; the state does not name the attempted release; the Caddyfile, when the app has
  a state, does not mention its candidates, and it mentions the predecessor's containers or has no
  managed block for the app.
\<close>

definition clean_world :: "string \<Rightarrow> string \<Rightarrow> string \<Rightarrow> readings \<Rightarrow> bool" where
  "clean_world app attempted predecessor rd \<longleftrightarrow>
     (\<exists>cs. rd_Containers rd = Inr cs
        \<and> (\<forall>c \<in> set cs. running c \<longrightarrow>
             \<not> unattributed app attempted predecessor rd c \<and> \<not> web_candidate app attempted predecessor c))
     \<and> (\<exists>st. rd_State rd = Inr st \<and> (\<forall>s. st = Some s \<longrightarrow> CurrentHash s \<noteq> attempted))
     \<and> (\<exists>file. rd_Caddyfile rd = Inr file
          \<and> (\<forall>content. file = Some content \<longrightarrow>
               (rd_State rd \<noteq> Inr None \<longrightarrow> \<not> contains_str (upstream_name app attempted) content)
               \<and> (contains_str (block_opening app) content \<longrightarrow>
                    contains_str (upstream_name app attempted) content
                    \<or> (predecessor \<noteq> [] \<and> contains_str (upstream_name app predecessor) content))))"

lemma Observe_fields:
  "Candidates (Observe app att pre rd) = Candidates (observe_containers app att pre rd zero_observation)"
  "ForeignCandidates (Observe app att pre rd) = ForeignCandidates (observe_containers app att pre rd zero_observation)"
  "StateToCandidate (Observe app att pre rd) = StateToCandidate (observe_state att rd zero_observation)"
  "StateToPredecessor (Observe app att pre rd) = StateToPredecessor (observe_state att rd zero_observation)"
  "RouteToCandidate (Observe app att pre rd) = RouteToCandidate (observe_route app att pre rd zero_observation)"
  "RouteToPredecessor (Observe app att pre rd) = RouteToPredecessor (observe_route app att pre rd zero_observation)"
  by (auto simp: observe_defs split: sum.splits option.splits)

lemma retry_fields:
  assumes "Decide Admitted ob = Retry"
  shows "Candidates ob = Absent" "ForeignCandidates ob = Absent" "StateToCandidate ob = Absent"
    and "StateToPredecessor ob \<noteq> Unknown" "RouteToCandidate ob \<noteq> Unknown" "RouteToPredecessor ob \<noteq> Unknown"
    and "StateToPredecessor ob = Present \<Longrightarrow> RouteToCandidate ob = Absent"
  using assms
  by (auto simp: Decide_unfold less_eq_lifecycle_def evidence_not_Unknown split: if_splits)

lemma retry_clean:
  assumes "Decide Admitted (Observe app att pre rd) = Retry"
  shows "clean_world app att pre rd"
proof -
  note f = retry_fields [OF assms, unfolded Observe_fields]
  have "\<exists>cs. rd_Containers rd = Inr cs
      \<and> (\<forall>c \<in> set cs. running c \<longrightarrow> \<not> unattributed app att pre rd c \<and> \<not> web_candidate app att pre c)"
    using f(1,2) fold_observe [of app att pre rd]
    by (auto simp: observe_containers_def zero_observation_def split: sum.splits)
  moreover have "\<exists>st. rd_State rd = Inr st \<and> (\<forall>s. st = Some s \<longrightarrow> CurrentHash s \<noteq> att)"
    using f(3) by (auto simp: observe_state_def zero_observation_def split: sum.splits option.splits if_splits)
  moreover have "rd_State rd \<noteq> Inr None \<Longrightarrow> StateToPredecessor (observe_state att rd zero_observation) = Present"
    using f(3) by (auto simp: observe_state_def zero_observation_def split: sum.splits option.splits if_splits)
  then have "rd_State rd \<noteq> Inr None \<Longrightarrow> RouteToCandidate (observe_route app att pre rd zero_observation) = Absent"
    using f(7) by blast
  then have "\<exists>file. rd_Caddyfile rd = Inr file
          \<and> (\<forall>content. file = Some content \<longrightarrow>
               (rd_State rd \<noteq> Inr None \<longrightarrow> \<not> contains_str (upstream_name app att) content)
               \<and> (contains_str (block_opening app) content \<longrightarrow>
                    contains_str (upstream_name app att) content
                    \<or> (pre \<noteq> [] \<and> contains_str (upstream_name app pre) content)))"
    using f(5) by (auto simp: observe_route_def zero_observation_def Let_def split: sum.splits option.splits if_splits)
  ultimately show ?thesis
    by (simp add: clean_world_def)
qed

text \<open>
  C29. A deploy that broke a dead holder's lock goes on only in a clean world: if it proceeds, then
  in the reads it decided on every running container of the app is attributed (an accessory, a
  recorded worker, the predecessor's web workload), none is a candidate of the attempted release,
  the state was readable and does not name the attempted release, and the Caddyfile was readable
  and, for an app with a state, does not mention the attempted release; so an attempt at the very
  release the state names never proceeds.
\<close>

theorem takeover_proceeds_only_clean:
  assumes "ReconcileAfterTakeover app version current reads again = Proceed"
    and "predecessor = (case current of None \<Rightarrow> [] | Some s \<Rightarrow> CurrentHash s)"
  shows "(clean_world app version predecessor reads
      \<or> Decide Admitted (Observe app version predecessor reads) = Inspect
         \<and> clean_world app version predecessor again)
    \<and> \<not> (\<exists>s t. rd_State reads = Inr (Some s) \<and> rd_State again = Inr (Some t)
           \<and> CurrentHash s = version \<and> CurrentHash t = version)"
proof -
  from assms have "Decide Admitted (Observe app version predecessor reads) = Retry
      \<or> (Decide Admitted (Observe app version predecessor reads) = Inspect
         \<and> Decide Admitted (Observe app version predecessor again) = Retry)"
    by (auto simp: ReconcileAfterTakeover_def Let_def split: if_splits)
  then have clean: "clean_world app version predecessor reads
      \<or> Decide Admitted (Observe app version predecessor reads) = Inspect
         \<and> clean_world app version predecessor again"
    using retry_clean by blast
  then show ?thesis
    by (auto simp: clean_world_def)
qed

definition demo_readings :: "string \<Rightarrow> string \<Rightarrow> readings" where
  "demo_readings version caddyfile =
     \<lparr>rd_Containers = Inr [demo_container ''a'' version ''7''],
      rd_State = Inr (Some (zero_state\<lparr>CurrentHash := version\<rparr>)),
      rd_Caddyfile = Inr (Some caddyfile), rd_Record = (\<lambda>_. Inr None)\<rparr>"

definition demo_block :: "string \<Rightarrow> string \<Rightarrow> string" where
  "demo_block app version =
     ''# TEPLOY BEGIN '' @ app @ [newline] @ ''reverse_proxy '' @ app @ ''-web-'' @ version @ '':80'' @ [newline]
     @ ''# TEPLOY END '' @ app @ [newline]"

theorem takeover_proceeds_only_clean_witness:
  "clean_world ''shop'' ''v2'' ''v1'' (demo_readings ''v1'' (demo_block ''shop'' ''v1''))"
proof -
  let ?r = "demo_readings ''v1'' (demo_block ''shop'' ''v1'')"
  let ?s = "zero_state\<lparr>CurrentHash := ''v1''\<rparr>"
  have "ReconcileAfterTakeover ''shop'' ''v2'' (Some ?s) ?r ?r = Proceed"
    by code_simp
  moreover have "''v1'' = (case Some ?s of None \<Rightarrow> [] | Some s \<Rightarrow> CurrentHash s)"
    by (simp add: zero_state_def)
  ultimately show ?thesis
    using takeover_proceeds_only_clean by blast
qed

text \<open>
  The route evidence is a substring search over the shared Caddyfile, not a reading of the
  app's managed block.  With a managed block that names a third release, which alone is refused
  as conflicting evidence, another app's route can supply the predecessor's name, and the takeover
  proceeds; and a predecessor whose name extends the attempted release's is taken for the attempted
  release itself, so a clean world is refused.
\<close>

theorem route_evidence_reads_other_apps:
  "ReconcileAfterTakeover ''shop'' ''v2'' (Some (zero_state\<lparr>CurrentHash := ''v1''\<rparr>))
       (demo_readings ''v1'' (demo_block ''shop'' ''v3'')) (demo_readings ''v1'' (demo_block ''shop'' ''v3''))
     \<noteq> Proceed
   \<and> ReconcileAfterTakeover ''shop'' ''v2'' (Some (zero_state\<lparr>CurrentHash := ''v1''\<rparr>))
       (demo_readings ''v1'' (demo_block ''shop'' ''v3'' @ demo_block ''my-shop'' ''v1''))
       (demo_readings ''v1'' (demo_block ''shop'' ''v3'' @ demo_block ''my-shop'' ''v1'')) = Proceed
   \<and> ReconcileAfterTakeover ''shop'' ''v1'' (Some (zero_state\<lparr>CurrentHash := ''v10''\<rparr>))
       (demo_readings ''v10'' (demo_block ''shop'' ''v10'')) (demo_readings ''v10'' (demo_block ''shop'' ''v10''))
     \<noteq> Proceed"
  by (intro conjI) code_simp+

section \<open>Receipts of an attempt\<close>

definition journalSchemaVersion :: int where
  "journalSchemaVersion = 1"

record predecessorContainer =
  pc_ID :: string
  pc_Name :: string
  pc_Image :: string
  pc_State :: string
  pc_Labels :: labels

record predecessorSnapshot =
  ps_SchemaVersion :: int
  ps_App :: string
  ps_Release :: string
  ps_Attempt :: string
  ps_SameVersion :: bool
  ps_Containers :: "predecessorContainer list"
  ps_WrittenAt :: int

definition predecessorSnapshotPath :: "Attempt \<Rightarrow> string" where
  "predecessorSnapshotPath att = Attempt_Dir att @ ''/predecessors.json''"

definition readinessReceiptPath :: "Attempt \<Rightarrow> string" where
  "readinessReceiptPath att = Attempt_Dir att @ ''/readiness.json''"

text \<open>What \<open>persistPredecessorSnapshot\<close> uploads, and where.\<close>

definition persistPredecessorSnapshot ::
  "Attempt \<Rightarrow> string \<Rightarrow> bool \<Rightarrow> Container list \<Rightarrow> int \<Rightarrow> string \<times> predecessorSnapshot" where
  "persistPredecessorSnapshot att release sameVersion cs now =
     (predecessorSnapshotPath att,
      \<lparr>ps_SchemaVersion = journalSchemaVersion, ps_App = at_App att, ps_Release = release,
       ps_Attempt = Attempt_Name att, ps_SameVersion = sameVersion,
       ps_Containers = map (\<lambda>c. \<lparr>pc_ID = ct_ID c, pc_Name = ct_Name c, pc_Image = ct_Image c,
           pc_State = ct_State c, pc_Labels = ct_Labels c\<rparr>) cs,
       ps_WrittenAt = now\<rparr>)"

record receiptCandidate =
  rc_Name :: string
  rc_ID :: string

record readinessProbe =
  rp_Container :: string
  rp_Host :: string
  rp_Port :: int
  rp_Path :: string
  rp_Mode :: string

record readinessReceipt =
  re_SchemaVersion :: int
  re_App :: string
  re_Release :: string
  re_Attempt :: string
  re_Containers :: "receiptCandidate list"
  re_Probes :: "readinessProbe list"
  re_Outcome :: string
  re_ProbedAt :: int

definition persistReadinessReceipt ::
  "Attempt \<Rightarrow> string \<Rightarrow> receiptCandidate list \<Rightarrow> readinessProbe list \<Rightarrow> int \<Rightarrow> string \<times> readinessReceipt" where
  "persistReadinessReceipt att release candidates probes now =
     (readinessReceiptPath att,
      \<lparr>re_SchemaVersion = journalSchemaVersion, re_App = at_App att, re_Release = release,
       re_Attempt = Attempt_Name att, re_Containers = candidates, re_Probes = probes,
       re_Outcome = ''passed'', re_ProbedAt = now\<rparr>)"

text \<open>Reading a receipt: its file is absent, no valid document, or its parsed value.\<close>

datatype 'a doc = DocJunk | Doc 'a

datatype receipt_error = ReceiptUnreadable exec_error | ReceiptUnparsable | ReceiptSchema int | ReceiptIdentity

definition readPredecessorSnapshot ::
  "Attempt \<Rightarrow> (exec_error, predecessorSnapshot doc option) result \<Rightarrow> (receipt_error, predecessorSnapshot option) result" where
  "readPredecessorSnapshot att file =
     (case file of
        Inl e \<Rightarrow> Inl (ReceiptUnreadable e)
      | Inr None \<Rightarrow> Inr None
      | Inr (Some DocJunk) \<Rightarrow> Inl ReceiptUnparsable
      | Inr (Some (Doc s)) \<Rightarrow>
          if ps_SchemaVersion s \<noteq> journalSchemaVersion then Inl (ReceiptSchema (ps_SchemaVersion s))
          else if ps_App s \<noteq> at_App att \<or> ps_Attempt s \<noteq> Attempt_Name att then Inl ReceiptIdentity
          else Inr (Some s))"

definition readReadinessReceipt ::
  "Attempt \<Rightarrow> (exec_error, readinessReceipt doc option) result \<Rightarrow> (receipt_error, readinessReceipt option) result" where
  "readReadinessReceipt att file =
     (case file of
        Inl e \<Rightarrow> Inl (ReceiptUnreadable e)
      | Inr None \<Rightarrow> Inr None
      | Inr (Some DocJunk) \<Rightarrow> Inl ReceiptUnparsable
      | Inr (Some (Doc r)) \<Rightarrow>
          if re_SchemaVersion r \<noteq> journalSchemaVersion then Inl (ReceiptSchema (re_SchemaVersion r))
          else if re_App r \<noteq> at_App att \<or> re_Attempt r \<noteq> Attempt_Name att then Inl ReceiptIdentity
          else Inr (Some r))"

text \<open>\<open>inspect\<close> is what \<open>docker inspect\<close> prints for a name, or that the command failed.\<close>

definition displacedFromSnapshot ::
  "Attempt \<Rightarrow> (exec_error, predecessorSnapshot doc option) result \<Rightarrow> (string \<Rightarrow> string option) \<Rightarrow> string list" where
  "displacedFromSnapshot att file inspect =
     (case readPredecessorSnapshot att file of
        Inr (Some s) \<Rightarrow>
          map pc_Name
            (filter (\<lambda>c. map_of (pc_Labels c) ''teploy.process'' = Some ''web''
               \<and> (case inspect (pc_Name c) of
                    None \<Rightarrow> False
                  | Some out \<Rightarrow> trim_space out \<noteq> [] \<and> trim_space out \<noteq> ''running''))
              (ps_Containers s))
      | _ \<Rightarrow> [])"

definition attemptReadinessState :: "readinessReceipt option \<Rightarrow> lifecycle" where
  "attemptReadinessState receipt = (case receipt of Some _ \<Rightarrow> ReadinessPassed | None \<Rightarrow> CandidatesRunning)"

definition running_candidate :: "string \<Rightarrow> string \<Rightarrow> Container \<Rightarrow> bool" where
  "running_candidate app release c \<longleftrightarrow> running c \<and> prefix (app @ ''-web-'' @ release) (ct_Name c)"

definition candidateAttribution ::
  "readinessReceipt option \<Rightarrow> Container list \<Rightarrow> string \<Rightarrow> string \<Rightarrow> evidence" where
  "candidateAttribution receipt cs app release =
     (if \<not> list_ex (running_candidate app release) cs then Absent
      else
        (case receipt of
           None \<Rightarrow> Unknown
         | Some r \<Rightarrow>
             (let ids = filter (\<lambda>i. i \<noteq> []) (map rc_ID (re_Containers r)); names = map rc_Name (re_Containers r)
              in if list_ex (\<lambda>c. running_candidate app release c
                      \<and> (ct_ID c \<in> set ids \<or> (ct_ID c = [] \<and> ct_Name c \<in> set names))) cs
                 then Present else Unknown)))"

lemma Attempt_Name_inj:
  assumes "NewAttempt app h r = Some a" and "NewAttempt app' h' r' = Some b"
    and "attempt_id r" and "attempt_id r'" and "at_App a = at_App b" and "Attempt_Name a = Attempt_Name b"
  shows "a = b"
proof -
  have "(h, r) = (h', r')"
    using parse_attempt_Name [OF assms(1,3)] parse_attempt_Name [OF assms(2,4)] assms(6) by simp
  with assms(1,2,5) show ?thesis
    by (auto simp: NewAttempt_def split: if_splits)
qed

text \<open>
  Receipts bind to one attempt: of two attempts made by \<open>NewAttempt\<close>, a receipt one of them
  persisted is accepted by the other exactly when they are the same attempt, and then reads back as
  written; and a live container is attributed to an attempt only when its receipt is there and
  names that very container, by ID, or by name when the listing shows no ID.
\<close>

theorem receipts_bind_attempt:
  assumes "NewAttempt app h r = Some a" and "NewAttempt app' h' r' = Some b"
    and "attempt_id r" and "attempt_id r'"
  shows "readPredecessorSnapshot b (Inr (Some (Doc (snd (persistPredecessorSnapshot a release same cs now)))))
      = (if a = b then Inr (Some (snd (persistPredecessorSnapshot a release same cs now))) else Inl ReceiptIdentity)
    \<and> readReadinessReceipt b (Inr (Some (Doc (snd (persistReadinessReceipt a release cands probes now)))))
      = (if a = b then Inr (Some (snd (persistReadinessReceipt a release cands probes now))) else Inl ReceiptIdentity)
    \<and> (candidateAttribution receipt listing app release = Present \<longrightarrow>
         (\<exists>rec. receipt = Some rec
           \<and> (\<exists>c \<in> set listing. running c
                \<and> (\<exists>k \<in> set (re_Containers rec).
                     (rc_ID k \<noteq> [] \<and> rc_ID k = ct_ID c) \<or> (ct_ID c = [] \<and> rc_Name k = ct_Name c)))))"
proof -
  have same: "at_App a = at_App b \<and> Attempt_Name a = Attempt_Name b \<longleftrightarrow> a = b"
    using Attempt_Name_inj [OF assms] by blast
  have "candidateAttribution receipt listing app release = Present \<Longrightarrow>
         (\<exists>rec. receipt = Some rec
           \<and> (\<exists>c \<in> set listing. running c
                \<and> (\<exists>k \<in> set (re_Containers rec).
                     (rc_ID k \<noteq> [] \<and> rc_ID k = ct_ID c) \<or> (ct_ID c = [] \<and> rc_Name k = ct_Name c))))"
    by (auto simp: candidateAttribution_def Let_def list_ex_iff running_candidate_def
        split: option.splits if_splits) force+
  with same show ?thesis
    by (auto simp: readPredecessorSnapshot_def persistPredecessorSnapshot_def
        readReadinessReceipt_def persistReadinessReceipt_def journalSchemaVersion_def)
qed

theorem receipts_bind_attempt_witness:
  "readPredecessorSnapshot \<lparr>at_App = ''shop'', at_Hash = ''v1'', at_ID = ''00000000000000ab''\<rparr>
      (Inr (Some (Doc (snd (persistPredecessorSnapshot
        \<lparr>at_App = ''shop'', at_Hash = ''v1'', at_ID = ''00000000000000aa''\<rparr> ''v0'' False [] 0)))))
    = Inl ReceiptIdentity"
proof -
  let ?a = "\<lparr>at_App = ''shop'', at_Hash = ''v1'', at_ID = ''00000000000000aa''\<rparr>"
  let ?b = "\<lparr>at_App = ''shop'', at_Hash = ''v1'', at_ID = ''00000000000000ab''\<rparr>"
  have "NewAttempt ''shop'' ''v1'' ''00000000000000aa'' = Some ?a"
    "NewAttempt ''shop'' ''v1'' ''00000000000000ab'' = Some ?b"
    "attempt_id ''00000000000000aa''" "attempt_id ''00000000000000ab''" by code_simp+
  from receipts_bind_attempt [OF this] show ?thesis by simp
qed

section \<open>Repair debt\<close>

definition repairDebtSchemaVersion :: int where
  "repairDebtSchemaVersion = 1"

record RepairDebt =
  rb_SchemaVersion :: int
  rb_App :: string
  rb_Release :: string
  rb_Attempt :: string
  rb_Reason :: string
  rb_Attempts :: int
  rb_FirstFailedAt :: int
  rb_LastFailedAt :: int

definition repairDebtPath :: "string \<Rightarrow> string option" where
  "repairDebtPath app =
     (if ValidateName app then Some (''/deployments/'' @ app @ ''/repair-debt.json'') else None)"

datatype debt_error =
  DebtBadName | DebtUnreadable exec_error | DebtUnparsable | DebtSchema int | DebtIdentity

text \<open>The marker file: absent, no valid document, or its value.\<close>

type_synonym debt_file = "RepairDebt doc option"

definition ReadRepairDebt ::
  "string \<Rightarrow> (exec_error, debt_file) result \<Rightarrow> (debt_error, RepairDebt option) result" where
  "ReadRepairDebt app file =
     (if repairDebtPath app = None then Inl DebtBadName
      else
        (case file of
           Inl e \<Rightarrow> Inl (DebtUnreadable e)
         | Inr None \<Rightarrow> Inr None
         | Inr (Some DocJunk) \<Rightarrow> Inl DebtUnparsable
         | Inr (Some (Doc d)) \<Rightarrow>
             if rb_SchemaVersion d \<noteq> repairDebtSchemaVersion then Inl (DebtSchema (rb_SchemaVersion d))
             else if rb_App d \<noteq> app then Inl DebtIdentity
             else Inr (Some d)))"

text \<open>
  The connection during one operation on the marker: whether the read succeeds, and whether the
  write or the removal lands and is acknowledged.  A lost write may have landed.
\<close>

record debt_link =
  dl_read :: bool
  dl_lands :: bool
  dl_acked :: bool

definition read_link :: "debt_link \<Rightarrow> debt_file \<Rightarrow> (exec_error, debt_file) result" where
  "read_link l f = (if dl_read l then Inr f else Inl Transport)"

text \<open>\<open>writeRepairDebt\<close> and \<open>clearRepairDebt\<close>: the acknowledgement and the file afterwards.\<close>

definition writeRepairDebt :: "debt_link \<Rightarrow> RepairDebt \<Rightarrow> debt_file \<Rightarrow> bool \<times> debt_file" where
  "writeRepairDebt l d f =
     (if repairDebtPath (rb_App d) = None then (False, f)
      else (dl_lands l \<and> dl_acked l, if dl_lands l then Some (Doc d) else f))"

definition clearRepairDebt :: "debt_link \<Rightarrow> string \<Rightarrow> debt_file \<Rightarrow> bool \<times> debt_file" where
  "clearRepairDebt l app f =
     (if repairDebtPath app = None then (False, f)
      else (dl_lands l \<and> dl_acked l, if dl_lands l then None else f))"

definition recordRepairDebt :: "debt_link \<Rightarrow> Attempt \<Rightarrow> string \<Rightarrow> int \<Rightarrow> debt_file \<Rightarrow> debt_file" where
  "recordRepairDebt l att writeErr now f =
     (let debt = \<lparr>rb_SchemaVersion = repairDebtSchemaVersion, rb_App = at_App att, rb_Release = at_Hash att,
            rb_Attempt = Attempt_Name att, rb_Reason = writeErr, rb_Attempts = 1,
            rb_FirstFailedAt = now, rb_LastFailedAt = now\<rparr>;
          debt = (case ReadRepairDebt (at_App att) (read_link l f) of
                    Inr (Some prev) \<Rightarrow>
                      if rb_Release prev = at_Hash att
                      then debt\<lparr>rb_Attempts := rb_Attempts prev + 1, rb_FirstFailedAt := rb_FirstFailedAt prev\<rparr>
                      else debt
                  | _ \<Rightarrow> debt)
      in snd (writeRepairDebt l debt f))"

text \<open>
  \<open>repairOutstandingRecordDebt\<close>: \<open>rec\<close> is the reading of the record the debt names, \<open>backfill\<close>
  whether a state, a listing and \<open>releasemeta.Backfill\<close> rebuild it.
\<close>

definition repairOutstandingRecordDebt ::
  "debt_link \<Rightarrow> string \<Rightarrow> (string \<Rightarrow> (release_error, release_record option) result) \<Rightarrow> (string \<Rightarrow> bool) \<Rightarrow> int
     \<Rightarrow> debt_file \<Rightarrow> debt_file" where
  "repairOutstandingRecordDebt l app rec backfill now f =
     (case ReadRepairDebt app (read_link l f) of
        Inl _ \<Rightarrow> f
      | Inr None \<Rightarrow> f
      | Inr (Some debt) \<Rightarrow>
          if (case rec (rb_Release debt) of Inr (Some _) \<Rightarrow> True | _ \<Rightarrow> False) then snd (clearRepairDebt l app f)
          else if backfill (rb_Release debt) then snd (clearRepairDebt l app f)
          else snd (writeRepairDebt l (debt\<lparr>rb_Attempts := rb_Attempts debt + 1, rb_LastFailedAt := now\<rparr>) f))"



end
