(* ===== verification/DeployFlow.thy ===== *)
theory DeployFlow
  imports Workload Publish Commit CaddyCommit Reconcile
begin

text \<open>
  The deploy itself (\<open>internal/deploy/deploy.go\<close>): the execution validator, the flow under the
  lock with every step's guard and failure path, the compensation of a failed deploy, the abort of
  a failed commit with the restoration of the previous route, and the record of the release.  The
  steps are those of the component theories, composed in the order of the code.

  The target is a record of four worlds, one for each part of the server a command of the deploy
  reads or writes: the containers, the app's directory, the shared proxy, and the files of attempts
  and releases.  Each has its own script: what other clients do to a part before the next command
  on that part.  Commands that only print (container logs, the diagnosis, the history of events)
  are not carried; what happens while they run is part of what others do before the next command.
\<close>

section \<open>The target\<close>

record LogEntry =
  le_Type :: string
  le_Hash :: string
  le_Image :: string
  le_Success :: bool
  le_Degraded :: bool

text \<open>
  The files the deploy keeps beside the state: the receipts of attempts by path, the release
  records by path, the repair-debt marker, the notice of the default prune, the directories of
  attempts, their plaintext environment files, and the deploy log.
\<close>

record app_files =
  af_snapshots :: "string \<Rightarrow> predecessorSnapshot doc option"
  af_receipts :: "string \<Rightarrow> readinessReceipt doc option"
  af_records :: "string \<Rightarrow> release_doc option"
  af_debt :: debt_file
  af_notice :: "stamp option"
  af_attempts :: "string list"
  af_env_files :: "string list"
  af_log :: "LogEntry list"

record target =
  tg_docker :: "docker_host world"
  tg_app :: "app_dir world"
  tg_proxy :: "proxy world"
  tg_files :: "app_files world"

definition on_docker :: "(docker_host world \<Rightarrow> 'r \<times> docker_host world) \<Rightarrow> target \<Rightarrow> 'r \<times> target" where
  "on_docker f t = (let (r, w) = f (tg_docker t) in (r, t\<lparr>tg_docker := w\<rparr>))"

definition on_app :: "(app_dir world \<Rightarrow> 'r \<times> app_dir world) \<Rightarrow> target \<Rightarrow> 'r \<times> target" where
  "on_app f t = (let (r, w) = f (tg_app t) in (r, t\<lparr>tg_app := w\<rparr>))"

definition on_proxy :: "(proxy world \<Rightarrow> 'r \<times> proxy world) \<Rightarrow> target \<Rightarrow> 'r \<times> target" where
  "on_proxy f t = (let (r, w) = f (tg_proxy t) in (r, t\<lparr>tg_proxy := w\<rparr>))"

definition on_files :: "(app_files world \<Rightarrow> 'r \<times> app_files world) \<Rightarrow> target \<Rightarrow> 'r \<times> target" where
  "on_files f t = (let (r, w) = f (tg_files t) in (r, t\<lparr>tg_files := w\<rparr>))"

text \<open>Sequencing of steps that may fail.\<close>

type_synonym ('e, 'a) step = "target \<Rightarrow> ('e, 'a) result \<times> target"

definition seq :: "('e, 'a) step \<Rightarrow> ('a \<Rightarrow> ('e, 'b) step) \<Rightarrow> ('e, 'b) step" where
  "seq f g t = (case f t of (Inl e, t1) \<Rightarrow> (Inl e, t1) | (Inr x, t1) \<Rightarrow> g x t1)"

definition yield :: "'a \<Rightarrow> ('e, 'a) step" where
  "yield x t = (Inr x, t)"

definition abort :: "'e \<Rightarrow> ('e, 'a) step" where
  "abort e t = (Inl e, t)"

text \<open>A step whose answer is ignored, and one whose error is mapped.\<close>

definition quietly :: "(target \<Rightarrow> 'r \<times> target) \<Rightarrow> ('e, unit) step" where
  "quietly f t = (Inr (), snd (f t))"

definition failing :: "('x \<Rightarrow> 'e) \<Rightarrow> (target \<Rightarrow> ('x, 'a) result \<times> target) \<Rightarrow> ('e, 'a) step" where
  "failing f s t = (let (r, t1) = s t in (case r of Inl x \<Rightarrow> Inl (f x) | Inr a \<Rightarrow> Inr a, t1))"

section \<open>Configuration\<close>

record VolumeOwnership =
  vo_UID :: "nat option"
  vo_GID :: "nat option"
  vo_Mode :: string

record Provenance =
  pv_App :: string
  pv_Release :: string
  pv_ImageDigest :: string

text \<open>Go maps are association lists with distinct keys.\<close>

record Config =
  cf_App :: string
  cf_Domain :: string
  cf_Image :: string
  cf_Version :: string
  cf_EnvFiles :: "string list"
  cf_EnvProvenance :: str_map
  cf_Env :: str_map
  cf_Volumes :: str_map
  cf_VolumeOwnership :: "(string \<times> VolumeOwnership) list"
  cf_Cmd :: string
  cf_Processes :: str_map
  cf_NoHealthcheck :: "string list"
  cf_KeepVersions :: "int option"
  cf_Ingress :: string
  cf_Bind :: string
  cf_Runtime :: string
  cf_SecurityOpt :: "string list"
  cf_Memory :: string
  cf_CPU :: string
  cf_ContainerPort :: int
  cf_Publish :: "string list"
  cf_StopTimeout :: int
  cf_DrainSeconds :: int
  cf_Replicas :: int
  cf_Health :: HealthConfig
  cf_PreDeploy :: string
  cf_PostDeploy :: string
  cf_AssetPath :: string
  cf_TLS :: TLS
  cf_CaddyExtra :: string
  cf_Cache :: str_map
  cf_Firewall :: Firewall
  cf_Access :: Access
  cf_ManifestSHA256 :: string
  cf_AppliedManifest :: string
  cf_SourceRevision :: string
  cf_ConfigCommit :: string
  cf_TriggerOperationKey :: string
  cf_ExecutionBindingDigest :: string
  cf_Provenance :: "Provenance option"

definition usesCaddy :: "Config \<Rightarrow> bool" where
  "usesCaddy c \<longleftrightarrow> cf_Ingress c = [] \<or> cf_Ingress c = ''caddy''"

definition ingressHost :: "Config \<Rightarrow> bool" where
  "ingressHost c \<longleftrightarrow> cf_Ingress c = ''host''"

definition containerPort :: "Config \<Rightarrow> int" where
  "containerPort c = (if cf_ContainerPort c = 0 then 80 else cf_ContainerPort c)"

text \<open>\<open>^[A-Za-z0-9_][A-Za-z0-9._-]{0,127}$\<close> and \<open>^[A-Za-z0-9][A-Za-z0-9_.-]{0,62}$\<close>\<close>

definition validVersion :: "string \<Rightarrow> bool" where
  "validVersion v \<longleftrightarrow>
     (case v of [] \<Rightarrow> False
      | c # cs \<Rightarrow> (letter c \<or> is_digit c \<or> c = CHR ''_'')
          \<and> list_all (\<lambda>c. letter c \<or> is_digit c \<or> c \<in> set ''._-'') cs \<and> length cs \<le> 127)"

definition validProcessName :: "string \<Rightarrow> bool" where
  "validProcessName p \<longleftrightarrow>
     (case p of [] \<Rightarrow> False
      | c # cs \<Rightarrow> (letter c \<or> is_digit c)
          \<and> list_all (\<lambda>c. letter c \<or> is_digit c \<or> c \<in> set ''_.-'') cs \<and> length cs \<le> 62)"

text \<open>A four-digit octal mode that does not let everybody write, and two explicit IDs.\<close>

definition octal_digit :: "char \<Rightarrow> bool" where
  "octal_digit c \<longleftrightarrow> CHR ''0'' \<le> c \<and> c \<le> CHR ''7''"

definition VolumeOwnership_Validate :: "VolumeOwnership \<Rightarrow> bool" where
  "VolumeOwnership_Validate v \<longleftrightarrow>
     (case (vo_UID v, vo_GID v) of
        (Some u, Some g) \<Rightarrow> u \<noteq> 2 ^ 32 - 1 \<and> g \<noteq> 2 ^ 32 - 1
      | _ \<Rightarrow> False)
     \<and> (case vo_Mode v of
          [z, a, b, c] \<Rightarrow> z = CHR ''0'' \<and> list_all octal_digit [a, b, c]
            \<and> digit_value c div 2 mod 2 = 0
        | _ \<Rightarrow> False)"

datatype config_error =
    BadApp | NoImage | BadVersion | BadProcess | BadIngress | NoDomain | BadContainerPort
  | BadReplicas | FixedPortReplicas | BadPublish | PublishTakesIngressPort | BadStopTimeout
  | BadDrain | BadHealthMode | BadVolumeOwnership | ProvenanceMismatch

definition managed_volume :: "string \<Rightarrow> string \<Rightarrow> string" where
  "managed_volume app name = ''/deployments/'' @ app @ ''/volumes/'' @ name"

definition ownership_ok :: "Config \<Rightarrow> bool" where
  "ownership_ok c \<longleftrightarrow>
     list_all (\<lambda>(name, p). ValidateName name \<and> VolumeOwnership_Validate p
        \<and> map_of (cf_Volumes c) (managed_volume (cf_App c) name) \<noteq> None) (cf_VolumeOwnership c)"

text \<open>\<open>Config.validate\<close>: the first check that fails.\<close>

definition validate :: "Config \<Rightarrow> config_error option" where
  "validate c =
     (if \<not> ValidateName (cf_App c) then Some BadApp
      else if cf_Image c = [] then Some NoImage
      else if \<not> validVersion (cf_Version c) then Some BadVersion
      else if \<not> list_all (\<lambda>(p, _). validProcessName p) (cf_Processes c) then Some BadProcess
      else if cf_Ingress c \<notin> {[], ''caddy'', ''external'', ''host''} then Some BadIngress
      else if cf_Domain c = [] \<and> \<not> ingressHost c then Some NoDomain
      else if cf_ContainerPort c < 0 \<or> cf_ContainerPort c > 65535 then Some BadContainerPort
      else if cf_Replicas c < 0 \<or> cf_Replicas c > 1000 then Some BadReplicas
      else if (ingressHost c \<or> cf_Publish c \<noteq> []) \<and> cf_Replicas c > 1 then Some FixedPortReplicas
      else if \<not> ValidatePublishEntries (cf_Publish c) then Some BadPublish
      else if ingressHost c
        \<and> list_ex (\<lambda>p. case ParsePublishSpec p of
              Some s \<Rightarrow> sp_HostPort s \<noteq> 0 \<and> sp_HostPort s = containerPort c | None \<Rightarrow> False) (cf_Publish c)
        then Some PublishTakesIngressPort
      else if cf_StopTimeout c < 0 then Some BadStopTimeout
      else if cf_DrainSeconds c < 0 \<or> cf_DrainSeconds c > 600 then Some BadDrain
      else if hc_Mode (cf_Health c) \<notin> {[], HealthModeHTTP, HealthModeTCP, HealthModeAuto} then Some BadHealthMode
      else if \<not> ownership_ok c then Some BadVolumeOwnership
      else if (case cf_Provenance c of
                 None \<Rightarrow> False | Some p \<Rightarrow> pv_App p \<noteq> cf_App c \<or> pv_Release p \<noteq> cf_Version c)
        then Some ProvenanceMismatch
      else None)"

section \<open>What the code does not decide\<close>

text \<open>
  The answers of programs on the server and the values drawn while the deploy runs.  \<open>de_range\<close>
  is the order in which Go ranges over the map of candidate names; \<open>de_edit i\<close> are the choices of
  the \<open>i\<close>-th edit of the Caddyfile (switch, restore, removal of a stale route).
\<close>

record deploy_env =
  de_docker :: docker_env
  de_lib :: go_lib
  de_edit :: "nat \<Rightarrow> edit_env"
  de_app_lock :: string
  de_now :: int
  de_opid :: string
  de_tmp :: string
  de_tmp2 :: string
  de_gate :: "string \<times> string \<times> string"
  de_attempt :: string
  de_resolve :: "string \<Rightarrow> docker_host \<Rightarrow> string option"
  de_ss :: "nat \<Rightarrow> (exec_error, string) result"
  de_volume :: "string \<Rightarrow> docker_host \<Rightarrow> bool"
  de_tree :: bool
  de_copies :: bool
  de_range :: "string list \<Rightarrow> string list"
  de_probe :: "nat \<Rightarrow> nat \<Rightarrow> attempt"
  de_hook :: "string \<Rightarrow> Container \<Rightarrow> bool"
  de_json :: state_reader
  de_digest :: "Container \<Rightarrow> string option"
  de_ports :: "Container \<Rightarrow> string"
  de_recreate :: "Container \<Rightarrow> (string list \<times> str_map) option"
  de_image_env :: "str_map option"
  de_host_env :: str_map
  de_debt_link :: debt_link
  de_backfill :: "string \<Rightarrow> bool"
  de_list_root :: "string \<Rightarrow> string option"
  de_rm_fails :: "string \<Rightarrow> bool"

datatype deploy_error =
    InvalidConfig config_error
  | HomeGate state_error
  | FolderDeployRefused string
  | MovedToFolder
  | ConfigChanged string
  | StateUnreadable state_error
  | VolumeRefused string exec_error
  | RouteUnreadable exec_error
  | TakeoverRefused disposition string
  | NoPort nat "exec_error option"
  | AssetsFailed
  | LockLost
  | ReplacedRunning string
  | RenameFailed string
  | StopCurrentFailed string "string list"
  | StartFailed string run_error
  | NotRunning string
  | PreDeployFailed
  | Unhealthy nat
  | WorkerNotViable string
  | RouteFailed caddy_failure

text \<open>What a failed deploy says about its own cleanup.\<close>

datatype cleanup_gap =
  StopRefused string | StopGap string | RemoveGap string | RestoreRefused string | RestoreGap string

datatype recovery_report =
  Recovered | Incomplete "cleanup_gap list" | NothingServes "cleanup_gap list"

datatype abort_report =
    OriginalNotRestored | OriginalRouteNotRestored | FirstWorkloadRemoved | OriginalRestored
  | PreviousRouteNotRestored | NewRouteRemoved | PreviousRouteRestored

datatype deploy_failure =
    Refused deploy_error
  | Failed deploy_error recovery_report
  | Unresolved state_error
  | Aborted state_error abort_report

section \<open>The steps before the first effect\<close>

definition processes_of :: "Config \<Rightarrow> str_map" where
  "processes_of c = (if cf_Processes c = [] then [(''web'', cf_Cmd c)] else cf_Processes c)"

definition sortedProcessNames :: "str_map \<Rightarrow> string list" where
  "sortedProcessNames ps = ''web'' # sort (filter (\<lambda>p. p \<noteq> ''web'') (map fst ps))"

definition replicas_of :: "Config \<Rightarrow> nat" where
  "replicas_of c = (if cf_Replicas c \<le> 0 then 1 else nat (cf_Replicas c))"

definition web_bind_host :: "Config \<Rightarrow> string" where
  "web_bind_host c = (if ingressHost c \<and> cf_Bind c = [] then ''0.0.0.0'' else cf_Bind c)"

definition recreateWeb :: "Config \<Rightarrow> bool" where
  "recreateWeb c \<longleftrightarrow> ingressHost c \<or> cf_Publish c \<noteq> []"

definition GuardPrefix :: "Lock option \<Rightarrow> string option" where
  "GuardPrefix lk = map_option lk_owner lk"

text \<open>The guard as the proxy's server evaluates it: the owner in the app's lock file.\<close>

definition proxy_guard :: "deploy_env \<Rightarrow> Lock option \<Rightarrow> app_guard option" where
  "proxy_guard env lk = map_option (\<lambda>l. (lk_owner l, de_app_lock env)) lk"

definition sha256_id :: "string \<Rightarrow> bool" where
  "sha256_id s \<longleftrightarrow> prefix ''sha256:'' s \<and> length s = 71"

definition IsImageID :: "string \<Rightarrow> bool" where
  "IsImageID ref =
     (let h = trim_prefix ''sha256:'' ref
      in (length h = 12 \<or> length h = 64)
         \<and> list_all (\<lambda>c. is_digit c \<or> (CHR ''a'' \<le> c \<and> c \<le> CHR ''f'')) h)"

text \<open>The digest of a pinned reference, or of a full image ID.\<close>

definition ImageDigestFromRef :: "string \<Rightarrow> string" where
  "ImageDigestFromRef img =
     (if sha256_id img \<and> IsImageID img then img
      else
        (let repo = takeWhile (\<lambda>c. c \<noteq> CHR ''@'') img; rest = dropWhile (\<lambda>c. c \<noteq> CHR ''@'') img
         in if rest \<noteq> [] \<and> repo \<noteq> [] \<and> sha256_id (tl rest) \<and> IsImageID (tl rest) then tl rest else []))"

definition ResolveImageID :: "deploy_env \<Rightarrow> string \<Rightarrow> docker_host world \<Rightarrow> string option \<times> docker_host world" where
  "ResolveImageID env ref w =
     (case run_read (de_resolve env ref) w of
        (Inr (Some out), w1) \<Rightarrow> ((if sha256_id (trim_space out) then Some (trim_space out) else None), w1)
      | (_, w1) \<Rightarrow> (None, w1))"

definition plannedImageDigest :: "string \<Rightarrow> string \<Rightarrow> Provenance option \<Rightarrow> string" where
  "plannedImageDigest ref resolvedID prov =
     (let promised = (case prov of Some p \<Rightarrow> pv_ImageDigest p | None \<Rightarrow> [])
      in if promised \<noteq> [] then promised
         else if ImageDigestFromRef ref \<noteq> [] then ImageDigestFromRef ref
         else if resolvedID \<noteq> [] \<and> resolvedID \<noteq> ref then resolvedID else [])"

text \<open>The deploy's match against the app's config home.\<close>

definition admitConfigHome :: "deploy_env \<Rightarrow> Config \<Rightarrow> Lock option \<Rightarrow> (deploy_error, unit) step" where
  "admitConfigHome env cfg lk =
     seq (failing HomeGate (on_app (CheckGate (de_lib env) (cf_App cfg) (de_now env) (fst (de_gate env))
            (fst (snd (de_gate env))) (snd (snd (de_gate env))) lk)))
       (\<lambda>gate. if gs_Server gate \<and> cf_ConfigCommit cfg = [] then abort (FolderDeployRefused (gs_Head gate))
               else if \<not> gs_Server gate \<and> cf_ConfigCommit cfg \<noteq> [] then abort MovedToFolder
               else if gs_Server gate \<and> gs_Head gate \<noteq> cf_ConfigCommit cfg then abort (ConfigChanged (gs_Head gate))
               else yield ())"

fun provision_volumes ::
  "deploy_env \<Rightarrow> string option \<Rightarrow> string list \<Rightarrow> (deploy_error, unit) step" where
  "provision_volumes env guard [] = yield ()"
| "provision_volumes env guard (n # ns) =
     seq (failing (VolumeRefused n)
           (on_docker (run_cmd (with_prefix guard (\<lambda>d. if de_volume env n d then Inr [] else Inl 1)))))
       (\<lambda>_. provision_volumes env guard ns)"

text \<open>
  What the route switch is compared with: the hash of the region read now.  A release that does not
  use the proxy notes the block an earlier one may have left.
\<close>

definition resolve_route ::
  "deploy_env \<Rightarrow> Config \<Rightarrow> (deploy_error, string \<times> staleRouteBlock) step" where
  "resolve_route env cfg =
     (if usesCaddy cfg then
        seq (failing RouteUnreadable (on_proxy (ReadManagedBlock (cf_App cfg))))
          (\<lambda>region. yield (ManagedRegionHash (en_sha (de_edit env 0)) (case region of None \<Rightarrow> [] | Some r \<Rightarrow> r),
                           no_stale_route))
      else
        (\<lambda>t. (let (block, t1) = on_proxy (resolveStaleRoute (en_sha (de_edit env 2)) (cf_App cfg)) t
              in (Inr ([], block), t1))))"

text \<open>The record of a release, as the files have it.\<close>

definition record_file :: "string \<Rightarrow> string \<Rightarrow> app_files \<Rightarrow> release_doc option" where
  "record_file app hash f = (case Path app hash of None \<Rightarrow> None | Some p \<Rightarrow> af_records f p)"

definition repair_debt :: "deploy_env \<Rightarrow> Config \<Rightarrow> (deploy_error, unit) step" where
  "repair_debt env cfg =
     quietly (on_files (run_cmd (\<lambda>f. Inr [\<lambda>g. g\<lparr>af_debt :=
       repairOutstandingRecordDebt (de_debt_link env) (cf_App cfg)
         (\<lambda>h. ReadRelease (cf_App cfg) h (Inr (record_file (cf_App cfg) h f)))
         (de_backfill env) (de_now env) (af_debt f)\<rparr>])))"

text \<open>One observation of the target: containers, state, Caddyfile and the attempted release's record.\<close>

definition observe_target :: "deploy_env \<Rightarrow> Config \<Rightarrow> target \<Rightarrow> readings \<times> target" where
  "observe_target env cfg t =
     (let (cs, t1) = on_docker (ListContainers (cf_App cfg)) t;
          (st, t2) = on_app (ReadState (de_lib env)) t1;
          (file, t3) = on_proxy (run_read (map_option (trim_right is_space) \<circ> px_file)) t2;
          (rec, t4) = on_files (run_read (record_file (cf_App cfg) (cf_Version cfg))) t3
      in (\<lparr>rd_Containers = cs, rd_State = st,
            rd_Caddyfile = map_sum StateStore.ReadFailed id file, rd_Record = (\<lambda>_. rec)\<rparr>, t4))"

definition reconcile_takeover ::
  "deploy_env \<Rightarrow> Config \<Rightarrow> Lock option \<Rightarrow> AppState option \<Rightarrow> (deploy_error, unit) step" where
  "reconcile_takeover env cfg lk current t =
     (if \<not> (case lk of None \<Rightarrow> False | Some l \<Rightarrow> lk_tookOver l) then (Inr (), t)
      else
        (let predecessor = (case current of None \<Rightarrow> [] | Some s \<Rightarrow> CurrentHash s);
             (first, t1) = observe_target env cfg t;
             (again, t2) = (if Decide Admitted (Observe (cf_App cfg) (cf_Version cfg) predecessor first) = Inspect
                            then observe_target env cfg t1 else (first, t1))
         in (case ReconcileAfterTakeover (cf_App cfg) (cf_Version cfg) current first again of
               Proceed \<Rightarrow> (Inr (), t2)
             | Refuse disp evidence \<Rightarrow> (Inl (TakeoverRefused disp evidence), t2))))"

section \<open>Ports, assets and names\<close>

fun allocate_ports :: "deploy_env \<Rightarrow> nat \<Rightarrow> nat \<Rightarrow> int list \<Rightarrow> (deploy_error, int list) result" where
  "allocate_ports env i 0 claimed = Inr claimed"
| "allocate_ports env i (Suc n) claimed =
     (case FindAvailablePortExcluding claimed (de_ss env i) of
        Inl e \<Rightarrow> Inl (NoPort (Suc i) e)
      | Inr p \<Rightarrow> allocate_ports env (Suc i) n (claimed @ [p]))"

definition web_ports :: "deploy_env \<Rightarrow> Config \<Rightarrow> (deploy_error, int list) step" where
  "web_ports env cfg t =
     (if ingressHost cfg then (Inr [containerPort cfg], t)
      else (allocate_ports env 0 (replicas_of cfg) [], t))"

text \<open>
  The one-shot extraction container: its corpse is removed, it is created and copied from, and
  removed again; the exit status is that of the copy.
\<close>

definition extract_assets :: "deploy_env \<Rightarrow> string \<Rightarrow> string \<Rightarrow> (docker_host, run_error, unit) job" where
  "extract_assets env name img d =
     (let d1 = remove_effect name d
      in if dk_refuses (de_docker env) (OpRun name) d1 then ([remove_effect name], Inl RunRefused)
         else ([remove_effect name, create_effect (new_container (de_docker env) name img [] d1), remove_effect name],
               if de_copies env then Inr () else Inl RunRefused))"

text \<open>The attempt's private tree, seeded from the previous attempt's; then its volume.\<close>

definition bridge_assets :: "deploy_env \<Rightarrow> Config \<Rightarrow> Attempt \<Rightarrow> string \<Rightarrow> (deploy_error, str_map) step" where
  "bridge_assets env cfg att runImage =
     (if cf_AssetPath cfg = [] then yield (cf_Volumes cfg)
      else
        seq (failing (\<lambda>_. AssetsFailed) (on_files (run_cmd (\<lambda>f. if de_tree env then Inr [] else Inl 1)))) (\<lambda>_.
        seq (failing (\<lambda>_. AssetsFailed)
              (on_docker (run_job (extract_assets env (''teploy-assets-'' @ at_ID att) runImage)))) (\<lambda>_.
        yield (put (Attempt_Dir att @ ''/assets'') (cf_AssetPath cfg) (cf_Volumes cfg)))))"

text \<open>The names a release's containers may have on this server, each once.\<close>

definition candidate_names :: "Config \<Rightarrow> string list" where
  "candidate_names cfg =
     dedup (concat (map (\<lambda>p. map (\<lambda>ri. ReplicaContainerName (cf_App cfg) p (cf_Version cfg) ri (replicas_of cfg))
                               [1..<replicas_of cfg + 1]
                             @ [ContainerName (cf_App cfg) p (cf_Version cfg)])
              (sortedProcessNames (processes_of cfg))))"

definition replaced_name :: "string \<Rightarrow> string" where
  "replaced_name n = n @ ''_replaced''"

text \<open>
  A running container under the \<open>_replaced\<close> name is refused; a corpse is removed; the rename may
  fail only when nothing bears the name.
\<close>

definition rename_current :: "deploy_env \<Rightarrow> string \<Rightarrow> (deploy_error, unit) step" where
  "rename_current env name t =
     (let dk = de_docker env; new = replaced_name name;
          (st, t1) = on_docker (run_read (inspect ct_State new)) t
      in if (case st of Inr (Some s) \<Rightarrow> trim_space s = ''running'' | _ \<Rightarrow> False) then (Inl (ReplacedRunning new), t1)
         else
           (let (_, t2) = on_docker (run_cmd (docker_rm_force (dk_refuses dk) new)) t1;
                (r, t3) = on_docker (run_cmd (docker_rename dk name new)) t2
            in case r of
                 Inr _ \<Rightarrow> (Inr (), t3)
               | Inl _ \<Rightarrow>
                   (let (src, t4) = on_docker (run_read (inspect ct_State name)) t3
                    in if (case src of Inl _ \<Rightarrow> True | Inr None \<Rightarrow> False | Inr (Some s) \<Rightarrow> trim_space s \<noteq> [])
                       then (Inl (RenameFailed name), t4) else (Inr (), t4))))"

fun rename_all :: "deploy_env \<Rightarrow> string list \<Rightarrow> (deploy_error, unit) step" where
  "rename_all env [] = yield ()"
| "rename_all env (n # ns) = seq (rename_current env n) (\<lambda>_. rename_all env ns)"

definition check_lock :: "Lock option \<Rightarrow> (deploy_error, unit) step" where
  "check_lock lk = failing (\<lambda>_. LockLost) (on_app (Lock_Check lk))"

definition step_aside :: "deploy_env \<Rightarrow> Config \<Rightarrow> Lock option \<Rightarrow> bool \<Rightarrow> (deploy_error, unit) step" where
  "step_aside env cfg lk sameVersion =
     (if \<not> sameVersion then yield ()
      else seq (check_lock lk) (\<lambda>_. rename_all env (de_range env (candidate_names cfg))))"

section \<open>The predecessor\<close>

text \<open>The predecessors, when the inventory could be listed, and their persisted snapshot.\<close>

definition snapshot_predecessors ::
  "deploy_env \<Rightarrow> Config \<Rightarrow> Attempt \<Rightarrow> AppState option \<Rightarrow> bool \<Rightarrow> target \<Rightarrow> Container list option \<times> target" where
  "snapshot_predecessors env cfg att current sameVersion t =
     (case current of
        None \<Rightarrow> (None, t)
      | Some s \<Rightarrow>
          if CurrentHash s = [] then (None, t)
          else
            (case on_docker (ListContainers (cf_App cfg)) t of
               (Inl _, t1) \<Rightarrow> (None, t1)
             | (Inr cs, t1) \<Rightarrow>
                 (let ps = selectPredecessors cs s sameVersion;
                      (path, snap) = persistPredecessorSnapshot att (CurrentHash s) sameVersion ps (de_now env);
                      (_, t2) = on_files (run_cmd (upload (\<lambda>f. f\<lparr>af_snapshots := (af_snapshots f)(path := Some (Doc snap))\<rparr>))) t1
                  in (Some ps, t2))))"

text \<open>
  The recreate strategy stops the running web containers.  A failed stop restarts those stopped
  before; the error names the ones that did not come back.
\<close>

fun restart_all :: "docker_env \<Rightarrow> string list \<Rightarrow> docker_host world \<Rightarrow> string list \<times> docker_host world" where
  "restart_all dk [] w = ([], w)"
| "restart_all dk (n # ns) w =
     (let (r, w1) = Restart dk n w; (fs, w2) = restart_all dk ns w1
      in (case r of Inl _ \<Rightarrow> n # fs | Inr _ \<Rightarrow> fs, w2))"

fun stop_current :: "docker_env \<Rightarrow> string list \<Rightarrow> string list \<Rightarrow> docker_host world
    \<Rightarrow> (deploy_error, string list) result \<times> docker_host world" where
  "stop_current dk displaced [] w = (Inr displaced, w)"
| "stop_current dk displaced (n # ns) w =
     (case docker_Stop (dk_refuses dk) n w of
        (Inl _, w1) \<Rightarrow> (let (lost, w2) = restart_all dk displaced w1 in (Inl (StopCurrentFailed n lost), w2))
      | (Inr _, w1) \<Rightarrow> stop_current dk (displaced @ [n]) ns w1)"

definition running_web_names :: "string \<Rightarrow> docker_host \<Rightarrow> string list" where
  "running_web_names app d =
     map ct_Name (filter (\<lambda>c. running c \<and> label c ''teploy.app'' = app \<and> label c ''teploy.process'' = ''web'')
       (dh_containers d))"

definition displace_web :: "deploy_env \<Rightarrow> Config \<Rightarrow> Lock option \<Rightarrow> (deploy_error, string list) step" where
  "displace_web env cfg lk =
     (if \<not> recreateWeb cfg then yield []
      else
        seq (check_lock lk) (\<lambda>_.
        (\<lambda>t. (let (names, t1) = on_docker (run_read (running_web_names (cf_App cfg))) t
              in on_docker (stop_current (de_docker env) [] (case names of Inl _ \<Rightarrow> [] | Inr ns \<Rightarrow> ns)) t1))))"

section \<open>Undoing a failed deploy\<close>

text \<open>The containers a deploy started, by name and ID; a command addresses the ID when there is one.\<close>

type_synonym started = "(string \<times> string) list"

definition started_ref :: "string \<times> string \<Rightarrow> string" where
  "started_ref s = (if snd s \<noteq> [] then snd s else fst s)"

fun stop_started ::
  "docker_env \<Rightarrow> gen \<Rightarrow> started \<Rightarrow> docker_host world \<Rightarrow> cleanup_gap list \<times> docker_host world" where
  "stop_started dk next [] w = ([], w)"
| "stop_started dk next (s # ss) w =
     (case StopGenerationFenced (dk_refuses dk) (started_ref s) next None w of
        (Inl e, w1) \<Rightarrow>
          (let (fs, w2) = stop_started dk next ss w1
           in ((if stateGenerationRefused e then StopRefused (fst s) else StopGap (fst s)) # fs, w2))
      | (Inr _, w1) \<Rightarrow>
          (case docker_Remove (dk_refuses dk) (started_ref s) w1 of
             (Inl _, w2) \<Rightarrow> (let (fs, w3) = stop_started dk next ss w2 in (RemoveGap (fst s) # fs, w3))
           | (Inr _, w2) \<Rightarrow> stop_started dk next ss w2))"

text \<open>The result: the failures, and whether some container was restored.\<close>

fun restore_displaced ::
  "docker_env \<Rightarrow> gen \<Rightarrow> string list \<Rightarrow> docker_host world \<Rightarrow> (cleanup_gap list \<times> bool) \<times> docker_host world" where
  "restore_displaced dk from_gen [] w = (([], False), w)"
| "restore_displaced dk from_gen (n # ns) w =
     (case RestartFenced dk n from_gen None w of
        (Inl e, w1) \<Rightarrow>
          (let ((fs, some), w2) = restore_displaced dk from_gen ns w1
           in (((if e = RestartGenerationFenced then RestoreRefused n else RestoreGap n) # fs, some), w2))
      | (Inr _, w1) \<Rightarrow>
          (let ((fs, some), w2) = restore_displaced dk from_gen ns w1 in ((fs, True), w2)))"

text \<open>The states docker prints for the snapshot's web containers, one inspection each.\<close>

fun inspect_states :: "string list \<Rightarrow> docker_host world \<Rightarrow> (string \<times> string) list \<times> docker_host world" where
  "inspect_states [] w = ([], w)"
| "inspect_states (n # ns) w =
     (let (r, w1) = run_read (inspect ct_State n) w; (rest, w2) = inspect_states ns w1
      in (case r of Inr (Some st) \<Rightarrow> (n, st) # rest | _ \<Rightarrow> rest, w2))"

definition snapshot_web_names :: "predecessorSnapshot doc option \<Rightarrow> string list" where
  "snapshot_web_names f =
     (case f of Some (Doc s) \<Rightarrow>
        map pc_Name (filter (\<lambda>c. map_of (pc_Labels c) ''teploy.process'' = Some ''web'') (ps_Containers s))
      | _ \<Rightarrow> [])"

definition displaced_workload :: "Attempt \<Rightarrow> string list \<Rightarrow> target \<Rightarrow> string list \<times> target" where
  "displaced_workload att displaced t =
     (if displaced \<noteq> [] then (displaced, t)
      else
        (case on_files (run_read (\<lambda>f. af_snapshots f (predecessorSnapshotPath att))) t of
           (Inl e, t1) \<Rightarrow> ([], t1)
         | (Inr f, t1) \<Rightarrow>
             (let (states, t2) = on_docker (inspect_states (snapshot_web_names f)) t1
              in (displacedFromSnapshot att (Inr f) (map_of states), t2))))"

definition logDeploy :: "Config \<Rightarrow> bool \<Rightarrow> bool \<Rightarrow> target \<Rightarrow> target" where
  "logDeploy cfg success degraded t =
     snd (on_files (run_cmd (\<lambda>_. Inr [\<lambda>f. f\<lparr>af_log := af_log f @
       [\<lparr>le_Type = ''deploy'', le_Hash = cf_Version cfg, le_Image = cf_Image cfg, le_Success = success,
         le_Degraded = (success \<and> degraded)\<rparr>]\<rparr>])) t)"

definition restoreDisplacedAndStarted ::
  "deploy_env \<Rightarrow> Config \<Rightarrow> Attempt \<Rightarrow> gen \<Rightarrow> gen \<Rightarrow> started \<Rightarrow> string list \<Rightarrow> deploy_error \<Rightarrow> target
     \<Rightarrow> deploy_failure \<times> target" where
  "restoreDisplacedAndStarted env cfg att from_gen next started displaced reason t =
     (let (gaps, t1) = on_docker (stop_started (de_docker env) next started) t;
          (displaced, t2) = displaced_workload att displaced t1;
          ((missing, some), t3) = on_docker (restore_displaced (de_docker env) from_gen displaced) t2;
          all = gaps @ missing;
          report = (if displaced \<noteq> [] \<and> \<not> some then NothingServes all
                    else if all \<noteq> [] then Incomplete all else Recovered)
      in (Failed reason report, logDeploy cfg False False t3))"

section \<open>Starting and judging the candidates\<close>

definition web_run_config :: "Config \<Rightarrow> gen \<Rightarrow> string \<Rightarrow> str_map \<Rightarrow> string \<Rightarrow> int \<Rightarrow> RunConfig" where
  "web_run_config cfg next runImage volumes name port =
     \<lparr>rn_App = cf_App cfg, rn_Process = ''web'', rn_Version = cf_Version cfg, rn_Image = runImage,
      rn_Port = port, rn_BindHost = web_bind_host cfg, rn_ContainerPort = containerPort cfg,
      rn_Publish = cf_Publish cfg, rn_EnvFiles = cf_EnvFiles cfg, rn_Env = cf_Env cfg,
      rn_Volumes = volumes,
      rn_Cmd = (case map_of (processes_of cfg) ''web'' of Some c \<Rightarrow> c | None \<Rightarrow> []),
      rn_Memory = cf_Memory cfg, rn_CPU = cf_CPU cfg, rn_Name = name, rn_Runtime = cf_Runtime cfg,
      rn_SecurityOpt = cf_SecurityOpt cfg, rn_NoHealthcheck = (''web'' \<in> set (cf_NoHealthcheck cfg)),
      rn_Generation = next\<rparr>"

definition worker_run_config :: "Config \<Rightarrow> gen \<Rightarrow> string \<Rightarrow> str_map \<Rightarrow> string \<Rightarrow> RunConfig" where
  "worker_run_config cfg next runImage volumes process =
     \<lparr>rn_App = cf_App cfg, rn_Process = process, rn_Version = cf_Version cfg, rn_Image = runImage,
      rn_Port = 0, rn_BindHost = [], rn_ContainerPort = 0, rn_Publish = [],
      rn_EnvFiles = cf_EnvFiles cfg, rn_Env = cf_Env cfg, rn_Volumes = volumes,
      rn_Cmd = (case map_of (processes_of cfg) process of Some c \<Rightarrow> c | None \<Rightarrow> []),
      rn_Memory = cf_Memory cfg, rn_CPU = cf_CPU cfg, rn_Name = [], rn_Runtime = cf_Runtime cfg,
      rn_SecurityOpt = cf_SecurityOpt cfg, rn_NoHealthcheck = (process \<in> set (cf_NoHealthcheck cfg)),
      rn_Generation = next\<rparr>"

definition web_names :: "Config \<Rightarrow> string list" where
  "web_names cfg =
     map (\<lambda>ri. ReplicaContainerName (cf_App cfg) ''web'' (cf_Version cfg) ri (replicas_of cfg)) [1..<replicas_of cfg + 1]"

text \<open>
  The web candidates, then the workers: what was started so far comes back with the failure, for
  the handler to undo.
\<close>

fun start_web ::
  "deploy_env \<Rightarrow> Config \<Rightarrow> gen \<Rightarrow> string \<Rightarrow> str_map \<Rightarrow> string option \<Rightarrow> (string \<times> int) list \<Rightarrow> started
     \<Rightarrow> docker_host world \<Rightarrow> (deploy_error \<times> started, started) result \<times> docker_host world" where
  "start_web env cfg next img volumes guard [] started w = (Inr started, w)"
| "start_web env cfg next img volumes guard ((name, port) # rest) started w =
     (case RunGuarded (de_docker env) (web_run_config cfg next img volumes name port) guard w of
        (Inl e, w1) \<Rightarrow>
          if e = RunFenced then (Inl (LockLost, started), w1)
          else (Inl (StartFailed name e, started), reconcilePartialRun (de_docker env) name w1)
      | (Inr cid, w1) \<Rightarrow> start_web env cfg next img volumes guard rest (started @ [(name, cid)]) w1)"

fun all_running :: "string list \<Rightarrow> docker_host world \<Rightarrow> (deploy_error, unit) result \<times> docker_host world" where
  "all_running [] w = (Inr (), w)"
| "all_running (n # ns) w =
     (case run_read (inspect ct_State n) w of
        (Inr (Some st), w1) \<Rightarrow> if trim_space st = ''running'' then all_running ns w1 else (Inl (NotRunning n), w1)
      | (_, w1) \<Rightarrow> (Inl (NotRunning n), w1))"

text \<open>\<open>docker exec\<close> in a running container.\<close>

definition docker_exec :: "deploy_env \<Rightarrow> string \<Rightarrow> string \<Rightarrow> docker_host cmd" where
  "docker_exec env name command d =
     (case find (refers name) (dh_containers d) of
        None \<Rightarrow> Inl 1
      | Some c \<Rightarrow> if running c \<and> de_hook env command c then Inr [] else Inl 1)"

fun unhealthy_replica :: "deploy_env \<Rightarrow> Config \<Rightarrow> nat \<Rightarrow> int list \<Rightarrow> nat option" where
  "unhealthy_replica env cfg i [] = None"
| "unhealthy_replica env cfg i (p # ps) =
     (if healthCheck (cf_Health cfg) (web_bind_host cfg) p (de_probe env i)
      then unhealthy_replica env cfg (Suc i) ps else Some (Suc i))"

definition write_readiness :: "deploy_env \<Rightarrow> Config \<Rightarrow> Attempt \<Rightarrow> started \<Rightarrow> int list \<Rightarrow> target \<Rightarrow> target" where
  "write_readiness env cfg att started ports t =
     (let h = withDefaults (cf_Health cfg);
          cands = map (\<lambda>(n, i). \<lparr>rc_Name = n, rc_ID = i\<rparr>) started;
          probes = map (\<lambda>(n, p). \<lparr>rp_Container = n, rp_Host = healthProbeHost (web_bind_host cfg), rp_Port = p,
                          rp_Path = hc_Path h, rp_Mode = hc_Mode h\<rparr>) (zip (map fst started) ports);
          (path, receipt) = persistReadinessReceipt att (cf_Version cfg) cands probes (de_now env)
      in snd (on_files (run_cmd (upload (\<lambda>f. f\<lparr>af_receipts := (af_receipts f)(path := Some (Doc receipt))\<rparr>))) t))"

fun start_workers ::
  "deploy_env \<Rightarrow> Config \<Rightarrow> gen \<Rightarrow> string \<Rightarrow> str_map \<Rightarrow> string option \<Rightarrow> string list \<Rightarrow> started
     \<Rightarrow> docker_host world \<Rightarrow> (deploy_error \<times> started, started) result \<times> docker_host world" where
  "start_workers env cfg next img volumes guard [] started w = (Inr started, w)"
| "start_workers env cfg next img volumes guard (p # ps) started w =
     (let name = ContainerName (cf_App cfg) p (cf_Version cfg)
      in case RunGuarded (de_docker env) (worker_run_config cfg next img volumes p) guard w of
           (Inl e, w1) \<Rightarrow>
             if e = RunFenced then (Inl (LockLost, started), w1)
             else (Inl (StartFailed name e, started), reconcilePartialRun (de_docker env) name w1)
         | (Inr cid, w1) \<Rightarrow>
             (case workerRemainsRunning (de_json env) name w1 of
                (True, w2) \<Rightarrow> start_workers env cfg next img volumes guard ps (started @ [(name, cid)]) w2
              | (False, w2) \<Rightarrow> (Inl (WorkerNotViable name, started @ [(name, cid)]), w2)))"

text \<open>Everything between the displacement and the traffic switch.\<close>

definition pre_deploy_hook :: "deploy_env \<Rightarrow> Config \<Rightarrow> string \<Rightarrow> (deploy_error, unit) step" where
  "pre_deploy_hook env cfg name =
     (if cf_PreDeploy cfg = [] then yield ()
      else failing (\<lambda>_. PreDeployFailed) (on_docker (run_cmd (docker_exec env name (cf_PreDeploy cfg)))))"

definition prepare_candidates ::
  "deploy_env \<Rightarrow> Config \<Rightarrow> Lock option \<Rightarrow> Attempt \<Rightarrow> gen \<Rightarrow> string \<Rightarrow> str_map \<Rightarrow> int list
     \<Rightarrow> (deploy_error \<times> started, started) step" where
  "prepare_candidates env cfg lk att next img volumes ports =
     seq (on_docker (start_web env cfg next img volumes (GuardPrefix lk) (zip (web_names cfg) ports) [])) (\<lambda>web.
     seq (failing (\<lambda>e. (e, web)) (on_docker (all_running (web_names cfg)))) (\<lambda>_.
     seq (failing (\<lambda>e. (e, web)) (pre_deploy_hook env cfg (hd (web_names cfg)))) (\<lambda>_.
     case unhealthy_replica env cfg 0 ports of
       Some i \<Rightarrow> abort (Unhealthy i, web)
     | None \<Rightarrow>
         (\<lambda>t. on_docker (start_workers env cfg next img volumes (GuardPrefix lk)
                 (filter (\<lambda>p. p \<noteq> ''web'') (sortedProcessNames (processes_of cfg))) web)
                 (write_readiness env cfg att web ports t)))))"

section \<open>The traffic switch and its restoration\<close>

definition caddy_client :: CaddyClient where
  "caddy_client = \<lparr>cc_guard = None, cc_stamp = 0, cc_cas = None\<rparr>"

definition dial :: "int \<Rightarrow> string \<Rightarrow> string" where
  "dial port name = name @ '':'' @ int_to_string port"

text \<open>A load balancer for several replicas, else a plain route to the one container.\<close>

definition set_upstreams ::
  "edit_env \<Rightarrow> CaddyClient \<Rightarrow> string \<Rightarrow> string \<Rightarrow> string list \<Rightarrow> int \<Rightarrow> string \<Rightarrow> TLS \<Rightarrow> string
     \<Rightarrow> str_map \<Rightarrow> Firewall \<Rightarrow> Access \<Rightarrow> proxy world \<Rightarrow> (caddy_failure, unit) result \<times> proxy world" where
  "set_upstreams ed c app domain names port healthPath tls extra cache fw access w =
     (let (r, c', w1) =
        (if length names > 1
         then SetLoadBalancerHealth ed c app domain (map (dial port) names) healthPath tls extra cache fw access w
         else SetRoute ed c app domain (hd names) port tls extra cache fw access w)
      in (r, w1))"

definition deploy_client :: "deploy_env \<Rightarrow> Config \<Rightarrow> Lock option \<Rightarrow> gen \<Rightarrow> gen \<Rightarrow> string \<Rightarrow> CaddyClient" where
  "deploy_client env cfg lk from_gen next resolved =
     WithRouteCAS (WithGeneration (WithCommitGuard caddy_client (proxy_guard env lk)) (unat next))
       (cf_App cfg) [resolved] (unat from_gen)"

text \<open>The switch; the hash of the block it wrote, as far as it can be read back.\<close>

definition switch_route ::
  "deploy_env \<Rightarrow> Config \<Rightarrow> Lock option \<Rightarrow> gen \<Rightarrow> gen \<Rightarrow> string \<Rightarrow> (deploy_error, string) step" where
  "switch_route env cfg lk from_gen next resolved =
     (if \<not> usesCaddy cfg then yield resolved
      else
        seq (failing RouteFailed
              (on_proxy (set_upstreams (de_edit env 0) (deploy_client env cfg lk from_gen next resolved)
                 (cf_App cfg) (cf_Domain cfg) (web_names cfg) (containerPort cfg)
                 (hc_Path (withDefaults (cf_Health cfg))) (cf_TLS cfg) (cf_CaddyExtra cfg) (cf_Cache cfg)
                 (cf_Firewall cfg) (cf_Access cfg)))) (\<lambda>_.
        (\<lambda>t. case on_proxy (ReadManagedBlock (cf_App cfg)) t of
               (Inl _, t1) \<Rightarrow> (Inr resolved, t1)
             | (Inr region, t1) \<Rightarrow>
                 (Inr (ManagedRegionHash (en_sha (de_edit env 0)) (case region of None \<Rightarrow> [] | Some r \<Rightarrow> r)), t1))))"

definition restoreRouteCAS :: "string \<Rightarrow> string \<Rightarrow> string list" where
  "restoreRouteCAS resolved switched = resolved # (if switched \<noteq> resolved then [switched] else [])"

text \<open>A release's web containers by name, with the suffix a same-version redeploy gave them.\<close>

definition previous_names :: "Config \<Rightarrow> AppState \<Rightarrow> nat \<Rightarrow> string list" where
  "previous_names cfg s replicas =
     map (\<lambda>i. (let n = ReplicaContainerName (cf_App cfg) ''web'' (CurrentHash s) i replicas
               in if CurrentHash s = cf_Version cfg then replaced_name n else n)) [1..<replicas + 1]"

definition first_set :: "string list \<Rightarrow> string" where
  "first_set ss = (case filter (\<lambda>s. s \<noteq> []) ss of [] \<Rightarrow> [] | s # _ \<Rightarrow> s)"

definition restoreRouteFromReceipt ::
  "edit_env \<Rightarrow> Config \<Rightarrow> AppState \<Rightarrow> release_record \<Rightarrow> int \<Rightarrow> CaddyClient \<Rightarrow> proxy world
     \<Rightarrow> (caddy_failure, unit) result \<times> proxy world" where
  "restoreRouteFromReceipt ed cfg s rec port cd w =
     (let replicas = (if rr_Replicas rec \<le> 0 then 1 else nat (rr_Replicas rec));
          domain = first_set [rr_Domain rec, Domain s, cf_Domain cfg];
          healthPath = (case rr_Health rec of
             Some h \<Rightarrow> first_set [rh_Path h, hc_Path (withDefaults (cf_Health cfg))]
           | None \<Rightarrow> hc_Path (withDefaults (cf_Health cfg)));
          send = set_upstreams ed cd (cf_App cfg) domain (previous_names cfg s replicas) port healthPath
      in case rr_Caddy rec of
           None \<Rightarrow> send (cf_TLS cfg) (cf_CaddyExtra cfg) (cf_Cache cfg) (cf_Firewall cfg) (cf_Access cfg) w
         | Some c \<Rightarrow>
             send \<lparr>tls_Cert = cr_TLSCert c, tls_Key = cr_TLSKey c, tls_Internal = cr_TLSInternal c,
                   tls_HTTPOnly = HTTPOnlyOr c (tls_HTTPOnly (cf_TLS cfg))\<rparr>
               (cr_CaddyExtra c) (cr_Cache c)
               (case cr_Firewall c of Some f \<Rightarrow> f | None \<Rightarrow> cf_Firewall cfg)
               (case cr_Access c of Some a \<Rightarrow> a | None \<Rightarrow> cf_Access cfg) w)"

text \<open>\<open>InternalPort\<close>: the one port docker lists for a container.\<close>

definition parse_internal_port :: "string \<Rightarrow> int option" where
  "parse_internal_port out =
     (let fs = fields_of out
      in if fs = [] \<or> length (dedup fs) > 1 then None
         else (let (n, ok) = atoi (takeWhile (\<lambda>c. c \<noteq> CHR ''/'') (hd fs)) in if ok then Some n else None))"

definition InternalPort :: "deploy_env \<Rightarrow> string \<Rightarrow> docker_host world \<Rightarrow> int option \<times> docker_host world" where
  "InternalPort env name w =
     (case run_read (inspect (de_ports env) name) w of
        (Inr (Some out), w1) \<Rightarrow> (parse_internal_port out, w1) | (_, w1) \<Rightarrow> (None, w1))"

fun internal_ports :: "deploy_env \<Rightarrow> string list \<Rightarrow> docker_host world \<Rightarrow> int list option \<times> docker_host world" where
  "internal_ports env [] w = (Some [], w)"
| "internal_ports env (n # ns) w =
     (case InternalPort env n w of
        (None, w1) \<Rightarrow> (None, w1)
      | (Some p, w1) \<Rightarrow> (let (ps, w2) = internal_ports env ns w1 in (map_option (\<lambda>ps. p # ps) ps, w2)))"

datatype restore_error = RestorePort | RestoreEdit caddy_failure

definition set_dials ::
  "edit_env \<Rightarrow> CaddyClient \<Rightarrow> string \<Rightarrow> string \<Rightarrow> (string \<times> int) list \<Rightarrow> string \<Rightarrow> TLS \<Rightarrow> string
     \<Rightarrow> str_map \<Rightarrow> Firewall \<Rightarrow> Access \<Rightarrow> proxy world \<Rightarrow> (caddy_failure, unit) result \<times> proxy world" where
  "set_dials ed c app domain ups healthPath tls extra cache fw access w =
     (let (r, c', w1) =
        (if length ups > 1
         then SetLoadBalancerHealth ed c app domain (map (\<lambda>(n, p). dial p n) ups) healthPath tls extra cache fw access w
         else SetRoute ed c app domain (fst (hd ups)) (snd (hd ups)) tls extra cache fw access w)
      in (r, w1))"

definition restoreRouteFromInspection ::
  "deploy_env \<Rightarrow> Config \<Rightarrow> AppState \<Rightarrow> CaddyClient \<Rightarrow> (restore_error, unit) step" where
  "restoreRouteFromInspection env cfg s cd t =
     (let replicas = (if CurrentPorts s = [] then 1 else length (CurrentPorts s));
          names = previous_names cfg s replicas;
          domain = first_set [Domain s, cf_Domain cfg];
          (ports, t1) = on_docker (internal_ports env names) t
      in case ports of
           None \<Rightarrow> (Inl RestorePort, t1)
         | Some ps \<Rightarrow>
             failing RestoreEdit (on_proxy (set_dials (de_edit env 1) cd (cf_App cfg) domain (zip names ps)
               (hc_Path (cf_Health cfg)) (cf_TLS cfg) (cf_CaddyExtra cfg) (cf_Cache cfg) (cf_Firewall cfg)
               (cf_Access cfg))) t1)"

definition remove_previous ::
  "deploy_env \<Rightarrow> Config \<Rightarrow> CaddyClient \<Rightarrow> (restore_error, unit) step" where
  "remove_previous env cfg cd =
     failing RestoreEdit (on_proxy (\<lambda>w. let (r, c', w1) = RemoveRoute (de_edit env 1) cd (cf_App cfg) w in (r, w1)))"

definition restorePreviousRoute ::
  "deploy_env \<Rightarrow> Config \<Rightarrow> AppState option \<Rightarrow> string list \<Rightarrow> gen \<Rightarrow> (restore_error, unit) step" where
  "restorePreviousRoute env cfg current routeCAS g =
     (let cd = WithGeneration caddy_client (unat g);
          cd = (if routeCAS \<noteq> [] then WithRouteCAS cd (cf_App cfg) routeCAS (unat g) else cd)
      in case current of
           None \<Rightarrow> remove_previous env cfg cd
         | Some s \<Rightarrow>
             if CurrentHash s = [] then remove_previous env cfg cd
             else if IngressMode s \<noteq> [] \<and> IngressMode s \<noteq> ''caddy'' then remove_previous env cfg cd
             else
               (\<lambda>t. let (file, t1) = on_files (run_read (record_file (cf_App cfg) (CurrentHash s))) t
                    in case ReadRelease (cf_App cfg) (CurrentHash s) file of
                         Inr (Some rec) \<Rightarrow>
                           (let (port, ok) = PrimaryContainerPort (Some rec)
                            in if ok then failing RestoreEdit
                                 (on_proxy (restoreRouteFromReceipt (de_edit env 1) cfg s rec port cd)) t1
                               else restoreRouteFromInspection env cfg s cd t1)
                       | _ \<Rightarrow> restoreRouteFromInspection env cfg s cd t1))"

section \<open>Aborting after a failed commit\<close>

fun stop_quietly :: "docker_env \<Rightarrow> gen \<Rightarrow> started \<Rightarrow> docker_host world \<Rightarrow> docker_host world" where
  "stop_quietly dk next [] w = w"
| "stop_quietly dk next (s # ss) w =
     stop_quietly dk next ss (snd (StopGenerationFenced (dk_refuses dk) (started_ref s) next None w))"

fun start_quietly :: "docker_env \<Rightarrow> started \<Rightarrow> docker_host world \<Rightarrow> docker_host world" where
  "start_quietly dk [] w = w"
| "start_quietly dk (s # ss) w = start_quietly dk ss (snd (docker_Start dk (started_ref s) w))"

fun remove_quietly :: "docker_env \<Rightarrow> started \<Rightarrow> docker_host world \<Rightarrow> docker_host world" where
  "remove_quietly dk [] w = w"
| "remove_quietly dk (s # ss) w =
     remove_quietly dk ss (snd (docker_Remove (dk_refuses dk) (started_ref s) w))"

fun stop_and_remove :: "docker_env \<Rightarrow> gen \<Rightarrow> started \<Rightarrow> docker_host world \<Rightarrow> docker_host world" where
  "stop_and_remove dk next [] w = w"
| "stop_and_remove dk next (s # ss) w =
     stop_and_remove dk next ss
       (snd (docker_Remove (dk_refuses dk) (started_ref s)
         (snd (StopGenerationFenced (dk_refuses dk) (started_ref s) next None w))))"

text \<open>A container a newer generation owns is left alone; any other failure ends the restoration.\<close>

fun restore_originals :: "docker_env \<Rightarrow> gen \<Rightarrow> string list \<Rightarrow> docker_host world \<Rightarrow> bool \<times> docker_host world" where
  "restore_originals dk from_gen [] w = (True, w)"
| "restore_originals dk from_gen (n # ns) w =
     (case RestartFenced dk n from_gen None w of
        (Inl e, w1) \<Rightarrow> if e = RestartGenerationFenced then restore_originals dk from_gen ns w1 else (False, w1)
      | (Inr _, w1) \<Rightarrow> restore_originals dk from_gen ns w1)"

definition and_docker :: "(docker_host world \<Rightarrow> docker_host world) \<Rightarrow> target \<Rightarrow> target" where
  "and_docker f t = t\<lparr>tg_docker := f (tg_docker t)\<rparr>"

definition abort_recreate ::
  "deploy_env \<Rightarrow> Config \<Rightarrow> AppState option \<Rightarrow> gen \<Rightarrow> gen \<Rightarrow> started \<Rightarrow> string list \<Rightarrow> string list
     \<Rightarrow> target \<Rightarrow> abort_report \<times> target" where
  "abort_recreate env cfg current from_gen next started displaced routeCAS t =
     (let dk = de_docker env;
          (restored, t1) = on_docker (restore_originals dk from_gen displaced) (and_docker (stop_quietly dk next started) t)
      in if \<not> restored then (OriginalNotRestored, and_docker (start_quietly dk started) t1)
         else
           (let (r, t2) = (if usesCaddy cfg then restorePreviousRoute env cfg current routeCAS from_gen t1
                           else (Inr (), t1))
            in case r of
                 Inl _ \<Rightarrow> (OriginalRouteNotRestored, and_docker (start_quietly dk started) t2)
               | Inr _ \<Rightarrow>
                   (if displaced = [] then FirstWorkloadRemoved else OriginalRestored,
                    and_docker (remove_quietly dk started) t2)))"

definition abort_blue_green ::
  "deploy_env \<Rightarrow> Config \<Rightarrow> AppState option \<Rightarrow> gen \<Rightarrow> gen \<Rightarrow> started \<Rightarrow> string list
     \<Rightarrow> target \<Rightarrow> abort_report \<times> target" where
  "abort_blue_green env cfg current from_gen next started routeCAS t =
     (let (r, t1) = (if usesCaddy cfg then restorePreviousRoute env cfg current routeCAS from_gen t else (Inr (), t))
      in case r of
           Inl _ \<Rightarrow> (PreviousRouteNotRestored, t1)
         | Inr _ \<Rightarrow>
             (if current = None then NewRouteRemoved else PreviousRouteRestored,
              and_docker (stop_and_remove (de_docker env) next started) t1))"

definition generation_of :: "AppState option \<Rightarrow> gen" where
  "generation_of current = (case current of None \<Rightarrow> 0 | Some s \<Rightarrow> Generation s)"

definition abortStateCommit ::
  "deploy_env \<Rightarrow> Config \<Rightarrow> AppState option \<Rightarrow> started \<Rightarrow> string list \<Rightarrow> Attempt \<Rightarrow> string list
     \<Rightarrow> state_error \<Rightarrow> target \<Rightarrow> deploy_failure \<times> target" where
  "abortStateCommit env cfg current started displaced att routeCAS cause t =
     (let from_gen = generation_of current; next = from_gen + 1;
          (displaced, t1) = displaced_workload att displaced (logDeploy cfg False False t);
          (report, t2) = (if recreateWeb cfg
             then abort_recreate env cfg current from_gen next started displaced routeCAS t1
             else abort_blue_green env cfg current from_gen next started routeCAS t1)
      in (Aborted cause report, t2))"

section \<open>The commit\<close>

text \<open>\<open>ContainerImageDigest\<close>, or nothing when docker proves no identity.\<close>

definition ContainerImageDigest :: "deploy_env \<Rightarrow> string \<Rightarrow> docker_host world \<Rightarrow> string \<times> docker_host world" where
  "ContainerImageDigest env name w =
     (case run_read (inspect (de_digest env) name) w of
        (Inr (Some (Some out)), w1) \<Rightarrow> ((if sha256_id (trim_space out) then trim_space out else []), w1)
      | (_, w1) \<Rightarrow> ([], w1))"

definition deployed_digest :: "deploy_env \<Rightarrow> Config \<Rightarrow> target \<Rightarrow> string \<times> target" where
  "deployed_digest env cfg t =
     (if ImageDigestFromRef (cf_Image cfg) \<noteq> [] then (ImageDigestFromRef (cf_Image cfg), t)
      else on_docker (ContainerImageDigest env (hd (web_names cfg))) t)"

text \<open>The state a deploy commits.\<close>

definition newState :: "deploy_env \<Rightarrow> Config \<Rightarrow> AppState option \<Rightarrow> int list \<Rightarrow> string \<Rightarrow> AppState" where
  "newState env cfg current ports digest =
     (let s = (NewAppliedState current ''container'' (cf_Ingress cfg) (cf_Domain cfg) (de_now env) (de_opid env))
            \<lparr>CurrentPort := hd ports, CurrentPorts := ports, CurrentHash := cf_Version cfg,
             ManifestSHA256 := cf_ManifestSHA256 cfg, AppliedManifest := cf_AppliedManifest cfg,
             SourceRevision := cf_SourceRevision cfg, TriggerOperationKey := cf_TriggerOperationKey cfg,
             ExecutionBindingDigest := cf_ExecutionBindingDigest cfg, ImageRef := cf_Image cfg,
             ImageDigest := digest\<rparr>
      in case current of
           None \<Rightarrow> s
         | Some c \<Rightarrow> s\<lparr>PreviousPort := CurrentPort c, PreviousPorts := CurrentPorts c,
                     PreviousHash := CurrentHash c\<rparr>)"

definition post_deploy_hook :: "deploy_env \<Rightarrow> Config \<Rightarrow> (deploy_failure, unit) step" where
  "post_deploy_hook env cfg =
     (if cf_PostDeploy cfg = [] then yield ()
      else quietly (on_docker (run_cmd (docker_exec env (hd (web_names cfg)) (cf_PostDeploy cfg)))))"

definition commit_state ::
  "deploy_env \<Rightarrow> Config \<Rightarrow> Lock option \<Rightarrow> AppState option \<Rightarrow> AppState \<Rightarrow> (state_error, unit) step" where
  "commit_state env cfg lk current s =
     on_app (writeFenced (de_lib env) (cf_App cfg) (de_now env) (de_opid env) (de_tmp env) (de_tmp2 env) s lk
       (Some (generation_of current)))"

section \<open>The record of the release\<close>

text \<open>The environment provenance: the host's own sources, then the config's keys, then its provenance.\<close>

definition record_provenance :: "deploy_env \<Rightarrow> Config \<Rightarrow> str_map" where
  "record_provenance env cfg =
     put_all (cf_EnvProvenance cfg)
       (put_all (map (\<lambda>(k, _). (k, EnvSourceConfig)) (cf_Env cfg)) (put_all (de_host_env env) []))"

definition record_ports :: "Config \<Rightarrow> int list \<Rightarrow> Port list" where
  "record_ports cfg ports =
     (case ports of [] \<Rightarrow> []
      | p # _ \<Rightarrow> [\<lparr>po_HostPort = p, po_ContainerPort = containerPort cfg, po_Proto = [],
                  po_Bind = web_bind_host cfg, po_Primary = True, po_Fixed = ingressHost cfg\<rparr>])
     @ List.map_filter PortFromPublishSpec (cf_Publish cfg)"

definition record_caddy :: "Config \<Rightarrow> CaddyRoute option" where
  "record_caddy cfg =
     (if \<not> usesCaddy cfg then None
      else Some \<lparr>cr_TLSCert = tls_Cert (cf_TLS cfg), cr_TLSKey = tls_Key (cf_TLS cfg),
             cr_TLSInternal = tls_Internal (cf_TLS cfg), cr_TLSHTTPOnly = Some (tls_HTTPOnly (cf_TLS cfg)),
             cr_CaddyExtra = cf_CaddyExtra cfg, cr_Cache = cf_Cache cfg,
             cr_Firewall = (if Firewall_Empty (cf_Firewall cfg) then None else Some (cf_Firewall cfg)),
             cr_Access = (if Access_Empty (cf_Access cfg) then None else Some (cf_Access cfg))\<rparr>)"

text \<open>A duration in whole seconds, truncated toward zero.\<close>

definition whole_seconds :: "int \<Rightarrow> int" where
  "whole_seconds d = (if d < 0 then - ((- d) div second) else d div second)"

definition deploy_record ::
  "deploy_env \<Rightarrow> Config \<Rightarrow> AppState \<Rightarrow> int list \<Rightarrow> (string list \<times> str_map) option \<Rightarrow> release_record" where
  "deploy_record env cfg applied ports spec =
     (let h = withDefaults (cf_Health cfg)
      in blank_release
           \<lparr>rr_App := cf_App cfg, rr_Hash := cf_Version cfg, rr_Generation := Generation applied,
            rr_DeploymentType := ''container'',
            rr_IngressMode := (if cf_Ingress cfg = [] then ''caddy'' else cf_Ingress cfg),
            rr_Domain := cf_Domain cfg, rr_ImageRef := cf_Image cfg, rr_ImageDigest := ImageDigest applied,
            rr_ManifestSHA256 := cf_ManifestSHA256 cfg, rr_ConfigCommit := cf_ConfigCommit cfg,
            rr_Replicas := int (length ports), rr_Processes := cf_Processes cfg, rr_Cmd := cf_Cmd cfg,
            rr_Env := cf_Env cfg, rr_EnvFiles := cf_EnvFiles cfg, rr_Volumes := cf_Volumes cfg,
            rr_Publish := cf_Publish cfg, rr_Memory := cf_Memory cfg, rr_CPU := cf_CPU cfg,
            rr_StopTimeout := cf_StopTimeout cfg, rr_Bind := cf_Bind cfg,
            rr_Health := Some \<lparr>rh_Mode = hc_Mode h, rh_Path = hc_Path h,
                            rh_TimeoutSeconds = whole_seconds (hc_Timeout h),
                            rh_IntervalSeconds = whole_seconds (hc_Interval h)\<rparr>,
            rr_Ports := record_ports cfg ports, rr_Caddy := record_caddy cfg,
            rr_EnvProvenance := record_provenance env cfg, rr_Recreate := spec,
            rr_ImageEnv := (if spec = None then None else de_image_env env)\<rparr>)"

definition record_debt :: "deploy_env \<Rightarrow> Attempt \<Rightarrow> string \<Rightarrow> target \<Rightarrow> target" where
  "record_debt env att why t =
     snd (on_files (run_cmd (\<lambda>f. Inr [\<lambda>g. g\<lparr>af_debt :=
        recordRepairDebt (de_debt_link env) att why (de_now env) (af_debt f)\<rparr>])) t)"

definition recordRelease ::
  "deploy_env \<Rightarrow> Config \<Rightarrow> Attempt \<Rightarrow> AppState \<Rightarrow> int list \<Rightarrow> target \<Rightarrow> release_record \<times> target" where
  "recordRelease env cfg att applied ports t =
     (let (spec, t1) = on_docker (run_read (inspect (de_recreate env) (hd (web_names cfg)))) t;
          rec = deploy_record env cfg applied ports (case spec of Inr (Some s) \<Rightarrow> s | _ \<Rightarrow> None)
      in case WriteRelease (de_now env) (Some rec) of
           Inl _ \<Rightarrow> (rec, record_debt env att ''record'' t1)
         | Inr (path, file) \<Rightarrow>
             (case on_files (run_cmd (upload (\<lambda>f. f\<lparr>af_records := (af_records f)(path := Some (RecordDoc file))\<rparr>))) t1 of
                (Inl _, t2) \<Rightarrow> (rec, record_debt env att ''record'' t2)
              | (Inr _, t2) \<Rightarrow> (rec, t2)))"

text \<open>The plan and the receipt name the same image, or the deploy leaves a debt.\<close>

definition verifyPlanReceiptEquality ::
  "deploy_env \<Rightarrow> release_record \<Rightarrow> Attempt \<Rightarrow> string \<Rightarrow> target \<Rightarrow> target" where
  "verifyPlanReceiptEquality env rec att planDigest t =
     (if planDigest = [] \<or> rr_ImageDigest rec = [] \<or> rr_ImageDigest rec = planDigest then t
      else record_debt env att ''plan/receipt image digest mismatch'' t)"

section \<open>After the commit\<close>

datatype retire_gap = Escaped escaped | CleanupSkipped | StaleRouteKept

text \<open>A release without the proxy removes the block an earlier one left; the result says whether it failed.\<close>

definition retire_route ::
  "deploy_env \<Rightarrow> Config \<Rightarrow> Lock option \<Rightarrow> gen \<Rightarrow> staleRouteBlock \<Rightarrow> target \<Rightarrow> bool \<times> target" where
  "retire_route env cfg lk from_gen block t =
     (if usesCaddy cfg then (False, t)
      else
        (let (r, t1) = on_proxy (retireStaleRoute (de_edit env 2) caddy_client (cf_App cfg) block (unat from_gen)
                         (proxy_guard env lk)) t
         in (r \<noteq> Inr (), t1)))"

text \<open>Every attempt env file is removed on its own; a removal that fails is only reported.\<close>

fun remove_env_files :: "string list \<Rightarrow> target \<Rightarrow> target" where
  "remove_env_files [] t = t"
| "remove_env_files (f # fs) t =
     remove_env_files fs
       (snd (on_files (run_cmd (\<lambda>_. Inr [\<lambda>g. g\<lparr>af_env_files := filter (\<lambda>x. x \<noteq> f) (af_env_files g)\<rparr>])) t))"

definition previous_hash :: "AppState option \<Rightarrow> string" where
  "previous_hash current = (case current of None \<Rightarrow> [] | Some s \<Rightarrow> CurrentHash s)"

text \<open>Unreadable pins or an unreadable inventory skip the prune of attempts.\<close>

definition prune_attempts :: "deploy_env \<Rightarrow> Config \<Rightarrow> AppState option \<Rightarrow> target \<Rightarrow> target" where
  "prune_attempts env cfg current t =
     (case on_app ReadPins t of
        (Inl _, t1) \<Rightarrow> t1
      | (Inr pins, t1) \<Rightarrow>
          (case on_docker (ListContainers (cf_App cfg)) t1 of
             (Inl _, t2) \<Rightarrow> t2
           | (Inr cs, t2) \<Rightarrow>
               (let keep = [cf_Version cfg, previous_hash current] @ pins
                      @ filter (\<lambda>v. v \<noteq> []) (map (\<lambda>c. label c ''teploy.version'') cs);
                    gone = fst (PruneAttempts (de_list_root env) (de_rm_fails env) (cf_App cfg) keep)
                in snd (on_files (run_cmd (\<lambda>_. Inr [\<lambda>g. g\<lparr>af_attempts := filter (\<lambda>a. a \<notin> set gone) (af_attempts g)\<rparr>])) t2))))"

definition lock_ok :: "Lock option \<Rightarrow> target \<Rightarrow> bool \<times> target" where
  "lock_ok lk t = (case check_lock lk t of (r, t1) \<Rightarrow> (r = Inr (), t1))"

text \<open>
  The predecessor is retired by its snapshot; when that could not be taken, by a new listing, and
  by names when the listing fails too.
\<close>

definition retire_predecessor ::
  "deploy_env \<Rightarrow> Config \<Rightarrow> Lock option \<Rightarrow> AppState option \<Rightarrow> bool \<Rightarrow> Container list option \<Rightarrow> target
     \<Rightarrow> retire_gap list \<times> target" where
  "retire_predecessor env cfg lk current sameVersion predecessors t =
     (let dm = dk_refuses (de_docker env); g = generation_of current;
          retire = (\<lambda>ps t. let (es, t1) = on_docker (stopPredecessorSnapshot dm ps sameVersion g (GuardPrefix lk)) t
                           in (map Escaped es, t1))
      in case predecessors of
           Some ps \<Rightarrow> retire ps t
         | None \<Rightarrow>
             (case current of
                None \<Rightarrow> ([], t)
              | Some s \<Rightarrow>
                  if CurrentHash s = [] then ([], t)
                  else
                    (let (ok, t1) = lock_ok lk t
                     in if \<not> ok then ([CleanupSkipped], t1)
                        else
                          (case on_docker (ListContainers (cf_App cfg)) t1 of
                             (Inr cs, t2) \<Rightarrow> retire (selectPredecessors cs s sameVersion) t2
                           | (Inl _, t2) \<Rightarrow>
                               (let (es, t3) = on_docker (stopOldWorkloadsByName dm (cf_App cfg) (cf_Version cfg) current
                                                 (map fst (processes_of cfg))) t2
                                in (map Escaped es, t3))))))"

text \<open>\<open>defaultPruneDue\<close> with its commands: the listing, the notice and the writing of a new one.\<close>

definition default_prune_due :: "deploy_env \<Rightarrow> Config \<Rightarrow> int \<Rightarrow> string list \<Rightarrow> target \<Rightarrow> bool \<times> target" where
  "default_prune_due env cfg keep protected t =
     (let (listing, t1) = on_docker (ListContainers (cf_App cfg)) t
      in case listing of
           Inl _ \<Rightarrow> (False, t1)
         | Inr cs \<Rightarrow>
             if PrunableVersions cs keep protected = [] then (False, t1)
             else
               (let (notice, t2) = on_files (run_read af_notice) t1;
                    writes = (case notice of Inr n \<Rightarrow> ParsePruneNotice n = None | Inl _ \<Rightarrow> False);
                    (written, t3) = (if writes then on_files (run_cmd (upload (\<lambda>f. f\<lparr>af_notice := Some (rfc3339 (de_now env))\<rparr>))) t2
                                     else (Inr (), t2))
                in (fst (defaultPruneDue listing keep protected notice (written = Inr ()) (de_now env)), t3)))"

text \<open>Step 15b: the fence, the pins, the notice of the default window, the prune.\<close>

definition prune_versions :: "deploy_env \<Rightarrow> Config \<Rightarrow> Lock option \<Rightarrow> AppState option \<Rightarrow> target \<Rightarrow> target" where
  "prune_versions env cfg lk current t =
     (let (keep, explicit) = EffectiveKeepVersions (cf_KeepVersions cfg)
      in if keep \<le> 0 then t
         else
           (let (ok, t1) = lock_ok lk t
            in if \<not> ok then t1
               else
                 (case on_app ReadPins t1 of
                    (Inl _, t2) \<Rightarrow> t2
                  | (Inr pins, t2) \<Rightarrow>
                      (let protected = [cf_Version cfg, previous_hash current] @ pins;
                           (due, t3) = (if explicit then (True, t2) else default_prune_due env cfg keep protected t2)
                       in snd (on_docker (deploy_prune (dk_refuses (de_docker env)) (cf_App cfg) (cf_KeepVersions cfg) True
                                 (cf_Version cfg) (previous_hash current) (Inr pins) (\<lambda>_. due)) t3)))))"

section \<open>The deploy\<close>

text \<open>What is settled before the first candidate starts.\<close>

record plan =
  dp_image :: string
  dp_digest :: string
  dp_current :: "AppState option"
  dp_resolved :: string
  dp_stale :: staleRouteBlock
  dp_ports :: "int list"
  dp_volumes :: str_map
  dp_predecessors :: "Container list option"
  dp_displaced :: "string list"

definition same_version :: "Config \<Rightarrow> AppState option \<Rightarrow> bool" where
  "same_version cfg current =
     (case current of None \<Rightarrow> False | Some s \<Rightarrow> CurrentHash s = cf_Version cfg)"

definition read_current :: "deploy_env \<Rightarrow> (deploy_error, AppState option) step" where
  "read_current env = failing StateUnreadable (on_app (ReadIncludingTombstone (de_lib env)))"

definition prepare_plan ::
  "deploy_env \<Rightarrow> Config \<Rightarrow> Lock option \<Rightarrow> Attempt \<Rightarrow> (deploy_error, plan) step" where
  "prepare_plan env cfg lk att t =
     (let (resolved, t0) = on_docker (ResolveImageID env (cf_Image cfg)) t;
          img = (case resolved of Some i \<Rightarrow> i | None \<Rightarrow> cf_Image cfg)
      in seq (admitConfigHome env cfg lk) (\<lambda>_.
         seq (read_current env) (\<lambda>current.
         seq (provision_volumes env (GuardPrefix lk) (sort (map fst (cf_VolumeOwnership cfg)))) (\<lambda>_.
         seq (resolve_route env cfg) (\<lambda>(route, stale).
         seq (repair_debt env cfg) (\<lambda>_.
         seq (reconcile_takeover env cfg lk current) (\<lambda>_.
         seq (web_ports env cfg) (\<lambda>ports.
         seq (bridge_assets env cfg att img) (\<lambda>volumes.
         seq (step_aside env cfg lk (same_version cfg current)) (\<lambda>_.
         seq (\<lambda>t. let (ps, t1) = snapshot_predecessors env cfg att current (same_version cfg current) t in (Inr ps, t1)) (\<lambda>ps.
         seq (displace_web env cfg lk) (\<lambda>displaced.
         yield \<lparr>dp_image = img, dp_digest = plannedImageDigest (cf_Image cfg) img (cf_Provenance cfg),
                dp_current = current, dp_resolved = route, dp_stale = stale, dp_ports = ports,
                dp_volumes = volumes, dp_predecessors = ps, dp_displaced = displaced\<rparr>))))))))))) t0)"

text \<open>Everything that follows a commit: none of it fails the deploy.\<close>

definition after_commit ::
  "deploy_env \<Rightarrow> Config \<Rightarrow> Lock option \<Rightarrow> Attempt \<Rightarrow> plan \<Rightarrow> AppState \<Rightarrow> target \<Rightarrow> target" where
  "after_commit env cfg lk att p s t =
     (let current = dp_current p; same = same_version cfg current;
          (kept, t1) = retire_route env cfg lk (generation_of current) (dp_stale p) t;
          (rec, t2) = recordRelease env (cfg\<lparr>cf_Volumes := dp_volumes p\<rparr>) att s (dp_ports p) t1;
          t3 = remove_env_files (AttemptEnvFiles (cf_App cfg) (cf_EnvFiles cfg)) t2;
          t4 = prune_attempts env cfg current t3;
          (gaps, t5) = retire_predecessor env cfg lk current same (dp_predecessors p) t4;
          t6 = prune_versions env cfg lk current t5;
          degraded = (gaps @ (if kept then [StaleRouteKept] else []) \<noteq> [])
      in verifyPlanReceiptEquality env rec att (dp_digest p) (logDeploy cfg True degraded t6))"

text \<open>The switch and the commit, once the candidates have passed.\<close>

definition finish_deploy ::
  "deploy_env \<Rightarrow> Config \<Rightarrow> Lock option \<Rightarrow> Attempt \<Rightarrow> plan \<Rightarrow> started \<Rightarrow> (deploy_failure, unit) step" where
  "finish_deploy env cfg lk att p started t =
     (let current = dp_current p; from_gen = generation_of current; next = from_gen + 1
      in case switch_route env cfg lk from_gen next (dp_resolved p) t of
           (Inl e, t1) \<Rightarrow>
             (let (f, t2) = restoreDisplacedAndStarted env cfg att from_gen next started (dp_displaced p) e t1
              in (Inl f, t2))
         | (Inr switched, t1) \<Rightarrow>
             (let (digest, t2) = deployed_digest env cfg (snd (post_deploy_hook env cfg t1));
                  s = newState env cfg current (dp_ports p) digest
              in case commit_state env cfg lk current s t2 of
                   (Inr _, t3) \<Rightarrow> (Inr (), after_commit env cfg lk att p s t3)
                 | (Inl e, t3) \<Rightarrow>
                     if PreservePublishedState e then (Inl (Unresolved e), t3)
                     else (let (f, t4) = abortStateCommit env cfg current started (dp_displaced p) att
                                           (restoreRouteCAS (dp_resolved p) switched) e t3
                           in (Inl f, t4))))"

definition deployFenced :: "deploy_env \<Rightarrow> Config \<Rightarrow> Lock option \<Rightarrow> (deploy_failure, unit) step" where
  "deployFenced env cfg lk t =
     (let att = \<lparr>at_App = cf_App cfg, at_Hash = cf_Version cfg, at_ID = de_attempt env\<rparr>
      in case prepare_plan env cfg lk att t of
           (Inl e, t1) \<Rightarrow> (Inl (Refused e), t1)
         | (Inr p, t1) \<Rightarrow>
             (let from_gen = generation_of (dp_current p); next = from_gen + 1
              in case prepare_candidates env cfg lk att next (dp_image p) (dp_volumes p) (dp_ports p) t1 of
                   (Inl (e, started), t2) \<Rightarrow>
                     (let (f, t3) = restoreDisplacedAndStarted env cfg att from_gen next started (dp_displaced p) e t2
                      in (Inl f, t3))
                 | (Inr started, t2) \<Rightarrow> finish_deploy env cfg lk att p started t2))"

definition DeployFenced :: "deploy_env \<Rightarrow> Config \<Rightarrow> Lock option \<Rightarrow> (deploy_failure, unit) step" where
  "DeployFenced env cfg lk t =
     (case validate cfg of Some e \<Rightarrow> (Inl (Refused (InvalidConfig e)), t) | None \<Rightarrow> deployFenced env cfg lk t)"

definition DeployLocked :: "deploy_env \<Rightarrow> Config \<Rightarrow> (deploy_failure, unit) step" where
  "DeployLocked env cfg = DeployFenced env cfg None"

datatype outer_failure = Invalid config_error | AppDirFailed state_error | NotLocked lock_error | During deploy_failure

text \<open>
  \<open>Deploy\<close>: the app's directory, the lock with its renewals, the deploy and the release.  The
  parameters of the acquisition are those of \<open>AcquireLockFenced\<close>; \<open>None\<close> is an acquisition whose
  waiting goes on past the given rounds.
\<close>

definition Deploy ::
  "deploy_env \<Rightarrow> Config \<Rightarrow> int \<Rightarrow> int \<Rightarrow> string \<Rightarrow> string \<Rightarrow> (int \<times> int \<times> bool) list \<Rightarrow> target
     \<Rightarrow> ((outer_failure, unit) result \<times> target) option" where
  "Deploy env cfg lockWait deadline owner holder rounds t =
     (case validate cfg of
        Some e \<Rightarrow> Some (Inl (Invalid e), t)
      | None \<Rightarrow>
          (case on_app EnsureAppDir t of
             (Inl e, t1) \<Rightarrow> Some (Inl (AppDirFailed e), t1)
           | (Inr _, t1) \<Rightarrow>
               map_option (\<lambda>(r, w).
                   let t2 = t1\<lparr>tg_app := w\<rparr>
                   in case r of
                        Inl e \<Rightarrow> (Inl (NotLocked e), t2)
                      | Inr l \<Rightarrow>
                          (let (d, t3) = DeployFenced env cfg (Some l) t2
                           in (case d of Inl f \<Rightarrow> Inl (During f) | Inr _ \<Rightarrow> Inr (),
                               t3\<lparr>tg_app := ReleaseLockFenced (Some l) (cf_App cfg) (tg_app t3)\<rparr>)))
                 (AcquireLockFenced (cf_App cfg) lockWait deadline owner holder rounds (tg_app t1))))"

end
