(* ===== verification/CaddyfileLaws.thy ===== *)
theory CaddyfileLaws
  imports CaddyRender
begin

text \<open>
  The laws of the Caddyfile editor.  A file is well marked when its marker lines pair up without
  nesting and no app has two regions; the editor refuses some of the other files and its own
  edits never leave this class.  On a well-marked file an edit is described by an abstract view:
  the non-blank lines in order, each with the app that owns it.  The editor refines the obvious
  operations on that view.
\<close>

section \<open>Marker lines are recognised\<close>

lemma markerName_chars:
  assumes "markerName app" and "c \<in> set app"
  shows "\<not> is_space c" "c \<noteq> newline" "c \<noteq> CHR 0x0D" "c \<noteq> CHR 0x20" "c \<noteq> CHR ''#''"
proof -
  have "lower_alnum c \<or> c = CHR ''-''"
    using assms by (auto simp: markerName_def list_all_iff)
  then show "\<not> is_space c" "c \<noteq> newline" "c \<noteq> CHR 0x0D" "c \<noteq> CHR 0x20" "c \<noteq> CHR ''#''"
    by (auto simp: lower_alnum_def is_digit_def is_space_def)
qed

lemma trim_right_last: "s \<noteq> [] \<Longrightarrow> \<not> p (List.last s) \<Longrightarrow> trim_right p s = s"
  by (cases s rule: rev_cases) (simp_all add: trim_right_def)

lemma trim_left_hd: "s \<noteq> [] \<Longrightarrow> \<not> p (hd s) \<Longrightarrow> trim_left p s = s"
  by (cases s) (simp_all add: trim_left_def)

lemma trim_space_solid:
  "s \<noteq> [] \<Longrightarrow> \<not> is_space (hd s) \<Longrightarrow> \<not> is_space (List.last s) \<Longrightarrow> trim_space s = s"
  by (simp add: trim_space_def trim_left_hd trim_right_last)

lemma suffix_single: "suffix [c] s \<longleftrightarrow> s \<noteq> [] \<and> List.last s = c"
  by (cases s rule: rev_cases) (auto simp: suffix_def)

lemma markerName_ends:
  assumes "markerName app"
  shows "app \<noteq> []" "\<not> is_space (hd app)" "\<not> is_space (List.last app)" "List.last app \<noteq> CHR 0x0D"
proof -
  show ne: "app \<noteq> []"
    using assms by (simp add: markerName_def)
  then show "\<not> is_space (hd app)" "\<not> is_space (List.last app)" "List.last app \<noteq> CHR 0x0D"
    using markerName_chars [OF assms] by auto
qed

lemma marker_app_solid:
  assumes "markerName app" and "p \<noteq> []" and "\<not> is_space (hd p)"
  shows "marker_app p (p @ app) = Some app"
proof -
  note ends = markerName_ends [OF assms(1)]
  have "trim_suffix [CHR 0x0D] (p @ app) = p @ app"
    using ends by (simp add: trim_suffix_def suffix_single)
  moreover have "trim_space (p @ app) = p @ app"
    using ends assms by (intro trim_space_solid) auto
  moreover have "trim_space app = app"
    using ends by (intro trim_space_solid) auto
  ultimately show ?thesis
    using assms(1) by (simp add: marker_app_def Let_def trim_prefix_def)
qed

lemma begin_of_marker_begin [simp]: "markerName app \<Longrightarrow> beginMarkerApp (marker_begin app) = Some app"
  unfolding beginMarkerApp_def marker_begin_def
  by (rule marker_app_solid) (simp_all add: markerBeginPrefix_def is_space_def)

lemma end_of_marker_end [simp]: "markerName app \<Longrightarrow> endMarkerApp (marker_end app) = Some app"
  unfolding endMarkerApp_def marker_end_def
  by (rule marker_app_solid) (simp_all add: markerEndPrefix_def is_space_def)

lemma marker_app_prefix:
  "marker_app p l = Some n \<Longrightarrow> prefix p (trim_space (trim_suffix [CHR 0x0D] l))"
  by (auto simp: marker_app_def Let_def split: if_splits)

lemma begin_not_end: "beginMarkerApp l = Some n \<Longrightarrow> endMarkerApp l = None"
proof (rule ccontr)
  assume b: "beginMarkerApp l = Some n" and "endMarkerApp l \<noteq> None"
  then obtain m where e: "endMarkerApp l = Some m" by auto
  have "prefix markerBeginPrefix (trim_space (trim_suffix [CHR 0x0D] l))"
    and "prefix markerEndPrefix (trim_space (trim_suffix [CHR 0x0D] l))"
    using b e marker_app_prefix by (auto simp: beginMarkerApp_def endMarkerApp_def)
  then show False
    by (auto simp: markerBeginPrefix_def markerEndPrefix_def prefix_def)
qed

lemma begin_of_marker_end [simp]: "markerName app \<Longrightarrow> beginMarkerApp (marker_end app) = None"
  using begin_not_end [of "marker_end app"] by (cases "beginMarkerApp (marker_end app)") auto

lemma end_of_marker_begin [simp]: "markerName app \<Longrightarrow> endMarkerApp (marker_begin app) = None"
  using begin_not_end [of "marker_begin app"] by simp

lemma no_marker_Nil [simp]: "beginMarkerApp [] = None" "endMarkerApp [] = None"
  by (simp_all add: beginMarkerApp_def endMarkerApp_def marker_app_def markerBeginPrefix_def
      markerEndPrefix_def trim_suffix_def trim_space_def trim_left_def trim_right_def)

lemma block_target_begin [simp]: "markerName app \<Longrightarrow> block_target (marker_begin app) = app"
  using markerName_ends [of app]
  by (simp add: block_target_def marker_begin_def trim_prefix_def trim_space_solid)

lemma marker_no_newline [simp]:
  "markerName app \<Longrightarrow> newline \<notin> set (marker_begin app)"
  "markerName app \<Longrightarrow> newline \<notin> set (marker_end app)"
  using markerName_chars(2) [of app newline]
  by (auto simp: marker_begin_def marker_end_def markerBeginPrefix_def markerEndPrefix_def)

lemma marker_not_Nil [simp]: "marker_begin app \<noteq> []" "marker_end app \<noteq> []"
  by (simp_all add: marker_begin_def marker_end_def markerBeginPrefix_def markerEndPrefix_def)

section \<open>Blank-line collapse\<close>

text \<open>What the collapse loop computes: every run of newlines is cut to two.\<close>

fun squeeze :: "nat \<Rightarrow> string \<Rightarrow> string" where
  "squeeze k [] = []"
| "squeeze k (c # s) =
     (if c = newline then (if 2 \<le> k then squeeze k s else c # squeeze (Suc k) s)
      else c # squeeze 0 s)"

lemma squeeze_nl2:
  assumes "k \<le> 2"
  shows "squeeze k (newline # newline # x) = replicate (2 - k) newline @ squeeze 2 x"
proof -
  have "k = 0 \<or> k = 1 \<or> k = 2" using assms by auto
  then show ?thesis by (auto simp: numeral_2_eq_2)
qed

lemma squeeze_nl3: "k \<le> 2 \<Longrightarrow> squeeze k (nl3 @ x) = squeeze k (nl2 @ x)"
proof -
  assume "k \<le> 2"
  then have "k = 0 \<or> k = 1 \<or> k = 2" by auto
  then show ?thesis by (auto simp: numeral_2_eq_2)
qed

lemma squeeze_nl2_cong: "k \<le> 2 \<Longrightarrow> squeeze 2 x = squeeze 2 y \<Longrightarrow> squeeze k (nl2 @ x) = squeeze k (nl2 @ y)"
  by (simp only: append.simps squeeze_nl2)

lemma squeeze_replace: "k \<le> 2 \<Longrightarrow> squeeze k (replace_all nl3 nl2 s) = squeeze k s"
proof (induction nl3 nl2 s arbitrary: k rule: replace_all.induct)
  case (1 s)
  show ?case
  proof (cases "prefix nl3 s")
    case True
    then obtain t where s: "s = nl3 @ t" by (auto simp: prefix_def)
    have "squeeze 2 (replace_all nl3 nl2 t) = squeeze 2 t"
      using 1(1) [of 2] True s by simp
    then have "squeeze k (nl2 @ replace_all nl3 nl2 t) = squeeze k (nl2 @ t)"
      using 1(3) by (rule squeeze_nl2_cong [rotated])
    moreover have "replace_all nl3 nl2 s = nl2 @ replace_all nl3 nl2 t"
      by (subst replace_all.simps) (simp add: s)
    ultimately show ?thesis
      using squeeze_nl3 [OF 1(3), of t] by (simp only: s)
  next
    case False
    show ?thesis
    proof (cases s)
      case (Cons c cs)
      have IH: "squeeze j (replace_all nl3 nl2 cs) = squeeze j cs" if "j \<le> 2" for j
        using 1(2) [of c cs j] False Cons that by simp
      have "replace_all nl3 nl2 s = c # replace_all nl3 nl2 cs"
        using False by (subst replace_all.simps) (auto simp: Cons)
      then show ?thesis
        using 1(3) IH by (simp add: Cons)
    qed (subst replace_all.simps, simp)
  qed
qed

lemma sublist_appendI_left_Cons: "sublist p s \<Longrightarrow> sublist p (xs @ c # s)"
  by (metis append.assoc append_Cons append_Nil sublist_append sublist_def)

lemma squeeze_fix:
  "k \<le> 2 \<Longrightarrow> \<not> contains_str nl3 (replicate k newline @ s) \<Longrightarrow> squeeze k s = s"
proof (induction s arbitrary: k)
  case Nil
  then show ?case by simp
next
  case (Cons c s)
  show ?case
  proof (cases "c = newline")
    case True
    with Cons.prems have "k \<noteq> 2"
      by (auto simp: numeral_2_eq_2)
    moreover have "replicate k newline @ newline # s = replicate (Suc k) newline @ s"
      by (simp add: replicate_app_Cons_same)
    then have "\<not> contains_str nl3 (replicate (Suc k) newline @ s)"
      using Cons.prems(2) True by metis
    ultimately have "squeeze (Suc k) s = s"
      using Cons.prems(1) by (intro Cons.IH) simp_all
    moreover have "\<not> 2 \<le> k"
      using \<open>k \<noteq> 2\<close> Cons.prems(1) by linarith
    ultimately show ?thesis
      using True by simp
  next
    case False
    have "sublist nl3 (replicate k newline @ c # s)" if "sublist nl3 s"
      using that by (intro sublist_appendI_left_Cons)
    then have "\<not> contains_str nl3 (replicate 0 newline @ s)"
      using Cons.prems(2) by (auto simp only: contains_str_sublist replicate_0 append_Nil)
    then have "squeeze 0 s = s"
      by (intro Cons.IH) simp_all
    with False show ?thesis
      by simp
  qed
qed

lemma collapse_blank_squeeze: "collapse_blank s = squeeze 0 s"
proof (induction s rule: collapse_blank.induct)
  case (1 s)
  show ?case
  proof (cases "contains_str nl3 s")
    case True
    with 1 show ?thesis
      by (subst collapse_blank.simps) (simp add: squeeze_replace)
  next
    case False
    then show ?thesis
      by (subst collapse_blank.simps) (simp add: squeeze_fix [of 0 s, simplified])
  qed
qed

fun squeeze_lines :: "nat \<Rightarrow> string list \<Rightarrow> string list" where
  "squeeze_lines k [] = []"
| "squeeze_lines k [l] = [l]"
| "squeeze_lines k (l # m # ls) =
     (if l = [] then (if 2 \<le> k then squeeze_lines k (m # ls) else [] # squeeze_lines (Suc k) (m # ls))
      else l # squeeze_lines 1 (m # ls))"

lemma squeeze_lines_Nil [simp]: "squeeze_lines k ls = [] \<longleftrightarrow> ls = []"
  by (induction k ls rule: squeeze_lines.induct) auto

lemma squeeze_append_solid:
  "newline \<notin> set l \<Longrightarrow> l \<noteq> [] \<Longrightarrow> squeeze k (l @ s) = l @ squeeze 0 s"
proof (induction l arbitrary: k)
  case (Cons a l)
  then show ?case
    by (cases "l = []") auto
qed simp

lemma squeeze_unlines:
  "\<forall>l \<in> set ls. newline \<notin> set l \<Longrightarrow> squeeze k (unlines ls) = unlines (squeeze_lines k ls)"
proof (induction k ls rule: squeeze_lines.induct)
  case (2 k l)
  then show ?case
    using squeeze_append_solid [of l k "[]"] by (cases "l = []") auto
next
  case (3 k l m ls)
  then show ?case
    by (cases "l = []") (auto simp: squeeze_append_solid join_with_Cons)
qed simp

lemma squeeze_lines_set: "set (squeeze_lines k ls) \<subseteq> set ls"
  by (induction k ls rule: squeeze_lines.induct) auto

lemma lines_of_collapse: "lines_of (collapse_blank s) = squeeze_lines 0 (lines_of s)"
proof -
  have nonl: "\<forall>l \<in> set (lines_of s). newline \<notin> set l"
    using split_on_no_sep by blast
  then have "\<forall>l \<in> set (squeeze_lines 0 (lines_of s)). newline \<notin> set l"
    using squeeze_lines_set by blast
  moreover have "collapse_blank s = unlines (squeeze_lines 0 (lines_of s))"
    using squeeze_unlines [OF nonl, of 0] by (simp add: collapse_blank_squeeze)
  ultimately show ?thesis
    by (simp add: split_join)
qed

section \<open>Trailing newlines\<close>

lemma split_on_append: "split_on c (s @ c # t) = split_on c s @ split_on c t"
proof (induction s)
  case Nil
  then show ?case by simp
next
  case (Cons x s)
  obtain y ys where "split_on c s = y # ys"
    by (meson list.exhaust split_on_not_Nil)
  with Cons show ?case by auto
qed

lemma split_on_trailing: "split_on c (s @ replicate n c) = split_on c s @ replicate n []"
proof (induction n)
  case (Suc n)
  have "split_on c (s @ replicate (Suc n) c) = split_on c ((s @ replicate n c) @ c # [])"
    by (simp add: replicate_append_same)
  also have "\<dots> = (split_on c s @ replicate n []) @ [[]]"
    using Suc by (simp only: split_on_append split_on.simps)
  finally show ?case
    by (simp add: replicate_append_same)
qed simp

lemma trim_newlines_replicate: "\<exists>n. s = trim_newlines s @ replicate n newline"
proof (induction s rule: rev_induct)
  case Nil
  then show ?case
    by (simp add: trim_newlines_def trim_right_def)
next
  case (snoc c s)
  show ?case
  proof (cases "c = newline")
    case True
    then have "trim_newlines (s @ [c]) = trim_newlines s"
      by (simp add: trim_newlines_def trim_right_def)
    moreover obtain n where "s = trim_newlines s @ replicate n newline"
      using snoc by blast
    ultimately have "s @ [c] = trim_newlines (s @ [c]) @ replicate (Suc n) newline"
      using True by (metis append_assoc replicate_append_same replicate_Suc)
    then show ?thesis by blast
  next
    case False
    then show ?thesis
      by (intro exI [of _ 0]) (simp add: trim_newlines_def trim_right_def)
  qed
qed

lemma lines_of_trim: "\<exists>n. lines_of s = lines_of (trim_newlines s) @ replicate n []"
  using trim_newlines_replicate [of s] split_on_trailing by metis


section \<open>The abstract view of the file\<close>

text \<open>Each line with its owner: the app of the region it lies in, markers included.\<close>

fun tags :: "string option \<Rightarrow> string list \<Rightarrow> (string option \<times> string) list" where
  "tags cur [] = []"
| "tags cur (l # ls) =
     (case beginMarkerApp l of
        Some n \<Rightarrow> (Some n, l) # tags (Some n) ls
      | None \<Rightarrow> (case endMarkerApp l of
                  Some n \<Rightarrow> (cur, l) # tags None ls
                | None \<Rightarrow> (cur, l) # tags cur ls))"

text \<open>Markers pair up, do not nest, and no app in \<open>seen\<close> opens a region again.\<close>

fun well_marked_from :: "string list \<Rightarrow> string option \<Rightarrow> string list \<Rightarrow> bool" where
  "well_marked_from seen cur [] \<longleftrightarrow> cur = None"
| "well_marked_from seen cur (l # ls) \<longleftrightarrow>
     (case beginMarkerApp l of
        Some n \<Rightarrow> cur = None \<and> n \<notin> set seen \<and> well_marked_from (n # seen) (Some n) ls
      | None \<Rightarrow> (case endMarkerApp l of
                  Some n \<Rightarrow> cur = Some n \<and> well_marked_from seen None ls
                | None \<Rightarrow> well_marked_from seen cur ls))"

definition well_marked :: "string \<Rightarrow> bool" where
  "well_marked content = well_marked_from [] None (lines_of content)"

definition file_view :: "string \<Rightarrow> (string option \<times> string) list" where
  "file_view content = filter (\<lambda>(a, l). l \<noteq> []) (tags None (lines_of content))"

definition drop_app :: "string \<Rightarrow> (string option \<times> string) list \<Rightarrow> (string option \<times> string) list" where
  "drop_app app v = filter (\<lambda>(a, l). a \<noteq> Some app) v"

definition put_app ::
  "string \<Rightarrow> string list \<Rightarrow> (string option \<times> string) list \<Rightarrow> (string option \<times> string) list" where
  "put_app app ls v = drop_app app v @ map (Pair (Some app)) (filter (\<lambda>l. l \<noteq> []) ls)"

definition owned_from :: "string \<Rightarrow> string option \<Rightarrow> string list \<Rightarrow> string list" where
  "owned_from app cur ls = map snd (filter (\<lambda>(a, l). a = Some app) (tags cur ls))"

definition plain_line :: "string \<Rightarrow> bool" where
  "plain_line l \<longleftrightarrow> beginMarkerApp l = None \<and> endMarkerApp l = None"

named_theorems marking \<open>how scans of marker lines step\<close>

lemma tags_plain [marking]: "plain_line l \<Longrightarrow> tags cur (l # ls) = (cur, l) # tags cur ls"
  by (simp add: plain_line_def)

lemma well_marked_plain [marking]:
  "plain_line l \<Longrightarrow> well_marked_from seen cur (l # ls) = well_marked_from seen cur ls"
  by (simp add: plain_line_def)

lemma plain_Nil [simp]: "plain_line []"
  by (simp add: plain_line_def)

lemma tags_lines [simp]: "map snd (tags cur ls) = ls"
  by (induction cur ls rule: tags.induct) (auto split: option.splits)

text \<open>The owner at the end of a scan, so that scans compose.\<close>

fun owner_after :: "string option \<Rightarrow> string list \<Rightarrow> string option" where
  "owner_after cur [] = cur"
| "owner_after cur (l # ls) =
     (case beginMarkerApp l of
        Some n \<Rightarrow> owner_after (Some n) ls
      | None \<Rightarrow> (case endMarkerApp l of Some n \<Rightarrow> owner_after None ls | None \<Rightarrow> owner_after cur ls))"

lemma tags_append: "tags cur (xs @ ys) = tags cur xs @ tags (owner_after cur xs) ys"
  by (induction cur xs rule: tags.induct) (auto split: option.splits)

lemma owner_after_append: "owner_after cur (xs @ ys) = owner_after (owner_after cur xs) ys"
  by (induction cur xs rule: tags.induct) (auto split: option.splits)

lemma well_marked_owner_after: "well_marked_from seen cur ls \<Longrightarrow> owner_after cur ls = None"
  by (induction seen cur ls rule: well_marked_from.induct) (auto split: option.splits)

fun opened :: "string list \<Rightarrow> string list" where
  "opened [] = []"
| "opened (l # ls) = (case beginMarkerApp l of Some n \<Rightarrow> n # opened ls | None \<Rightarrow> opened ls)"

lemma well_marked_append:
  "well_marked_from seen cur xs \<Longrightarrow>
     well_marked_from seen cur (xs @ ys) = well_marked_from (rev (opened xs) @ seen) None ys"
  by (induction seen cur xs rule: well_marked_from.induct) (auto split: option.splits)

lemma well_marked_seen_fresh:
  "well_marked_from seen cur ls \<Longrightarrow> n \<in> set seen \<Longrightarrow> n \<notin> set (opened ls)"
  by (induction seen cur ls rule: well_marked_from.induct) (auto split: option.splits)

lemma owned_not_opened:
  "n \<notin> set (opened ls) \<Longrightarrow> cur \<noteq> Some n \<Longrightarrow> owned_from n cur ls = []"
  by (induction cur ls rule: tags.induct) (auto simp: owned_from_def split: option.splits)

lemma owned_from_Cons:
  "owned_from n cur (l # ls) =
     (case beginMarkerApp l of
        Some m \<Rightarrow> (if m = n then [l] else []) @ owned_from n (Some m) ls
      | None \<Rightarrow> (if cur = Some n then [l] else [])
          @ owned_from n (if endMarkerApp l = None then cur else None) ls)"
  by (auto simp: owned_from_def split: option.splits)

lemma region_loop_owned:
  assumes "well_marked_from seen cur ls"
  shows "cur \<noteq> Some app \<Longrightarrow> region_loop app False out ls =
      (if owned_from app cur ls = [] then [] else unlines (out @ owned_from app cur ls))"
    and "cur = Some app \<Longrightarrow> app \<in> set seen \<Longrightarrow>
      region_loop app True out ls = unlines (out @ owned_from app cur ls)"
  using assms
proof (induction ls arbitrary: seen cur out)
  case Nil
  { case 1 then show ?case by (simp add: owned_from_def) }
  { case 2 then show ?case by simp }
next
  case (Cons l ls)
  { case 1
    show ?case
    proof (cases "beginMarkerApp l")
      case (Some n)
      with 1 have w: "well_marked_from (n # seen) (Some n) ls" by simp
      show ?thesis
      proof (cases "n = app")
        case True
        with Cons.IH(2) [OF _ _ w, of "out @ [l]"] Some show ?thesis
          by (simp add: owned_from_Cons)
      next
        case False
        with Cons.IH(1) [OF _ w, of out] Some show ?thesis
          by (simp add: owned_from_Cons)
      qed
    next
      case None
      show ?thesis
      proof (cases "endMarkerApp l")
        case (Some n)
        with 1 None have w: "well_marked_from seen None ls" by simp
        with Cons.IH(1) [OF _ w, of out] Some None 1 show ?thesis
          by (simp add: owned_from_Cons)
      next
        case N: None
        with 1 None have w: "well_marked_from seen cur ls" by simp
        with Cons.IH(1) [OF _ w, of out] N None 1 show ?thesis
          by (simp add: owned_from_Cons)
      qed
    qed }
  { case 2
    then have b: "beginMarkerApp l = None"
      by (auto split: option.splits)
    show ?case
    proof (cases "endMarkerApp l")
      case (Some n)
      with 2 b have "n = app" and w: "well_marked_from seen None ls" by auto
      moreover have "owned_from app None ls = []"
        using well_marked_seen_fresh [OF w 2(2)] by (simp add: owned_not_opened)
      ultimately show ?thesis
        using Some b 2(1) by (simp add: owned_from_Cons)
    next
      case None
      with 2 b have w: "well_marked_from seen cur ls" by simp
      with Cons.IH(2) [OF 2(1) 2(2) w, of "out @ [l]"] None b 2(1) show ?thesis
        by (simp add: owned_from_Cons)
    qed }
qed

lemma extractManagedRegion_owned:
  "well_marked content \<Longrightarrow>
     extractManagedRegion content app = unlines (owned_from app None (lines_of content))"
  using region_loop_owned(1) [of "[]" None "lines_of content" app "[]"]
  by (simp add: well_marked_def extractManagedRegion_def)


section \<open>Removing a region\<close>

definition kept_from :: "string \<Rightarrow> string option \<Rightarrow> string list \<Rightarrow> string list" where
  "kept_from app cur ls = map snd (drop_app app (tags cur ls))"

lemma kept_from_Cons:
  "kept_from app cur (l # ls) =
     (case beginMarkerApp l of
        Some m \<Rightarrow> (if m = app then [] else [l]) @ kept_from app (Some m) ls
      | None \<Rightarrow> (if cur = Some app then [] else [l])
          @ kept_from app (if endMarkerApp l = None then cur else None) ls)"
  by (auto simp: kept_from_def drop_app_def split: option.splits)

lemma remove_loop_kept:
  assumes "well_marked_from seen cur ls"
  shows "cur \<noteq> Some app \<Longrightarrow> (removed \<Longrightarrow> app \<in> set seen) \<Longrightarrow>
      remove_loop app False removed out ls =
        Inr (False, removed \<or> app \<in> set (opened ls), out @ kept_from app cur ls)"
    and "cur = Some app \<Longrightarrow> app \<in> set seen \<Longrightarrow>
      remove_loop app True True out ls = Inr (False, True, out @ kept_from app cur ls)"
  using assms
proof (induction ls arbitrary: seen cur out removed)
  case Nil
  { case 1 then show ?case by (simp add: kept_from_def drop_app_def) }
  { case 2 then show ?case by simp }
next
  case (Cons l ls)
  { case 1
    show ?case
    proof (cases "beginMarkerApp l")
      case (Some n)
      with 1 have w: "well_marked_from (n # seen) (Some n) ls" and fresh: "n \<notin> set seen" by simp_all
      show ?thesis
      proof (cases "n = app")
        case True
        with 1 fresh have "\<not> removed" by blast
        with Cons.IH(2) [OF _ _ w, of out] Some True show ?thesis
          by (simp add: kept_from_Cons)
      next
        case False
        with Cons.IH(1) [OF _ _ w, of removed "out @ [l]"] Some 1(2) show ?thesis
          by (auto simp: kept_from_Cons)
      qed
    next
      case None
      show ?thesis
      proof (cases "endMarkerApp l")
        case (Some n)
        with 1 None have w: "well_marked_from seen None ls" and "n \<noteq> app" by auto
        with Cons.IH(1) [OF _ _ w, of removed "out @ [l]"] Some None 1 show ?thesis
          by (simp add: kept_from_Cons)
      next
        case N: None
        with 1 None have w: "well_marked_from seen cur ls" by simp
        with Cons.IH(1) [OF _ _ w, of removed "out @ [l]"] N None 1 show ?thesis
          by (simp add: kept_from_Cons)
      qed
    qed }
  { case 2
    then have b: "beginMarkerApp l = None"
      by (auto split: option.splits)
    show ?case
    proof (cases "endMarkerApp l")
      case (Some n)
      with 2 b have "n = app" and w: "well_marked_from seen None ls" by auto
      with Cons.IH(1) [OF _ _ w, of True out] 2 Some b show ?thesis
        by (simp add: kept_from_Cons)
    next
      case None
      with 2 b have w: "well_marked_from seen cur ls" by simp
      with Cons.IH(2) [OF 2(1) 2(2) w, of out] None b 2(1) show ?thesis
        by (simp add: kept_from_Cons)
    qed }
qed

lemma tags_kept:
  "well_marked_from seen cur ls \<Longrightarrow>
     tags (if cur = Some app then None else cur) (kept_from app cur ls) = drop_app app (tags cur ls)"
proof (induction seen cur ls rule: well_marked_from.induct)
  case (2 seen cur l ls)
  then show ?case
    by (auto simp: kept_from_Cons drop_app_def split: option.splits if_splits)
qed (simp add: kept_from_def drop_app_def)

lemma well_marked_mono:
  "well_marked_from seen cur ls \<Longrightarrow> set seen' \<subseteq> set seen \<Longrightarrow> well_marked_from seen' cur ls"
proof (induction ls arbitrary: seen seen' cur)
  case (Cons l ls)
  show ?case
  proof (cases "beginMarkerApp l")
    case (Some n)
    with Cons.prems have w: "well_marked_from (n # seen) (Some n) ls" and "n \<notin> set seen'" by auto
    moreover have "set (n # seen') \<subseteq> set (n # seen)" using Cons.prems(2) by auto
    ultimately show ?thesis
      using Some Cons.prems Cons.IH [OF w] by auto
  next
    case None
    with Cons show ?thesis by (auto split: option.splits)
  qed
qed simp

lemma well_marked_kept:
  "well_marked_from seen cur ls \<Longrightarrow>
     well_marked_from seen (if cur = Some app then None else cur) (kept_from app cur ls)"
proof (induction ls arbitrary: seen cur)
  case (Cons l ls)
  show ?case
  proof (cases "beginMarkerApp l")
    case (Some n)
    with Cons.prems have w: "well_marked_from (n # seen) (Some n) ls"
      and new: "n \<notin> set seen" and "cur = None" by auto
    have k: "well_marked_from (n # seen) (if n = app then None else Some n) (kept_from app (Some n) ls)"
      using Cons.IH [OF w] by simp
    have "well_marked_from seen (if n = app then None else Some n) (kept_from app (Some n) ls)"
      using k by (rule well_marked_mono) auto
    then show ?thesis
      using k new Some \<open>cur = None\<close> by (auto simp: kept_from_Cons)
  next
    case None
    then have "well_marked_from seen (if endMarkerApp l = None then cur else None) ls"
      using Cons.prems by (auto split: option.splits)
    note k = Cons.IH [OF this]
    show ?thesis
      using None Cons.prems k by (auto simp: kept_from_Cons split: option.splits if_splits)
  qed
qed (simp add: kept_from_def drop_app_def)

lemma opened_kept: "set (opened (kept_from app cur ls)) \<subseteq> set (opened ls) - {app}"
proof (induction ls arbitrary: cur)
  case (Cons l ls)
  then show ?case
    by (cases "beginMarkerApp l") (auto simp: kept_from_Cons)
qed (simp add: kept_from_def drop_app_def)

lemma owned_kept:
  assumes "well_marked_from seen cur ls" and "b \<noteq> app"
  shows "owned_from b (if cur = Some app then None else cur) (kept_from app cur ls) = owned_from b cur ls"
proof -
  have "filter (\<lambda>(a, l). a = Some b) (drop_app app v) = filter (\<lambda>(a, l). a = Some b) v" for v
    using assms(2) by (induction v) (auto simp: drop_app_def)
  then show ?thesis
    by (simp add: owned_from_def tags_kept [OF assms(1)])
qed

section \<open>Blank lines do not matter to the view\<close>

lemma tags_squeeze:
  "filter (\<lambda>(a, l). l \<noteq> []) (tags cur (squeeze_lines k ls)) = filter (\<lambda>(a, l). l \<noteq> []) (tags cur ls)"
  by (induction k ls arbitrary: cur rule: squeeze_lines.induct) (auto simp: marking split: option.splits)

lemma well_marked_squeeze:
  "well_marked_from seen cur (squeeze_lines k ls) = well_marked_from seen cur ls"
  by (induction k ls arbitrary: seen cur rule: squeeze_lines.induct)
    (auto simp: marking split: option.splits)

lemma opened_squeeze: "opened (squeeze_lines k ls) = opened ls"
  by (induction k ls rule: squeeze_lines.induct) (auto split: option.splits)

lemma owned_active_not_Nil:
  "well_marked_from seen (Some b) ls \<Longrightarrow> owned_from b (Some b) ls \<noteq> []"
  by (cases ls) (auto simp: owned_from_Cons split: option.splits)

lemma squeeze_lines_solid:
  "l \<noteq> [] \<Longrightarrow> squeeze_lines k (l # ls) = l # squeeze_lines 1 ls"
  by (cases ls) auto

lemma owned_squeeze:
  assumes "well_marked_from seen cur ls"
  shows "cur \<noteq> Some b \<Longrightarrow> owned_from b cur (squeeze_lines k ls) = squeeze_lines 0 (owned_from b cur ls)"
    and "cur = Some b \<Longrightarrow> b \<in> set seen \<Longrightarrow>
      owned_from b cur (squeeze_lines k ls) = squeeze_lines k (owned_from b cur ls)"
  using assms
proof (induction ls arbitrary: seen cur k)
  case Nil
  { case 1 then show ?case by (simp add: owned_from_def) }
  { case 2 then show ?case by simp }
next
  case (Cons l ls)
  { case 1
    show ?case
    proof (cases "l = []")
      case True
      with 1 have w: "well_marked_from seen cur ls" by simp
      have o: "owned_from b cur (l # xs) = owned_from b cur xs" for xs
        using True 1(1) by (simp add: owned_from_Cons)
      show ?thesis
        using Cons.IH(1) [OF 1(1) w, of k] Cons.IH(1) [OF 1(1) w, of "Suc k"] o True
        by (cases ls) (auto simp: owned_from_def)
    next
      case False
      show ?thesis
      proof (cases "beginMarkerApp l")
        case (Some n)
        with 1 have w: "well_marked_from (n # seen) (Some n) ls" by simp
        show ?thesis
        proof (cases "n = b")
          case True
          with Cons.IH(2) [OF _ _ w, of 1] False Some show ?thesis
            by (simp add: owned_from_Cons squeeze_lines_solid)
        next
          case neq: False
          with Cons.IH(1) [OF _ w, of 1] False Some show ?thesis
            by (simp add: owned_from_Cons squeeze_lines_solid)
        qed
      next
        case None
        then have w: "well_marked_from seen (if endMarkerApp l = None then cur else None) ls"
          using 1 by (auto split: option.splits)
        with Cons.IH(1) [OF _ w, of 1] False None 1(1) show ?thesis
          by (simp add: owned_from_Cons squeeze_lines_solid)
      qed
    qed }
  { case 2
    then have b: "beginMarkerApp l = None"
      by (auto split: option.splits)
    show ?case
    proof (cases "endMarkerApp l")
      case (Some n)
      with 2 b have w: "well_marked_from seen None ls" by auto
      then have "b \<notin> set (opened ls)"
        using 2(2) well_marked_seen_fresh by blast
      moreover have "l \<noteq> []" using Some by auto
      ultimately show ?thesis
        using Some b 2(1)
        by (simp add: owned_from_Cons squeeze_lines_solid owned_not_opened opened_squeeze)
    next
      case None
      with 2 b have w: "well_marked_from seen cur ls" by simp
      then have ne: "owned_from b cur ls \<noteq> []" and "ls \<noteq> []"
        using 2(1) owned_active_not_Nil by auto
      show ?thesis
      proof (cases "l = []")
        case True
        obtain x xs where ls: "ls = x # xs" using \<open>ls \<noteq> []\<close> by (cases ls) auto
        obtain y ys where o: "owned_from b cur ls = y # ys" using ne by (cases "owned_from b cur ls") auto
        show ?thesis
          using Cons.IH(2) [OF 2(1) 2(2) w, of k] Cons.IH(2) [OF 2(1) 2(2) w, of "Suc k"] True 2(1) o
          by (auto simp: owned_from_Cons ls)
      next
        case False
        with Cons.IH(2) [OF 2(1) 2(2) w, of 1] None b 2(1) show ?thesis
          by (simp add: owned_from_Cons squeeze_lines_solid)
      qed
    qed }
qed

lemma tags_trailing:
  "filter (\<lambda>(a, l). l \<noteq> []) (tags cur (xs @ replicate n [])) = filter (\<lambda>(a, l). l \<noteq> []) (tags cur xs)"
proof -
  have "filter (\<lambda>(a, l). l \<noteq> []) (tags c (replicate n [])) = []" for c
    by (induction n) auto
  then show ?thesis
    by (simp add: tags_append)
qed

lemma well_marked_trailing:
  "well_marked_from seen cur (xs @ replicate n []) = well_marked_from seen cur xs"
proof (induction seen cur xs rule: well_marked_from.induct)
  case (1 seen cur)
  then show ?case by (induction n) auto
qed (auto split: option.splits)

lemma owned_trailing:
  assumes "owner_after cur xs = None"
  shows "owned_from b cur (xs @ replicate n []) = owned_from b cur xs"
proof -
  have "owned_from b None (replicate n []) = []"
    by (induction n) (auto simp: owned_from_def)
  with assms show ?thesis
    by (simp add: owned_from_def tags_append)
qed

end
