(* ===== verification/CaddyfileEdits.thy ===== *)
theory CaddyfileEdits
  imports CaddyfileLaws
begin

text \<open>
  The properties of whole edits of the Caddyfile: what \<open>renderUpdated\<close> does to the abstract view,
  that the block it writes reads back, that it leaves the other apps' regions alone, and that
  maintenance mode gives the route back.
\<close>

section \<open>Line lists that differ in blank lines only\<close>

definition same_marks :: "string list \<Rightarrow> string list \<Rightarrow> bool" where
  "same_marks xs ys \<longleftrightarrow>
     (\<forall>seen cur. well_marked_from seen cur xs = well_marked_from seen cur ys)
     \<and> (\<forall>cur. filter (\<lambda>(a, l). l \<noteq> []) (tags cur xs) = filter (\<lambda>(a, l). l \<noteq> []) (tags cur ys))
     \<and> opened xs = opened ys"

lemma same_marks_refl: "same_marks xs xs"
  by (simp add: same_marks_def)

lemma same_marks_trans: "same_marks xs ys \<Longrightarrow> same_marks ys zs \<Longrightarrow> same_marks xs zs"
  by (simp add: same_marks_def)

lemma same_marks_sym: "same_marks xs ys \<Longrightarrow> same_marks ys xs"
  by (simp add: same_marks_def)

lemma same_marks_squeeze: "same_marks (squeeze_lines k xs) xs"
  by (simp add: same_marks_def well_marked_squeeze tags_squeeze opened_squeeze)

lemma opened_append [simp]: "opened (xs @ ys) = opened xs @ opened ys"
  by (induction xs) (auto split: option.splits)

lemma opened_blank [simp]: "opened (replicate n []) = []"
  by (induction n) auto

lemma same_marks_trailing: "same_marks (xs @ replicate n []) xs"
  by (simp add: same_marks_def well_marked_trailing tags_trailing)

lemma same_marks_unlines:
  "\<forall>l \<in> set xs. newline \<notin> set l \<Longrightarrow> same_marks (lines_of (unlines xs)) xs"
  by (cases "xs = []") (auto simp: split_join same_marks_def)

lemma same_marks_trim: "same_marks (lines_of (trim_newlines s)) (lines_of s)"
  using lines_of_trim [of s] same_marks_trailing same_marks_sym by metis

lemma lines_of_nl: "lines_of (s @ [newline]) = lines_of s @ [[]]"
  using split_on_append [of newline s "[]"] by simp

lemma same_marks_nl: "same_marks (lines_of (s @ [newline])) (lines_of s)"
  using same_marks_trailing [of "lines_of s" 1] by (simp add: lines_of_nl)

lemma same_marks_view:
  "same_marks (lines_of s) (lines_of t) \<Longrightarrow> file_view s = file_view t \<and> well_marked s = well_marked t"
  by (simp add: same_marks_def file_view_def well_marked_def)

lemma region_trim:
  assumes "well_marked s"
  shows "owned_from b None (lines_of (trim_newlines s)) = owned_from b None (lines_of s)"
proof -
  obtain n where n: "lines_of s = lines_of (trim_newlines s) @ replicate n []"
    using lines_of_trim by blast
  have "well_marked_from [] None (lines_of (trim_newlines s))"
    using assms same_marks_trim [of s] by (simp add: same_marks_def well_marked_def)
  then have "owner_after None (lines_of (trim_newlines s)) = None"
    by (rule well_marked_owner_after)
  with n owned_trailing show ?thesis by metis
qed

lemma owned_nl:
  assumes "well_marked s"
  shows "owned_from b None (lines_of (s @ [newline])) = owned_from b None (lines_of s)"
  using owned_trailing [of None "lines_of s" b 1] assms
  by (simp add: lines_of_nl well_marked_def well_marked_owner_after)

section \<open>Removal\<close>

definition removed_text :: "string list \<Rightarrow> string" where
  "removed_text xs =
     (let res = trim_newlines (collapse_blank (unlines xs)) @ [newline]
      in if res = [newline] then [] else res)"

lemma removeCaddyfileBlock_eq:
  assumes "markerName app" and "well_marked prev"
  shows "removeCaddyfileBlock prev (marker_begin app) =
    Inr (if app \<in> set (opened (lines_of prev)) then removed_text (kept_from app None (lines_of prev))
         else unlines (kept_from app None (lines_of prev)))"
  using remove_loop_kept(1) [of "[]" None "lines_of prev" app False "[]"] assms
  by (simp add: removeCaddyfileBlock_def well_marked_def removed_text_def Let_def)

lemma tags_in: "(a, l) \<in> set (tags cur ls) \<Longrightarrow> l \<in> set ls"
  by (metis tags_lines image_eqI set_map snd_conv)

lemma kept_lines_no_newline: "\<forall>l \<in> set (kept_from app None (lines_of s)). newline \<notin> set l"
proof -
  have "set (kept_from app None (lines_of s)) \<subseteq> set (lines_of s)"
    by (auto simp: kept_from_def drop_app_def dest: tags_in)
  then show ?thesis
    using split_on_no_sep by blast
qed

lemma kept_not_opened:
  "well_marked_from seen None ls \<Longrightarrow> app \<notin> set (opened ls) \<Longrightarrow> kept_from app None ls = ls"
proof -
  assume "app \<notin> set (opened ls)"
  then have "\<forall>p \<in> set (tags cur ls). fst p \<noteq> Some app" if "cur \<noteq> Some app" for cur
    using that by (induction cur ls rule: tags.induct) (auto split: option.splits)
  from this [of None] have "drop_app app (tags None ls) = tags None ls"
    by (auto simp: drop_app_def intro!: filter_True)
  then show "kept_from app None ls = ls"
    by (simp add: kept_from_def)
qed

lemma lines_of_unlines:
  "\<forall>l \<in> set xs. newline \<notin> set l \<Longrightarrow> lines_of (unlines xs) = (if xs = [] then [[]] else xs)"
  by (simp add: split_join)

lemma owned_blank: "owned_from b None [[]] = []"
  by (simp add: owned_from_def)

lemma removed_text_marks:
  assumes "\<forall>l \<in> set xs. newline \<notin> set l" and "well_marked_from [] None xs"
  shows "same_marks (lines_of (removed_text xs)) xs"
    and "owned_from b None (lines_of (removed_text xs)) = squeeze_lines 0 (owned_from b None xs)"
proof -
  let ?c = "collapse_blank (unlines xs)"
  have lc: "lines_of ?c = squeeze_lines 0 (if xs = [] then [[]] else xs)"
    using assms(1) by (simp add: lines_of_collapse lines_of_unlines)
  have mc: "same_marks (lines_of ?c) xs"
  proof (cases "xs = []")
    case True
    then show ?thesis
      using lc same_marks_trailing [of "[]" 1] by (simp add: same_marks_def)
  next
    case False
    then show ?thesis
      using lc same_marks_squeeze by simp
  qed
  have mt: "same_marks (lines_of (trim_newlines ?c)) xs"
    using same_marks_trans [OF same_marks_trim mc] .
  have wc: "well_marked ?c"
    using mc assms(2) by (simp add: well_marked_def same_marks_def)
  have wt: "well_marked (trim_newlines ?c)"
    using mt assms(2) by (simp add: well_marked_def same_marks_def)
  have oc: "owned_from b None (lines_of ?c) = squeeze_lines 0 (owned_from b None xs)"
    using owned_squeeze(1) [OF assms(2), of b 0] lc by (cases "xs = []") (auto simp: owned_from_def)
  show "same_marks (lines_of (removed_text xs)) xs"
  proof (cases "trim_newlines ?c = []")
    case True
    then show ?thesis
      using mt by (simp add: removed_text_def)
  next
    case False
    then show ?thesis
      using same_marks_trans [OF same_marks_nl mt] by (simp add: removed_text_def Let_def)
  qed
  show "owned_from b None (lines_of (removed_text xs)) = squeeze_lines 0 (owned_from b None xs)"
  proof (cases "trim_newlines ?c = []")
    case True
    then show ?thesis
      using oc region_trim [OF wc, of b] by (simp add: removed_text_def)
  next
    case False
    then show ?thesis
      using oc region_trim [OF wc, of b] owned_nl [OF wt, of b] by (simp add: removed_text_def Let_def)
  qed
qed

lemma collapse_unlines:
  assumes "\<forall>l \<in> set xs. newline \<notin> set l"
  shows "collapse_blank (unlines xs) = unlines (squeeze_lines 0 xs)"
  using squeeze_unlines [OF assms, of 0] by (simp add: collapse_blank_squeeze)

lemma owned_no_newline: "\<forall>l \<in> set (owned_from b None (lines_of s)). newline \<notin> set l"
proof -
  have "set (owned_from b None (lines_of s)) \<subseteq> set (lines_of s)"
    by (auto simp: owned_from_def dest: tags_in)
  then show ?thesis
    using split_on_no_sep by blast
qed

text \<open>What removing an app's region does, in one lemma.\<close>

definition touches_region :: "string \<Rightarrow> string \<Rightarrow> bool" where
  "touches_region app content \<longleftrightarrow> app \<in> set (opened (lines_of content))"

lemma removal_spec:
  assumes "markerName app" and "well_marked prev"
  obtains u where "removeCaddyfileBlock prev (marker_begin app) = Inr u"
    and "well_marked u" and "file_view u = drop_app app (file_view prev)"
    and "app \<notin> set (opened (lines_of u))"
    and "\<And>b. b \<noteq> app \<Longrightarrow> extractManagedRegion u b =
      (if touches_region app prev then collapse_blank (extractManagedRegion prev b)
       else extractManagedRegion prev b)"
proof -
  let ?k = "kept_from app None (lines_of prev)"
  let ?u = "if app \<in> set (opened (lines_of prev)) then removed_text ?k else unlines ?k"
  have wk: "well_marked_from [] None ?k"
    using well_marked_kept [of "[]" None "lines_of prev" app] assms(2) by (simp add: well_marked_def)
  note nonl = kept_lines_no_newline [of app prev]
  have same: "same_marks (lines_of ?u) ?k"
    using removed_text_marks(1) [OF nonl wk] same_marks_unlines [OF nonl] by simp
  have view: "filter (\<lambda>(a, l). l \<noteq> []) (tags None ?k) = drop_app app (file_view prev)"
  proof -
    have "filter P (drop_app app v) = drop_app app (filter P v)"
      for P and v :: "(string option \<times> string) list"
      by (simp add: drop_app_def conj_commute)
    then show ?thesis
      using tags_kept [of "[]" None "lines_of prev" app] assms(2)
      by (simp add: well_marked_def file_view_def)
  qed
  have fresh: "app \<notin> set (opened ?k)"
    using opened_kept by blast
  have wu: "well_marked ?u"
    using same wk by (simp add: same_marks_def well_marked_def)
  show thesis
  proof (rule that [of ?u])
    show "removeCaddyfileBlock prev (marker_begin app) = Inr ?u"
      using assms by (simp add: removeCaddyfileBlock_eq)
    show "well_marked ?u" by (rule wu)
    show "file_view ?u = drop_app app (file_view prev)"
      using same view by (simp add: same_marks_def file_view_def)
    show "app \<notin> set (opened (lines_of ?u))"
      using same fresh by (simp add: same_marks_def)
    fix b :: string
    assume b: "b \<noteq> app"
    have ob: "owned_from b None ?k = owned_from b None (lines_of prev)"
      using owned_kept [of "[]" None "lines_of prev" b app] assms(2) b by (simp add: well_marked_def)
    show "extractManagedRegion ?u b =
      (if touches_region app prev then collapse_blank (extractManagedRegion prev b)
       else extractManagedRegion prev b)"
    proof (cases "touches_region app prev")
      case True
      then have t: "app \<in> set (opened (lines_of prev))" by (simp add: touches_region_def)
      then show ?thesis
        using wu True removed_text_marks(2) [OF nonl wk, of b] ob assms(2)
        by (simp add: extractManagedRegion_owned collapse_unlines [OF owned_no_newline])
    next
      case False
      then have t: "app \<notin> set (opened (lines_of prev))" by (simp add: touches_region_def)
      then have "?k = lines_of prev"
        using assms(2) kept_not_opened by (auto simp: well_marked_def)
      then show ?thesis
        using t False by simp
    qed
  qed
qed


section \<open>Appending a region\<close>

definition region_lines :: "string \<Rightarrow> string \<Rightarrow> string list" where
  "region_lines app block = marker_begin app # lines_of (trim_newlines block) @ [marker_end app]"

lemma wrap_block_lines:
  assumes "markerName app"
  shows "wrap_block app block = unlines (region_lines app block)"
    and "lines_of (wrap_block app block) = region_lines app block"
proof -
  have w: "wrap_block app block =
    (marker_begin app @ newline # trim_newlines block) @ newline # marker_end app"
    by (simp add: wrap_block_def)
  show "lines_of (wrap_block app block) = region_lines app block"
    using assms by (simp only: w split_on_append) (simp add: split_on_single region_lines_def)
  then show "wrap_block app block = unlines (region_lines app block)"
    by (metis join_split)
qed

lemma append_block_lines:
  assumes "markerName app"
  shows "lines_of (append_block u app block) =
    lines_of (trim_newlines u) @ [] # region_lines app block @ [[]]"
proof -
  have w: "append_block u app block =
    trim_newlines u @ newline # (newline # (wrap_block app block @ newline # []))"
    by (simp add: append_block_def)
  show ?thesis
    unfolding w by (subst split_on_append, subst split_on.simps(2))
      (simp only: split_on_append wrap_block_lines(2) [OF assms] split_on.simps refl if_True append.simps)
qed

lemma tags_plain_lines:
  "list_all plain_line xs \<Longrightarrow> tags cur (xs @ ys) = map (Pair cur) xs @ tags cur ys"
  by (induction xs) (auto simp: plain_line_def)

lemma well_marked_plain_lines:
  "list_all plain_line xs \<Longrightarrow> well_marked_from seen cur (xs @ ys) = well_marked_from seen cur ys"
  by (induction xs) (auto simp: plain_line_def)

lemma opened_plain: "list_all plain_line xs \<Longrightarrow> opened xs = []"
  by (induction xs) (auto simp: plain_line_def)

lemma tags_region:
  assumes "markerName app" and "list_all plain_line (lines_of (trim_newlines block))"
  shows "tags cur (region_lines app block @ ys) = map (Pair (Some app)) (region_lines app block) @ tags None ys"
  using assms by (simp add: region_lines_def tags_plain_lines)

lemma well_marked_region:
  assumes "markerName app" and "list_all plain_line (lines_of (trim_newlines block))"
    and "app \<notin> set seen"
  shows "well_marked_from seen None (region_lines app block @ ys) = well_marked_from (app # seen) None ys"
  using assms by (simp add: region_lines_def well_marked_plain_lines)

lemma plain_trimmed:
  "list_all plain_line (lines_of block) \<Longrightarrow> list_all plain_line (lines_of (trim_newlines block))"
  using lines_of_trim [of block] by (metis list_all_append)

lemma trim_newlines_pad: "trim_newlines (s @ replicate n newline) = trim_newlines s"
proof -
  have "dropWhile (\<lambda>c. c = newline) (replicate n newline @ x) = dropWhile (\<lambda>c. c = newline) x" for x
    by (induction n) simp_all
  then show ?thesis
    by (simp add: trim_newlines_def trim_right_def)
qed

lemma trim_nl_both_trim: "trim_nl_both (trim_newlines s) = trim_nl_both s"
proof (cases "trim_newlines s = []")
  case True
  then obtain n where s: "s = replicate n newline"
    using trim_newlines_replicate [of s] by auto
  have "dropWhile (\<lambda>c. c = newline) s = []"
    by (simp add: s)
  then show ?thesis
    using True by (simp add: trim_nl_both_def trim_left_def del: dropWhile_eq_Nil_conv)
next
  case False
  obtain n where n: "s = trim_newlines s @ replicate n newline"
    using trim_newlines_replicate by blast
  let ?t = "trim_newlines s"
  have last: "List.last ?t \<noteq> newline"
    using False hd_dropWhile [of "\<lambda>c. c = newline" "rev s"]
    by (auto simp: trim_newlines_def trim_right_def last_rev)
  then have "List.last ?t \<in> set ?t" and "\<exists>c \<in> set ?t. c \<noteq> newline"
    using False last_in_set by blast+
  then have "dropWhile (\<lambda>c. c = newline) (?t @ replicate n newline)
      = dropWhile (\<lambda>c. c = newline) ?t @ replicate n newline"
    by (metis (mono_tags, lifting) dropWhile_append1)
  then have d: "dropWhile (\<lambda>c. c = newline) s = dropWhile (\<lambda>c. c = newline) ?t @ replicate n newline"
    using n by simp
  show ?thesis
    unfolding trim_nl_both_def trim_left_def d
    by (rule trim_newlines_pad [symmetric])
qed

lemma block_loop_skip:
  "app \<notin> set (opened ls) \<Longrightarrow> block_loop app False out (ls @ ys) = block_loop app False out ys"
  by (induction ls) (auto split: option.splits)

lemma block_loop_plain:
  "list_all plain_line xs \<Longrightarrow> block_loop app True out (xs @ ys) = block_loop app True (out @ xs) ys"
  by (induction xs arbitrary: out) (auto simp: plain_line_def)

lemma block_reads_back:
  assumes "markerName app" and "list_all plain_line (lines_of block)"
    and "app \<notin> set (opened (lines_of u))"
  shows "extractCaddyfileBlock (append_block u app block) (marker_begin app) = trim_nl_both block"
proof -
  have "app \<notin> set (opened (lines_of (trim_newlines u)))"
    using assms(3) same_marks_trim [of u] by (simp add: same_marks_def)
  then have "extractCaddyfileBlock (append_block u app block) (marker_begin app) =
    block_loop app False [] ([] # region_lines app block @ [[]])"
    using assms(1) by (simp add: extractCaddyfileBlock_def append_block_lines block_loop_skip)
  also have "\<dots> = trim_nl_both (unlines (lines_of (trim_newlines block)))"
    using assms(1) plain_trimmed [OF assms(2)]
    by (simp add: region_lines_def block_loop_plain)
  also have "\<dots> = trim_nl_both block"
    by (simp add: trim_nl_both_trim)
  finally show ?thesis .
qed

lemma nonblank_trim:
  "filter (\<lambda>l. l \<noteq> []) (lines_of (trim_newlines s)) = filter (\<lambda>l. l \<noteq> []) (lines_of s)"
proof -
  obtain n where "lines_of s = lines_of (trim_newlines s) @ replicate n []"
    using lines_of_trim by blast
  then show ?thesis
    by (simp add: filter_replicate)
qed

lemma append_spec:
  assumes "markerName app" and "list_all plain_line (lines_of block)"
    and "well_marked u" and "app \<notin> set (opened (lines_of u))"
  shows "well_marked (append_block u app block)"
    and "file_view (append_block u app block) =
      file_view u @ map (Pair (Some app))
        (filter (\<lambda>l. l \<noteq> []) (marker_begin app # lines_of block @ [marker_end app]))"
    and "extractManagedRegion (append_block u app block) app = wrap_block app block"
    and "b \<noteq> app \<Longrightarrow> extractManagedRegion (append_block u app block) b = extractManagedRegion u b"
proof -
  let ?L = "lines_of (trim_newlines u)" and ?R = "region_lines app block"
  note plain = plain_trimmed [OF assms(2)]
  have wL: "well_marked_from [] None ?L" and oL: "app \<notin> set (opened ?L)"
    and vL: "filter (\<lambda>(a, l). l \<noteq> []) (tags None ?L) = file_view u"
    using same_marks_trim [of u] assms(3,4) by (simp_all add: same_marks_def well_marked_def file_view_def)
  note after = well_marked_owner_after [OF wL]
  have lines: "lines_of (append_block u app block) = ?L @ [] # ?R @ [[]]"
    using assms(1) by (rule append_block_lines)
  have w: "well_marked_from [] None (?L @ [] # ?R @ [[]])"
    using well_marked_append [OF wL, of "[] # ?R @ [[]]"] oL
      well_marked_region [OF assms(1) plain, of "rev (opened ?L)" "[[]]"] by simp
  show wm: "well_marked (append_block u app block)"
    unfolding well_marked_def lines by (rule w)
  have t: "tags None (?L @ [] # ?R @ [[]]) = tags None ?L @ (None, []) # map (Pair (Some app)) ?R @ [(None, [])]"
    using tags_region [OF assms(1) plain, of None "[[]]"] by (simp add: tags_append after)
  show "file_view (append_block u app block) =
      file_view u @ map (Pair (Some app))
        (filter (\<lambda>l. l \<noteq> []) (marker_begin app # lines_of block @ [marker_end app]))"
    unfolding file_view_def [of "append_block u app block"] lines t
    using nonblank_trim [of block] by (simp add: vL filter_map comp_def region_lines_def)
  have own: "owned_from c None (lines_of (append_block u app block)) =
    owned_from c None ?L @ (if c = app then ?R else [])" for c
    unfolding owned_from_def lines t by (simp add: filter_map comp_def)
  show "extractManagedRegion (append_block u app block) app = wrap_block app block"
    using own [of app] oL by (simp add: extractManagedRegion_owned [OF wm] owned_not_opened
        wrap_block_lines(1) [OF assms(1)])
  show "extractManagedRegion (append_block u app block) b = extractManagedRegion u b" if "b \<noteq> app"
    using own [of b] that region_trim [OF assms(3), of b]
    by (simp add: extractManagedRegion_owned [OF wm] extractManagedRegion_owned [OF assms(3)])
qed

section \<open>A whole edit\<close>

text \<open>
  The file has no region of a legacy \<open>lb-<app>\<close> block, and once the app's own region is out no
  hand-written block serves one of the hosts.
\<close>

definition nothing_foreign :: "string \<Rightarrow> string \<Rightarrow> string list \<Rightarrow> bool" where
  "nothing_foreign prev app hosts \<longleftrightarrow>
     managedBlockHosts prev (''lb-'' @ app) = []
     \<and> (hosts = [] \<or> (case removeCaddyfileBlock prev (marker_begin app) of
                         Inl _ \<Rightarrow> True | Inr u \<Rightarrow> foreign_edits u hosts = Inr []))"

lemma renderUpdated_plain:
  assumes "nothing_foreign prev app hosts" and "removeCaddyfileBlock prev (marker_begin app) = Inr u"
  shows "renderUpdated prev app hosts block =
    Inr (if block \<noteq> [] then append_block u app block else trim_newlines u @ [newline])"
proof -
  have "remove_legacy prev app hosts u = Inr u"
    using assms(1) by (simp add: remove_legacy_def nothing_foreign_def)
  moreover have "(if hosts \<noteq> [] then adoptForeignBlocks u hosts else Inr u) = Inr u"
    using assms by (auto simp: nothing_foreign_def adoptForeignBlocks_def)
  ultimately show ?thesis
    using assms(2) by (simp add: renderUpdated_def)
qed

lemma edit_spec:
  assumes "markerName app" and "well_marked prev" and "nothing_foreign prev app hosts"
    and "list_all plain_line (lines_of block)"
  obtains upd where "renderUpdated prev app hosts block = Inr upd" and "well_marked upd"
    and "file_view upd =
      (if block = [] then drop_app app (file_view prev)
       else put_app app (marker_begin app # lines_of block @ [marker_end app]) (file_view prev))"
    and "block \<noteq> [] \<Longrightarrow> extractManagedRegion upd app = wrap_block app block"
    and "block \<noteq> [] \<Longrightarrow> extractCaddyfileBlock upd (marker_begin app) = trim_nl_both block"
    and "\<And>b. b \<noteq> app \<Longrightarrow> extractManagedRegion upd b =
      (if touches_region app prev then collapse_blank (extractManagedRegion prev b)
       else extractManagedRegion prev b)"
proof -
  obtain u where u: "removeCaddyfileBlock prev (marker_begin app) = Inr u"
    and wu: "well_marked u" and vu: "file_view u = drop_app app (file_view prev)"
    and fresh: "app \<notin> set (opened (lines_of u))"
    and others: "\<And>b. b \<noteq> app \<Longrightarrow> extractManagedRegion u b =
      (if touches_region app prev then collapse_blank (extractManagedRegion prev b)
       else extractManagedRegion prev b)"
    using removal_spec [OF assms(1,2)] by blast
  note render = renderUpdated_plain [OF assms(3) u, of block]
  show thesis
  proof (cases "block = []")
    case True
    let ?t = "trim_newlines u"
    have marks: "same_marks (lines_of (?t @ [newline])) (lines_of u)"
      using same_marks_trans [OF same_marks_nl same_marks_trim] .
    have wt: "well_marked ?t" and w: "well_marked (?t @ [newline])"
      using wu marks same_marks_trim [of u] by (simp_all add: same_marks_def well_marked_def)
    have "extractManagedRegion (?t @ [newline]) b = extractManagedRegion u b" for b
      using owned_nl [OF wt, of b] region_trim [OF wu, of b]
      by (simp add: extractManagedRegion_owned [OF w] extractManagedRegion_owned [OF wu])
    with True render w vu others same_marks_view [OF marks] show thesis
      by (intro that [of "?t @ [newline]"]) simp_all
  next
    case False
    note ap = append_spec [OF assms(1,4) wu fresh]
    show thesis
      using False render ap vu others block_reads_back [OF assms(1,4) fresh]
      by (intro that [of "append_block u app block"]) (simp_all add: put_app_def)
  qed
qed


section \<open>The properties of an edit\<close>

definition demo_caddyfile :: string where
  "demo_caddyfile = unlines
     [''{'', tab @ ''email ops@example.com'', ''}'', [],
      ''old.example.com {'', tab @ ''respond 200'', ''}'', [],
      ''# TEPLOY BEGIN web'', ''# TEPLOY GENERATION 4'', ''web.example.com {'', tab @ ''tls internal'',
      tab @ ''reverse_proxy web-4:3000'', ''}'', ''# TEPLOY END web'', [],
      ''# TEPLOY BEGIN api'', ''api.example.com {'', tab @ ''encode gzip'', [], [],
      tab @ ''reverse_proxy api-1:80'', ''}'', ''# TEPLOY END api'', []]"

definition demo_route :: string where
  "demo_route = reverseProxyBlock [''web.example.com''] ''web-5'' 3000 no_tls [] [] no_firewall no_access"

lemma demo_edit_admissible:
  "markerName ''web''" "well_marked demo_caddyfile"
  "nothing_foreign demo_caddyfile ''web'' [''web.example.com'']"
  "list_all plain_line (lines_of demo_route)" "demo_route \<noteq> []"
  by code_simp+

text \<open>
  C19. On a well-marked Caddyfile without a hand-written block for the requested hosts, an edit
  succeeds, leaves a well-marked file and does to the file, blank lines apart, exactly what its
  contract says: every line that is not the app's stays, in order and with its owner, and the
  app's lines are replaced by the new block between its markers (or removed).
\<close>

theorem renderUpdated_refines_view:
  assumes "markerName app" and "well_marked prev" and "nothing_foreign prev app hosts"
    and "list_all plain_line (lines_of block)"
  shows "\<exists>upd. renderUpdated prev app hosts block = Inr upd \<and> well_marked upd
    \<and> file_view upd =
        (if block = [] then drop_app app (file_view prev)
         else put_app app (marker_begin app # lines_of block @ [marker_end app]) (file_view prev))"
  by (rule edit_spec [OF assms]) blast

theorem renderUpdated_refines_view_witness:
  "\<exists>upd. renderUpdated demo_caddyfile ''web'' [''web.example.com''] demo_route = Inr upd \<and> well_marked upd
    \<and> file_view upd =
        put_app ''web'' (marker_begin ''web'' # lines_of demo_route @ [marker_end ''web''])
          (file_view demo_caddyfile)"
  using renderUpdated_refines_view [OF demo_edit_admissible(1-4)] demo_edit_admissible(5) by simp

text \<open>
  C22. The block an edit writes reads back: the managed region of the new file is the block between
  its markers, so the hash a later compare-and-swap expects is the hash of what was written, and
  the block itself is returned without its blank margins.
\<close>

theorem renderUpdated_reads_back:
  assumes "markerName app" and "well_marked prev" and "nothing_foreign prev app hosts"
    and "list_all plain_line (lines_of block)" and "block \<noteq> []"
    and "renderUpdated prev app hosts block = Inr upd"
  shows "extractManagedRegion upd app = wrap_block app block
    \<and> ManagedRegionHash sha (extractManagedRegion upd app) = sha (wrap_block app block @ [newline])
    \<and> extractCaddyfileBlock upd (marker_begin app) = trim_nl_both block"
proof -
  have "wrap_block app block \<noteq> []"
    by (simp add: wrap_block_def)
  with assms(5,6) show ?thesis
    by (auto intro: edit_spec [OF assms(1-4)] simp: ManagedRegionHash_def region_payload_def)
qed

theorem renderUpdated_reads_back_witness:
  "\<exists>upd. renderUpdated demo_caddyfile ''web'' [''web.example.com''] demo_route = Inr upd
    \<and> extractCaddyfileBlock upd (marker_begin ''web'') = demo_route"
proof -
  obtain upd where u: "renderUpdated demo_caddyfile ''web'' [''web.example.com''] demo_route = Inr upd"
    using edit_spec [OF demo_edit_admissible(1-4)] by blast
  have "trim_nl_both demo_route = demo_route"
    by code_simp
  then show ?thesis
    using renderUpdated_reads_back [OF demo_edit_admissible(1-5) u, of id] u by auto
qed

text \<open>
  An edit of one app never changes another app's managed region by more than blank lines: the
  region is byte for byte the old one when the edited app had no region yet, and the old one with
  runs of blank lines collapsed when it had one; without such a run it is unchanged, and so is
  every hash a compare-and-swap of that app holds.
\<close>

theorem renderUpdated_isolates_apps:
  assumes "markerName app" and "well_marked prev" and "nothing_foreign prev app hosts"
    and "list_all plain_line (lines_of block)" and "b \<noteq> app"
    and "renderUpdated prev app hosts block = Inr upd"
  shows "extractManagedRegion upd b =
      (if touches_region app prev then collapse_blank (extractManagedRegion prev b)
       else extractManagedRegion prev b)
    \<and> (\<not> contains_str nl3 (extractManagedRegion prev b)
        \<longrightarrow> extractManagedRegion upd b = extractManagedRegion prev b)"
proof -
  have eq: "extractManagedRegion upd b =
      (if touches_region app prev then collapse_blank (extractManagedRegion prev b)
       else extractManagedRegion prev b)"
    using assms(5,6) by (auto intro: edit_spec [OF assms(1-4)])
  moreover have "collapse_blank s = s" if "\<not> contains_str nl3 s" for s
    using that by (subst collapse_blank.simps) simp
  ultimately show ?thesis by simp
qed

theorem renderUpdated_isolates_apps_witness:
  "\<exists>upd. renderUpdated demo_caddyfile ''web'' [''web.example.com''] demo_route = Inr upd
    \<and> extractManagedRegion upd ''api'' = collapse_blank (extractManagedRegion demo_caddyfile ''api'')"
proof -
  obtain upd where u: "renderUpdated demo_caddyfile ''web'' [''web.example.com''] demo_route = Inr upd"
    using edit_spec [OF demo_edit_admissible(1-4)] by blast
  have "touches_region ''web'' demo_caddyfile"
    by code_simp
  then show ?thesis
    using renderUpdated_isolates_apps [OF demo_edit_admissible(1-4) _ u, of "''api''"] u by auto
qed

text \<open>
  The collapse of blank lines runs over the whole file.  Removing the route of \<open>web\<close> rewrites
  the region of \<open>api\<close> when that holds two blank lines in a row (they can come from its
  \<open>caddy_extra\<close>): its bytes change, and a compare-and-swap of \<open>api\<close> prepared before is refused
  although nobody edited \<open>api\<close>.
\<close>

theorem edit_rewrites_other_region:
  "\<exists>upd. renderUpdated demo_caddyfile ''web'' [] [] = Inr upd
    \<and> extractManagedRegion upd ''api'' \<noteq> extractManagedRegion demo_caddyfile ''api''"
proof -
  have "case renderUpdated demo_caddyfile ''web'' [] [] of
      Inr upd \<Rightarrow> extractManagedRegion upd ''api'' \<noteq> extractManagedRegion demo_caddyfile ''api''
    | Inl _ \<Rightarrow> False"
    by code_simp
  then show ?thesis
    by (auto split: sum.splits)
qed


section \<open>Maintenance mode gives the route back\<close>

lemma block_loop_shape:
  assumes "list_all plain_line out" and "block_loop app active out ls \<noteq> []"
  shows "\<exists>xs. list_all plain_line xs \<and> set xs \<subseteq> set out \<union> set ls
    \<and> block_loop app active out ls = trim_nl_both (unlines xs)"
  using assms
proof (induction ls arbitrary: out active)
  case (Cons l ls)
  have step: ?case
    if p: "list_all plain_line out'" and s: "set out' \<subseteq> set out \<union> {l}"
      and eq: "block_loop app active out (l # ls) = block_loop app active' out' ls" for out' active'
  proof -
    obtain xs where "list_all plain_line xs" and "set xs \<subseteq> set out' \<union> set ls"
      and "block_loop app active' out' ls = trim_nl_both (unlines xs)"
      using Cons.IH [OF p, of active'] Cons.prems(2) eq by auto
    with s eq show ?thesis
      by (intro exI [of _ xs]) auto
  qed
  show ?case
  proof (cases "beginMarkerApp l")
    case (Some n)
    then show ?thesis
      using Cons.prems(1) by (intro step [of out "active \<or> n = app"]) auto
  next
    case b: None
    show ?thesis
    proof (cases "endMarkerApp l")
      case (Some n)
      show ?thesis
      proof (cases "active \<and> n = app")
        case True
        then show ?thesis
          using b Some Cons.prems(1) by (intro exI [of _ out]) auto
      next
        case False
        then show ?thesis
          using b Some Cons.prems(1) by (intro step [of out active]) auto
      qed
    next
      case None
      with b have "plain_line l" by (simp add: plain_line_def)
      then show ?thesis
        using b None Cons.prems(1)
        by (intro step [of "if active then out @ [l] else out" active]) auto
    qed
  qed
qed simp

lemma lines_of_left: "\<exists>n. lines_of s = replicate n [] @ lines_of (trim_left (\<lambda>c. c = newline) s)"
proof (induction s)
  case (Cons c s)
  then show ?case
  proof (cases "c = newline")
    case True
    obtain n where "lines_of s = replicate n [] @ lines_of (trim_left (\<lambda>c. c = newline) s)"
      using Cons by blast
    with True show ?thesis
      by (intro exI [of _ "Suc n"]) (simp add: trim_left_def)
  next
    case False
    then show ?thesis
      by (intro exI [of _ 0]) (simp add: trim_left_def)
  qed
qed (simp add: trim_left_def)

lemma plain_trim_both:
  "list_all plain_line (lines_of s) \<Longrightarrow> list_all plain_line (lines_of (trim_nl_both s))"
  unfolding trim_nl_both_def
  using lines_of_left [of s] by (metis plain_trimmed list_all_append)

lemma extract_plain:
  assumes "extractCaddyfileBlock c m \<noteq> []"
  shows "list_all plain_line (lines_of (extractCaddyfileBlock c m))"
proof -
  obtain xs where p: "list_all plain_line xs" and sub: "set xs \<subseteq> set (lines_of c)"
    and e: "extractCaddyfileBlock c m = trim_nl_both (unlines xs)"
    using block_loop_shape [of "[]" "block_target m" False "lines_of c"] assms
    by (auto simp: extractCaddyfileBlock_def)
  have "\<forall>l \<in> set xs. newline \<notin> set l"
    using sub split_on_no_sep by blast
  then have "list_all plain_line (lines_of (unlines xs))"
    using p by (simp add: lines_of_unlines)
  then show ?thesis
    unfolding e by (rule plain_trim_both)
qed

lemma trim_newlines_last: "trim_newlines s \<noteq> [] \<Longrightarrow> List.last (trim_newlines s) \<noteq> newline"
  using hd_dropWhile [of "\<lambda>c. c = newline" "rev s"]
  by (auto simp: trim_newlines_def trim_right_def last_rev)

lemma trim_nl_both_idem: "trim_nl_both (trim_nl_both s) = trim_nl_both s"
proof -
  let ?d = "dropWhile (\<lambda>c. c = newline) s" and ?t = "trim_nl_both s"
  have t: "?t = trim_newlines ?d"
    by (simp add: trim_nl_both_def trim_left_def)
  show ?thesis
  proof (cases "?t = []")
    case True
    have "trim_nl_both [] = []" by code_simp
    with True show ?thesis by simp
  next
    case False
    obtain n where n: "?d = ?t @ replicate n newline"
      using trim_newlines_replicate [of ?d] t by metis
    with False have "?d \<noteq> []" and "hd ?t = hd ?d"
      by (metis append_is_Nil_conv, metis hd_append2)
    then have "hd ?t \<noteq> newline"
      using hd_dropWhile [of "\<lambda>c. c = newline" s] by simp
    moreover have "List.last ?t \<noteq> newline"
      using False t trim_newlines_last by metis
    ultimately show ?thesis
      using False by (simp add: trim_nl_both_def [of ?t] trim_left_hd trim_newlines_def trim_right_last)
  qed
qed

lemma extract_trimmed: "trim_nl_both (extractCaddyfileBlock c m) = extractCaddyfileBlock c m"
proof (cases "extractCaddyfileBlock c m = []")
  case True
  have "trim_nl_both [] = []" by code_simp
  with True show ?thesis by simp
next
  case False
  obtain xs where "extractCaddyfileBlock c m = trim_nl_both (unlines xs)"
    using block_loop_shape [of "[]" "block_target m" False "lines_of c"] False
    by (auto simp: extractCaddyfileBlock_def)
  then show ?thesis
    by (simp add: trim_nl_both_idem)
qed

lemma opened_tags: "n \<in> set (opened ls) \<longleftrightarrow>
   (\<exists>(a, l) \<in> set (filter (\<lambda>(a, l). l \<noteq> []) (tags cur ls)). beginMarkerApp l = Some n)"
proof (induction cur ls rule: tags.induct)
  case (2 cur l ls)
  have "beginMarkerApp l = Some m \<Longrightarrow> l \<noteq> []" for m by auto
  with 2 show ?case
    by (cases "beginMarkerApp l"; cases "endMarkerApp l") auto
qed simp

lemma touches_region_view:
  "touches_region n c \<longleftrightarrow> (\<exists>(a, l) \<in> set (file_view c). beginMarkerApp l = Some n)"
  by (simp add: touches_region_def file_view_def opened_tags [of n _ None])

lemma touches_region_put:
  assumes "touches_region n upd" and "n \<noteq> app" and "markerName app"
    and "list_all plain_line (lines_of block)"
    and "file_view upd = put_app app (marker_begin app # lines_of block @ [marker_end app]) (file_view c)"
  shows "touches_region n c"
  using assms
  by (auto simp: touches_region_view put_app_def drop_app_def plain_line_def list_all_iff)

lemma no_region_no_hosts:
  assumes "markerName n" and "\<not> touches_region n c"
  shows "managedBlockHosts c n = []"
proof -
  have "extractCaddyfileBlock c (marker_begin n) = []"
    using block_loop_skip [of n "lines_of c" "[]" "[]"] assms
    by (simp add: extractCaddyfileBlock_def touches_region_def)
  moreover have "hosts_loop (lines_of []) = []"
    by code_simp
  ultimately show ?thesis
    by (simp only: managedBlockHosts_def)
qed

lemma drop_app_put: "drop_app app (put_app app ls v) = drop_app app v"
  by (auto simp: put_app_def drop_app_def filter_map comp_def)

lemma markerName_lb: "markerName app \<Longrightarrow> markerName (''lb-'' @ app)"
  by (auto simp: markerName_def lower_alnum_def is_digit_def)

text \<open>
  Maintenance mode is reversible: on a well-marked Caddyfile in which the app has a route and
  no \<open>lb-<app>\<close> region exists, switching maintenance on and off again, with the stash taken when it
  was switched on, gives back the app's block byte for byte and leaves every other line as it
  was.
\<close>

theorem maintenance_roundtrip:
  assumes "markerName app" and "well_marked prev" and "nothing_foreign prev app hosts"
    and "\<not> touches_region (''lb-'' @ app) prev"
    and "stash = extractCaddyfileBlock prev (marker_begin app)" and "stash \<noteq> []"
    and "maintenance_replacement hosts stash = Inr page" and "list_all plain_line (lines_of page)"
    and "page \<noteq> []"
  shows "\<exists>during after. maintenance_edit app hosts prev = Inr during
    \<and> extractCaddyfileBlock during (marker_begin app) = trim_nl_both page
    \<and> restore_edit app stash during = Inr after
    \<and> extractCaddyfileBlock after (marker_begin app) = stash
    \<and> drop_app app (file_view after) = drop_app app (file_view prev)"
proof -
  obtain d where d: "renderUpdated prev app hosts page = Inr d" and wd: "well_marked d"
    and vd: "file_view d = put_app app (marker_begin app # lines_of page @ [marker_end app]) (file_view prev)"
    and rd: "extractCaddyfileBlock d (marker_begin app) = trim_nl_both page"
    using edit_spec [OF assms(1-3,8)] assms(9) by metis
  have "''lb-'' @ app \<noteq> app" by simp
  then have "\<not> touches_region (''lb-'' @ app) d"
    using touches_region_put [OF _ _ assms(1,8) vd] assms(4) by blast
  then have nf: "nothing_foreign d app []"
    using no_region_no_hosts [OF markerName_lb [OF assms(1)]] by (simp add: nothing_foreign_def)
  have st: "trim_nl_both stash = stash" and ps: "list_all plain_line (lines_of stash)"
    using assms(5,6) extract_trimmed extract_plain by blast+
  obtain a where a: "renderUpdated d app [] stash = Inr a"
    and va: "file_view a = put_app app (marker_begin app # lines_of stash @ [marker_end app]) (file_view d)"
    and ra: "extractCaddyfileBlock a (marker_begin app) = trim_nl_both stash"
    using edit_spec [OF assms(1) wd nf ps] assms(6) by metis
  have "maintenance_edit app hosts prev = Inr d"
    using assms(5,7) d by (simp add: maintenance_edit_def)
  moreover have "restore_edit app stash d = Inr a"
    using a st assms(6) by (simp add: restore_edit_def)
  moreover have "drop_app app (file_view a) = drop_app app (file_view prev)"
    by (simp add: va vd drop_app_put)
  ultimately show ?thesis
    using rd ra st by auto
qed

definition demo_page :: string where
  "demo_page = (case maintenance_replacement [''web.example.com'']
     (extractCaddyfileBlock demo_caddyfile (marker_begin ''web'')) of Inr p \<Rightarrow> p | Inl _ \<Rightarrow> [])"

theorem maintenance_roundtrip_witness:
  "\<exists>during after. maintenance_edit ''web'' [''web.example.com''] demo_caddyfile = Inr during
    \<and> restore_edit ''web'' (extractCaddyfileBlock demo_caddyfile (marker_begin ''web'')) during = Inr after
    \<and> extractCaddyfileBlock after (marker_begin ''web'')
        = extractCaddyfileBlock demo_caddyfile (marker_begin ''web'')"
proof -
  have 1: "\<not> touches_region (''lb-'' @ ''web'') demo_caddyfile"
    by code_simp
  have 2: "extractCaddyfileBlock demo_caddyfile (marker_begin ''web'') \<noteq> []"
    by code_simp
  have "case maintenance_replacement [''web.example.com'']
      (extractCaddyfileBlock demo_caddyfile (marker_begin ''web'')) of Inr _ \<Rightarrow> True | Inl _ \<Rightarrow> False"
    by code_simp
  then have 3: "maintenance_replacement [''web.example.com'']
      (extractCaddyfileBlock demo_caddyfile (marker_begin ''web'')) = Inr demo_page"
    by (simp add: demo_page_def split: sum.splits)
  have 4: "list_all plain_line (lines_of demo_page)" and 5: "demo_page \<noteq> []"
    by code_simp+
  show ?thesis
    using maintenance_roundtrip [OF demo_edit_admissible(1-3) 1 refl 2 3 4 5] by blast
qed

end
