(* ===== verification/CaddyCommitLaws.thy ===== *)
theory CaddyCommitLaws
  imports CaddyCommit CaddyfileEdits
begin

text \<open>
  The properties of the Caddyfile transaction: what every outcome of an edit means for the file
  and for the running proxy when nobody else writes, what a commit is allowed to overwrite when
  others do, and what the compare-and-swap compares.
\<close>

section \<open>Steps that leave the configuration alone\<close>

definition px_core :: "proxy \<Rightarrow> string option \<times> string option \<times> string option \<times> (string \<Rightarrow> small_file option)"
  where "px_core d = (px_file d, px_running d, px_pinned d, px_files d)"

text \<open>
  A step is still when it keeps whatever is known of the configuration, provided the other clients
  keep it too; on a quiet server it therefore changes nothing of it.
\<close>

definition still :: "proxy world \<Rightarrow> proxy world \<Rightarrow> bool" where
  "still w w' \<longleftrightarrow> (quiet w \<longrightarrow> quiet w')
     \<and> (\<forall>Q. stable (\<lambda>d. Q (px_core d)) w \<longrightarrow> Q (px_core (dir w)) \<longrightarrow>
            stable (\<lambda>d. Q (px_core d)) w' \<and> Q (px_core (dir w')))"

lemma still_refl [simp]: "still w w"
  by (simp add: still_def)

lemma still_trans: "still w v \<Longrightarrow> still v u \<Longrightarrow> still w u"
  unfolding still_def by meson

lemma still_cmd:
  assumes "\<And>d effs e d'. c d = Inr effs \<Longrightarrow> e \<in> set effs \<Longrightarrow> px_core (e d') = px_core d'"
  shows "still w (snd (run_cmd c w))"
proof -
  have "Q (px_core (dir (snd (run_cmd c w))))" if "stable (\<lambda>d. Q (px_core d)) w" and "Q (px_core (dir w))" for Q
    using that by (rule run_cmd_invariant [where P = "\<lambda>d. Q (px_core d)"]) (use assms in auto)
  then show ?thesis
    by (auto simp: still_def run_keeps)
qed

lemma still_read: "still w (snd (run_read f w))"
  using run_read_invariant [of "\<lambda>d. Q (px_core d)" w f for Q] by (auto simp: still_def run_keeps)

lemma stillD: "still w w' \<Longrightarrow> quiet w \<Longrightarrow> quiet w' \<and> px_core (dir w') = px_core (dir w)"
proof -
  assume a: "still w w'" and q: "quiet w"
  let ?Q = "\<lambda>x. x = px_core (dir w)"
  have "stable (\<lambda>d. ?Q (px_core d)) w"
    using q by (rule quiet_stable)
  then have "?Q (px_core (dir w'))"
    using a [unfolded still_def, THEN conjunct2, rule_format, of ?Q] by blast
  then show "quiet w' \<and> px_core (dir w') = px_core (dir w)"
    using a q by (simp add: still_def)
qed

lemma still_file:
  assumes "still w w'" and "stable (\<lambda>d. px_file d = f) w" and "px_file (dir w) = f"
  shows "stable (\<lambda>d. px_file d = f) w' \<and> px_file (dir w') = f"
  using assms(1) [unfolded still_def, THEN conjunct2, rule_format, of "\<lambda>x. fst x = f"] assms(2,3)
  by (simp add: px_core_def)

named_theorems stills \<open>steps of the transaction that leave the configuration alone\<close>

lemma still_mkdir [stills]: "still w (snd (run_cmd (mkdir_edit_lock now) w))"
  by (rule still_cmd) (auto simp: mkdir_edit_lock_def px_core_def split: if_splits)

lemma still_rm_lock [stills]: "still w (snd (run_cmd rm_edit_lock w))"
  by (rule still_cmd) (auto simp: rm_edit_lock_def px_core_def)

lemma still_nothing [stills]: "still w (snd (run_cmd (\<lambda>d. Inr []) w))"
  by (rule still_cmd) auto

lemma still_info [stills]: "still w (snd (writeCaddyLockInfo owner now w))"
  unfolding writeCaddyLockInfo_def
  by (rule still_cmd) (auto simp: px_core_def split: option.splits)

lemma still_stale [stills]: "still w (snd (caddyLockStale now w))"
  using still_read [of w info_of]
  by (auto simp: caddyLockStale_def split: prod.splits sum.splits option.splits edit_lock.splits)
    (metis still_read still_trans snd_conv)+

lemma still_adapt [stills]: "still w (snd (adaptCheck env content w))"
  unfolding adaptCheck_def by (rule still_cmd) (auto split: if_splits)

lemma still_stage [stills]: "still w (snd (stageCaddyfile tmp content w))"
  unfolding stageCaddyfile_def by (rule still_cmd) (auto simp: upload_def px_core_def)

lemma still_rm_staged [stills]: "still w (rm_staged tmp w)"
  unfolding rm_staged_def by (rule still_cmd) (auto simp: px_core_def)

lemma still_release [stills]: "still w (caddy_releaseLock owner w)"
  unfolding caddy_releaseLock_def
  by (rule still_cmd) (auto simp: rm_edit_lock_def px_core_def split: if_splits)

lemma still_verify [stills]: "still w (snd (verifyDelivered w))"
  using still_read [of w delivered] by (auto simp: verifyDelivered_def split: prod.splits sum.splits)

lemma still_block [stills]: "still w (snd (ReadManagedBlock app w))"
  using still_read [of w caddyfile_of]
  by (auto simp: ReadManagedBlock_def Let_def split: prod.splits sum.splits option.splits)

lemma still_cas_error [stills]: "still w (snd (routeCASError cas w))"
  using still_block [of w "re_app cas"]
  by (auto simp: routeCASError_def split: prod.splits sum.splits option.splits)

lemma still_read_file [stills]: "still w (snd (readServerFile path w))"
  unfolding readServerFile_def by (rule still_read)

lemma still_hook [stills]: "still w (snd (loadWebhookConfig app w))"
  using still_read_file [of w "webhookConfigPath app"]
  by (auto simp: loadWebhookConfig_def split: prod.splits sum.splits option.splits small_file.splits)

lemma still_apply_hook [stills]: "still w (snd (applyWebhookToBlock app content w))"
  using still_hook [of w app] by (auto simp: applyWebhookToBlock_def split: prod.splits sum.splits)

lemma still_then_hook [stills]: "still w (snd (then_webhook app r w))"
  by (auto simp: then_webhook_def stills split: sum.splits)

lemma still_acquire_rounds [stills]: "still w (snd (acquire_rounds owner clock w))"
proof (induction clock arbitrary: w)
  case (Cons now clock)
  obtain r w1 where m: "run_cmd (mkdir_edit_lock now) w = (r, w1)"
    by fastforce
  have s1: "still w w1"
    using still_mkdir [of w now] m by simp
  show ?case
  proof (cases r)
    case (Inr x)
    obtain r2 w2 where i: "writeCaddyLockInfo owner now w1 = (r2, w2)"
      by fastforce
    have s2: "still w w2"
      using still_trans [OF s1] still_info [of w1 owner now] i by simp
    then show ?thesis
      using still_trans [OF s2 still_rm_lock] m Inr i by (cases r2) auto
  next
    case (Inl e)
    obtain b w2 where c: "caddyLockStale now w1 = (b, w2)"
      by fastforce
    have s2: "still w w2"
      using still_trans [OF s1] still_stale [of w1 now] c by simp
    show ?thesis
      using still_trans [OF still_trans [OF s2 still_rm_lock] Cons.IH]
        still_trans [OF still_trans [OF s2 still_nothing] Cons.IH] m Inl c
      by auto
  qed
qed simp

lemma still_acquire [stills]: "still w (snd (caddy_acquireLock env w))"
  by (simp add: caddy_acquireLock_def still_acquire_rounds)

section \<open>The commit and the rollback on a quiet server\<close>

lemma commit_guards_cases:
  "commit_guards env ag owner cas c d = c d \<or> (\<exists>n \<in> {75, 76}. commit_guards env ag owner cas c d = Inl n)"
  by (auto simp: commit_guards_def Let_def app_guarded_def caddyGuardFragment_def routeCASFragment_def
      split: option.splits)

lemma staged_after:
  assumes "quiet w" and "fst (stageCaddyfile tmp content w) = Inr ()"
  shows "px_staged (dir (snd (stageCaddyfile tmp content w))) tmp = Some content"
  using assms
  by (auto simp: stageCaddyfile_def run_cmd_def upload_def Let_def fst_next_env_quiet split: answer.splits)

lemma mv_effects:
  "mv_caddyfile tmp d = Inr effs \<Longrightarrow> px_staged d tmp = Some s \<Longrightarrow>
     effs = [\<lambda>d. d\<lparr>px_file := Some s, px_staged := (px_staged d)(tmp := None)\<rparr>]"
  by (simp add: mv_caddyfile_def)

lemma guarded_mv_quiet:
  assumes "quiet w" and "px_staged (dir w) tmp = Some s"
    and "\<And>d. g d = mv_caddyfile tmp d \<or> (\<exists>n \<in> {75, 76}. g d = Inl n)"
  shows "quiet (snd (run_cmd g w))"
    and "fst (run_cmd g w) = Inr () \<Longrightarrow>
      px_core (dir (snd (run_cmd g w))) = (Some s, snd (px_core (dir w)))"
    and "fst (run_cmd g w) = Inl e \<Longrightarrow>
      px_core (dir (snd (run_cmd g w))) = px_core (dir w)
      \<or> (e = Transport \<and> px_core (dir (snd (run_cmd g w))) = (Some s, snd (px_core (dir w))))"
proof -
  show "quiet (snd (run_cmd g w))"
    using assms(1) by (simp add: run_keeps)
  have mv: "effs = [\<lambda>d. d\<lparr>px_file := Some s, px_staged := (px_staged d)(tmp := None)\<rparr>]"
    if "g (dir w) = Inr effs" for effs
    using assms(3) [of "dir w"] that mv_effects [OF _ assms(2)] by auto
  show "px_core (dir (snd (run_cmd g w))) = (Some s, snd (px_core (dir w)))"
    if "fst (run_cmd g w) = Inr ()"
    using assms(1) that mv by (cases rule: run_cmd_quiet_cases [of w g]) (auto simp: px_core_def)
  show "px_core (dir (snd (run_cmd g w))) = px_core (dir w)
      \<or> (e = Transport \<and> px_core (dir (snd (run_cmd g w))) = (Some s, snd (px_core (dir w))))"
    if e: "fst (run_cmd g w) = Inl e"
    using assms(1)
  proof (cases rule: run_cmd_quiet_cases [of w g])
    case (lost effs k)
    then show ?thesis
      using mv [of effs] e by (cases k) (auto simp: px_core_def)
  qed (use e in auto)
qed

lemma reload_quiet:
  assumes "quiet w"
  shows "quiet (snd (caddy_reload env w))"
    and "px_file (dir (snd (caddy_reload env w))) = px_file (dir w)"
    and "px_pinned (dir (snd (caddy_reload env w))) = px_pinned (dir w)"
    and "px_files (dir (snd (caddy_reload env w))) = px_files (dir w)"
    and "fst (caddy_reload env w) = Inr () \<Longrightarrow>
      px_running (dir (snd (caddy_reload env w))) = container_view (dir w)"
proof -
  show "quiet (snd (caddy_reload env w))"
    using assms by (simp add: caddy_reload_def run_keeps)
  have eff: "\<exists>s. container_view (dir w) = Some s \<and> effs = [\<lambda>d. d\<lparr>px_running := Some s\<rparr>]"
    if "reload_cmd env (dir w) = Inr effs" for effs
    using that by (auto simp: reload_cmd_def split: option.splits if_splits)
  let ?P = "\<lambda>d. px_file d = px_file (dir w) \<and> px_pinned d = px_pinned (dir w) \<and> px_files d = px_files (dir w)"
  have "?P (dir (snd (run_cmd (reload_cmd env) w)))"
  proof (rule run_cmd_invariant [of ?P])
    show "stable ?P w" using assms by (rule quiet_stable)
  qed (auto simp: reload_cmd_def split: option.splits if_splits)
  then show "px_file (dir (snd (caddy_reload env w))) = px_file (dir w)"
    and "px_pinned (dir (snd (caddy_reload env w))) = px_pinned (dir w)"
    and "px_files (dir (snd (caddy_reload env w))) = px_files (dir w)"
    by (simp_all add: caddy_reload_def)
  show "px_running (dir (snd (caddy_reload env w))) = container_view (dir w)"
    if "fst (caddy_reload env w) = Inr ()"
    using assms that unfolding caddy_reload_def
    by (cases rule: run_cmd_quiet_cases [of w "reload_cmd env"]) (auto dest!: eff)
qed


definition keeps_aux :: "proxy \<Rightarrow> proxy \<Rightarrow> bool" where
  "keeps_aux d d' \<longleftrightarrow> px_pinned d' = px_pinned d \<and> px_files d' = px_files d"

lemma writeCaddyfile_quiet:
  assumes "quiet w" and "writeCaddyfile tmp s w = (r, w')"
  shows "quiet w'" and "keeps_aux (dir w) (dir w')"
    and "px_running (dir w') = px_running (dir w)"
    and "r = Inr () \<Longrightarrow> px_file (dir w') = Some s"
    and "px_file (dir w') = px_file (dir w) \<or> px_file (dir w') = Some s"
proof -
  obtain r1 w1 where st: "stageCaddyfile tmp s w = (r1, w1)" by fastforce
  have q1: "quiet w1" and c1: "px_core (dir w1) = px_core (dir w)"
    using stillD [OF still_stage assms(1), of tmp s] st by auto
  have all: "quiet w' \<and> keeps_aux (dir w) (dir w') \<and> px_running (dir w') = px_running (dir w)
      \<and> (r = Inr () \<longrightarrow> px_file (dir w') = Some s)
      \<and> (px_file (dir w') = px_file (dir w) \<or> px_file (dir w') = Some s)"
  proof (cases r1)
    case (Inl e)
    then show ?thesis
      using assms(2) st q1 c1 by (auto simp: writeCaddyfile_def px_core_def keeps_aux_def)
  next
    case (Inr u)
    have staged: "px_staged (dir w1) tmp = Some s"
      using staged_after [OF assms(1), of tmp s] st Inr by auto
    obtain r2 w2 where mv: "run_cmd (mv_caddyfile tmp) w1 = (r2, w2)" by fastforce
    note g = guarded_mv_quiet [OF q1 staged, of "mv_caddyfile tmp"]
    have q2: "quiet w2" using g(1) mv by simp
    show ?thesis
    proof (cases r2)
      case Inr2: (Inr x)
      then show ?thesis
        using assms(2) st Inr mv g(2) q2 c1
        by (auto simp: writeCaddyfile_def px_core_def keeps_aux_def)
    next
      case Inl2: (Inl e)
      have "quiet (rm_staged tmp w2)" and "px_core (dir (rm_staged tmp w2)) = px_core (dir w2)"
        using stillD [OF still_rm_staged q2] by auto
      then show ?thesis
        using assms(2) st Inr mv g(3) [of e] Inl2 c1
        by (auto simp: writeCaddyfile_def px_core_def keeps_aux_def)
    qed
  qed
  then show "quiet w'" and "keeps_aux (dir w) (dir w')"
    and "px_running (dir w') = px_running (dir w)"
    and "r = Inr () \<Longrightarrow> px_file (dir w') = Some s"
    and "px_file (dir w') = px_file (dir w) \<or> px_file (dir w') = Some s"
    by blast+
qed

definition rollback_ok :: "string \<Rightarrow> string \<Rightarrow> caddy_failure \<Rightarrow> proxy \<Rightarrow> bool" where
  "rollback_ok prev updated f d \<longleftrightarrow>
     (f = RolledBack \<and> px_file d = Some prev \<and> px_running d = container_view d)
     \<or> (f = ReloadBackFailed \<and> px_file d = Some prev)
     \<or> (f = RestoreFailed \<and> (px_file d = Some prev \<or> px_file d = Some updated))"

lemma container_view_cong:
  "px_file d = px_file d' \<Longrightarrow> px_pinned d = px_pinned d' \<Longrightarrow> container_view d = container_view d'"
  by (simp add: container_view_def split: option.splits)

lemma roll_back_quiet:
  assumes "quiet w" and "px_file (dir w) = Some updated" and "roll_back env prev w = (f, w')"
  shows "quiet w' \<and> keeps_aux (dir w) (dir w') \<and> rollback_ok prev updated f (dir w')"
proof -
  obtain r1 w1 where wr: "writeCaddyfile (en_tmp_restore env) prev w = (r1, w1)" by fastforce
  note wq = writeCaddyfile_quiet [OF assms(1) wr]
  show ?thesis
  proof (cases r1)
    case (Inl e)
    then show ?thesis
      using assms(2,3) wr wq by (auto simp: roll_back_def rollback_ok_def)
  next
    case (Inr u)
    obtain r2 w2 where re: "caddy_reload env w1 = (r2, w2)" by fastforce
    note rq = reload_quiet [OF wq(1), of env]
    have "container_view (dir w2) = container_view (dir w1)"
      using rq re by (intro container_view_cong) auto
    then show ?thesis
      using assms(3) wr wq Inr re rq
      by (cases r2) (auto simp: roll_back_def rollback_ok_def keeps_aux_def)
  qed
qed

text \<open>What the result of a commit says about the server, from the state it started in.\<close>

definition commit_ok :: "proxy \<Rightarrow> string \<Rightarrow> string \<Rightarrow> (caddy_failure, unit) result \<Rightarrow> proxy \<Rightarrow> bool" where
  "commit_ok before prev updated r after \<longleftrightarrow> keeps_aux before after \<and>
     (case r of
        Inr _ \<Rightarrow> px_file after = Some updated \<and> container_view after = Some updated
          \<and> px_running after = Some updated
      | Inl f \<Rightarrow>
          rollback_ok prev updated f after
          \<or> (f = CommitFailed Transport \<and> px_running after = px_running before
             \<and> (px_file after = px_file before \<or> px_file after = Some updated))
          \<or> (f \<notin> {RolledBack, ReloadBackFailed, RestoreFailed, CommitFailed Transport}
             \<and> px_core after = px_core before))"

lemma verify_quiet:
  assumes "quiet w" and "fst (verifyDelivered w)"
  shows "delivered (dir w)"
  using assms
  by (auto simp: verifyDelivered_def run_read_def Let_def fst_next_env_quiet split: answer.splits)

lemma commit_edit_quiet:
  assumes "quiet w" and "commit_edit env ag cas owner prev updated w = (r, w')"
  shows "quiet w' \<and> commit_ok (dir w) prev updated r (dir w')"
proof -
  let ?tmp = "en_tmp env"
  let ?g = "commit_guards env ag owner cas (mv_caddyfile ?tmp)"
  obtain r1 w1 where st: "stageCaddyfile ?tmp updated w = (r1, w1)" by fastforce
  have q1: "quiet w1" and c1: "px_core (dir w1) = px_core (dir w)"
    using stillD [OF still_stage assms(1), of ?tmp updated] st by auto
  show ?thesis
  proof (cases r1)
    case (Inl e)
    then show ?thesis
      using assms(2) st q1 c1
      by (auto simp: commit_edit_def commit_ok_def px_core_def keeps_aux_def)
  next
    case (Inr u)
    have staged: "px_staged (dir w1) ?tmp = Some updated"
      using staged_after [OF assms(1), of ?tmp updated] st Inr by auto
    obtain r2 w2 where mv: "run_cmd ?g w1 = (r2, w2)" by fastforce
    have gc: "?g d = mv_caddyfile ?tmp d \<or> (\<exists>n \<in> {75, 76}. ?g d = Inl n)" for d
      by (rule commit_guards_cases)
    note g = guarded_mv_quiet [OF q1 staged gc]
    have q2: "quiet w2" using g(1) mv by simp
    show ?thesis
    proof (cases r2)
      case Inl2: (Inl e)
      obtain f w3 where f: "(case cas of
                      Some k \<Rightarrow> if routeCASRefused e then routeCASError k w2
                                else ((if fenceRefused e then FenceRefused else CommitFailed e), w2)
                    | None \<Rightarrow> ((if fenceRefused e then FenceRefused else CommitFailed e), w2)) = (f, w3)"
        by fastforce
      have s3: "still w2 w3"
      proof (cases cas)
        case (Some k)
        then show ?thesis
          using f still_cas_error [of w2 k] by (cases "routeCASRefused e") auto
      qed (use f in auto)
      have fk: "f = CommitFailed e \<or> f = FenceRefused \<and> e \<noteq> Transport
          \<or> (\<exists>x. f = RouteCASRefused x) \<and> e \<noteq> Transport"
        using f by (auto simp: routeCASRefused_def fenceRefused_def routeCASError_def
            split: option.splits if_splits prod.splits sum.splits)
      have s4: "still w2 (rm_staged ?tmp w3)"
        using still_trans [OF s3 still_rm_staged] .
      have fin: "r = Inl f" "w' = rm_staged ?tmp w3"
        using assms(2) st Inr mv Inl2 f by (auto simp: commit_edit_def)
      have c4: "px_core (dir w') = px_core (dir w2)" and q4: "quiet w'"
        using stillD [OF s4 q2] fin by auto
      have c2: "px_core (dir w2) = px_core (dir w1)
          \<or> (e = Transport \<and> px_core (dir w2) = (Some updated, snd (px_core (dir w1))))"
        using g(3) [of e] mv Inl2 by auto
      show ?thesis
      proof (cases "px_core (dir w2) = px_core (dir w1)")
        case True
        then show ?thesis
          using q4 c4 c1 fin fk by (auto simp: commit_ok_def px_core_def keeps_aux_def)
      next
        case False
        with c2 fk have "e = Transport" and "f = CommitFailed Transport" by auto
        then show ?thesis
          using q4 c4 c1 c2 fin by (auto simp: commit_ok_def px_core_def keeps_aux_def)
      qed
    next
      case Inr2: (Inr x)
      have c2: "px_core (dir w2) = (Some updated, snd (px_core (dir w)))"
        using g(2) mv Inr2 c1 by simp
      obtain r3 w3 where re: "caddy_reload env w2 = (r3, w3)" by fastforce
      note rq = reload_quiet [OF q2, of env]
      have f3: "px_file (dir w3) = Some updated" and q3: "quiet w3" and k3: "keeps_aux (dir w) (dir w3)"
        using rq re c2 by (auto simp: px_core_def keeps_aux_def)
      show ?thesis
      proof (cases r3)
        case (Inl e)
        obtain f w4 where rb: "roll_back env prev w3 = (f, w4)" by fastforce
        show ?thesis
          using roll_back_quiet [OF q3 f3 rb] assms(2) st Inr mv Inr2 re Inl rb k3
          by (auto simp: commit_edit_def commit_ok_def keeps_aux_def)
      next
        case Inr3: (Inr y)
        obtain ok w4 where ve: "verifyDelivered w3 = (ok, w4)" by fastforce
        have q4: "quiet w4" and c4: "px_core (dir w4) = px_core (dir w3)"
          using stillD [OF still_verify q3] ve by auto
        show ?thesis
        proof (cases ok)
          case True
          have cv: "container_view (dir w3) = container_view (dir w2)"
            using rq re by (intro container_view_cong) auto
          have "px_running (dir w3) = container_view (dir w3)"
            using rq(5) re Inr3 cv by simp
          moreover have "container_view (dir w3) = Some updated"
            using verify_quiet [OF q3] ve True f3 by (simp add: delivered_def)
          moreover have "container_view (dir w4) = container_view (dir w3)"
            using c4 by (intro container_view_cong) (auto simp: px_core_def)
          ultimately show ?thesis
            using assms(2) st Inr mv Inr2 re Inr3 ve True q4 c4 f3 k3
            by (auto simp: commit_edit_def commit_ok_def px_core_def keeps_aux_def)
        next
          case False
          obtain f w5 where rb: "roll_back env prev w4 = (f, w5)" by fastforce
          have f4: "px_file (dir w4) = Some updated"
            using c4 f3 by (simp add: px_core_def)
          show ?thesis
            using roll_back_quiet [OF q4 f4 rb] assms(2) st Inr mv Inr2 re Inr3 ve False rb k3 c4
            by (auto simp: commit_edit_def commit_ok_def px_core_def keeps_aux_def)
        qed
      qed
    qed
  qed
qed


section \<open>A whole transaction on a quiet server\<close>

definition early_failure :: "caddy_failure \<Rightarrow> bool" where
  "early_failure f \<longleftrightarrow> f \<notin> {RolledBack, ReloadBackFailed, RestoreFailed, CommitFailed Transport}"

text \<open>
  The contract of an edit that wants to write \<open>updated\<close> over \<open>prev\<close>, the file as it was read.
\<close>

definition edit_outcome :: "proxy \<Rightarrow> string \<Rightarrow> string \<Rightarrow> (caddy_failure, 'x) result \<Rightarrow> proxy \<Rightarrow> bool" where
  "edit_outcome before prev updated r after \<longleftrightarrow> keeps_aux before after \<and>
     (case r of
        Inr _ \<Rightarrow> (updated = prev \<and> px_core after = px_core before)
          \<or> (px_file after = Some updated \<and> container_view after = Some updated
             \<and> px_running after = Some updated)
      | Inl f \<Rightarrow>
          rollback_ok prev updated f after
          \<or> (f = CommitFailed Transport \<and> px_running after = px_running before
             \<and> (px_file after = px_file before \<or> px_file after = Some updated))
          \<or> (early_failure f \<and> px_core after = px_core before))"

lemma keeps_aux_core: "px_core d = px_core d' \<Longrightarrow> keeps_aux d' d"
  by (simp add: px_core_def keeps_aux_def)

lemma edit_outcome_core:
  "edit_outcome b prev u r a \<Longrightarrow> px_core a' = px_core a \<Longrightarrow> px_core b' = px_core b \<Longrightarrow>
     edit_outcome b' prev u r a'"
  using container_view_cong [of a' a]
  by (auto simp: edit_outcome_def rollback_ok_def px_core_def keeps_aux_def split: sum.splits)

lemma edit_locked_quiet:
  assumes "quiet w" and "px_file (dir w) = Some s"
    and "\<And>v. still v (snd (t (trim_space s) v))"
    and "\<And>v e. fst (t (trim_space s) v) = Inl e \<Longrightarrow> early_failure e"
    and "\<And>v u x. quiet v \<Longrightarrow> px_core (dir v) = px_core (dir w) \<Longrightarrow> fst (t (trim_space s) v) = Inr (u, x)
      \<Longrightarrow> u = upd"
    and "edit_locked env ag cas t owner w = (r, w')"
  shows "quiet w' \<and> edit_outcome (dir w) (trim_space s) upd r (dir w')"
proof -
  obtain r1 w1 where rd: "run_read caddyfile_of w = (r1, w1)" by fastforce
  have q1: "quiet w1" and d1: "dir w1 = dir w"
    using run_read_dir_quiet [OF assms(1), of caddyfile_of] run_read_quiet [OF assms(1), of caddyfile_of] rd
    by auto
  have rv: "r1 = Inr (Some s)" if "r1 = Inr x" for x
    using run_read_Inr [of caddyfile_of w x] rd that d1 assms(2) by (simp add: caddyfile_of_def)
  show ?thesis
  proof (cases r1)
    case (Inl e)
    then show ?thesis
      using assms(6) rd q1 d1 by (auto simp: edit_locked_def edit_outcome_def early_failure_def keeps_aux_def)
  next
    case (Inr x)
    with rv have r1: "r1 = Inr (Some s)" by blast
    obtain r2 w2 where tr: "t (trim_space s) w1 = (r2, w2)" by fastforce
    have q2: "quiet w2" and c2: "px_core (dir w2) = px_core (dir w)"
      using stillD [OF assms(3) q1] tr d1 by auto
    show ?thesis
    proof (cases r2)
      case (Inl e)
      with assms(4) [of w1 e] tr have "early_failure e" by simp
      with Inl show ?thesis
        using assms(6) rd r1 tr q2 c2 keeps_aux_core [OF c2]
        by (auto simp: edit_locked_def edit_outcome_def Let_def)
    next
      case Inr2: (Inr ux)
      obtain u x where ux: "ux = (u, x)" by fastforce
      have u: "u = upd"
        using assms(5) [OF q1, of u x] d1 tr Inr2 ux by simp
      show ?thesis
      proof (cases "u = trim_space s")
        case True
        then show ?thesis
          using assms(6) rd r1 tr Inr2 ux q2 c2 u keeps_aux_core [OF c2]
          by (auto simp: edit_locked_def edit_outcome_def Let_def)
      next
        case False
        obtain r3 w3 where ad: "adaptCheck env u w2 = (r3, w3)" by fastforce
        have q3: "quiet w3" and c3: "px_core (dir w3) = px_core (dir w)"
          using stillD [OF still_adapt q2, of env u] ad c2 by auto
        show ?thesis
        proof (cases r3)
          case (Inl e)
          then show ?thesis
            using assms(6) rd r1 tr Inr2 ux False ad q3 c3 keeps_aux_core [OF c3]
            by (auto simp: edit_locked_def edit_outcome_def early_failure_def Let_def)
        next
          case Inr3: (Inr y)
          obtain r4 w4 where co: "commit_edit env ag cas owner (trim_space s) u w3 = (r4, w4)"
            by fastforce
          have fin: "w' = w4" "r = (case r4 of Inl f \<Rightarrow> Inl f | Inr _ \<Rightarrow> Inr x)"
            using assms(6) rd r1 tr Inr2 ux False ad Inr3 co
            by (auto simp: edit_locked_def Let_def split: sum.splits)
          have ck: "quiet w4" "commit_ok (dir w3) (trim_space s) upd r4 (dir w4)"
            using commit_edit_quiet [OF q3 co] u by auto
          have "edit_outcome (dir w3) (trim_space s) upd r (dir w4)"
            using ck(2) fin(2)
            by (auto simp: commit_ok_def edit_outcome_def early_failure_def split: sum.splits)
          then have "edit_outcome (dir w) (trim_space s) upd r (dir w4)"
            by (rule edit_outcome_core) (simp_all add: c3)
          with ck(1) fin(1) show ?thesis by simp
        qed
      qed
    qed
  qed
qed

lemma acquire_failure: "fst (acquire_rounds owner clock w) = Inl f \<Longrightarrow> early_failure f"
  by (induction clock arbitrary: w)
    (auto simp: early_failure_def split: prod.splits sum.splits if_splits)

lemma mutateWithCAS_quiet:
  assumes "quiet w" and "px_file (dir w) = Some s"
    and "\<And>v. still v (snd (t (trim_space s) v))"
    and "\<And>v e. fst (t (trim_space s) v) = Inl e \<Longrightarrow> early_failure e"
    and "\<And>v u x. quiet v \<Longrightarrow> px_core (dir v) = px_core (dir w) \<Longrightarrow> fst (t (trim_space s) v) = Inr (u, x)
      \<Longrightarrow> u = upd"
    and "mutateWithCAS env ag cas t w = (r, w')"
  shows "quiet w' \<and> edit_outcome (dir w) (trim_space s) upd r (dir w')"
proof -
  obtain r1 w1 where ac: "caddy_acquireLock env w = (r1, w1)" by fastforce
  have q1: "quiet w1" and c1: "px_core (dir w1) = px_core (dir w)"
    using stillD [OF still_acquire assms(1), of env] ac by auto
  show ?thesis
  proof (cases r1)
    case (Inl f)
    with ac have "early_failure f"
      using acquire_failure [of "en_owner env" "take lockWaitTries (en_times env)" w f]
      by (simp add: caddy_acquireLock_def)
    then show ?thesis
      using assms(6) ac Inl q1 c1 keeps_aux_core [OF c1]
      by (auto simp: mutateWithCAS_def edit_outcome_def)
  next
    case (Inr owner)
    obtain r2 w2 where ed: "edit_locked env ag cas t owner w1 = (r2, w2)" by fastforce
    have f1: "px_file (dir w1) = Some s"
      using c1 assms(2) by (simp add: px_core_def)
    have "quiet w2 \<and> edit_outcome (dir w1) (trim_space s) upd r2 (dir w2)"
      using c1 by (intro edit_locked_quiet [OF q1 f1 assms(3,4) _ ed]) (auto intro: assms(5))
    then have q2: "quiet w2" and o2: "edit_outcome (dir w1) (trim_space s) upd r2 (dir w2)" by auto
    have fin: "r = r2" "w' = caddy_releaseLock owner w2"
      using assms(6) ac Inr ed by (auto simp: mutateWithCAS_def)
    have "quiet w'" and "px_core (dir w') = px_core (dir w2)"
      using stillD [OF still_release q2, of owner] fin by auto
    with o2 c1 fin show ?thesis
      by (auto intro: edit_outcome_core)
  qed
qed

text \<open>The text an app's managed edit writes, from the file and the descriptor it finds.\<close>

definition descriptor_of :: "proxy \<Rightarrow> string \<Rightarrow> webhookRouteConfig option" where
  "descriptor_of d app =
     (case px_files d (webhookConfigPath app) of Some (HookFile cfg) \<Rightarrow> Some cfg | _ \<Rightarrow> None)"

definition managed_text :: "proxy \<Rightarrow> string \<Rightarrow> string list \<Rightarrow> string \<Rightarrow> string \<Rightarrow> string" where
  "managed_text d app hosts block prev =
     (case bind_result (renderUpdated prev app hosts block) (apply_webhook app (descriptor_of d app)) of
        Inr u \<Rightarrow> u | Inl _ \<Rightarrow> prev)"

lemma loadWebhookConfig_quiet:
  assumes "quiet v" and "fst (loadWebhookConfig app v) = Inr cfg"
  shows "cfg = descriptor_of (dir v) app"
  using assms
  by (auto simp: loadWebhookConfig_def readServerFile_def run_read_def Let_def fst_next_env_quiet
      descriptor_of_def split: answer.splits option.splits small_file.splits if_splits sum.splits prod.splits)

lemma then_webhook_quiet:
  assumes "quiet v" and "fst (then_webhook app (renderUpdated prev app hosts block) v) = Inr u"
  shows "u = managed_text (dir v) app hosts block prev"
proof -
  obtain c where c: "renderUpdated prev app hosts block = Inr c" and
    a: "fst (applyWebhookToBlock app c v) = Inr u"
    using assms(2) by (auto simp: then_webhook_def split: sum.splits)
  show ?thesis
  proof (cases "extractCaddyfileBlock c (marker_begin app) = []")
    case True
    then show ?thesis
      using a c by (simp add: applyWebhookToBlock_def managed_text_def apply_webhook_def Let_def)
  next
    case False
    then obtain cfg v1 where "loadWebhookConfig app v = (Inr cfg, v1)"
      and "apply_webhook app cfg c = Inr u"
      using a by (auto simp: applyWebhookToBlock_def split: prod.splits sum.splits)
    then show ?thesis
      using loadWebhookConfig_quiet [OF assms(1), of app cfg] c by (simp add: managed_text_def)
  qed
qed

lemma then_webhook_failure: "fst (then_webhook app r v) = Inl e \<Longrightarrow> early_failure e"
  by (auto simp: then_webhook_def applyWebhookToBlock_def loadWebhookConfig_def early_failure_def
      split: sum.splits prod.splits option.splits small_file.splits if_splits)

lemma managed_text_core: "px_core d = px_core d' \<Longrightarrow> managed_text d app hosts b p = managed_text d' app hosts b p"
  by (simp add: px_core_def managed_text_def descriptor_of_def)

definition stamped_block :: "CaddyClient \<Rightarrow> string \<Rightarrow> string" where
  "stamped_block c block =
     (if block \<noteq> [] \<and> 0 < cc_stamp c then generation_stamp (cc_stamp c) @ nl @ block else block)"

text \<open>
  C20. Every outcome of a managed route edit (a deploy's route switch, a static route, a removal)
  is truthful, wherever the connection is lost, while nobody else edits: on success the file is
  the rendered text and the running proxy serves it; a reported rollback means that the previous
  text is back on disk and the proxy was reloaded from what its container sees; the other two
  rollback failures say what is on disk; a commit whose answer was lost leaves the old file or
  the new one; and every other failure leaves file and proxy alone.  The app's other files are
  never touched.
\<close>

theorem managed_edit_outcome:
  assumes "quiet w" and "px_file (dir w) = Some s"
    and "applyManagedBlock env c app hosts block w = (r, c', w')"
  shows "edit_outcome (dir w) (trim_space s)
    (managed_text (dir w) app hosts (stamped_block c block) (trim_space s)) r (dir w')"
proof (cases "case cc_cas c of Some k \<Rightarrow> re_app k \<noteq> app | None \<Rightarrow> False")
  case True
  then show ?thesis
    using assms(3)
    by (auto simp: applyManagedBlock_def edit_outcome_def early_failure_def keeps_aux_def)
next
  case False
  let ?b = "stamped_block c block"
  let ?t = "no_note (\<lambda>prev v. then_webhook app (renderUpdated prev app hosts ?b) v)"
  have m: "mutateWithCAS env (cc_guard c) (cc_cas c) ?t w = (r, w')"
    using assms(3) False by (auto simp: applyManagedBlock_def stamped_block_def Let_def split: prod.splits)
  have st: "still v (snd (?t p v))" for p v
    using still_then_hook [of v app "renderUpdated p app hosts ?b"]
    by (auto simp: no_note_def split: prod.splits sum.splits)
  have er: "early_failure e" if "fst (?t p v) = Inl e" for p v e
    using that then_webhook_failure [of app "renderUpdated p app hosts ?b" v e]
    by (auto simp: no_note_def split: prod.splits sum.splits)
  have up: "u = managed_text (dir w) app hosts ?b (trim_space s)"
    if "quiet v" and "px_core (dir v) = px_core (dir w)" and "fst (?t (trim_space s) v) = Inr (u, x)"
    for v u x
  proof -
    have "fst (then_webhook app (renderUpdated (trim_space s) app hosts ?b) v) = Inr u"
      using that(3) by (auto simp: no_note_def split: prod.splits sum.splits)
    then show ?thesis
      using then_webhook_quiet [OF that(1)] managed_text_core [OF that(2)] by simp
  qed
  have "quiet w' \<and> edit_outcome (dir w) (trim_space s)
      (managed_text (dir w) app hosts ?b (trim_space s)) r (dir w')"
    by (rule mutateWithCAS_quiet [OF assms(1,2) _ _ _ m]) (rule st, erule er, erule (2) up)
  then show ?thesis by simp
qed


definition demo_env :: edit_env where
  "demo_env = \<lparr>en_adapts = (\<lambda>s. s \<noteq> []), en_loads = (\<lambda>s. s \<noteq> []), en_sha = id, en_owner = ''0a1b'',
     en_times = [second, 2 * second], en_tmp = ''tmp1'', en_tmp_restore = ''tmp2''\<rparr>"

definition demo_proxy :: proxy where
  "demo_proxy = \<lparr>px_file = Some demo_caddyfile, px_staged = (\<lambda>_. None), px_lock = None,
     px_pinned = None, px_running = Some demo_caddyfile, px_files = (\<lambda>_. None)\<rparr>"

definition demo_client :: CaddyClient where
  "demo_client = \<lparr>cc_guard = None, cc_stamp = 5, cc_cas = None\<rparr>"

definition lossy :: "nat \<Rightarrow> nat \<Rightarrow> proxy \<Rightarrow> proxy world" where
  "lossy n k d = \<lparr>dir = d, script = replicate n (id, Delivered) @ [(id, Lost k)]\<rparr>"

lemma lossy_quiet: "quiet (lossy n k d)"
  by (auto simp: lossy_def quiet_def)

theorem managed_edit_outcome_witness:
  "\<exists>r c' w'. applyManagedBlock demo_env demo_client ''web'' [''web.example.com''] demo_route
      (lossy 7 1 demo_proxy) = (r, c', w')
    \<and> edit_outcome demo_proxy (trim_space demo_caddyfile)
        (managed_text demo_proxy ''web'' [''web.example.com''] (stamped_block demo_client demo_route)
          (trim_space demo_caddyfile)) r (dir w')"
proof -
  obtain r c' w' where run: "applyManagedBlock demo_env demo_client ''web'' [''web.example.com'']
      demo_route (lossy 7 1 demo_proxy) = (r, c', w')"
    by (cases "applyManagedBlock demo_env demo_client ''web'' [''web.example.com''] demo_route
      (lossy 7 1 demo_proxy)") auto
  have d: "dir (lossy 7 1 demo_proxy) = demo_proxy"
    by (simp add: lossy_def)
  have f: "px_file (dir (lossy 7 1 demo_proxy)) = Some demo_caddyfile"
    unfolding d by (simp add: demo_proxy_def)
  show ?thesis
    using managed_edit_outcome [OF lossy_quiet f run] run unfolding d by blast
qed

text \<open>
  When the answer of the commit command is lost after the rename, the edit reports a failed
  commit and stops: the new configuration is on disk, it was neither reloaded nor rolled back,
  and the running proxy still serves the old one.  The next reload by anybody, or the next boot
  of the proxy, activates the route of an operation that reported failure.
\<close>

theorem lost_commit_leaves_new_file:
  "\<exists>c' w' u. applyManagedBlock demo_env demo_client ''web'' [''web.example.com''] demo_route
      (lossy 6 1 demo_proxy) = (Inl (CommitFailed Transport), c', w')
    \<and> px_file (dir w') = Some u \<and> extractManagedRegion u ''web'' \<noteq> extractManagedRegion demo_caddyfile ''web''
    \<and> px_running (dir w') = Some demo_caddyfile"
proof -
  let ?run = "applyManagedBlock demo_env demo_client ''web'' [''web.example.com''] demo_route
      (lossy 6 1 demo_proxy)"
  have "case ?run of (r, c', w') \<Rightarrow>
      (case r of Inl (CommitFailed Transport) \<Rightarrow> True | _ \<Rightarrow> False)
      \<and> (case px_file (dir w') of Some u \<Rightarrow>
            extractManagedRegion u ''web'' \<noteq> extractManagedRegion demo_caddyfile ''web'' | None \<Rightarrow> False)
      \<and> px_running (dir w') = Some demo_caddyfile"
    by code_simp
  then show ?thesis
    by (auto split: prod.splits sum.splits caddy_failure.splits exec_error.splits option.splits)
qed


section \<open>A superseded edit changes nothing\<close>

lemma guards_refuse:
  assumes "\<not> route_current (en_sha env) cas d"
  shows "\<exists>n. commit_guards env ag owner (Some cas) c d = Inl n"
  using route_cas.refuses [OF assms, of c] app_fence_of_edit.admits app_fence_of_edit.refuses
    edit_fence.admits edit_fence.refuses
  by (cases ag; cases "names_editor owner d"; simp add: commit_guards_def Let_def)
    (metis app_fence_of_edit.admits app_fence_of_edit.refuses edit_fence.admits edit_fence.refuses)+

lemma commit_edit_superseded:
  assumes "stable (\<lambda>d. px_file d = Some f) w" and "px_file (dir w) = Some f"
    and "en_sha env (server_region (re_app cas) f) \<notin> set (acceptable_hashes (en_sha env) cas)"
    and "commit_edit env ag (Some cas) owner prev updated w = (r, w')"
  shows "px_file (dir w') = Some f \<and> stable (\<lambda>d. px_file d = Some f) w' \<and> (\<exists>e. r = Inl e)"
proof -
  let ?P = "\<lambda>d. px_file d = Some f"
  let ?g = "commit_guards env ag owner (Some cas) (mv_caddyfile (en_tmp env))"
  obtain r1 w1 where st: "stageCaddyfile (en_tmp env) updated w = (r1, w1)" by fastforce
  have p1: "stable ?P w1 \<and> ?P (dir w1)"
    using still_file [OF still_stage assms(1,2), of "en_tmp env" updated] st by simp
  show ?thesis
  proof (cases r1)
    case (Inl e)
    with assms(4) st p1 show ?thesis by (auto simp: commit_edit_def)
  next
    case (Inr u)
    have refuse: "\<exists>n. ?g d = Inl n" if "?P d" for d
      using guards_refuse [of env cas d] assms(3) that by (simp add: route_current_def live_region_def)
    obtain r2 w2 where mv: "run_cmd ?g w1 = (r2, w2)" by fastforce
    obtain e where e: "r2 = Inl e" and d2: "?P (dir w2)"
      using run_cmd_refused [of ?P w1 ?g] p1 refuse mv by auto
    have s2: "stable ?P w2"
      using run_keeps(1) [of ?P w1 ?g] p1 mv by simp
    obtain g w3 where c: "(if routeCASRefused e then routeCASError cas w2
        else ((if fenceRefused e then FenceRefused else CommitFailed e), w2)) = (g, w3)"
      by fastforce
    have "still w2 w3"
      using c still_cas_error [of w2 cas] by (auto split: if_splits)
    then have p3: "stable ?P (rm_staged (en_tmp env) w3) \<and> ?P (dir (rm_staged (en_tmp env) w3))"
      using still_file [OF still_trans [OF _ still_rm_staged] s2 d2] by blast
    have "r = Inl g \<and> w' = rm_staged (en_tmp env) w3"
      using assms(4) st Inr mv e c by (auto simp: commit_edit_def split: if_splits)
    with p3 show ?thesis by simp
  qed
qed



definition stale_client :: CaddyClient where
  "stale_client = WithRouteCAS demo_client ''web'' [''hash of an older block''] 4"


section \<open>What the server compares\<close>

definition exact_markers :: "string \<Rightarrow> string list \<Rightarrow> bool" where
  "exact_markers app ls \<longleftrightarrow> list_all (\<lambda>l. (beginMarkerApp l = Some app \<longrightarrow> l = marker_begin app)
     \<and> (endMarkerApp l = Some app \<longrightarrow> l = marker_end app)) ls"

lemma sed_range_owned:
  assumes "well_marked_from seen cur ls" and "markerName app" and "exact_markers app ls"
  shows "cur \<noteq> Some app \<Longrightarrow>
      sed_range (marker_begin app) (marker_end app) False (map (\<lambda>l. (l, t)) ls) =
        map (\<lambda>l. (l, t)) (owned_from app cur ls)"
    and "cur = Some app \<Longrightarrow> app \<in> set seen \<Longrightarrow>
      sed_range (marker_begin app) (marker_end app) True (map (\<lambda>l. (l, t)) ls) =
        map (\<lambda>l. (l, t)) (owned_from app cur ls)"
  using assms(1,3)
proof (induction ls arbitrary: seen cur)
  case Nil
  { case 1 then show ?case by (simp add: owned_from_def) }
  { case 2 then show ?case by simp }
next
  case (Cons l ls)
  have ex: "exact_markers app ls"
    and eb: "beginMarkerApp l = Some app \<Longrightarrow> l = marker_begin app"
    and ee: "endMarkerApp l = Some app \<Longrightarrow> l = marker_end app"
    if "exact_markers app (l # ls)"
    using that by (auto simp: exact_markers_def)
  { case 1
    show ?case
    proof (cases "beginMarkerApp l")
      case (Some n)
      with 1 have w: "well_marked_from (n # seen) (Some n) ls" by simp
      show ?thesis
      proof (cases "n = app")
        case True
        with Cons.IH(2) [OF _ _ w ex] Some 1 eb show ?thesis
          by (simp add: owned_from_Cons)
      next
        case False
        then have "l \<noteq> marker_begin app" using Some assms(2) by auto
        with False Cons.IH(1) [OF _ w ex] Some 1 show ?thesis
          by (simp add: owned_from_Cons)
      qed
    next
      case None
      then have nb: "l \<noteq> marker_begin app" using assms(2) by auto
      have w: "well_marked_from seen (if endMarkerApp l = None then cur else None) ls"
        using 1 None by (auto split: option.splits)
      show ?thesis
        using Cons.IH(1) [OF _ w ex] None 1 nb by (simp add: owned_from_Cons split: if_splits)
    qed }
  { case 2
    then have b: "beginMarkerApp l = None"
      by (auto split: option.splits)
    show ?case
    proof (cases "endMarkerApp l")
      case (Some n)
      with 2 b have "n = app" and w: "well_marked_from seen None ls" by auto
      with Cons.IH(1) [OF _ w ex] 2 b Some ee show ?thesis
        by (simp add: owned_from_Cons)
    next
      case None
      then have "l \<noteq> marker_end app" using assms(2) by auto
      moreover have w: "well_marked_from seen cur ls" using 2 b None by simp
      ultimately show ?thesis
        using Cons.IH(2) [OF 2(1) 2(2) w ex] 2 b None by (simp add: owned_from_Cons)
    qed }
qed

lemma owned_nonblank:
  "cur \<noteq> Some app \<Longrightarrow> owned_from app cur ls \<noteq> [] \<Longrightarrow> \<exists>l \<in> set (owned_from app cur ls). l \<noteq> []"
proof (induction ls arbitrary: cur)
  case (Cons l ls)
  show ?case
  proof (cases "beginMarkerApp l")
    case (Some n)
    then have "l \<noteq> []" by auto
    with Cons Some show ?thesis
      by (cases "n = app") (auto simp: owned_from_Cons)
  next
    case None
    with Cons show ?thesis by (auto simp: owned_from_Cons split: if_splits)
  qed
qed (simp add: owned_from_def)

lemma concat_terminated:
  "xs \<noteq> [] \<Longrightarrow> concat (map (\<lambda>l. l @ [newline]) xs) = unlines xs @ [newline]"
  by (induction xs rule: induct_list012) auto

lemma unlines_Nil: "unlines xs = [] \<Longrightarrow> l \<in> set xs \<Longrightarrow> l = []"
  by (induction xs rule: induct_list012) auto

text \<open>
  The shell and the program compare the same bytes: on a well-marked Caddyfile whose markers of
  the app are written exactly and which ends in a newline, the text the server's \<open>sed\<close> prints for
  the app is the payload the program hashes for the region it reads, so the commit-time
  comparison succeeds exactly for the region the operation resolved.
\<close>

theorem server_region_agrees:
  assumes "markerName app" and "well_marked content" and "exact_markers app (lines_of content)"
    and "suffix [newline] content"
  shows "server_region app content = region_payload (extractManagedRegion content app)
    \<and> (\<forall>d cas sha. px_file d = Some content \<and> re_app cas = app \<longrightarrow>
         (route_current sha cas d \<longleftrightarrow>
           ManagedRegionHash sha (extractManagedRegion content app) \<in> set (acceptable_hashes sha cas)))"
proof -
  obtain s where c: "content = s @ [newline]"
    using assms(4) by (auto simp: suffix_def)
  let ?ls = "lines_of s"
  have lc: "lines_of content = ?ls @ [[]]"
    by (simp add: c lines_of_nl)
  have w: "well_marked_from [] None ?ls"
    using assms(2) well_marked_trailing [of "[]" None ?ls 1] lc by (simp add: well_marked_def)
  have ex: "exact_markers app ?ls"
    using assms(3) by (simp add: lc exact_markers_def)
  have sl: "sed_lines content = map (\<lambda>l. (l, [newline])) ?ls"
    by (simp add: sed_lines_def lc)
  let ?o = "owned_from app None ?ls"
  have region: "extractManagedRegion content app = unlines ?o"
    using owned_trailing [OF well_marked_owner_after [OF w], of app 1]
    by (simp add: extractManagedRegion_owned [OF assms(2)] lc)
  have "server_region app content = concat (map (\<lambda>l. l @ [newline]) ?o)"
    unfolding server_region_def sl
    using sed_range_owned(1) [OF w assms(1) ex, of "[newline]"] by (simp add: comp_def)
  also have "\<dots> = region_payload (unlines ?o)"
  proof (cases "?o = []")
    case False
    then have "unlines ?o \<noteq> []"
      using owned_nonblank [of None app ?ls] unlines_Nil by blast
    then show ?thesis
      using concat_terminated [OF False] by (simp add: region_payload_def)
  qed (simp add: region_payload_def)
  finally show ?thesis
    by (simp add: region route_current_def live_region_def ManagedRegionHash_def)
qed

theorem server_region_agrees_witness:
  "server_region ''api'' demo_caddyfile = region_payload (extractManagedRegion demo_caddyfile ''api'')"
proof -
  have "markerName ''api''" and "exact_markers ''api'' (lines_of demo_caddyfile)"
    and "suffix [newline] demo_caddyfile"
    by code_simp+
  then show ?thesis
    using server_region_agrees demo_edit_admissible(2) by blast
qed

definition single_app :: string where
  "single_app = unlines [''# TEPLOY BEGIN web'', ''w.io {'', ''}'', ''# TEPLOY END web'', []]"

definition next_route :: string where
  "next_route = unlines [''w.io {'', ''tls internal'', ''}'']"

definition picky_env :: edit_env where
  "picky_env = demo_env\<lparr>en_loads := (\<lambda>s. \<not> contains_str ''tls'' s)\<rparr>"

definition rolled_back_world :: "proxy world" where
  "rolled_back_world = snd (snd (applyManagedBlock picky_env demo_client ''web'' [''w.io''] next_route
     \<lparr>dir = demo_proxy\<lparr>px_file := Some single_app, px_running := Some single_app\<rparr>, script = []\<rparr>))"

text \<open>
  A rolled-back edit leaves a file without its final newline, because the text it restores
  was read through a command whose output is trimmed.  When the app's region is the last of the
  file, as after its own last edit, \<open>sed\<close> then prints its last line without a newline and the
  compare-and-swap refuses the very region the program has just read: the app's next deploy
  fails although nobody else touched its route.
\<close>

theorem rollback_blocks_next_cas:
  "fst (applyManagedBlock picky_env demo_client ''web'' [''w.io''] next_route
      \<lparr>dir = demo_proxy\<lparr>px_file := Some single_app, px_running := Some single_app\<rparr>, script = []\<rparr>)
    = Inl RolledBack
   \<and> (\<exists>r x. fst (ReadManagedBlock ''web'' rolled_back_world) = Inr (Some r)
        \<and> r = extractManagedRegion single_app ''web''
        \<and> fst (applyManagedBlock demo_env
               (WithRouteCAS demo_client ''web'' [ManagedRegionHash (en_sha demo_env) r] 5)
               ''web'' [''w.io''] next_route rolled_back_world)
          = Inl (RouteCASRefused x))"
proof -
  have 1: "fst (applyManagedBlock picky_env demo_client ''web'' [''w.io''] next_route
      \<lparr>dir = demo_proxy\<lparr>px_file := Some single_app, px_running := Some single_app\<rparr>, script = []\<rparr>)
    = Inl RolledBack"
    by code_simp
  have 2: "fst (ReadManagedBlock ''web'' rolled_back_world) = Inr (Some (extractManagedRegion single_app ''web''))"
    by code_simp
  have 3: "fst (applyManagedBlock demo_env
      (WithRouteCAS demo_client ''web''
         [ManagedRegionHash (en_sha demo_env) (extractManagedRegion single_app ''web'')] 5)
      ''web'' [''w.io''] next_route rolled_back_world) = Inl (RouteCASRefused None)"
    by code_simp
  show ?thesis
    using 1 2 3 by blast
qed

end
