(* ===== verification/DeployLaws.thy ===== *)
theory DeployLaws
  imports DeployFlow CaddyCommitLaws
begin

text \<open>
  What the deploy promises.  The first part is a calculus of what a step leaves alone; the laws of
  the deploy follow its composition: a container that bears no name of the release survives every
  failure, no candidate that fails its gate gets traffic, a release without the lock changes
  nothing, a success is a committed state, and the record of a release reproduces its route.
\<close>

section \<open>Steps that leave a part of the target alone\<close>

text \<open>A step holds a predicate of the target when it leads from targets that have it to such targets.\<close>

definition holds :: "(target \<Rightarrow> bool) \<Rightarrow> (target \<Rightarrow> 'r \<times> target) \<Rightarrow> bool" where
  "holds P f \<longleftrightarrow> (\<forall>t. P t \<longrightarrow> P (snd (f t)))"

abbreviation docker_safe :: "(docker_host \<Rightarrow> bool) \<Rightarrow> target \<Rightarrow> bool" where
  "docker_safe Q t \<equiv> safe Q (tg_docker t)"

abbreviation proxy_safe :: "(proxy \<Rightarrow> bool) \<Rightarrow> target \<Rightarrow> bool" where
  "proxy_safe Q t \<equiv> safe Q (tg_proxy t)"

abbreviation app_safe :: "(app_dir \<Rightarrow> bool) \<Rightarrow> target \<Rightarrow> bool" where
  "app_safe Q t \<equiv> safe Q (tg_app t)"

named_theorems held \<open>steps that hold a predicate\<close>

lemma holdsI: "(\<And>t. P t \<Longrightarrow> P (snd (f t))) \<Longrightarrow> holds P f"
  by (simp add: holds_def)

lemma holdsD: "holds P f \<Longrightarrow> P t \<Longrightarrow> f t = (r, t') \<Longrightarrow> P t'"
  by (metis holds_def snd_conv)

lemma holds_snd: "holds P f \<Longrightarrow> P t \<Longrightarrow> P (snd (f t))"
  by (simp add: holds_def)

lemma holds_yield [held]: "holds P (yield x)"
  by (simp add: holds_def yield_def)

lemma holds_abort [held]: "holds P (abort e)"
  by (simp add: holds_def abort_def)

lemma holds_seq [held]: "holds P f \<Longrightarrow> (\<And>x. holds P (g x)) \<Longrightarrow> holds P (seq f g)"
  unfolding holds_def seq_def by (auto split: prod.split sum.split)

lemma holds_failing [held]: "holds P f \<Longrightarrow> holds P (failing e f)"
  by (simp add: holds_def failing_def Let_def split_beta)

lemma failing_snd [simp]: "snd (failing h f t) = snd (f t)"
  by (simp add: failing_def Let_def split_beta)

lemma holds_quietly [held]: "holds P f \<Longrightarrow> holds P (quietly f)"
  by (simp add: holds_def quietly_def)

lemma holds_if [held]: "(b \<Longrightarrow> holds P f) \<Longrightarrow> (\<not> b \<Longrightarrow> holds P g) \<Longrightarrow> holds P (if b then f else g)"
  by simp

lemma on_simps [simp]:
  "tg_app (snd (on_docker f t)) = tg_app t" "tg_proxy (snd (on_docker f t)) = tg_proxy t"
  "tg_docker (snd (on_docker f t)) = snd (f (tg_docker t))" "tg_files (snd (on_docker f t)) = tg_files t"
  "tg_docker (snd (on_app g t)) = tg_docker t" "tg_proxy (snd (on_app g t)) = tg_proxy t"
  "tg_app (snd (on_app g t)) = snd (g (tg_app t))" "tg_files (snd (on_app g t)) = tg_files t"
  "tg_docker (snd (on_proxy h t)) = tg_docker t" "tg_app (snd (on_proxy h t)) = tg_app t"
  "tg_proxy (snd (on_proxy h t)) = snd (h (tg_proxy t))" "tg_files (snd (on_proxy h t)) = tg_files t"
  "tg_docker (snd (on_files k t)) = tg_docker t" "tg_app (snd (on_files k t)) = tg_app t"
  "tg_proxy (snd (on_files k t)) = tg_proxy t" "tg_files (snd (on_files k t)) = snd (k (tg_files t))"
  by (simp_all add: on_docker_def on_app_def on_proxy_def on_files_def split_beta)

lemma on_fst [simp]:
  "fst (on_docker f t) = fst (f (tg_docker t))" "fst (on_app g t) = fst (g (tg_app t))"
  "fst (on_proxy h t) = fst (h (tg_proxy t))" "fst (on_files k t) = fst (k (tg_files t))"
  by (simp_all add: on_docker_def on_app_def on_proxy_def on_files_def split_beta)

lemma docker_holds [held]:
  "keeps Q f \<Longrightarrow> holds (docker_safe Q) (on_docker f)"
  "holds (docker_safe Q) (on_app g)" "holds (docker_safe Q) (on_proxy h)" "holds (docker_safe Q) (on_files k)"
  by (simp_all add: holds_def keeps_def)

lemma proxy_holds [held]:
  "keeps Q h' \<Longrightarrow> holds (proxy_safe Q) (on_proxy h')"
  "holds (proxy_safe Q) (on_docker f)" "holds (proxy_safe Q) (on_app g)" "holds (proxy_safe Q) (on_files k)"
  by (simp_all add: holds_def keeps_def)

lemma app_holds [held]:
  "keeps Q g \<Longrightarrow> holds (app_safe Q) (on_app g)"
  "holds (app_safe Q) (on_docker f)" "holds (app_safe Q) (on_proxy h)" "holds (app_safe Q) (on_files k)"
  by (simp_all add: holds_def keeps_def)

lemma holds_logDeploy:
  "tg_docker (logDeploy cfg s d t) = tg_docker t" "tg_proxy (logDeploy cfg s d t) = tg_proxy t"
  "tg_app (logDeploy cfg s d t) = tg_app t"
  by (simp_all add: logDeploy_def)

lemma keeps_ListContainers: "keeps Q (ListContainers app)"
  using keeps_read by (simp add: keeps_def ListContainers_def)

lemma keeps_reads: "(\<And>w. snd (f w) = snd (run_read g w)) \<Longrightarrow> keeps Q f"
  using keeps_read by (simp add: keeps_def)

lemma keeps_ResolveImageID: "keeps Q (ResolveImageID env ref)"
  by (rule keeps_reads [where g = "de_resolve env ref"])
     (simp add: ResolveImageID_def split: prod.split sum.split option.split)

lemma keeps_ReadManagedBlock: "keeps Q (ReadManagedBlock app)"
  by (rule keeps_reads [where g = caddyfile_of])
     (simp add: ReadManagedBlock_def Let_def split: prod.split sum.split option.split)

lemma keeps_ReadRemoteFile: "keeps Q (ReadRemoteFile f)"
  by (rule keeps_reads [where g = f]) (simp add: ReadRemoteFile_def split: prod.split sum.split option.split)

lemma holds_case_prod [held]: "(\<And>a b. holds P (f a b)) \<Longrightarrow> holds P (case x of (a, b) \<Rightarrow> f a b)"
  by (cases x) simp

lemma keeps_resolveStaleRoute: "keeps Q (resolveStaleRoute sha app)"
  using keeps_ReadManagedBlock [of Q app]
  by (auto simp: keeps_def resolveStaleRoute_def split: prod.split sum.split option.split)

lemma keeps_no_effect: "keeps Q (run_cmd (with_prefix guard (\<lambda>d. if b d then Inr [] else Inl n)))"
  by (rule keeps_cmd) (auto simp: with_prefix_def host_guarded_def split: option.splits if_splits)

lemmas read_keeps = keeps_read keeps_ListContainers keeps_ResolveImageID keeps_ReadManagedBlock
  keeps_resolveStaleRoute keeps_no_effect

subsection \<open>The steps that only read and print\<close>

text \<open>
  A step reads the app's directory when it keeps whatever reading keeps.  The steps below hold a
  predicate of the containers, one of the proxy and one of the app's directory alike: such a
  predicate is one that steps on other parts hold, and that reading keeps.
\<close>

definition reading :: "('s world \<Rightarrow> bool) \<Rightarrow> bool" where
  "reading S \<longleftrightarrow> (\<forall>w. S w \<longrightarrow> S (snd (run_read id w)))"

lemma run_read_world: "snd (run_read f w) = snd (run_read g w)"
  by (simp add: run_read_def Let_def split_beta split: answer.split)

lemma readingD: "reading S \<Longrightarrow> S w \<Longrightarrow> S (snd (run_read f w))"
  using run_read_world [of f w id] by (simp add: reading_def)

definition reads :: "('s world \<Rightarrow> 'r \<times> 's world) \<Rightarrow> bool" where
  "reads g \<longleftrightarrow> (\<forall>S w. reading S \<longrightarrow> S w \<longrightarrow> S (snd (g w)))"

lemma readsD: "reads g \<Longrightarrow> reading S \<Longrightarrow> S w \<Longrightarrow> S (snd (g w))"
  unfolding reads_def by blast

named_theorems only_reads \<open>operations that read\<close>

lemma reads_bind [only_reads]:
  "reads f \<Longrightarrow> (\<And>r. reads (h r)) \<Longrightarrow> reads (\<lambda>w. case f w of (r, w1) \<Rightarrow> h r w1)"
  unfolding reads_def split_beta by blast

lemma reads_pair [only_reads]: "reads (\<lambda>w. (x, w))"
  by (simp add: reads_def)

lemma reads_sum [only_reads]:
  "(\<And>e. reads (f e)) \<Longrightarrow> (\<And>x. reads (g x)) \<Longrightarrow> reads (\<lambda>w. case r of Inl e \<Rightarrow> f e w | Inr x \<Rightarrow> g x w)"
  by (cases r) simp_all

lemma reads_option [only_reads]:
  "reads f \<Longrightarrow> (\<And>x. reads (g x)) \<Longrightarrow> reads (\<lambda>w. case r of None \<Rightarrow> f w | Some x \<Rightarrow> g x w)"
  by (cases r) simp_all

lemma reads_bool [only_reads]:
  "reads f \<Longrightarrow> reads g \<Longrightarrow> reads (\<lambda>w. case b of True \<Rightarrow> f w | False \<Rightarrow> g w)"
  "reads f \<Longrightarrow> reads g \<Longrightarrow> reads (\<lambda>w. if b then f w else g w)"
  by (cases b; simp)+

lemma reading_safe: "reading (safe Q)"
  using keeps_read by (auto simp: reading_def keeps_def)

lemma reading_quiet: "reading (\<lambda>w. quiet w \<and> dir w = d)"
  by (simp add: reading_def run_read_quiet run_read_dir_quiet)

lemma reads_read: "reads (run_read f)"
  by (simp add: reads_def readingD)

lemma reads_of: "(\<And>w. snd (g w) = snd (run_read f w)) \<Longrightarrow> reads g"
  by (simp add: reads_def readingD)

lemma reads_ReadRemoteFile: "reads (ReadRemoteFile f)"
  by (rule reads_of [where f = f]) (simp add: ReadRemoteFile_def split: prod.split sum.split option.split)

lemma reads_ReadState: "reads (ReadState G)"
  unfolding ReadState_def [abs_def] by (intro only_reads reads_ReadRemoteFile)

lemma reads_ReadIncludingTombstone: "reads (ReadIncludingTombstone G)"
  unfolding ReadIncludingTombstone_def [abs_def] by (intro only_reads reads_ReadRemoteFile reads_ReadState)

lemma reads_Lock_Check: "reads (Lock_Check lk)"
  unfolding Lock_Check_def [abs_def] by (intro only_reads reads_read)

lemma reads_ReadPins: "reads ReadPins"
  unfolding ReadPins_def [abs_def] by (intro only_reads reads_ReadRemoteFile)

lemmas app_reads = reads_ReadState reads_ReadIncludingTombstone reads_Lock_Check reads_ReadPins reads_read

definition part_predicate :: "(target \<Rightarrow> bool) \<Rightarrow> bool" where
  "part_predicate P \<longleftrightarrow>
     (\<exists>Q. P = docker_safe Q) \<or> (\<exists>R. P = proxy_safe R) \<or> (\<exists>S. P = (\<lambda>t. S (tg_app t)) \<and> reading S)"

lemma part_app: "part_predicate P \<Longrightarrow> reads g \<Longrightarrow> holds P (on_app g)"
  by (auto simp: part_predicate_def holds_def reads_def)

lemma part_files [held]: "part_predicate P \<Longrightarrow> holds P (on_files k)"
  by (auto simp: part_predicate_def holds_def)

lemma part_docker: "part_predicate P \<Longrightarrow> (\<And>Q. keeps Q f) \<Longrightarrow> holds P (on_docker f)"
  by (auto simp: part_predicate_def holds_def keeps_def)

lemma part_proxy: "part_predicate P \<Longrightarrow> (\<And>R. keeps R h) \<Longrightarrow> holds P (on_proxy h)"
  by (auto simp: part_predicate_def holds_def keeps_def)

lemma part_of [simp]: "part_predicate (docker_safe Q)" "part_predicate (proxy_safe R)"
  by (auto simp: part_predicate_def)

lemma part_of_app: "reading S \<Longrightarrow> part_predicate (\<lambda>t. S (tg_app t))"
  by (auto simp: part_predicate_def)

lemma holds_admit:
  "(\<And>now a b c. holds P (on_app (CheckGate (de_lib env) (cf_App cfg) now a b c lk)))
     \<Longrightarrow> holds P (admitConfigHome env cfg lk)"
  unfolding admitConfigHome_def by (intro held)

lemma holds_admitConfigHome [held]:
  "holds (docker_safe Q) (admitConfigHome env cfg lk)" "holds (proxy_safe R) (admitConfigHome env cfg lk)"
  by (intro holds_admit held)+

lemma holds_read_current [held]: "part_predicate P \<Longrightarrow> holds P (read_current env)"
  unfolding read_current_def by (intro held part_app app_reads)

lemma holds_check_lock [held]: "part_predicate P \<Longrightarrow> holds P (check_lock lk)"
  unfolding check_lock_def by (intro held part_app app_reads)

lemma holds_provision [held]: "part_predicate P \<Longrightarrow> holds P (provision_volumes env guard ns)"
  by (induction ns) (auto intro!: held part_docker keeps_no_effect)

lemma holds_resolve_route [held]:
  assumes P: "part_predicate P"
  shows "holds P (resolve_route env cfg)"
proof -
  have stale: "holds P (on_proxy (resolveStaleRoute sha app))" for sha app
    using part_proxy [OF P keeps_resolveStaleRoute] .
  show ?thesis
    unfolding resolve_route_def
    by (intro held part_proxy P keeps_ReadManagedBlock)
       (use stale in \<open>simp add: holds_def split_beta\<close>)
qed

lemma holds_repair_debt [held]: "part_predicate P \<Longrightarrow> holds P (repair_debt env cfg)"
  unfolding repair_debt_def by (intro held)

lemma holds_observe:
  assumes P: "part_predicate P"
  shows "holds P (observe_target env cfg)"
proof (rule holdsI)
  fix t assume "P t"
  then show "P (snd (observe_target env cfg t))"
    unfolding observe_target_def Let_def split_beta snd_conv
    by (intro holds_snd [OF part_files [OF P]] holds_snd [OF part_app [OF P reads_ReadState]]
        holds_snd [OF part_proxy [OF P keeps_read]] holds_snd [OF part_docker [OF P keeps_ListContainers]])
qed

lemma holds_reconcile [held]: "part_predicate P \<Longrightarrow> holds P (reconcile_takeover env cfg lk current)"
  by (rule holdsI)
     (simp add: reconcile_takeover_def Let_def split_beta holds_snd [OF holds_observe] split: takeover.split)

lemma holds_web_ports [held]: "holds P (web_ports env cfg)"
  by (simp add: holds_def web_ports_def)

lemma holds_snapshot [held]:
  assumes P: "part_predicate P"
  shows "holds P (snapshot_predecessors env cfg att current same)"
proof (rule holdsI)
  fix t assume t: "P t"
  note listed = holds_snd [OF part_docker [OF P keeps_ListContainers] t, of "cf_App cfg"]
  show "P (snd (snapshot_predecessors env cfg att current same t))"
    using t listed
    by (cases "on_docker (ListContainers (cf_App cfg)) t")
       (simp add: snapshot_predecessors_def Let_def split_beta holds_snd [OF part_files [OF P]]
         split: option.split sum.split)
qed

section \<open>A container the release does not name\<close>

text \<open>
  The container bears no name a candidate or its predecessor may have, nor that of the extraction
  container.
\<close>

definition unnamed :: "deploy_env \<Rightarrow> Config \<Rightarrow> Container \<Rightarrow> bool" where
  "unnamed env cfg c \<longleftrightarrow>
     list_all (\<lambda>n. \<not> refers n c \<and> \<not> refers (replaced_name n) c) (candidate_names cfg)
     \<and> \<not> refers (''teploy-assets-'' @ de_attempt env) c"

lemma unnamedD:
  "unnamed env cfg c \<Longrightarrow> n \<in> set (candidate_names cfg) \<Longrightarrow> \<not> refers n c"
  "unnamed env cfg c \<Longrightarrow> n \<in> set (candidate_names cfg) \<Longrightarrow> \<not> refers (replaced_name n) c"
  by (simp_all add: unnamed_def list_all_iff)

lemma web_names_candidates: "set (web_names cfg) \<subseteq> set (candidate_names cfg)"
  by (auto simp: web_names_def candidate_names_def sortedProcessNames_def)

lemma worker_names_candidates:
  "p \<in> set (sortedProcessNames (processes_of cfg))
     \<Longrightarrow> ContainerName (cf_App cfg) p (cf_Version cfg) \<in> set (candidate_names cfg)"
  by (auto simp: candidate_names_def)

lemma keeps_extract_assets:
  assumes "fresh_ids (de_docker env)" and "\<not> refers name c"
  shows "keeps (spared c) (run_job (extract_assets env name img))"
proof (rule keeps_job)
  fix d e d'
  assume d: "spared c d" and e: "e \<in> set (fst (extract_assets env name img d))" and d': "spared c d'"
  let ?d1 = "remove_effect name d"
  let ?b = "new_container (de_docker env) name img [] ?d1"
  have "spared c ?d1" using d assms(2) by (rule spared_remove_other)
  then have "\<not> refers (ct_ID ?b) c"
    using assms(1) by (auto simp: spared_def new_container_def fresh_ids_def refers_def)
  with e d' assms(2) show "spared c (e d')"
    by (auto simp: extract_assets_def Let_def new_container_def intro: spared_effects split: if_splits)
qed

lemma spares_bridge [held]:
  assumes "fresh_ids (de_docker env)" and "unnamed env cfg c" and "at_ID att = de_attempt env"
  shows "holds (docker_safe (spared c)) (bridge_assets env cfg att img)"
  unfolding bridge_assets_def
  by (intro held keeps_extract_assets assms part_of) (use assms in \<open>simp add: unnamed_def\<close>)

text \<open>Stepping aside renames what bears a candidate's name, and removes what bears the other name.\<close>

lemma spares_rename_current:
  assumes "\<not> refers name c" and "\<not> refers (replaced_name name) c"
  shows "holds (docker_safe (spared c)) (rename_current env name)"
proof (rule holdsI)
  fix t
  let ?P = "docker_safe (spared c)" and ?dm = "dk_refuses (de_docker env)" and ?new = "replaced_name name"
  assume t: "?P t"
  have read: "holds ?P (on_docker (run_read (inspect ct_State n)))" for n by (intro held keeps_read)
  have rm: "holds ?P (on_docker (run_cmd (docker_rm_force ?dm ?new)))"
    using assms(2) by (intro held keeps_rm_force)
  have mv: "holds ?P (on_docker (run_cmd (docker_rename (de_docker env) name ?new)))"
    using assms by (intro held keeps_rename)
  note safe = holds_snd [OF read t, of ?new]
  note safe = safe holds_snd [OF rm this]
  note safe = safe holds_snd [OF mv safe(2)]
  note safe = safe holds_snd [OF read safe(3), of name]
  from safe show "?P (snd (rename_current env name t))"
    unfolding rename_current_def Let_def split_beta by (auto split: sum.split)
qed

lemma spares_rename_all:
  "unnamed env cfg c \<Longrightarrow> set ns \<subseteq> set (candidate_names cfg)
     \<Longrightarrow> holds (docker_safe (spared c)) (rename_all env ns)"
  by (induction ns) (auto intro!: held spares_rename_current dest: unnamedD)

definition ranges :: "deploy_env \<Rightarrow> bool" where
  "ranges env \<longleftrightarrow> (\<forall>ns. set (de_range env ns) = set ns)"

lemma spares_step_aside [held]:
  assumes "unnamed env cfg c" and "ranges env"
  shows "holds (docker_safe (spared c)) (step_aside env cfg lk same)"
  unfolding step_aside_def
  by (intro held part_of spares_rename_all [OF assms(1)]) (use assms(2) in \<open>simp add: ranges_def\<close>)

lemma displace_nothing [held]: "\<not> recreateWeb cfg \<Longrightarrow> holds P (displace_web env cfg lk)"
  by (simp add: displace_web_def held)

lemma displaced_nothing: "\<not> recreateWeb cfg \<Longrightarrow> fst (displace_web env cfg lk t) = Inr []"
  by (simp add: displace_web_def yield_def)

lemma holds_Inr: "holds P (\<lambda>t. let (x, t1) = f t in (Inr x, t1)) \<longleftrightarrow> holds P f"
  by (simp add: holds_def split_beta)

lemma spares_prepare_plan:
  assumes "fresh_ids (de_docker env)" and "unnamed env cfg c" and "ranges env" and "\<not> recreateWeb cfg"
    and "at_ID att = de_attempt env"
  shows "holds (docker_safe (spared c)) (prepare_plan env cfg lk att)"
proof (rule holdsI)
  fix t assume t: "docker_safe (spared c) t"
  have snap: "holds (docker_safe (spared c)) (\<lambda>t. let (ps, t1) = snapshot_predecessors env cfg att current same t in (Inr ps, t1))" for current same
    unfolding holds_Inr by (intro held part_of)
  have "docker_safe (spared c) (snd (on_docker (ResolveImageID env (cf_Image cfg)) t))"
    using t by (simp add: keeps_snd [OF keeps_ResolveImageID])
  then show "docker_safe (spared c) (snd (prepare_plan env cfg lk att t))"
    unfolding prepare_plan_def Let_def split_beta
    by (rule holds_snd [rotated]) (intro held assms part_of snap [unfolded Let_def split_beta])
qed

section \<open>What a plan holds\<close>

lemma seq_Inr_E:
  assumes "seq f g t = (Inr y, t')"
  obtains x t1 where "f t = (Inr x, t1)" and "g x t1 = (Inr y, t')"
  using assms by (auto simp: seq_def split: prod.splits sum.splits)

lemma seq_Inl_E:
  assumes "seq f g t = (Inl e, t')"
  obtains "f t = (Inl e, t')" | x t1 where "f t = (Inr x, t1)" and "g x t1 = (Inl e, t')"
  using assms by (auto simp: seq_def split: prod.splits sum.splits)

lemma yield_Inr [simp]: "yield x t = (r, t') \<longleftrightarrow> r = Inr x \<and> t' = t"
  by (auto simp: yield_def)

lemma fst_of: "x = (a, b) \<Longrightarrow> fst x = a"
  by simp

lemma prepare_plan_Inr:
  assumes "prepare_plan env cfg lk att t = (Inr p, t')"
  shows "(\<exists>u. fst (read_current env u) = Inr (dp_current p))
    \<and> (\<exists>u. fst (web_ports env cfg u) = Inr (dp_ports p))
    \<and> (\<exists>u. fst (displace_web env cfg lk u) = Inr (dp_displaced p))
    \<and> (\<exists>u. fst (admitConfigHome env cfg lk u) = Inr ())"
  using assms unfolding prepare_plan_def Let_def split_beta
  by (elim seq_Inr_E, clarsimp) (intro conjI; blast intro: fst_of)

lemma allocate_ports_length:
  "allocate_ports env i n claimed = Inr ps \<Longrightarrow> length ps = length claimed + n"
  by (induction n arbitrary: i claimed) (auto split: sum.splits)

lemma replicas_pos: "0 < replicas_of cfg"
  by (simp add: replicas_of_def)

lemma web_ports_length:
  assumes "fst (web_ports env cfg t) = Inr ps" and "ingressHost cfg \<Longrightarrow> replicas_of cfg = 1"
  shows "length ps = replicas_of cfg"
  using assms by (auto simp: web_ports_def dest: allocate_ports_length split: if_splits)

lemma web_names_length [simp]: "length (web_names cfg) = replicas_of cfg"
  by (simp add: web_names_def)

lemma valid_single_port: "validate cfg = None \<Longrightarrow> ingressHost cfg \<or> cf_Publish cfg \<noteq> [] \<Longrightarrow> replicas_of cfg = 1"
  by (auto simp: validate_def replicas_of_def split: if_splits)

section \<open>The candidates spare what they do not name\<close>

text \<open>None of the containers a deploy started is the given one.\<close>

definition foreign :: "Container \<Rightarrow> started \<Rightarrow> bool" where
  "foreign c started \<longleftrightarrow> list_all (\<lambda>s. \<not> refers (started_ref s) c) started"

lemma run_job_Inr:
  assumes "run_job j w = (Inr x, w')"
  shows "\<exists>effs. j (fst (next_env w) (dir w)) = (effs, Inr x)"
proof (cases "j (fst (next_env w) (dir w))")
  case (Pair effs r)
  with assms show ?thesis
    by (cases r) (auto simp: run_job_def Let_def split: answer.splits)
qed

text \<open>The ID that docker prints for a new container is not the given one's.\<close>

lemma run_sent_Inr: "run_sent (run_job j w) g x = (Inr y, w') \<Longrightarrow> run_job j w = (Inr y, w')"
  by (cases "run_job j w") (auto simp: run_sent_def split: sum.splits option.splits)

lemma create_new_id:
  assumes "fresh_ids dk" and "safe (spared c) w"
    and "run_sent (run_job (guarded_create gp (docker_create dk name img ls)) w) g x = (Inr cid, w')"
  shows "\<not> refers cid c"
proof -
  obtain effs where "guarded_create gp (docker_create dk name img ls) (fst (next_env w) (dir w)) = (effs, Inr cid)"
    using run_job_Inr [OF run_sent_Inr [OF assms(3)]] by blast
  then have "cid = dk_new_id dk (fst (next_env w) (dir w))"
    by (auto simp: guarded_create_def docker_create_def Let_def new_container_def split: option.splits if_splits)
  moreover have "spared c (fst (next_env w) (dir w))"
    using assms(2) by (simp add: safe_def next_env_stable)
  ultimately show ?thesis
    using assms(1) by (auto simp: fresh_ids_def spared_def refers_def)
qed

lemma RunGuarded_new_id:
  assumes "fresh_ids dk" and w: "safe (spared c) w" and "run_name cfg \<noteq> ct_ID c"
    and run: "RunGuarded dk cfg gp w = (Inr cid, w')"
  shows "\<not> refers cid c"
proof -
  let ?j = "guarded_create gp (docker_create dk (run_name cfg) (rn_Image cfg) (run_labels cfg))"
  obtain r w1 where r: "run_sent (run_job ?j w) id RunTransport = (r, w1)" by (rule prod.exhaust)
  have w1: "safe (spared c) w1"
    using keeps_run_sent [OF keeps_guarded_create [OF assms(1,3)] w, of _ _ _ id RunTransport] r
    by (metis snd_conv)
  obtain q w2 where q: "clearStoppedContainer dk (run_name cfg) w1 = (q, w2)" by (rule prod.exhaust)
  note w2 = keepsD [OF keeps_clearStoppedContainer w1 q]
  have "run_sent (run_job ?j w) id RunTransport = (Inr cid, w') \<or> run_sent (run_job ?j w2) id RunTransport = (Inr cid, w')"
    using run by (auto simp: RunGuarded_def Let_def r q split: sum.splits if_splits)
  then show ?thesis
    by (elim disjE create_new_id [OF assms(1) w] create_new_id [OF assms(1) w2])
qed

lemma run_name_web:
  "run_name (web_run_config cfg next img vols name port) \<in> {name, ContainerName (cf_App cfg) ''web'' (cf_Version cfg)}"
  by (simp add: run_name_def web_run_config_def)

lemma run_name_worker: "run_name (worker_run_config cfg next img vols p) = ContainerName (cf_App cfg) p (cf_Version cfg)"
  by (simp add: run_name_def worker_run_config_def)

text \<open>What an operation leaves: its world, and what it started.\<close>

definition spares :: "Container \<Rightarrow> ('e \<times> started, started) result \<times> docker_host world \<Rightarrow> bool" where
  "spares c out \<longleftrightarrow> safe (spared c) (snd out)
     \<and> foreign c (case fst out of Inl (e, s) \<Rightarrow> s | Inr s \<Rightarrow> s)"

lemma foreign_snoc: "foreign c (s @ [(n, cid)]) \<longleftrightarrow> foreign c s \<and> \<not> refers (if cid \<noteq> [] then cid else n) c"
  by (simp add: foreign_def started_ref_def)

lemma start_web_spares:
  assumes "fresh_ids (de_docker env)" and "\<not> refers (ContainerName (cf_App cfg) ''web'' (cf_Version cfg)) c"
    and "list_all (\<lambda>(n, p). \<not> refers n c) nps" and "safe (spared c) w" and "foreign c started"
  shows "spares c (start_web env cfg next img vols gp nps started w)"
  using assms(3-5)
proof (induction nps arbitrary: started w)
  case (Cons np nps)
  obtain name port where np: "np = (name, port)" by (rule prod.exhaust)
  let ?rc = "web_run_config cfg next img vols name port"
  have name: "run_name ?rc \<noteq> ct_ID c"
    using run_name_web [of cfg "next" img vols name port] Cons.prems(1) assms(2) by (auto simp: np refers_def)
  obtain r w1 where r: "RunGuarded (de_docker env) ?rc gp w = (r, w1)" by (rule prod.exhaust)
  note w1 = keepsD [OF keeps_RunGuarded [OF assms(1) name] Cons.prems(2) r]
  show ?case
  proof (cases r)
    case (Inl e)
    with w1 Cons.prems(3) show ?thesis
      by (simp add: np r spares_def keeps_reconcilePartialRun)
  next
    case (Inr cid)
    have "\<not> refers cid c"
      using RunGuarded_new_id [OF assms(1) Cons.prems(2) name] r Inr by simp
    with Cons.prems(1,3) have "foreign c (started @ [(name, cid)])"
      by (simp add: np foreign_snoc)
    with Cons w1 show ?thesis
      by (simp add: np r Inr)
  qed
qed (simp add: spares_def)

lemma start_workers_spares:
  assumes "fresh_ids (de_docker env)"
    and "list_all (\<lambda>p. \<not> refers (ContainerName (cf_App cfg) p (cf_Version cfg)) c) ps"
    and "safe (spared c) w" and "foreign c started"
  shows "spares c (start_workers env cfg next img vols gp ps started w)"
  using assms(2-4)
proof (induction ps arbitrary: started w)
  case (Cons p ps)
  let ?rc = "worker_run_config cfg next img vols p" and ?n = "ContainerName (cf_App cfg) p (cf_Version cfg)"
  have name: "run_name ?rc \<noteq> ct_ID c"
    using Cons.prems(1) by (auto simp: run_name_worker refers_def)
  obtain r w1 where r: "RunGuarded (de_docker env) ?rc gp w = (r, w1)" by (rule prod.exhaust)
  note w1 = keepsD [OF keeps_RunGuarded [OF assms(1) name] Cons.prems(2) r]
  show ?case
  proof (cases r)
    case (Inl e)
    with w1 Cons.prems(3) show ?thesis
      by (simp add: r spares_def keeps_reconcilePartialRun Let_def)
  next
    case (Inr cid)
    obtain ok w2 where ok: "workerRemainsRunning (de_json env) ?n w1 = (ok, w2)" by (rule prod.exhaust)
    note w2 = keepsD [OF keeps_workerRemainsRunning w1 ok]
    have "\<not> refers cid c"
      using RunGuarded_new_id [OF assms(1) Cons.prems(2) name] r Inr by simp
    with Cons.prems(1,3) have started: "foreign c (started @ [(?n, cid)])"
      by (simp add: foreign_snoc)
    show ?thesis
    proof (cases ok)
      case True
      with Cons w2 started show ?thesis by (simp add: r Inr ok Let_def)
    next
      case False
      with w2 started show ?thesis by (simp add: r Inr ok Let_def spares_def)
    qed
  qed
qed (simp add: spares_def)

lemma write_readiness_docker [simp]: "tg_docker (write_readiness env cfg att s ports t) = tg_docker t"
  "tg_proxy (write_readiness env cfg att s ports t) = tg_proxy t"
  "tg_app (write_readiness env cfg att s ports t) = tg_app t"
  by (simp_all add: write_readiness_def Let_def split_beta)

lemma keeps_all_running: "keeps Q (all_running ns)"
proof (rule keepsI)
  fix w assume "safe Q w"
  then show "safe Q (snd (all_running ns w))"
  proof (induction ns arbitrary: w)
    case (Cons n ns)
    obtain r w1 where r: "run_read (inspect ct_State n) w = (r, w1)" by (rule prod.exhaust)
    note w1 = keepsD [OF keeps_read Cons.prems r]
    show ?case
      using w1 Cons.IH [OF w1] by (auto simp: r split: sum.split option.split)
  qed simp
qed

lemma keeps_exec: "keeps Q (run_cmd (docker_exec env name command))"
  by (rule keeps_cmd) (auto simp: docker_exec_def split: option.splits if_splits)

lemma keeps_pre_deploy_hook: "holds (docker_safe Q) (pre_deploy_hook env cfg name)"
  unfolding pre_deploy_hook_def by (intro held keeps_exec)

text \<open>What the candidates' preparation leaves, on the target.\<close>

definition target_spares :: "Container \<Rightarrow> ('e \<times> started, started) result \<times> target \<Rightarrow> bool" where
  "target_spares c out \<longleftrightarrow> docker_safe (spared c) (snd out)
     \<and> foreign c (case fst out of Inl (e, s) \<Rightarrow> s | Inr s \<Rightarrow> s)"

lemma target_spares_docker: "spares c (f (tg_docker t)) \<Longrightarrow> target_spares c (on_docker f t)"
  by (simp add: spares_def target_spares_def)

lemma target_spares_seq:
  assumes "target_spares c (f t)"
    and "\<And>s t1. f t = (Inr s, t1) \<Longrightarrow> docker_safe (spared c) t1 \<Longrightarrow> foreign c s \<Longrightarrow> target_spares c (g s t1)"
  shows "target_spares c (seq f g t)"
  using assms by (cases "f t") (auto simp: seq_def target_spares_def split: sum.split prod.split)

lemma target_spares_step:
  assumes "holds (docker_safe (spared c)) f" and "docker_safe (spared c) t" and "foreign c s"
    and "\<And>x t1. docker_safe (spared c) t1 \<Longrightarrow> target_spares c (g x t1)"
  shows "target_spares c (seq (failing (\<lambda>e. (h e, s)) f) g t)"
proof -
  obtain r t1 where f: "f t = (r, t1)" by (rule prod.exhaust)
  have "docker_safe (spared c) t1" using holdsD [OF assms(1,2) f] .
  with assms(3,4) show ?thesis
    by (cases r) (simp_all add: seq_def failing_def f target_spares_def)
qed

lemma unnamed_web: "unnamed env cfg c \<Longrightarrow> list_all (\<lambda>(n, p). \<not> refers n c) (zip (web_names cfg) ports)"
  using web_names_candidates by (fastforce simp: list_all_iff dest: set_zip_leftD unnamedD)

lemma unnamed_web_name: "unnamed env cfg c \<Longrightarrow> \<not> refers (ContainerName (cf_App cfg) ''web'' (cf_Version cfg)) c"
  using worker_names_candidates [of "''web''" cfg] by (auto simp: sortedProcessNames_def dest: unnamedD)

lemma unnamed_workers:
  "unnamed env cfg c \<Longrightarrow> list_all (\<lambda>p. \<not> refers (ContainerName (cf_App cfg) p (cf_Version cfg)) c)
     (filter P (sortedProcessNames (processes_of cfg)))"
  by (auto simp: list_all_iff dest: unnamedD worker_names_candidates)

lemma prepare_candidates_spares:
  assumes "fresh_ids (de_docker env)" and c: "unnamed env cfg c" and t: "docker_safe (spared c) t"
  shows "target_spares c (prepare_candidates env cfg lk att nx img vols ports t)"
  unfolding prepare_candidates_def
proof (rule target_spares_seq, rule target_spares_docker)
  show "spares c (start_web env cfg nx img vols (GuardPrefix lk) (zip (web_names cfg) ports) [] (tg_docker t))"
    using assms(1) unnamed_web_name [OF c] unnamed_web [OF c] t by (rule start_web_spares) (simp add: foreign_def)
next
  fix s t1 assume "docker_safe (spared c) t1" and s: "foreign c s"
  moreover have "target_spares c ((case unhealthy_replica env cfg 0 ports of
       Some i \<Rightarrow> abort (Unhealthy i, s)
     | None \<Rightarrow>
         (\<lambda>t. on_docker (start_workers env cfg nx img vols (GuardPrefix lk)
                 (filter (\<lambda>p. p \<noteq> ''web'') (sortedProcessNames (processes_of cfg))) s)
                 (write_readiness env cfg att s ports t))) t3)"
    if "docker_safe (spared c) t3" for t3
  proof (cases "unhealthy_replica env cfg 0 ports")
    case None
    show ?thesis
      unfolding None option.case
      by (intro target_spares_docker start_workers_spares assms(1) unnamed_workers [OF c])
         (use that s in simp_all)
  qed (use that s in \<open>simp add: abort_def target_spares_def\<close>)
  ultimately show "target_spares c (seq (failing (\<lambda>e. (e, s)) (on_docker (all_running (web_names cfg)))) (\<lambda>_.
     seq (failing (\<lambda>e. (e, s)) (pre_deploy_hook env cfg (hd (web_names cfg)))) (\<lambda>_.
     case unhealthy_replica env cfg 0 ports of
       Some i \<Rightarrow> abort (Unhealthy i, s)
     | None \<Rightarrow>
         (\<lambda>t. on_docker (start_workers env cfg nx img vols (GuardPrefix lk)
                 (filter (\<lambda>p. p \<noteq> ''web'') (sortedProcessNames (processes_of cfg))) s)
                 (write_readiness env cfg att s ports t)))) t1)"
    by (intro target_spares_step) (auto intro: held keeps_all_running keeps_pre_deploy_hook)
qed

section \<open>The failure paths spare what they did not start\<close>

lemma stop_started_spares: "foreign c ss \<Longrightarrow> keeps (spared c) (stop_started dk nx ss)"
proof (rule keepsI)
  fix w assume "foreign c ss" "safe (spared c) w"
  then show "safe (spared c) (snd (stop_started dk nx ss w))"
  proof (induction ss arbitrary: w)
    case (Cons s ss)
    have s: "\<not> refers (started_ref s) c" and ss: "foreign c ss" using Cons.prems(1) by (simp_all add: foreign_def)
    obtain r w1 where r: "StopGenerationFenced (dk_refuses dk) (started_ref s) nx None w = (r, w1)" by (rule prod.exhaust)
    note w1 = keepsD [OF keeps_StopGenerationFenced [OF s] Cons.prems(2) r]
    obtain q w2 where q: "docker_Remove (dk_refuses dk) (started_ref s) w1 = (q, w2)" by (rule prod.exhaust)
    note w2 = keepsD [OF keeps_docker_Remove w1 q]
    show ?case
      using Cons.IH [OF ss w1] Cons.IH [OF ss w2] by (simp add: r q split_beta split: sum.split)
  qed simp
qed

lemma stop_and_remove_spares:
  "foreign c ss \<Longrightarrow> safe (spared c) w \<Longrightarrow> safe (spared c) (stop_and_remove dk nx ss w)"
proof (induction ss arbitrary: w)
  case (Cons s ss)
  have s: "\<not> refers (started_ref s) c" and ss: "foreign c ss" using Cons.prems(1) by (simp_all add: foreign_def)
  show ?case
    using Cons.IH [OF ss keeps_snd [OF keeps_docker_Remove keeps_snd [OF keeps_StopGenerationFenced [OF s] Cons.prems(2)]]]
    by simp
qed simp

lemma restore_displaced_spares:
  "fresh_ids dk \<Longrightarrow> list_all (\<lambda>n. \<not> refers n c) ns \<Longrightarrow> keeps (spared c) (restore_displaced dk g ns)"
proof (rule keepsI)
  fix w assume fresh: "fresh_ids dk" and "list_all (\<lambda>n. \<not> refers n c) ns" "safe (spared c) w"
  from this(2,3) show "safe (spared c) (snd (restore_displaced dk g ns w))"
  proof (induction ns arbitrary: w)
    case (Cons n ns)
    have n: "\<not> refers n c" and ns: "list_all (\<lambda>n. \<not> refers n c) ns" using Cons.prems(1) by simp_all
    obtain r w1 where r: "RestartFenced dk n g None w = (r, w1)" by (rule prod.exhaust)
    note w1 = keepsD [OF keeps_RestartFenced [OF fresh n] Cons.prems(2) r]
    show ?case
      using Cons.IH [OF ns w1] by (simp add: r split_beta Let_def split: sum.split)
  qed simp
qed

text \<open>What the snapshot says was displaced is not a container that was seen running.\<close>

lemma inspect_states_spared:
  assumes "safe (spared c) w"
  shows "safe (spared c) (snd (inspect_states ns w))
    \<and> (\<forall>n st. (n, st) \<in> set (fst (inspect_states ns w)) \<longrightarrow> refers n c \<longrightarrow> st = ''running'')"
  using assms
proof (induction ns arbitrary: w)
  case (Cons n ns)
  obtain r w1 where r: "run_read (inspect ct_State n) w = (r, w1)" by (rule prod.exhaust)
  note w1 = keepsD [OF keeps_read Cons.prems r]
  have run: "ct_State c = ''running''" using Cons.prems by (simp add: safe_def spared_def running_def)
  have "st = ''running''" if "r = Inr (Some st)" "refers n c" for st
    using read_spared [OF Cons.prems that(2) r [unfolded that(1)]] run by simp
  with Cons.IH [OF w1] show ?case
    by (auto simp: r split_beta split: sum.split option.split)
qed simp

lemma trim_running [simp]: "trim_space ''running'' = ''running''"
  by code_simp

lemma displaced_not_spared:
  assumes "\<forall>n st. (n, st) \<in> set states \<longrightarrow> refers n c \<longrightarrow> st = ''running''"
  shows "list_all (\<lambda>n. \<not> refers n c) (displacedFromSnapshot att f (map_of states))"
  using assms
  by (fastforce simp: displacedFromSnapshot_def list_all_iff dest: map_of_SomeD
      split: sum.splits option.splits)

lemma displaced_workload_spares:
  assumes t: "docker_safe (spared c) t" and "list_all (\<lambda>n. \<not> refers n c) displaced"
    and w: "displaced_workload att displaced t = (ns, t')"
  shows "docker_safe (spared c) t' \<and> list_all (\<lambda>n. \<not> refers n c) ns"
proof (cases "displaced = []")
  case True
  let ?read = "on_files (run_read (\<lambda>f. af_snapshots f (predecessorSnapshotPath att))) t"
  have t1: "docker_safe (spared c) (snd ?read)" using t by simp
  obtain r t1 where r: "?read = (r, t1)" by (rule prod.exhaust)
  show ?thesis
  proof (cases r)
    case (Inl e)
    with True w t1 r show ?thesis by (auto simp: displaced_workload_def)
  next
    case (Inr f)
    obtain st t2 where st: "on_docker (inspect_states (snapshot_web_names f)) t1 = (st, t2)" by (rule prod.exhaust)
    have "st = fst (inspect_states (snapshot_web_names f) (tg_docker t1))"
      and "tg_docker t2 = snd (inspect_states (snapshot_web_names f) (tg_docker t1))"
      using on_fst(1) [of "inspect_states (snapshot_web_names f)" t1]
        on_simps(3) [of "inspect_states (snapshot_web_names f)" t1] st by simp_all
    with inspect_states_spared [of c "tg_docker t1" "snapshot_web_names f"] t1 r
    have st': "docker_safe (spared c) t2" "\<forall>n s. (n, s) \<in> set st \<longrightarrow> refers n c \<longrightarrow> s = ''running''"
      by simp_all
    have "ns = displacedFromSnapshot att (Inr f) (map_of st)" "t' = t2"
      using True w r Inr st by (auto simp: displaced_workload_def)
    with st' displaced_not_spared [OF st'(2)] show ?thesis by simp
  qed
qed (use assms in \<open>simp add: displaced_workload_def\<close>)

lemma handler_spares:
  assumes "fresh_ids (de_docker env)" and t: "docker_safe (spared c) t" and s: "foreign c started"
    and d: "list_all (\<lambda>n. \<not> refers n c) displaced"
  shows "docker_safe (spared c) (snd (restoreDisplacedAndStarted env cfg att g nx started displaced e t))"
proof -
  let ?dk = "de_docker env"
  obtain gaps t1 where 1: "on_docker (stop_started ?dk nx started) t = (gaps, t1)" by (rule prod.exhaust)
  have t1: "docker_safe (spared c) t1"
    using holdsD [OF docker_holds(1) [OF stop_started_spares [OF s]] t 1] .
  obtain ns t2 where 2: "displaced_workload att displaced t1 = (ns, t2)" by (rule prod.exhaust)
  note t2 = displaced_workload_spares [OF t1 d 2]
  obtain m b t3 where 3: "on_docker (restore_displaced ?dk g ns) t2 = ((m, b), t3)" by (metis prod.exhaust)
  have "docker_safe (spared c) t3"
    using holdsD [OF docker_holds(1) [OF restore_displaced_spares [OF assms(1)]] _ 3] t2 by blast
  then show ?thesis
    by (simp add: restoreDisplacedAndStarted_def Let_def 1 2 3 holds_logDeploy)
qed

lemma internal_ports_keeps: "keeps Q (internal_ports env ns)"
proof (rule keepsI)
  fix w assume "safe Q w"
  then show "safe Q (snd (internal_ports env ns w))"
  proof (induction ns arbitrary: w)
    case (Cons n ns)
    obtain r w1 where r: "run_read (inspect (de_ports env) n) w = (r, w1)" by (rule prod.exhaust)
    note w1 = keepsD [OF keeps_read Cons.prems r]
    show ?case
      using w1 Cons.IH [OF w1] by (auto simp: InternalPort_def r split_beta split: sum.split option.split)
  qed simp
qed

lemma restore_route_docker:
  assumes t: "docker_safe Q t"
  shows "docker_safe Q (snd (restorePreviousRoute env cfg current cas g t))"
proof -
  have insp: "docker_safe Q (snd (restoreRouteFromInspection env cfg s cd t1))" if "docker_safe Q t1" for s cd t1
  proof -
    let ?n = "previous_names cfg s (if CurrentPorts s = [] then 1 else length (CurrentPorts s))"
    obtain r t2 where r: "on_docker (internal_ports env ?n) t1 = (r, t2)" by (rule prod.exhaust)
    have "docker_safe Q t2" using holdsD [OF docker_holds(1) [OF internal_ports_keeps] that r] .
    then show ?thesis
      by (simp add: restoreRouteFromInspection_def Let_def r split: option.split)
  qed
  have rm: "docker_safe Q (snd (remove_previous env cfg cd t1))" if "docker_safe Q t1" for cd t1
    using that by (simp add: remove_previous_def)
  have rd: "docker_safe Q (snd (on_files k t))" for k using t by simp
  show ?thesis
    unfolding restorePreviousRoute_def Let_def
    by (simp add: t rm [OF t] insp [OF rd] split_beta split: option.split sum.split)
qed

lemma abort_spares:
  assumes "fresh_ids (de_docker env)" and "\<not> recreateWeb cfg" and t: "docker_safe (spared c) t"
    and s: "foreign c started"
  shows "docker_safe (spared c) (snd (abortStateCommit env cfg current started [] att cas e t))"
proof -
  let ?g = "generation_of current"
  have t0: "docker_safe (spared c) (logDeploy cfg False False t)" using t by (simp add: holds_logDeploy)
  obtain ns t1 where 1: "displaced_workload att [] (logDeploy cfg False False t) = (ns, t1)" by (rule prod.exhaust)
  have t1: "docker_safe (spared c) t1" using displaced_workload_spares [OF t0 _ 1] by simp
  have "docker_safe (spared c) (snd (abort_blue_green env cfg current ?g (?g + 1) started cas t1))"
    using t1 restore_route_docker [OF t1, of env cfg current cas ?g]
    by (auto simp: abort_blue_green_def and_docker_def Let_def stop_and_remove_spares [OF s]
        split: prod.split sum.split if_splits)
  then show ?thesis
    using assms(2) by (simp add: abortStateCommit_def Let_def 1 split_beta)
qed

section \<open>A failed deploy leaves the rest running\<close>

lemma switch_docker: "docker_safe Q t \<Longrightarrow> docker_safe Q (snd (switch_route env cfg lk g nx r t))"
proof -
  assume "docker_safe Q t"
  moreover have "holds (docker_safe Q) (\<lambda>t. case on_proxy (ReadManagedBlock (cf_App cfg)) t of
               (Inl _, t1) \<Rightarrow> (Inr r, t1)
             | (Inr region, t1) \<Rightarrow> (Inr (f region), t1))" for f
    by (auto simp: holds_def split_beta split: sum.split)
  ultimately show ?thesis
    unfolding switch_route_def by (intro holds_snd [of "docker_safe Q"] held) auto
qed

lemma commit_docker [simp]: "tg_docker (snd (commit_state env cfg lk current s t)) = tg_docker t"
  by (simp add: commit_state_def)

lemma post_hook_docker: "docker_safe Q t \<Longrightarrow> docker_safe Q (snd (post_deploy_hook env cfg t))"
  unfolding post_deploy_hook_def by (intro holds_snd [of "docker_safe Q"] held keeps_exec) auto

lemma deployed_digest_docker: "docker_safe Q t \<Longrightarrow> docker_safe Q (snd (deployed_digest env cfg t))"
proof -
  have "keeps Q (ContainerImageDigest env n)" for n
    by (rule keeps_reads [where g = "inspect (de_digest env) n"])
       (simp add: ContainerImageDigest_def split: prod.split sum.split option.split)
  then show "docker_safe Q t \<Longrightarrow> ?thesis"
    by (simp add: deployed_digest_def keeps_snd)
qed

lemma finish_spares:
  assumes "fresh_ids (de_docker env)" and "\<not> recreateWeb cfg" and t: "docker_safe (spared c) t"
    and s: "foreign c started" and d: "dp_displaced p = []"
    and "finish_deploy env cfg lk att p started t = (Inl e, t')"
  shows "docker_safe (spared c) t'"
proof -
  let ?g = "generation_of (dp_current p)"
  obtain r t1 where 1: "switch_route env cfg lk ?g (?g + 1) (dp_resolved p) t = (r, t1)" by (rule prod.exhaust)
  have t1: "docker_safe (spared c) t1" using switch_docker [OF t] 1 by (metis snd_conv)
  obtain dg t2 where 2: "deployed_digest env cfg (snd (post_deploy_hook env cfg t1)) = (dg, t2)" by (rule prod.exhaust)
  have t2: "docker_safe (spared c) t2"
    using deployed_digest_docker [OF post_hook_docker [OF t1]] 2 by (metis snd_conv)
  obtain q t3 where 3: "commit_state env cfg lk (dp_current p) (newState env cfg (dp_current p) (dp_ports p) dg) t2 = (q, t3)"
    by (rule prod.exhaust)
  have t3: "docker_safe (spared c) t3" using t2 commit_docker 3 by (metis snd_conv)
  show ?thesis
    using assms(6) t3 handler_spares [OF assms(1) t1 s, of "[]" cfg att ?g "?g + 1"]
      abort_spares [OF assms(1,2) t3 s, of "dp_current p" att]
    by (auto simp: finish_deploy_def Let_def 1 2 3 d split: sum.splits prod.splits if_splits) (metis snd_conv)+
qed

text \<open>
  C1. A failed blue/green deploy takes nothing down.  When a deploy fails at any step - refused,
  failed at a candidate, its hook, its health check, a worker or the switch, or aborted because
  its state could not be committed - every container that bears no name of the new release keeps
  running and is the same container: the handlers stop and remove only what this deploy started.
  Other clients may do anything in between that keeps that container, and any command's answer may
  be lost after any part of its effects.
\<close>

theorem failed_deploy_spares_running:
  assumes "fresh_ids (de_docker env)" and "ranges env" and "\<not> recreateWeb cfg"
    and "unnamed env cfg c" and "safe (spared c) (tg_docker t)"
    and "DeployFenced env cfg lk t = (Inl failure, t')"
  shows "safe (spared c) (tg_docker t')"
proof -
  let ?att = "\<lparr>at_App = cf_App cfg, at_Hash = cf_Version cfg, at_ID = de_attempt env\<rparr>"
  obtain r t1 where 1: "prepare_plan env cfg lk ?att t = (r, t1)" by (rule prod.exhaust)
  have t1: "docker_safe (spared c) t1"
    using holdsD [OF spares_prepare_plan [OF assms(1,4,2,3)] assms(5) 1] by simp
  have out: "deployFenced env cfg lk t = (Inl failure, t') \<or> t' = t"
    using assms(6) by (auto simp: DeployFenced_def split: option.splits)
  show ?thesis
  proof (cases r)
    case (Inl e)
    with out t1 assms(5) show ?thesis by (auto simp: deployFenced_def Let_def 1)
  next
    case (Inr p)
    let ?g = "generation_of (dp_current p)"
    have d: "dp_displaced p = []"
      using prepare_plan_Inr [OF 1 [unfolded Inr]] displaced_nothing [OF assms(3)] by auto
    obtain q t2 where 2: "prepare_candidates env cfg lk ?att (?g + 1) (dp_image p) (dp_volumes p) (dp_ports p) t1 = (q, t2)"
      by (rule prod.exhaust)
    have q: "target_spares c (q, t2)"
      using prepare_candidates_spares [OF assms(1,4) t1] 2 by metis
    show ?thesis
    proof (cases q)
      case (Inl es)
      obtain e s where es: "es = (e, s)" by (rule prod.exhaust)
      show ?thesis
        using out assms(5) q handler_spares [OF assms(1), of c t2 s "[]" cfg ?att ?g "?g + 1" e]
        by (auto simp: deployFenced_def Let_def 1 2 Inr Inl es d target_spares_def split: prod.splits)
    next
      case Inr': (Inr s)
      with q have "docker_safe (spared c) t2" "foreign c s" by (simp_all add: target_spares_def)
      from finish_spares [OF assms(1,3) this d] show ?thesis
        using out assms(5) by (auto simp: deployFenced_def Let_def 1 2 Inr Inr')
    qed
  qed
qed

section \<open>No traffic before the gate\<close>

text \<open>The deploy changes the proxy only after its candidates passed.\<close>

definition docker_blind :: "(target \<Rightarrow> bool) \<Rightarrow> bool" where
  "docker_blind P \<longleftrightarrow> part_predicate P \<and> (\<forall>t w. P (t\<lparr>tg_docker := w\<rparr>) = P t)"

lemma blind_of [simp]:
  "docker_blind (proxy_safe R)" "reading S \<Longrightarrow> docker_blind (\<lambda>t. S (tg_app t))"
  by (auto simp: docker_blind_def part_of_app)

lemma blind_part: "docker_blind P \<Longrightarrow> part_predicate P"
  by (simp add: docker_blind_def)

lemma blind_on [simp]: "docker_blind P \<Longrightarrow> P (snd (on_docker f t)) = P t"
  by (simp add: docker_blind_def on_docker_def split_beta)

lemma blind_docker [held]: "docker_blind P \<Longrightarrow> holds P (on_docker f)"
  by (simp add: holds_def)

lemma blind_files: "docker_blind P \<Longrightarrow> P t \<Longrightarrow> P (snd (on_files k t))"
  by (rule holds_snd [OF part_files [OF blind_part]])

lemma blind_bridge: "docker_blind P \<Longrightarrow> holds P (bridge_assets env cfg att img)"
  unfolding bridge_assets_def by (intro held blind_part)

lemma blind_rename: "docker_blind P \<Longrightarrow> holds P (rename_current env name)"
  by (rule holdsI) (simp add: rename_current_def Let_def split_beta split: sum.split)

lemma blind_rename_all: "docker_blind P \<Longrightarrow> holds P (rename_all env ns)"
  by (induction ns) (auto intro!: held blind_rename)

lemma blind_step_aside: "docker_blind P \<Longrightarrow> holds P (step_aside env cfg lk same)"
  unfolding step_aside_def by (intro held blind_part blind_rename_all)

lemma blind_displace:
  assumes P: "docker_blind P"
  shows "holds P (displace_web env cfg lk)"
proof -
  have "holds P (\<lambda>t. (let (names, t1) = on_docker (run_read (running_web_names (cf_App cfg))) t
              in on_docker (stop_current (de_docker env) [] (case names of Inl _ \<Rightarrow> [] | Inr ns \<Rightarrow> ns)) t1))"
    by (rule holdsI) (simp add: split_beta P)
  then show ?thesis
    unfolding displace_web_def by (intro held blind_part [OF P])
qed

lemma blind_prepare_plan:
  assumes P: "docker_blind P" and "holds P (admitConfigHome env cfg lk)"
  shows "holds P (prepare_plan env cfg lk att)"
proof (rule holdsI)
  fix t assume t: "P t"
  have snap: "holds P (\<lambda>t. let (ps, t1) = snapshot_predecessors env cfg att current same t in (Inr ps, t1))" for current same
    unfolding holds_Inr by (intro held blind_part P)
  have "P (snd (on_docker (ResolveImageID env (cf_Image cfg)) t))"
    using t P by simp
  then show "P (snd (prepare_plan env cfg lk att t))"
    unfolding prepare_plan_def Let_def split_beta
    by (rule holds_snd [rotated])
       (intro held assms blind_part blind_bridge blind_step_aside blind_displace snap [unfolded Let_def split_beta])
qed

lemma blind_hook: "docker_blind P \<Longrightarrow> holds P (pre_deploy_hook env cfg name)"
  unfolding pre_deploy_hook_def by (intro held)

lemma blind_workers:
  "docker_blind P \<Longrightarrow> holds P (\<lambda>t. on_docker f (write_readiness env cfg att s ports t))"
  by (rule holdsI) (simp add: write_readiness_def Let_def split_beta blind_files)

lemma blind_candidates:
  assumes P: "docker_blind P"
  shows "holds P (prepare_candidates env cfg lk att nx img vols ports)"
  unfolding prepare_candidates_def
  by (intro held blind_hook P; cases "unhealthy_replica env cfg 0 ports")
     (simp_all add: holds_abort blind_workers [OF P])

lemma blind_displaced:
  assumes P: "docker_blind P" and t: "P t"
  shows "P (snd (displaced_workload att ds t))"
proof -
  obtain r t1 where r: "on_files (run_read (\<lambda>f. af_snapshots f (predecessorSnapshotPath att))) t = (r, t1)" by (rule prod.exhaust)
  have "P t1" using holdsD [OF part_files [OF blind_part [OF P]] t r] .
  with t show ?thesis
    by (simp add: displaced_workload_def r split_beta P split: sum.split)
qed

lemma blind_log: "docker_blind P \<Longrightarrow> P t \<Longrightarrow> P (logDeploy cfg b d t)"
  by (simp add: logDeploy_def blind_files)

lemma blind_handler:
  assumes P: "docker_blind P" and "P t"
  shows "P (snd (restoreDisplacedAndStarted env cfg att g nx started displaced e t))"
  unfolding restoreDisplacedAndStarted_def Let_def split_beta
  by (simp add: blind_log [OF P] blind_displaced [OF P] blind_on [OF P] assms(2))

text \<open>What passing means for each part of the gate.\<close>

definition replicas_healthy :: "deploy_env \<Rightarrow> Config \<Rightarrow> int list \<Rightarrow> bool" where
  "replicas_healthy env cfg ports \<longleftrightarrow> length ports = replicas_of cfg
     \<and> (\<forall>i < replicas_of cfg. healthCheck (cf_Health cfg) (web_bind_host cfg) (ports ! i) (de_probe env i))"

definition hook_passes :: "deploy_env \<Rightarrow> Config \<Rightarrow> bool" where
  "hook_passes env cfg \<longleftrightarrow> cf_PreDeploy cfg = []
     \<or> (\<exists>c. refers (hd (web_names cfg)) c \<and> running c \<and> de_hook env (cf_PreDeploy cfg) c)"

definition worker_viable :: "deploy_env \<Rightarrow> string \<Rightarrow> bool" where
  "worker_viable env name \<longleftrightarrow>
     (\<exists>c st. refers name c \<and> de_json env c = Some st \<and> workerStateViable st)"

definition gate_passed :: "deploy_env \<Rightarrow> Config \<Rightarrow> bool" where
  "gate_passed env cfg \<longleftrightarrow> (\<exists>ports. replicas_healthy env cfg ports) \<and> hook_passes env cfg
     \<and> (\<forall>p \<in> set (map fst (processes_of cfg)) - {''web''}.
          worker_viable env (ContainerName (cf_App cfg) p (cf_Version cfg)))"

lemma unhealthy_replica_None:
  "unhealthy_replica env cfg i ports = None
     \<longleftrightarrow> (\<forall>k < length ports. healthCheck (cf_Health cfg) (web_bind_host cfg) (ports ! k) (de_probe env (i + k)))"
proof (induction ports arbitrary: i)
  case (Cons p ps)
  then show ?case
    by (auto simp: less_Suc_eq_0_disj)
qed simp

lemma inspect_attempts_Some:
  "inspect_attempts n json name w = (Some st, w') \<Longrightarrow> \<exists>c. refers name c \<and> json c = Some st"
proof (induction n arbitrary: w)
  case (Suc n)
  obtain r w1 where r: "run_read (inspect json name) w = (r, w1)" by (rule prod.exhaust)
  show ?case
  proof (cases "r = Inr (Some (Some st))")
    case True
    then have "inspect json name (dir w1) = Some (Some st)"
      using run_read_Inr [of "inspect json name" w] r by simp
    then show ?thesis
      by (auto simp: inspect_def find_Some_iff)
  next
    case False
    with Suc.prems have "inspect_attempts n json name w1 = (Some st, w')"
      by (auto simp: inspectWorkerState_def r split: sum.splits option.splits)
    then show ?thesis by (rule Suc.IH)
  qed
qed simp

lemma workerRemainsRunning_viable:
  "workerRemainsRunning (de_json env) name w = (True, w') \<Longrightarrow> worker_viable env name"
  by (auto simp: workerRemainsRunning_def inspectWorkerStateRetry_def worker_viable_def
      dest!: inspect_attempts_Some split: prod.splits option.splits if_splits)

lemma start_workers_viable:
  "start_workers env cfg nx img vols gp ps s w = (Inr s', w')
     \<Longrightarrow> \<forall>p \<in> set ps. worker_viable env (ContainerName (cf_App cfg) p (cf_Version cfg))"
proof (induction ps arbitrary: s w)
  case (Cons p ps)
  then show ?case
    by (auto simp: Let_def dest: workerRemainsRunning_viable split: prod.splits sum.splits bool.splits if_splits)
qed simp

lemma docker_exec_passes:
  assumes "fst (run_cmd (docker_exec env name command) w) = Inr ()"
  shows "\<exists>c. refers name c \<and> running c \<and> de_hook env command c"
proof (rule run_cmd_landed [OF assms])
  fix effs
  assume "docker_exec env name command (fst (next_env w) (dir w)) = Inr effs"
  then show ?thesis
    by (auto simp: docker_exec_def find_Some_iff split: option.splits if_splits)
qed

lemma failing_Inr [simp]: "fst (failing h f t) = Inr x \<longleftrightarrow> fst (f t) = Inr x"
  by (simp add: failing_def Let_def split_beta split: sum.split)

lemma prepare_candidates_gate:
  assumes "prepare_candidates env cfg lk att nx img vols ports t = (Inr s, t')"
    and "length ports = replicas_of cfg"
  shows "gate_passed env cfg"
proof -
  from assms(1) obtain web t1 t2 t3 where hook: "fst (failing (\<lambda>e. (e, web)) (pre_deploy_hook env cfg (hd (web_names cfg))) t2) = Inr ()"
    and rest: "(case unhealthy_replica env cfg 0 ports of
       Some i \<Rightarrow> abort (Unhealthy i, web)
     | None \<Rightarrow>
         (\<lambda>t. on_docker (start_workers env cfg nx img vols (GuardPrefix lk)
                 (filter (\<lambda>p. p \<noteq> ''web'') (sortedProcessNames (processes_of cfg))) web)
                 (write_readiness env cfg att web ports t))) t3 = (Inr s, t')"
    unfolding prepare_candidates_def by (elim seq_Inr_E) (auto dest: fst_of)
  have none: "unhealthy_replica env cfg 0 ports = None"
    using rest by (auto simp: abort_def split: option.splits)
  have "fst (start_workers env cfg nx img vols (GuardPrefix lk)
      (filter (\<lambda>p. p \<noteq> ''web'') (sortedProcessNames (processes_of cfg))) web
      (tg_docker (write_readiness env cfg att web ports t3))) = Inr s"
    using fst_of [OF rest] none by simp
  then have "\<forall>p \<in> set (filter (\<lambda>p. p \<noteq> ''web'') (sortedProcessNames (processes_of cfg))).
      worker_viable env (ContainerName (cf_App cfg) p (cf_Version cfg))"
    using start_workers_viable by (metis prod.collapse)
  moreover have "hook_passes env cfg"
    using hook docker_exec_passes
    by (auto simp: pre_deploy_hook_def hook_passes_def yield_def split: if_splits)
  moreover have "replicas_healthy env cfg ports"
    using none assms(2) by (simp add: unhealthy_replica_None replicas_healthy_def)
  ultimately show ?thesis
    by (auto simp: gate_passed_def sortedProcessNames_def)
qed

lemma deploy_gate:
  assumes "safe R (tg_proxy t)" and "DeployFenced env cfg lk t = (r, t')"
    and "r = Inr () \<or> \<not> safe R (tg_proxy t')"
  shows "gate_passed env cfg"
proof (rule ccontr)
  assume closed: "\<not> gate_passed env cfg"
  let ?att = "\<lparr>at_App = cf_App cfg, at_Hash = cf_Version cfg, at_ID = de_attempt env\<rparr>"
  have valid: "validate cfg = None" and out: "deployFenced env cfg lk t = (r, t')"
    using assms by (auto simp: DeployFenced_def split: option.splits)
  obtain a t1 where 1: "prepare_plan env cfg lk ?att t = (a, t1)" by (rule prod.exhaust)
  note t1 = holdsD [OF blind_prepare_plan [OF blind_of(1) holds_admitConfigHome(2)] assms(1) 1]
  show False
  proof (cases a)
    case (Inl e)
    with out t1 assms(3) show False by (auto simp: deployFenced_def Let_def 1)
  next
    case (Inr p)
    let ?g = "generation_of (dp_current p)"
    have len: "length (dp_ports p) = replicas_of cfg"
      using prepare_plan_Inr [OF 1 [unfolded Inr]] web_ports_length valid_single_port [OF valid] by metis
    obtain q t2 where 2: "prepare_candidates env cfg lk ?att (?g + 1) (dp_image p) (dp_volumes p) (dp_ports p) t1 = (q, t2)"
      by (rule prod.exhaust)
    note t2 = holdsD [OF blind_candidates [OF blind_of(1)] t1 2]
    show False
    proof (cases q)
      case (Inl es)
      obtain e s where es: "es = (e, s)" by (rule prod.exhaust)
      show False
        using out assms(3) blind_handler [OF blind_of(1) t2, of env cfg ?att ?g "?g + 1" s "dp_displaced p" e]
        by (auto simp: deployFenced_def Let_def 1 2 Inr Inl es split: prod.splits)
    next
      case Inr': (Inr s)
      show False
        using prepare_candidates_gate [OF 2 [unfolded Inr'] len] closed by blast
    qed
  qed
qed

text \<open>
  C2. No traffic before the gate.  When the gate of a release is closed - on no ports does every
  replica answer its health check, or the pre-deploy hook passes in no running container of the
  first candidate's name, or some worker is never seen viable - its deploy reports an error, and
  whatever was true of the proxy and is kept by the other clients is still true: the candidate is
  never routed to, however the connection behaves.
\<close>

theorem traffic_waits_for_the_gate:
  assumes "\<not> gate_passed env cfg" and "safe R (tg_proxy t)" and "DeployFenced env cfg lk t = (r, t')"
  shows "(\<exists>f. r = Inl f) \<and> safe R (tg_proxy t')"
  using deploy_gate [OF assms(2,3)] assms(1) by (cases r) auto

section \<open>The deploy and its state\<close>

text \<open>The app's directory while nobody else writes to it.\<close>

abbreviation still_app :: "app_dir \<Rightarrow> target \<Rightarrow> bool" where
  "still_app d t \<equiv> quiet (tg_app t) \<and> dir (tg_app t) = d"

lemma still_blind [simp]: "docker_blind (still_app d)"
  by (rule blind_of(2) [OF reading_quiet])

lemma CheckGate_folder_still:
  assumes "quiet w" and "config_git (dir w) = None"
  shows "quiet (snd (CheckGate G app now a b c lk w)) \<and> dir (snd (CheckGate G app now a b c lk w)) = dir w"
proof -
  obtain r w1 where h: "Head w = (r, w1)" by (rule prod.exhaust)
  note q = Head_quiet [OF assms(1) h]
  obtain x w2 where x: "ReadIncludingTombstone G w1 = (x, w2)" by (rule prod.exhaust)
  note q2 = ReadIncludingTombstone_quiet [OF conjunct1 [OF q] x]
  from q q2 assms(2) show ?thesis
    by (auto simp: CheckGate_def h x split: sum.split option.split prod.split)
qed

lemma still_admit: "config_git d = None \<Longrightarrow> holds (still_app d) (admitConfigHome env cfg lk)"
  by (rule holds_admit) (use CheckGate_folder_still in \<open>auto simp: holds_def\<close>)

text \<open>The state the server records, as a reading on a working connection gives it.\<close>

definition recorded :: "go_lib \<Rightarrow> app_dir \<Rightarrow> (state_error, AppState option) result" where
  "recorded G d = fst (ReadIncludingTombstone G \<lparr>dir = d, script = []\<rparr>)"

lemma reliable_read: "ReadRemoteFile f \<lparr>dir = d, script = []\<rparr> = (Inr (f d), \<lparr>dir = d, script = []\<rparr>)"
  by (simp add: ReadRemoteFile_def run_read_def next_env_def)

lemma read_recorded:
  assumes "quiet w" and "ReadIncludingTombstone G w = (Inr s, w')"
  shows "recorded G (dir w) = Inr s"
proof -
  obtain r1 w1 where 1: "ReadRemoteFile state_json w = (r1, w1)" by (rule prod.exhaust)
  note q1 = ReadRemoteFile_quiet [OF assms(1) 1]
  obtain r2 w2 where 2: "ReadRemoteFile state_json w1 = (r2, w2)" by (rule prod.exhaust)
  note q2 = ReadRemoteFile_quiet [OF conjunct1 [OF q1] 2]
  obtain r3 w3 where 3: "ReadRemoteFile legacy_state w2 = (r3, w3)" by (rule prod.exhaust)
  note q3 = ReadRemoteFile_quiet [OF conjunct1 [OF q2] 3]
  show ?thesis
    using assms(2) q1 q2 q3
    by (auto simp: recorded_def ReadIncludingTombstone_def ReadState_def 1 2 3 reliable_read
        split: sum.splits option.splits)
qed

lemma validateDigests_keeps:
  "validateDigests G s = Inr s' \<Longrightarrow> CurrentHash s' = CurrentHash s \<and> CurrentPorts s' = CurrentPorts s
     \<and> PreviousHash s' = PreviousHash s \<and> Tombstone s' = Tombstone s \<and> Generation s' = Generation s"
  by (auto simp: validateDigests_def validateManifestDigest_def Let_def split: sum.splits if_splits)

lemma prepareState_serves:
  "prepareState G now opid s = Inr s' \<Longrightarrow> CurrentHash s' = CurrentHash s \<and> CurrentPorts s' = CurrentPorts s
     \<and> PreviousHash s' = PreviousHash s"
  unfolding prepareState_def Let_def
  by (simp split: if_split_asm) (drule validateDigests_keeps, simp)+

lemma newState_fields:
  "CurrentHash (newState env cfg current ports digest) = cf_Version cfg"
  "CurrentPorts (newState env cfg current ports digest) = ports"
  "PreviousHash (newState env cfg current ports digest) = previous_hash current"
  "Generation (newState env cfg current ports digest) = generation_of current + 1"
  "OperationID (newState env cfg current ports digest) = de_opid env"
  "\<not> Tombstone (newState env cfg current ports digest)"
  "SchemaVersion (newState env cfg current ports digest) \<noteq> 0"
  by (simp_all add: newState_def NewAppliedState_def zero_state_def previous_hash_def generation_of_def
      Let_def SchemaVersionV2_def SchemaVersionV3_def split: option.split)

lemma marshal_serves [simp]:
  "CurrentHash (marshal_state G s) = CurrentHash s" "CurrentPorts (marshal_state G s) = CurrentPorts s"
  "PreviousHash (marshal_state G s) = PreviousHash s"
  by (simp_all add: marshal_state_def)

text \<open>The new release is the recorded one, a generation after what was recorded before.\<close>

definition serves_release :: "Config \<Rightarrow> AppState option \<Rightarrow> AppState \<Rightarrow> bool" where
  "serves_release cfg before s \<longleftrightarrow>
     CurrentHash s = cf_Version cfg \<and> length (CurrentPorts s) = replicas_of cfg
     \<and> PreviousHash s = previous_hash before \<and> \<not> Tombstone s
     \<and> Generation s = (if generation_of before + 1 = 0 then 1 else generation_of before + 1)"

lemma writeFenced_refused:
  "prepareState G now opid s = Inl e \<Longrightarrow> \<exists>f. writeFenced G app now opid a b s lk ex w = (Inl f, w) \<and> f \<in> {e, WrongLease}"
  by (auto simp: writeFenced_def WriteState_def split: option.split)

lemma prepareState_error: "prepareState G now opid s = Inl e \<Longrightarrow> \<not> PreservePublishedState e"
  by (auto simp: prepareState_def validateDigests_def Let_def PreservePublishedState_def split: if_splits sum.splits)

lemma commit_state_outcome:
  assumes t: "still_app d t" and "fresh_operation d (de_opid env)" and "de_opid env \<noteq> []"
    and "de_tmp env \<noteq> de_tmp2 env" and "length ports = replicas_of cfg"
    and "commit_state env cfg lk current (newState env cfg current ports digest) t = (r, t')"
  shows "quiet (tg_app t')
    \<and> (authority_kept d (dir (tg_app t'))
       \<or> (\<exists>s. serves_release cfg current s \<and> state_json (dir (tg_app t')) = Some (StateDoc s)))
    \<and> (r = Inr () \<longrightarrow> (\<exists>s. serves_release cfg current s \<and> state_json (dir (tg_app t')) = Some (StateDoc s)
         \<and> gen_sidecar (dir (tg_app t')) = Some (GenNum (Generation s))))
    \<and> (\<forall>e. r = Inl e \<and> \<not> PreservePublishedState e \<longrightarrow> authority_kept d (dir (tg_app t')))"
proof -
  let ?s0 = "newState env cfg current ports digest" and ?G = "de_lib env" and ?w = "tg_app t"
  let ?out = "writeFenced ?G (cf_App cfg) (de_now env) (de_opid env) (de_tmp env) (de_tmp2 env) ?s0 lk
    (Some (generation_of current)) ?w"
  have out: "r = fst ?out" "tg_app t' = snd ?out"
    using assms(6) on_fst(2) on_simps(7) unfolding commit_state_def by (metis fst_conv, metis snd_conv)
  show ?thesis
  proof (cases "prepareState ?G (de_now env) (de_opid env) ?s0")
    case (Inl e)
    obtain f where f: "?out = (Inl f, ?w)" "f \<in> {e, WrongLease}"
      using writeFenced_refused [OF Inl] by blast
    have "authority_kept d (dir ?w)" using t by (simp add: authority_kept_def)
    with t out f show ?thesis by simp
  next
    case (Inr s)
    note keeps = prepareState_keeps [OF Inr] prepareState_serves [OF Inr]
    have s: "serves_release cfg current (marshal_state ?G s)"
      using keeps assms(5) newState_fields [of env cfg current ports digest] by (simp add: serves_release_def)
    have "state_json (dir ?w) \<noteq> Some (StateDoc (marshal_state ?G s))"
      using t assms(2,3) keeps newState_fields(5) [of env cfg current ports digest] by (auto simp: fresh_operation_def)
    from writeFenced_outcome [OF conjunct1 [OF t] Inr this assms(4), of "cf_App cfg" lk "Some (generation_of current)"] s t
    show ?thesis
      unfolding outcome_ok_def out authority_moved_def by (auto intro!: exI [of _ "marshal_state ?G s"])
  qed
qed

text \<open>Aborting a commit and everything after one leave the app's directory as it is.\<close>

lemma log_app [simp]: "tg_app (logDeploy cfg b d t) = tg_app t"
  by (rule holds_logDeploy)

lemma displaced_app [simp]: "tg_app (snd (displaced_workload att ds t)) = tg_app t"
proof -
  obtain r t1 where r: "on_files (run_read (\<lambda>f. af_snapshots f (predecessorSnapshotPath att))) t = (r, t1)" by (rule prod.exhaust)
  then have "tg_app t1 = tg_app t" using on_simps(14) by (metis snd_conv)
  then show ?thesis by (simp add: displaced_workload_def r split_beta split: sum.split)
qed

lemma inspection_app [simp]: "tg_app (snd (restoreRouteFromInspection env cfg s cd t)) = tg_app t"
  by (simp add: restoreRouteFromInspection_def Let_def split_beta split: option.split)

lemma restore_route_app [simp]: "tg_app (snd (restorePreviousRoute env cfg current cas g t)) = tg_app t"
  by (simp add: restorePreviousRoute_def Let_def split_beta remove_previous_def split: option.split sum.split)

lemma and_docker_app [simp]: "tg_app (and_docker f t) = tg_app t"
  by (simp add: and_docker_def)

lemma abort_recreate_app [simp]: "tg_app (snd (abort_recreate env cfg current g nx s ds cas t)) = tg_app t"
  by (simp add: abort_recreate_def Let_def split_beta split: sum.split)

lemma abort_blue_green_app [simp]: "tg_app (snd (abort_blue_green env cfg current g nx s cas t)) = tg_app t"
  by (simp add: abort_blue_green_def Let_def split_beta split: sum.split)

lemma abort_app [simp]: "tg_app (snd (abortStateCommit env cfg current s ds att cas e t)) = tg_app t"
  by (simp add: abortStateCommit_def Let_def split_beta)

lemma switch_app [simp]: "tg_app (snd (switch_route env cfg lk g nx r t)) = tg_app t"
  by (auto simp: switch_route_def seq_def yield_def split_beta split: sum.split)

lemma hook_app [simp]: "tg_app (snd (post_deploy_hook env cfg t)) = tg_app t"
  by (simp add: post_deploy_hook_def quietly_def yield_def)

lemma digest_app [simp]: "tg_app (snd (deployed_digest env cfg t)) = tg_app t"
  by (simp add: deployed_digest_def)

lemma record_debt_app [simp]: "tg_app (record_debt env att why t) = tg_app t"
  by (simp add: record_debt_def)

lemma recordRelease_app [simp]: "tg_app (snd (recordRelease env cfg att s ports t)) = tg_app t"
proof -
  obtain r t1 where r: "on_docker (run_read (inspect (de_recreate env) (hd (web_names cfg)))) t = (r, t1)" by (rule prod.exhaust)
  then have "tg_app t1 = tg_app t" using on_simps(1) by (metis snd_conv)
  then show ?thesis
    by (simp add: recordRelease_def r Let_def split_beta split: sum.split)
qed

lemma remove_env_files_app [simp]: "tg_app (remove_env_files fs t) = tg_app t"
  by (induction fs arbitrary: t) simp_all

lemma still_lock_ok: "still_app d t \<Longrightarrow> still_app d (snd (lock_ok lk t))"
  using holds_snd [OF holds_check_lock [OF blind_part [OF still_blind]]] by (simp add: lock_ok_def split_beta)

lemma still_ReadPins: "still_app d t \<Longrightarrow> still_app d (snd (on_app ReadPins t))"
  using holds_snd [OF part_app [OF blind_part [OF still_blind] reads_ReadPins]] by blast

lemma still_prune_attempts: "still_app d t \<Longrightarrow> still_app d (prune_attempts env cfg current t)"
  using still_ReadPins [of t d] by (simp add: prune_attempts_def Let_def split_beta split: sum.split)

lemma still_retire: "still_app d t \<Longrightarrow> still_app d (snd (retire_predecessor env cfg lk current same ps t))"
  using still_lock_ok [of t d lk]
  by (simp add: retire_predecessor_def Let_def split_beta split: sum.split option.split)

lemma default_prune_due_app [simp]: "tg_app (snd (default_prune_due env cfg keep prot t)) = tg_app t"
  by (simp add: default_prune_due_def Let_def split_beta split: sum.split)

lemma still_prune_versions: "still_app d t \<Longrightarrow> still_app d (prune_versions env cfg lk current t)"
  using still_lock_ok [of t d lk] still_ReadPins [of "snd (lock_ok lk t)" d]
  by (simp add: prune_versions_def Let_def split_beta split: sum.split)

lemma still_after_commit: "still_app d t \<Longrightarrow> still_app d (after_commit env cfg lk att p s t)"
proof -
  assume t: "still_app d t"
  have "tg_app (snd (retire_route env cfg lk g b t)) = tg_app t" for g b
    by (simp add: retire_route_def split_beta)
  moreover have "tg_app (verifyPlanReceiptEquality env rec att dg u) = tg_app u" for rec dg u
    by (simp add: verifyPlanReceiptEquality_def)
  ultimately show ?thesis
    using t unfolding after_commit_def Let_def split_beta
    by (simp only: log_app) (intro still_prune_versions still_retire still_prune_attempts, simp)
qed

text \<open>The state a plan starts from is the recorded one.\<close>

lemma prepare_plan_still:
  assumes q: "quiet (tg_app t)" and "config_git (dir (tg_app t)) = None"
    and "prepare_plan env cfg lk att t = (Inr p, t')"
  shows "recorded (de_lib env) (dir (tg_app t)) = Inr (dp_current p)"
proof -
  let ?d = "dir (tg_app t)"
  let ?t0 = "snd (on_docker (ResolveImageID env (cf_Image cfg)) t)"
  obtain u t1 t2 where admit: "admitConfigHome env cfg lk ?t0 = (Inr u, t1)"
    and read: "read_current env t1 = (Inr (dp_current p), t2)"
    using assms(3) unfolding prepare_plan_def Let_def split_beta by (elim seq_Inr_E, clarsimp)
  have "still_app ?d ?t0" using q by simp
  from holdsD [OF still_admit [OF assms(2)] this admit] have t1: "quiet (tg_app t1)" "dir (tg_app t1) = ?d" by auto
  have "fst (ReadIncludingTombstone (de_lib env) (tg_app t1)) = Inr (dp_current p)"
    using fst_of [OF read] by (simp add: read_current_def)
  with read_recorded [OF t1(1)] t1(2) show ?thesis by (metis prod.collapse)
qed

lemma handler_app: "tg_app (snd (restoreDisplacedAndStarted env cfg att g nx s ds e t)) = tg_app t"
  by (simp add: restoreDisplacedAndStarted_def Let_def split_beta)

lemma finish_outcome:
  assumes t: "still_app d t" and "fresh_operation d (de_opid env)" and "de_opid env \<noteq> []"
    and "de_tmp env \<noteq> de_tmp2 env" and "length (dp_ports p) = replicas_of cfg"
    and "finish_deploy env cfg lk att p started t = (r, t')"
  shows "(r = Inr () \<longrightarrow> (\<exists>s. serves_release cfg (dp_current p) s \<and> state_json (dir (tg_app t')) = Some (StateDoc s)
         \<and> gen_sidecar (dir (tg_app t')) = Some (GenNum (Generation s))))
    \<and> (\<forall>f. r = Inl f \<longrightarrow> authority_kept d (dir (tg_app t'))
         \<or> ((\<exists>e. f = Unresolved e) \<and>
            (\<exists>s. serves_release cfg (dp_current p) s \<and> state_json (dir (tg_app t')) = Some (StateDoc s))))"
proof -
  let ?g = "generation_of (dp_current p)"
  obtain a t1 where 1: "switch_route env cfg lk ?g (?g + 1) (dp_resolved p) t = (a, t1)" by (rule prod.exhaust)
  have t1: "still_app d t1" using t switch_app [of env cfg lk ?g "?g + 1" "dp_resolved p" t] by (simp add: 1)
  obtain dg t2 where 2: "deployed_digest env cfg (snd (post_deploy_hook env cfg t1)) = (dg, t2)" by (rule prod.exhaust)
  have t2: "still_app d t2" using t1 digest_app [of env cfg "snd (post_deploy_hook env cfg t1)"] by (simp add: 2)
  obtain q t3 where 3: "commit_state env cfg lk (dp_current p) (newState env cfg (dp_current p) (dp_ports p) dg) t2 = (q, t3)"
    by (rule prod.exhaust)
  note c = commit_state_outcome [OF t2 assms(2-5) 3]
  show ?thesis
  proof (cases a)
    case (Inl e)
    with assms(6) t1 have "r \<noteq> Inr ()" "dir (tg_app t') = d"
      using handler_app [of env cfg att ?g "?g + 1" started "dp_displaced p" e t1]
      by (auto simp: finish_deploy_def Let_def 1 split: prod.splits)
    then show ?thesis by (simp add: authority_kept_def)
  next
    case (Inr sw)
    show ?thesis
    proof (cases q)
      case Inr': (Inr u)
      have "t' = after_commit env cfg lk att p (newState env cfg (dp_current p) (dp_ports p) dg) t3" "r = Inr ()"
        using assms(6) by (simp_all add: finish_deploy_def Let_def 1 2 3 Inr Inr')
      moreover have "still_app (dir (tg_app t3)) t3" using c by simp
      ultimately have "dir (tg_app t') = dir (tg_app t3)" using still_after_commit by blast
      with c Inr' \<open>r = Inr ()\<close> show ?thesis by simp
    next
      case Inl': (Inl e)
      show ?thesis
      proof (cases "PreservePublishedState e")
        case True
        then have "t' = t3" "r = Inl (Unresolved e)"
          using assms(6) by (simp_all add: finish_deploy_def Let_def 1 2 3 Inr Inl')
        with c show ?thesis by auto
      next
        case False
        obtain f t4 where 4: "abortStateCommit env cfg (dp_current p) started (dp_displaced p) att
            (restoreRouteCAS (dp_resolved p) sw) e t3 = (f, t4)" by (rule prod.exhaust)
        have "t' = t4" "r = Inl f"
          using assms(6) False by (simp_all add: finish_deploy_def Let_def 1 2 3 Inr Inl' 4)
        moreover have "tg_app t4 = tg_app t3"
          using abort_app 4 by (metis snd_conv)
        ultimately show ?thesis using c Inl' False by simp
      qed
    qed
  qed
qed


section \<open>A release without the lock\<close>

text \<open>
  What the other clients keep of the app's directory while the lock no longer names this holder.
  Staged files are private to their writer.
\<close>

definition lost_to :: "(app_dir \<Rightarrow> bool) \<Rightarrow> Lock \<Rightarrow> bool" where
  "lost_to P l \<longleftrightarrow> (\<forall>d. P d \<longrightarrow> \<not> names_owner (lk_owner l) d) \<and> (\<forall>d f. P d \<longrightarrow> P (d\<lparr>staged := f\<rparr>))"

lemma reading_stable: "reading (stable P)"
  by (simp add: reading_def run_read_stable)

lemma Guarded_stable: "stable P w \<Longrightarrow> stable P (snd (Guarded lk c w))"
  by (cases lk) (simp_all add: Guarded_None_run Guarded_Some_run run_cmd_stable)

lemma resolvePublication_stable: "stable P w \<Longrightarrow> stable P (snd (resolvePublication G data g lk cause w))"
proof -
  assume w: "stable P w"
  obtain r1 w1 where 1: "ReadRemoteFile state_json w = (r1, w1)" by (rule prod.exhaust)
  have w1: "stable P w1" using readsD [OF reads_ReadRemoteFile reading_stable w] 1 by (metis snd_conv)
  have w2: "stable P (snd (ReadState G w1))" using readsD [OF reads_ReadState reading_stable w1] .
  have lock: "stable P (snd (Lock_Check lk w1))" using readsD [OF reads_Lock_Check reading_stable w1] .
  have wr: "stable P v \<Longrightarrow> stable P (snd (writeGenerationSidecarFenced g lk v))" for v
    by (simp add: writeGenerationSidecarFenced_def Guarded_stable run_cmd_stable split_beta split: sum.split)
  show ?thesis
    using w1 w2 lock wr [OF w1] wr [OF lock]
    by (auto simp: resolvePublication_def 1 split_beta split: sum.split option.split)
qed

lemma lost_Guarded:
  assumes "lost_to P l" and "safe P w"
  shows "\<exists>e. fst (Guarded (Some l) c w) = Inl e" and "safe P (snd (Guarded (Some l) c w))"
proof -
  have refuse: "\<exists>n. guarded_cmd (lk_owner l) c d = Inl n" if "P d" for d
    using that assms(1) by (auto simp: guarded_cmd_def lost_to_def)
  note refused = run_cmd_refused [of P w "guarded_cmd (lk_owner l) c", OF _ _ refuse]
  show "\<exists>e. fst (Guarded (Some l) c w) = Inl e"
    using refused(1) assms(2) by (auto simp: Guarded_def safe_def split: prod.split sum.split)
  show "safe P (snd (Guarded (Some l) c w))"
    using refused(2) assms(2) by (simp add: Guarded_Some_run safe_def run_cmd_stable)
qed

lemma lost_stage:
  assumes "lost_to P l" and "safe P w"
  shows "safe P (snd (run_cmd (upload (stage tmp x)) w))"
  using upload_stable [of P w tmp x] assms by (simp add: safe_def lost_to_def)

lemma lost_write:
  assumes l: "lost_to P l" and w: "safe P w"
  shows "(\<exists>e. fst (writeFenced G app now opid tmp tmp2 s0 (Some l) ex w) = Inl e)
    \<and> safe P (snd (writeFenced G app now opid tmp tmp2 s0 (Some l) ex w))"
proof (cases "prepareState G now opid s0")
  case (Inl e)
  with w show ?thesis by (simp add: writeFenced_def)
next
  case (Inr s)
  obtain r1 w1 where 1: "run_cmd (upload (stage tmp (StagedState (marshal_state G s)))) w = (r1, w1)" by (rule prod.exhaust)
  have w1: "safe P w1" using lost_stage [OF l w] 1 by (metis snd_conv)
  obtain r2 w2 where 2: "run_cmd (upload (stage tmp2 (StagedGen (Generation s)))) w1 = (r2, w2)" by (rule prod.exhaust)
  have w2: "safe P w2" using lost_stage [OF l w1] 2 by (metis snd_conv)
  obtain r3 w3 where 3: "Guarded (Some l) (gen_cas ex (mv_commit tmp tmp2)) w2 = (r3, w3)" by (rule prod.exhaust)
  have w3: "safe P w3" and "\<exists>e. r3 = Inl e"
    using lost_Guarded [OF l w2, of "gen_cas ex (mv_commit tmp tmp2)"] 3 by simp_all
  then obtain e where r3: "r3 = Inl e" by blast
  obtain r4 w4 where 4: "resolvePublication G (marshal_state G s) (Generation s) (Some l) (guard_to_state_error e) w3 = (r4, w4)"
    by (rule prod.exhaust)
  have "(\<exists>e. r4 = Inl e) \<and> P (dir w4)"
    by (rule resolvePublication_refused [OF _ _ _ 4]) (use w3 l in \<open>simp_all add: safe_def lost_to_def\<close>)
  moreover have "stable P w4"
    using resolvePublication_stable w3 4 unfolding safe_def by (metis snd_conv)
  ultimately show ?thesis
    using w w1 w2 w3 by (auto simp: writeFenced_def Inr 1 2 3 r3 4 safe_def split: sum.split)
qed

lemma lost_admit:
  assumes l: "lost_to P l"
  shows "holds (app_safe P) (admitConfigHome env cfg (Some l))"
proof (rule holds_admit, rule app_holds(1), rule keepsI)
  fix now a b c w
  let ?G = "de_lib env" and ?app = "cf_App cfg"
  assume w: "safe P w"
  note rd = readsD [OF reads_ReadIncludingTombstone reading_safe]
  have tomb: "safe P (snd (WriteTombstone ?G ?app now a b c (Some l) v))" if "safe P v" for v
  proof -
    have "safe P (snd (EnsureAppDir u))" if "safe P u" for u
      using keeps_snd [OF keeps_upload_id that] by (simp add: EnsureAppDir_def split_beta split: sum.split)
    from this [OF rd [OF that]] rd [OF that] show ?thesis
      using lost_write [OF l] by (simp add: WriteTombstone_def split_beta split: sum.split)
  qed
  have schema: "safe P (snd (SetSchemaVersion ?G ?app v0 now a b c (Some l) v))" if "safe P v" for v v0
    using tomb [OF rd [OF that]] rd [OF that] lost_write [OF l] lost_Guarded(2) [OF l]
    by (auto simp: SetSchemaVersion_def split_beta Let_def split: sum.split option.split)
  have head: "reads Head"
    unfolding Head_def [abs_def] by (intro only_reads reads_ReadRemoteFile)
  note h = readsD [OF head reading_safe w]
  show "safe P (snd (CheckGate ?G ?app now a b c (Some l) w))"
    using h rd [OF h] tomb [OF rd [OF h]] schema [OF rd [OF h]]
    by (auto simp: CheckGate_def split_beta split: sum.split option.split)
qed

text \<open>Both the app's lock and the lock file the docker commands are guarded by name somebody else.\<close>

abbreviation fenced_out :: "(app_dir \<Rightarrow> bool) \<Rightarrow> Lock \<Rightarrow> target \<Rightarrow> bool" where
  "fenced_out P l t \<equiv> app_safe P t \<and> docker_safe (\<lambda>d. \<not> host_holds (lk_owner l) d) t"

lemma fenced_part:
  "holds (app_safe P) f \<Longrightarrow> holds (docker_safe (\<lambda>d. \<not> host_holds (lk_owner l) d)) f \<Longrightarrow> holds (fenced_out P l) f"
  by (simp add: holds_def)

lemma part_app_safe [simp]: "part_predicate (app_safe P)"
  by (rule part_of_app [OF reading_safe])

lemma host_lock_effects [simp]:
  "dh_lock (remove_effect r d) = dh_lock d" "dh_lock (create_effect c d) = dh_lock d"
  by (simp_all add: remove_effect_def create_effect_def)

lemma fenced_bridge: "holds (fenced_out P l) (bridge_assets env cfg att img)"
proof -
  have "keeps (\<lambda>d. \<not> host_holds u d) (run_job (extract_assets env name img))" for u name
    by (rule keeps_job) (auto simp: extract_assets_def host_holds_def Let_def split: if_splits)
  then have "holds (docker_safe (\<lambda>d. \<not> host_holds (lk_owner l) d)) (bridge_assets env cfg att img)"
    unfolding bridge_assets_def by (intro held part_of)
  moreover have "holds (app_safe P) (bridge_assets env cfg att img)"
    unfolding bridge_assets_def by (intro held part_app_safe)
  ultimately show ?thesis by (rule fenced_part [rotated])
qed

lemma fenced_check:
  assumes l: "lost_to P l"
  shows "holds (fenced_out P l) (seq (check_lock (Some l)) g)"
proof (rule holdsI)
  fix t assume t: "fenced_out P l t"
  obtain r t1 where r: "check_lock (Some l) t = (r, t1)" by (rule prod.exhaust)
  have t1: "fenced_out P l t1"
    using holdsD [OF fenced_part [OF holds_check_lock holds_check_lock] t r] by simp
  obtain q w where q: "Lock_Check (Some l) (tg_app t) = (q, w)" by (rule prod.exhaust)
  have "q \<noteq> Inr ()"
    using Lock_Check_stable [of P "tg_app t" l q w] t l q by (auto simp: safe_def lost_to_def)
  then have "r \<noteq> Inr ()"
    using fst_of [OF r] q by (auto simp: check_lock_def)
  then obtain e where "r = Inl e" by (cases r) auto
  with t1 show "fenced_out P l (snd (seq (check_lock (Some l)) g t))"
    by (simp add: seq_def r)
qed

lemma fenced_prepare_plan:
  assumes l: "lost_to P l"
  shows "holds (fenced_out P l) (prepare_plan env cfg (Some l) att)"
proof (rule holdsI)
  fix t assume t: "fenced_out P l t"
  let ?D = "\<lambda>d. \<not> host_holds (lk_owner l) d"
  have snap: "holds (fenced_out P l) (\<lambda>t. let (ps, t1) = snapshot_predecessors env cfg att current same t in (Inr ps, t1))" for current same
    unfolding holds_Inr by (intro fenced_part held part_of part_app_safe)
  have aside: "holds (fenced_out P l) (step_aside env cfg (Some l) same)" for same
    unfolding step_aside_def by (intro holds_if holds_yield fenced_check l)
  have displace: "holds (fenced_out P l) (displace_web env cfg (Some l))"
    unfolding displace_web_def by (intro holds_if holds_yield fenced_check l)
  have admit: "holds (fenced_out P l) (admitConfigHome env cfg (Some l))"
    by (intro fenced_part lost_admit l held)
  have part: "holds (fenced_out P l) (read_current env)"
    "holds (fenced_out P l) (provision_volumes env g ns)" "holds (fenced_out P l) (resolve_route env cfg)"
    "holds (fenced_out P l) (repair_debt env cfg)" "holds (fenced_out P l) (reconcile_takeover env cfg lk current)"
    "holds (fenced_out P l) (web_ports env cfg)" for g ns lk current
    by (intro fenced_part held part_of part_app_safe)+
  have "fenced_out P l (snd (on_docker (ResolveImageID env (cf_Image cfg)) t))"
    using t keeps_snd [OF keeps_ResolveImageID] by simp
  then show "fenced_out P l (snd (prepare_plan env cfg (Some l) att t))"
    unfolding prepare_plan_def Let_def split_beta
    by (rule holds_snd [rotated])
       (intro holds_seq admit part fenced_bridge aside displace snap [unfolded Let_def split_beta] holds_yield)
qed

lemma fenced_RunGuarded:
  assumes "safe (\<lambda>d. \<not> host_holds u d) w"
  shows "\<exists>e. fst (RunGuarded dk cfg (Some u) w) = Inl e"
proof -
  let ?j = "guarded_create (Some u) (docker_create dk (run_name cfg) (rn_Image cfg) (run_labels cfg))"
  have "\<not> host_holds u (fst (next_env w) (dir w))"
    using assms next_env_stable [of "\<lambda>d. \<not> host_holds u d" w] by (simp add: safe_def)
  then have "?j (fst (next_env w) (dir w)) = ([], Inl RunFenced)"
    by (simp add: guarded_create_def)
  then have "fst (run_sent (run_job ?j w) id RunTransport) \<in> {Inl RunFenced, Inl RunTransport}"
    by (simp add: run_sent_def run_job_def Let_def split: answer.split)
  then obtain e w' where "run_sent (run_job ?j w) id RunTransport = (Inl e, w')" and "e \<noteq> NameInUse"
    by (cases "run_sent (run_job ?j w) id RunTransport") auto
  then show ?thesis
    by (simp add: RunGuarded_def Let_def)
qed

text \<open>
  C4. A holder that lost its lock deploys nothing.  Let \<open>P\<close> be anything about the app's directory
  that the other clients keep, that does not depend on staged files and that says the lock names
  somebody else, and \<open>R\<close> anything about the proxy they keep.  If the lock file the docker commands
  are guarded by does not name this holder either, then its deploy reports an error, and \<open>P\<close> and
  \<open>R\<close> still hold: no state, no generation, no route and no tombstone of its own, at every
  interleaving and with any answers lost.
\<close>

theorem fenced_out_deploy_changes_nothing:
  assumes "lost_to P l" and "safe P (tg_app t)" and "safe (\<lambda>d. \<not> host_holds (lk_owner l) d) (tg_docker t)"
    and "safe R (tg_proxy t)" and "DeployFenced env cfg (Some l) t = (r, t')"
  shows "(\<exists>f. r = Inl f) \<and> safe P (tg_app t') \<and> safe R (tg_proxy t')"
proof (cases "validate cfg")
  case (Some e)
  with assms show ?thesis by (auto simp: DeployFenced_def)
next
  case None
  let ?att = "\<lparr>at_App = cf_App cfg, at_Hash = cf_Version cfg, at_ID = de_attempt env\<rparr>"
  have out: "deployFenced env cfg (Some l) t = (r, t')" using assms(5) None by (simp add: DeployFenced_def)
  obtain a t1 where 1: "prepare_plan env cfg (Some l) ?att t = (a, t1)" by (rule prod.exhaust)
  have t1: "fenced_out P l t1"
    using holdsD [OF fenced_prepare_plan [OF assms(1)] _ 1] assms(2,3) by simp
  note p1 = holdsD [OF blind_prepare_plan [OF blind_of(1) holds_admitConfigHome(2)] assms(4) 1]
  show ?thesis
  proof (cases a)
    case (Inl e)
    with out t1 p1 show ?thesis by (auto simp: deployFenced_def Let_def 1)
  next
    case (Inr p)
    let ?g = "generation_of (dp_current p)"
    have "length (dp_ports p) = replicas_of cfg"
      using prepare_plan_Inr [OF 1 [unfolded Inr]] web_ports_length valid_single_port [OF None] by metis
    then obtain np nps where zip: "zip (web_names cfg) (dp_ports p) = np # nps"
      using replicas_pos [of cfg] web_names_length [of cfg]
      by (cases "zip (web_names cfg) (dp_ports p)") (auto simp: zip_eq_Nil_iff simp del: web_names_length)
    obtain q t2 where 2: "prepare_candidates env cfg (Some l) ?att (?g + 1) (dp_image p) (dp_volumes p) (dp_ports p) t1 = (q, t2)"
      by (rule prod.exhaust)
    note p2 = holdsD [OF blind_candidates [OF blind_of(1)] p1 2]
    note a2 = holdsD [OF blind_candidates [OF blind_of(2) [OF reading_safe]] conjunct1 [OF t1] 2]
    obtain name port where np: "np = (name, port)" by (rule prod.exhaust)
    obtain e w where "RunGuarded (de_docker env) (web_run_config cfg (?g + 1) (dp_image p) (dp_volumes p) name port)
        (Some (lk_owner l)) (tg_docker t1) = (Inl e, w)"
      using fenced_RunGuarded t1 by (metis prod.collapse)
    then obtain es where es: "q = Inl es"
      using 2 by (auto simp: prepare_candidates_def seq_def on_docker_def GuardPrefix_def zip np split: if_splits)
    obtain e s where "es = (e, s)" by (rule prod.exhaust)
    with out es show ?thesis
      using blind_handler [OF blind_of(1) p2, of env cfg ?att ?g "?g + 1" s "dp_displaced p" e]
        blind_handler [OF blind_of(2) [OF reading_safe] a2, of env cfg ?att ?g "?g + 1" s "dp_displaced p" e]
      by (auto simp: deployFenced_def Let_def 1 2 Inr split: prod.splits)
  qed
qed

section \<open>The record of a release reproduces its route\<close>

lemma redactRecord_route [simp]:
  "rr_Domain (redactRecord r) = rr_Domain r" "rr_Replicas (redactRecord r) = rr_Replicas r"
  "rr_Health (redactRecord r) = rr_Health r" "rr_Caddy (redactRecord r) = rr_Caddy r"
  "rr_Ports (redactRecord r) = rr_Ports r"
  by (simp_all add: redactRecord_def Let_def split_beta)

lemma WriteRelease_route:
  assumes "WriteRelease now (Some r) = Inr (path, w)"
  shows "rr_Domain w = rr_Domain r" "rr_Replicas w = rr_Replicas r" "rr_Health w = rr_Health r"
    "rr_Caddy w = rr_Caddy r" "rr_Ports w = rr_Ports r"
  using assms by (auto simp: WriteRelease_def Let_def split: if_splits option.splits)

lemma containerPort_pos: "validate cfg = None \<Longrightarrow> 0 < containerPort cfg"
  by (auto simp: validate_def containerPort_def split: if_splits)

lemma caddy_domain: "validate cfg = None \<Longrightarrow> usesCaddy cfg \<Longrightarrow> cf_Domain cfg \<noteq> []"
  by (auto simp: validate_def usesCaddy_def ingressHost_def split: if_splits)

lemma health_path_set: "hc_Path (withDefaults h) \<noteq> []"
  by (simp add: withDefaults_def)


section \<open>A small server\<close>

text \<open>
  A docker daemon that accepts everything and draws IDs longer than any name, an app \<open>shop\<close> behind
  an external proxy, its release \<open>v1\<close> running, and a deploy of \<open>v2\<close> whose probe dials the
  container's port.
\<close>

definition fresh_id :: "docker_host \<Rightarrow> string" where
  "fresh_id d = replicate (Suc (sum_list (map (\<lambda>c. length (ct_ID c) + length (ct_Name c)) (dh_containers d)))) CHR ''f''"

definition demo_daemon :: docker_env where
  "demo_daemon = \<lparr>dk_refuses = (\<lambda>_ _. False), dk_starts = (\<lambda>_ _. True), dk_new_id = fresh_id,
     dk_created = Stamp 1, dk_represents = (\<lambda>_. True)\<rparr>"

lemma fresh_demo: "fresh_ids demo_daemon"
proof -
  have len: "length (ct_ID c) + length (ct_Name c) < length (fresh_id d)" if "c \<in> set (dh_containers d)" for c d
    using member_le_sum_list [of "length (ct_ID c) + length (ct_Name c)" "map (\<lambda>c. length (ct_ID c) + length (ct_Name c)) (dh_containers d)"] that
    by (simp add: fresh_id_def)
  show ?thesis
    unfolding fresh_ids_def
  proof (intro allI conjI ballI)
    fix d :: docker_host and c assume c: "c \<in> set (dh_containers d)"
    show "ct_ID c \<noteq> dk_new_id demo_daemon d" "ct_Name c \<noteq> dk_new_id demo_daemon d"
      using len [OF c] by (auto simp: demo_daemon_def)
  qed (simp add: demo_daemon_def fresh_id_def)
qed

definition demo_attempt :: "bool \<Rightarrow> attempt" where
  "demo_attempt up = \<lparr>at_curl = None, at_dial = up, at_took = 1\<rparr>"

definition demo_deploy :: "bool \<Rightarrow> deploy_env" where
  "demo_deploy up = \<lparr>de_docker = demo_daemon, de_lib = demo_lib, de_edit = (\<lambda>_. demo_env), de_app_lock = ''shop/.lock'',
     de_now = 9, de_opid = ''op9'', de_tmp = ''t1'', de_tmp2 = ''t2'', de_gate = (''op8'', ''t3'', ''t4''),
     de_attempt = ''00112233aabbccdd'', de_resolve = (\<lambda>_ _. None), de_ss = (\<lambda>_. Inr []), de_volume = (\<lambda>_ _. True),
     de_tree = True, de_copies = True, de_range = id, de_probe = (\<lambda>_ _. demo_attempt up), de_hook = (\<lambda>_ _. True),
     de_json = (\<lambda>c. Some \<lparr>ws_Status = ct_State c, ws_Restarting = False, ws_Health = None\<rparr>),
     de_digest = (\<lambda>_. None), de_ports = (\<lambda>_. []), de_recreate = (\<lambda>_. None), de_image_env = None,
     de_host_env = [], de_debt_link = \<lparr>dl_read = True, dl_lands = True, dl_acked = True\<rparr>,
     de_backfill = (\<lambda>_. False), de_list_root = (\<lambda>_. Some []), de_rm_fails = (\<lambda>_. False)\<rparr>"

definition demo_config :: Config where
  "demo_config = \<lparr>cf_App = ''shop'', cf_Domain = ''shop.example.com'', cf_Image = ''shop:v2'', cf_Version = ''v2'',
     cf_EnvFiles = [], cf_EnvProvenance = [], cf_Env = [], cf_Volumes = [], cf_VolumeOwnership = [], cf_Cmd = [],
     cf_Processes = [], cf_NoHealthcheck = [], cf_KeepVersions = None, cf_Ingress = ''external'', cf_Bind = [],
     cf_Runtime = [], cf_SecurityOpt = [], cf_Memory = [], cf_CPU = [], cf_ContainerPort = 0, cf_Publish = [],
     cf_StopTimeout = 0, cf_DrainSeconds = 0, cf_Replicas = 0,
     cf_Health = \<lparr>hc_Mode = HealthModeTCP, hc_Path = [], hc_Timeout = 2, hc_Interval = 1\<rparr>,
     cf_PreDeploy = [], cf_PostDeploy = [], cf_AssetPath = [], cf_TLS = no_tls, cf_CaddyExtra = [], cf_Cache = [],
     cf_Firewall = \<lparr>fw_AllowIPs = [], fw_DenyIPs = [], fw_BlockUserAgents = [], fw_MaxBodySize = []\<rparr>,
     cf_Access = no_access, cf_ManifestSHA256 = [], cf_AppliedManifest = [], cf_SourceRevision = [],
     cf_ConfigCommit = [], cf_TriggerOperationKey = [], cf_ExecutionBindingDigest = [], cf_Provenance = None\<rparr>"

definition demo_old :: Container where
  "demo_old = demo_container ''0a'' ''v1'' ''4''"

definition demo_recorded :: AppState where
  "demo_recorded = zero_state\<lparr>SchemaVersion := SchemaVersionV2, Domain := ''shop.example.com'', CurrentHash := ''v1'',
     CurrentPort := 8080, CurrentPorts := [8080], OperationID := ''op4'', Generation := 4\<rparr>"

definition demo_lock :: Lock where
  "demo_lock = \<lparr>lk_app = ''shop'', lk_owner = ''a1'', lk_tookOver = False, lk_lost = False\<rparr>"

definition demo_files :: app_files where
  "demo_files = \<lparr>af_snapshots = (\<lambda>_. None), af_receipts = (\<lambda>_. None), af_records = (\<lambda>_. None), af_debt = None,
     af_notice = None, af_attempts = [], af_env_files = [], af_log = []\<rparr>"

definition demo_target :: target where
  "demo_target =
     \<lparr>tg_docker = \<lparr>dir = \<lparr>dh_containers = [demo_old], dh_images = [], dh_lock = Some (Info sample_lock)\<rparr>, script = []\<rparr>,
      tg_app = \<lparr>dir = empty_dir\<lparr>lock_dir := Some (Info sample_lock), state_json := Some (StateDoc demo_recorded),
                  gen_sidecar := Some (GenNum 4)\<rparr>, script = []\<rparr>,
      tg_proxy = \<lparr>dir = demo_proxy, script = []\<rparr>, tg_files = \<lparr>dir = demo_files, script = []\<rparr>\<rparr>"

section \<open>A first deploy succeeds\<close>

text \<open>
  A server on which nothing breaks: every connection delivers and nobody else writes.
\<close>

definition calm :: "target \<Rightarrow> bool" where
  "calm t \<longleftrightarrow> reliable (tg_docker t) \<and> reliable (tg_app t) \<and> reliable (tg_proxy t) \<and> reliable (tg_files t)"

text \<open>An app nobody deployed yet, whose lock the holder has on both sides.\<close>

definition new_app :: "Lock \<Rightarrow> target \<Rightarrow> bool" where
  "new_app l t \<longleftrightarrow> state_json (dir (tg_app t)) = None \<and> legacy_state (dir (tg_app t)) = None
     \<and> config_git (dir (tg_app t)) = None \<and> gen_sidecar (dir (tg_app t)) = None
     \<and> names_owner (lk_owner l) (dir (tg_app t)) \<and> host_holds (lk_owner l) (dir (tg_docker t))
     \<and> \<not> lk_lost l \<and> \<not> lk_tookOver l"

text \<open>One web container behind an external proxy, and nothing beside it.\<close>

definition simple_release :: "Config \<Rightarrow> bool" where
  "simple_release cfg \<longleftrightarrow> validate cfg = None \<and> cf_Ingress cfg = ''external'' \<and> cf_Publish cfg = []
     \<and> replicas_of cfg = 1 \<and> cf_Processes cfg = [] \<and> cf_PreDeploy cfg = [] \<and> cf_AssetPath cfg = []
     \<and> cf_VolumeOwnership cfg = [] \<and> cf_ConfigCommit cfg = [] \<and> cf_AppliedManifest cfg = []"

text \<open>The daemon runs the container, a port is free and can be bound, and the container answers on it.\<close>

definition runs :: "deploy_env \<Rightarrow> Config \<Rightarrow> docker_host \<Rightarrow> int \<Rightarrow> bool" where
  "runs env cfg d port \<longleftrightarrow>
     (let n = ContainerName (cf_App cfg) ''web'' (cf_Version cfg)
      in fresh_ids (de_docker env) \<and> \<not> dk_refuses (de_docker env) (OpRun n) d \<and> dk_starts (de_docker env) n d
         \<and> list_all (\<lambda>c. \<not> refers n c) (dh_containers d)
         \<and> FindAvailablePortExcluding [] (de_ss env 0) = Inr port
         \<and> publishBinding (if cf_Bind cfg = [] then ''127.0.0.1'' else cf_Bind cfg) port (containerPort cfg) \<noteq> None
         \<and> healthCheck (cf_Health cfg) (cf_Bind cfg) port (de_probe env 0))"

lemma seq_Inr: "f t = (Inr x, t1) \<Longrightarrow> seq f g t = g x t1"
  by (simp add: seq_def)

lemma calm_simps [simp]:
  assumes "calm t"
  shows "on_docker (run_read f) t = (Inr (f (dir (tg_docker t))), t)"
    "on_app (run_read g) t = (Inr (g (dir (tg_app t))), t)"
    "on_proxy (run_read h) t = (Inr (h (dir (tg_proxy t))), t)"
    "on_files (run_read k) t = (Inr (k (dir (tg_files t))), t)"
  using assms
  by (simp_all add: calm_def on_docker_def on_app_def on_proxy_def on_files_def)

lemma reliable_ReadRemoteFile: "reliable w \<Longrightarrow> ReadRemoteFile f w = (Inr (f (dir w)), w)"
  by (simp add: ReadRemoteFile_def)

lemma reliable_read_missing:
  "reliable w \<Longrightarrow> state_json (dir w) = None \<Longrightarrow> legacy_state (dir w) = None
     \<Longrightarrow> ReadIncludingTombstone G w = (Inr None, w)"
  by (simp add: ReadIncludingTombstone_def ReadState_def reliable_ReadRemoteFile)

lemma on_app_same: "g (tg_app t) = (r, tg_app t) \<Longrightarrow> on_app g t = (r, t)"
  by (simp add: on_app_def)

lemma new_app_admit:
  assumes "calm t" and "new_app l t" and "cf_ConfigCommit cfg = []"
  shows "admitConfigHome env cfg lk t = (Inr (), t)"
proof -
  have "CheckGate (de_lib env) (cf_App cfg) now a b c lk (tg_app t)
      = (Inr \<lparr>gs_Server = False, gs_Head = []\<rparr>, tg_app t)" for now a b c
    using assms
    by (simp add: CheckGate_def Head_def calm_def new_app_def reliable_ReadRemoteFile reliable_read_missing)
  then show ?thesis
    using assms(3) by (simp add: admitConfigHome_def seq_def failing_def on_app_same yield_def)
qed

lemma calm_read_current: "calm t \<Longrightarrow> new_app l t \<Longrightarrow> read_current env t = (Inr None, t)"
  by (simp add: read_current_def failing_def on_app_same reliable_read_missing calm_def new_app_def)

lemma find_append_None: "find P xs = None \<Longrightarrow> find P (xs @ ys) = find P ys"
  by (induction xs) (auto split: if_splits)

text \<open>Only the file part may have changed.\<close>

definition files_only :: "target \<Rightarrow> target \<Rightarrow> bool" where
  "files_only t t' \<longleftrightarrow> calm t' \<and> tg_docker t' = tg_docker t \<and> tg_app t' = tg_app t \<and> tg_proxy t' = tg_proxy t"

lemma files_only_cmd: "calm t \<Longrightarrow> files_only t (snd (on_files (run_cmd c) t))"
  by (simp add: files_only_def calm_def run_cmd_reliable del: run_reliable)

lemma simple_not_recreated: "simple_release cfg \<Longrightarrow> \<not> recreateWeb cfg \<and> \<not> usesCaddy cfg \<and> \<not> ingressHost cfg"
  by (simp add: simple_release_def recreateWeb_def usesCaddy_def ingressHost_def)

lemma same_version_None [simp]: "same_version cfg None = False"
  by (simp add: same_version_def)

lemma generation_of_None [simp]: "generation_of None = 0"
  by (simp add: generation_of_def)

lemma simple_plan:
  assumes t: "calm t" "new_app l t" and cfg: "simple_release cfg" and "runs env cfg d port"
  shows "\<exists>p t1. prepare_plan env cfg (Some l) att t = (Inr p, t1) \<and> files_only t t1
    \<and> dp_current p = None \<and> dp_ports p = [port] \<and> dp_displaced p = [] \<and> dp_image p \<noteq> []"
proof -
  note not = simple_not_recreated [OF cfg]
  have "\<exists>img. on_docker (ResolveImageID env (cf_Image cfg)) t = (img, t) \<and> (\<forall>i. img = Some i \<longrightarrow> i \<noteq> [])"
    using t(1) by (auto simp: ResolveImageID_def on_docker_def calm_def sha256_id_def split: option.split)
  then obtain img where img: "on_docker (ResolveImageID env (cf_Image cfg)) t = (img, t)" "\<And>i. img = Some i \<Longrightarrow> i \<noteq> []"
    by blast
  have some: "(case img of Some i \<Rightarrow> i | None \<Rightarrow> cf_Image cfg) \<noteq> []"
    using img(2) cfg by (auto simp: simple_release_def validate_def split: option.split if_splits)
  obtain block where route: "resolve_route env cfg t = (Inr ([], block), t)"
    using not t(1)
    by (simp add: resolve_route_def on_proxy_def resolveStaleRoute_def ReadManagedBlock_def calm_def Let_def
        split_beta split: option.split)
  obtain t1 where debt: "repair_debt env cfg t = (Inr (), t1)" and t1: "files_only t t1"
    using files_only_cmd [OF t(1)] by (simp add: repair_debt_def quietly_def)
  have calm1: "calm t1" using t1 by (simp add: files_only_def)
  have take: "reconcile_takeover env cfg (Some l) None t1 = (Inr (), t1)"
    using t(2) by (simp add: reconcile_takeover_def new_app_def)
  have ports: "web_ports env cfg t1 = (Inr [port], t1)"
    using assms(4) not cfg by (simp add: web_ports_def runs_def Let_def simple_release_def)
  have bridge: "bridge_assets env cfg att i t1 = (Inr (cf_Volumes cfg), t1)" for i
    using cfg by (simp add: bridge_assets_def simple_release_def yield_def)
  have vols: "provision_volumes env g (sort (map fst (cf_VolumeOwnership cfg))) t = (Inr (), t)" for g
    using cfg by (simp add: simple_release_def yield_def)
  have aside: "step_aside env cfg (Some l) False t1 = (Inr (), t1)"
    by (simp add: step_aside_def yield_def)
  have snap: "snapshot_predecessors env cfg att None False t1 = (None, t1)"
    by (simp add: snapshot_predecessors_def)
  have disp: "displace_web env cfg (Some l) t1 = (Inr [], t1)"
    using not by (simp add: displace_web_def yield_def)
  have admit: "admitConfigHome env cfg (Some l) t = (Inr (), t)"
    using new_app_admit [OF t] cfg by (simp add: simple_release_def)
  show ?thesis
    using t1 some
    by (simp add: prepare_plan_def img(1) seq_def admit calm_read_current [OF t] vols route debt take ports bridge
        aside snap disp yield_def Let_def)
qed

text \<open>The candidate is created and started, and docker finds it running.\<close>

lemma simple_create:
  assumes "calm t" and "new_app l t" and "simple_release cfg"
    and "runs env cfg (dir (tg_docker t)) port" and "img \<noteq> []"
  shows "\<exists>cid w c. RunGuarded (de_docker env) (web_run_config cfg nx img vols (hd (web_names cfg)) port) (Some (lk_owner l)) (tg_docker t)
      = (Inr cid, w) \<and> reliable w \<and> find (refers (hd (web_names cfg))) (dh_containers (dir w)) = Some c \<and> running c"
proof -
  let ?n = "ContainerName (cf_App cfg) ''web'' (cf_Version cfg)" and ?dk = "de_docker env" and ?d = "dir (tg_docker t)"
  let ?rc = "web_run_config cfg nx img vols ?n port"
  have n: "hd (web_names cfg) = ?n"
    using assms(3) by (simp add: web_names_def simple_release_def ReplicaContainerName_def)
  have run: "run_name ?rc = ?n" using run_name_web [of cfg nx img vols ?n port] by simp
  let ?c = "new_container ?dk ?n img (run_labels ?rc) ?d"
  have valid: "validate cfg = None" using assms(3) by (simp add: simple_release_def)
  have names: "cf_App cfg \<noteq> []" "cf_Version cfg \<noteq> []"
    using valid by (auto simp: validate_def ValidateName_def ValidateIdentifier_def validVersion_def split: if_splits)
  have free: "\<not> list_ex (\<lambda>c. ct_Name c = ?n) (dh_containers ?d)"
    using assms(4) by (auto simp: runs_def Let_def list_all_iff list_ex_iff refers_def)
  have bind: "publishBinding (if cf_Bind cfg = [] then ''127.0.0.1'' else cf_Bind cfg) port (containerPort cfg) \<noteq> None"
    and starts: "\<not> dk_refuses ?dk (OpRun ?n) ?d" "dk_starts ?dk ?n ?d"
    and fresh: "fresh_ids ?dk" and unref: "list_all (\<lambda>c. \<not> refers ?n c) (dh_containers ?d)"
    using assms(4) by (simp_all add: runs_def Let_def)
  have host: "web_bind_host cfg = cf_Bind cfg" using simple_not_recreated [OF assms(3)] by (simp add: web_bind_host_def)
  have port80: "containerPort cfg \<noteq> 0"
    using containerPort_pos [OF valid] by simp
  let ?w = "(tg_docker t)\<lparr>dir := start_effect (ct_ID ?c) (create_effect ?c ?d)\<rparr>"
  have job: "run_job (guarded_create (Some (lk_owner l)) (docker_create ?dk ?n img (run_labels ?rc))) (tg_docker t) = (Inr (ct_ID ?c), ?w)"
    using assms(1,2) free starts
    by (simp add: run_job_def calm_def reliable_def next_env_def guarded_create_def docker_create_def new_app_def Let_def)
  have fields: "rn_App ?rc = cf_App cfg" "rn_Process ?rc = ''web''" "rn_Version ?rc = cf_Version cfg"
      "rn_Image ?rc = img" "rn_Port ?rc = port" "rn_BindHost ?rc = cf_Bind cfg" "rn_ContainerPort ?rc = containerPort cfg"
    by (simp_all add: web_run_config_def host)
  have rg: "RunGuarded ?dk ?rc (Some (lk_owner l)) (tg_docker t) = (Inr (ct_ID ?c), ?w)"
    using names assms(5) bind job port80
    unfolding RunGuarded_def Let_def run fields by (auto simp: run_sent_def)
  have other: "find (refers ?n) (map (\<lambda>b. if refers i b then b\<lparr>ct_State := s\<rparr> else b) bs) = None" if "list_all (\<lambda>c. \<not> refers ?n c) bs" for i s bs
    using that by (auto simp: find_None_iff list_all_iff refers_def)
  have found: "find (refers ?n) (dh_containers (dir ?w)) = Some (?c\<lparr>ct_State := ''running''\<rparr>)"
    using other [OF unref, of "ct_ID ?c" "''running''"]
    by (simp add: start_effect_def create_effect_def find_append_None) (simp add: refers_def new_container_def)
  show ?thesis
    unfolding n using rg found assms(1) by (auto simp: running_def calm_def reliable_def)
qed

lemma files_only_trans: "files_only t t1 \<Longrightarrow> files_only t1 t2 \<Longrightarrow> files_only t t2"
  by (simp add: files_only_def)

lemma write_readiness_only: "calm t \<Longrightarrow> files_only t (write_readiness env cfg att s ports t)"
  by (simp add: write_readiness_def Let_def split_beta files_only_cmd)

text \<open>The candidates pass, and only the containers and the receipts have changed.\<close>

lemma simple_candidates:
  assumes t: "calm t" "new_app l t" and cfg: "simple_release cfg"
    and runs: "runs env cfg (dir (tg_docker t)) port" and "img \<noteq> []"
  shows "\<exists>s t1. prepare_candidates env cfg (Some l) att nx img vols [port] t = (Inr s, t1) \<and> calm t1
    \<and> tg_app t1 = tg_app t"
proof -
  obtain cid w c where run: "RunGuarded (de_docker env) (web_run_config cfg nx img vols (hd (web_names cfg)) port) (Some (lk_owner l)) (tg_docker t) = (Inr cid, w)"
    and w: "reliable w" and c: "find (refers (hd (web_names cfg))) (dh_containers (dir w)) = Some c" "running c"
    using simple_create [OF assms, of nx vols] by blast
  let ?n = "hd (web_names cfg)"
  let ?t1 = "t\<lparr>tg_docker := w\<rparr>"
  have names: "web_names cfg = [?n]"
    using cfg by (simp add: web_names_def simple_release_def)
  have calm1: "calm ?t1" using t(1) w by (simp add: calm_def)
  have start: "on_docker (start_web env cfg nx img vols (Some (lk_owner l)) (zip (web_names cfg) [port]) []) t = (Inr [(?n, cid)], ?t1)"
    by (subst names) (simp add: on_docker_def run)
  have up: "on_docker (all_running (web_names cfg)) ?t1 = (Inr (), ?t1)"
    using w c by (subst names) (simp add: on_docker_def inspect_def running_def)
  have hook: "pre_deploy_hook env cfg ?n ?t1 = (Inr (), ?t1)"
    using cfg by (simp add: pre_deploy_hook_def simple_release_def yield_def)
  have healthy: "healthCheck (cf_Health cfg) (web_bind_host cfg) port (de_probe env 0)"
    using runs simple_not_recreated [OF cfg] by (simp add: runs_def Let_def web_bind_host_def)
  have workers: "filter (\<lambda>p. p \<noteq> ''web'') (sortedProcessNames (processes_of cfg)) = []"
    using cfg by (simp add: sortedProcessNames_def processes_of_def simple_release_def)
  let ?t2 = "write_readiness env cfg att [(?n, cid)] [port] ?t1"
  have "prepare_candidates env cfg (Some l) att nx img vols [port] t = (Inr [(?n, cid)], ?t2)"
    using workers
    by (simp add: prepare_candidates_def seq_def start GuardPrefix_def failing_def up hook healthy)
       (simp add: on_docker_def)
  then show ?thesis
    using write_readiness_only [OF calm1] by (auto simp: files_only_def)
qed

text \<open>The commit of a first state goes through.\<close>

lemma simple_prepareState:
  assumes "simple_release cfg"
  shows "\<exists>s. prepareState G now opid (newState env cfg None ports digest) = Inr s"
  using assms
  by (simp add: prepareState_def newState_def NewAppliedState_def zero_state_def Let_def simple_release_def
      SchemaVersionV2_def SchemaVersionV3_def validateDigests_def validateManifestDigest_def validateReleaseDigest_def
      split: sum.split)

lemma reliable_commit:
  assumes w: "reliable w" and owner: "names_owner (lk_owner l) (dir w)" and "gen_sidecar (dir w) = None" and "lk_app l = app"
    and "prepareState G now opid s0 = Inr s" and "tmp \<noteq> tmp2"
  shows "fst (writeFenced G app now opid tmp tmp2 s0 (Some l) ex w) = Inr ()"
proof -
  let ?d2 = "stage tmp2 (StagedGen (Generation s)) (stage tmp (StagedState (marshal_state G s)) (dir w))"
  have d2: "names_owner (lk_owner l) ?d2" "gen_sidecar ?d2 = None"
      "staged ?d2 tmp = Some (StagedState (marshal_state G s))" "staged ?d2 tmp2 = Some (StagedGen (Generation s))"
    using assms(2,3,6) names_owner_visible [of ?d2 "dir w"] by (simp_all add: stage_def visible_def)
  have w2: "reliable (w\<lparr>dir := d\<rparr>)" for d using w by (simp add: reliable_def)
  have "guarded_cmd (lk_owner l) (gen_cas ex (mv_commit tmp tmp2)) ?d2
      = Inr [\<lambda>d. d\<lparr>state_json := Some (StateDoc (marshal_state G s)), staged := (staged d)(tmp := None)\<rparr>,
             \<lambda>d. d\<lparr>gen_sidecar := Some (GenNum (Generation s)), staged := (staged d)(tmp2 := None)\<rparr>]"
    using d2 by (simp add: guarded_cmd_def gen_cas_def mv_commit_def split: option.split)
  then show ?thesis
    using w assms(4,5) by (simp add: writeFenced_def upload_def Guarded_def w2 run_reliable(1) [OF w2])
qed

lemma first_deploy:
  assumes t: "calm t" "new_app l t" and cfg: "simple_release cfg" and runs: "runs env cfg (dir (tg_docker t)) port"
    and "lk_app l = cf_App cfg" and "de_tmp env \<noteq> de_tmp2 env"
  shows "fst (DeployFenced env cfg (Some l) t) = Inr ()"
proof -
  let ?att = "\<lparr>at_App = cf_App cfg, at_Hash = cf_Version cfg, at_ID = de_attempt env\<rparr>"
  obtain p t1 where plan: "prepare_plan env cfg (Some l) ?att t = (Inr p, t1)" and t1: "files_only t t1"
    and p: "dp_current p = None" "dp_ports p = [port]" "dp_displaced p = []" "dp_image p \<noteq> []"
    using simple_plan [OF t cfg runs] by blast
  have t1': "calm t1" "new_app l t1" "tg_docker t1 = tg_docker t" "tg_app t1 = tg_app t"
    using t t1 by (simp_all add: files_only_def new_app_def)
  obtain s t2 where cands: "prepare_candidates env cfg (Some l) ?att 1 (dp_image p) (dp_volumes p) [port] t1 = (Inr s, t2)"
    and t2: "calm t2" "tg_app t2 = tg_app t1"
    using simple_candidates [OF t1'(1,2) cfg _ p(4)] runs t1'(3) by metis
  have switch: "switch_route env cfg (Some l) 0 1 (dp_resolved p) t2 = (Inr (dp_resolved p), t2)"
    using simple_not_recreated [OF cfg] by (simp add: switch_route_def yield_def)
  obtain dg t3 where dg: "deployed_digest env cfg (snd (post_deploy_hook env cfg t2)) = (dg, t3)" by (rule prod.exhaust)
  have t3: "tg_app t3 = tg_app t"
    using digest_app [of env cfg "snd (post_deploy_hook env cfg t2)"] t2(2) t1'(4) by (simp add: dg)
  obtain st where st: "prepareState (de_lib env) (de_now env) (de_opid env) (newState env cfg None [port] dg) = Inr st"
    using simple_prepareState [OF cfg] by blast
  have "fst (commit_state env cfg (Some l) None (newState env cfg None [port] dg) t3) = Inr ()"
    using reliable_commit [OF _ _ _ assms(5) st assms(6)] t by (simp add: commit_state_def t3 calm_def new_app_def)
  then have "fst (finish_deploy env cfg (Some l) ?att p s t2) = Inr ()"
    by (simp add: finish_deploy_def Let_def p switch dg split_beta split: sum.split)
  then show ?thesis
    using cfg by (simp add: DeployFenced_def deployFenced_def Let_def simple_release_def plan p cands)
qed

text \<open>
  C39. A first deploy succeeds.  On a server where nothing breaks, for an app nobody deployed yet
  whose lock the holder has: the deploy of one web container behind an external proxy succeeds
  when the daemon runs the container, a port is free and can be bound, and the container answers
  its health check there.
\<close>

theorem first_deploy_succeeds:
  assumes "calm t" and "new_app l t" and "simple_release cfg" and "runs env cfg (dir (tg_docker t)) port"
    and "lk_app l = cf_App cfg" and "de_tmp env \<noteq> de_tmp2 env"
  shows "fst (DeployFenced env cfg (Some l) t) = Inr ()"
  using assms by (rule first_deploy)

section \<open>Witnesses\<close>

definition demo_first :: target where
  "demo_first = demo_target\<lparr>tg_app := \<lparr>dir = empty_dir\<lparr>lock_dir := Some (Info sample_lock)\<rparr>, script = []\<rparr>\<rparr>"

lemma demo_simple: "simple_release demo_config"
  by code_simp

lemma demo_runs: "runs (demo_deploy True) demo_config (dir (tg_docker demo_first)) 49152"
proof -
  have "fresh_ids (de_docker (demo_deploy True))" using fresh_demo by (simp add: demo_deploy_def)
  moreover have "\<not> dk_refuses (de_docker (demo_deploy True)) op d" "dk_starts (de_docker (demo_deploy True)) n d" for op n d
    by (simp_all add: demo_deploy_def demo_daemon_def)
  moreover have "list_all (\<lambda>c. \<not> refers (ContainerName (cf_App demo_config) ''web'' (cf_Version demo_config)) c)
      (dh_containers (dir (tg_docker demo_first)))"
    by code_simp
  moreover have "FindAvailablePortExcluding [] (de_ss (demo_deploy True) 0) = Inr 49152"
    by code_simp
  moreover have "parseIP (trim_suffix '']'' (trim_prefix ''['' ''127.0.0.1'')) = True" by code_simp
  then have "publishBinding (if cf_Bind demo_config = [] then ''127.0.0.1'' else cf_Bind demo_config) 49152
      (containerPort demo_config) \<noteq> None"
    by (simp add: publishBinding_def Let_def demo_config_def containerPort_def)
  moreover have "healthCheck (cf_Health demo_config) (cf_Bind demo_config) 49152 (de_probe (demo_deploy True) 0)"
    by code_simp
  ultimately show ?thesis by (simp add: runs_def Let_def)
qed

lemma demo_calm: "calm demo_first" "new_app demo_lock demo_first"
  by (simp add: calm_def reliable_def demo_first_def demo_target_def) code_simp

lemma demo_lock_fits: "lk_app demo_lock = cf_App demo_config" "de_tmp (demo_deploy True) \<noteq> de_tmp2 (demo_deploy True)"
  by code_simp+

theorem first_deploy_succeeds_witness:
  "fst (DeployFenced (demo_deploy True) demo_config (Some demo_lock) demo_first) = Inr ()"
  by (rule first_deploy_succeeds [OF demo_calm demo_simple demo_runs demo_lock_fits])


text \<open>A deploy of an app that is served, whose container never answers, and one without the lock.\<close>

lemma demo_spared: "safe (spared demo_old) (tg_docker demo_target)"
  by (simp add: safe_def stable_def demo_target_def spared_def demo_old_def demo_container_def running_def)

lemma demo_closed: "\<not> gate_passed (demo_deploy False) demo_config"
proof -
  have "took (demo_attempt False) = 1" by code_simp
  have "\<not> healthCheck (cf_Health demo_config) (web_bind_host demo_config) port (de_probe (demo_deploy False) 0)" for port
  proof -
    have "\<not> probeOnce cfg host port (demo_attempt False)" if "hc_Mode cfg = HealthModeTCP" for cfg host
      using that by (simp add: probeOnce_def checkTCP_def demo_attempt_def HealthModeTCP_def HealthModeHTTP_def)
    then have "\<not> fst (health_loop cfg host port (\<lambda>_. demo_attempt False) i t)" if "hc_Mode cfg = HealthModeTCP" for cfg host i t
      using that
    proof (induction cfg host port "\<lambda>_::nat. demo_attempt False" i t rule: health_loop.induct)
      case (1 cfg host port i t)
      then show ?case by (subst health_loop.simps) (simp add: Let_def)
    qed
    then show ?thesis
      by (simp add: healthCheck_def demo_deploy_def withDefaults_def demo_config_def HealthModeTCP_def)
  qed
  then show ?thesis
    using replicas_pos [of demo_config] by (auto simp: gate_passed_def replicas_healthy_def)
qed

lemma demo_fails: "\<exists>f t'. DeployFenced (demo_deploy False) demo_config (Some demo_lock) demo_target = (Inl f, t')"
proof -
  obtain r t' where run: "DeployFenced (demo_deploy False) demo_config (Some demo_lock) demo_target = (r, t')"
    by (rule prod.exhaust)
  have "safe (\<lambda>_. True) (tg_proxy demo_target)" by (simp add: safe_def stable_def)
  with deploy_gate [OF this run] demo_closed run show ?thesis by (cases r) auto
qed

theorem failed_deploy_spares_running_witness:
  "safe (spared demo_old) (tg_docker (snd (DeployFenced (demo_deploy False) demo_config (Some demo_lock) demo_target)))"
proof -
  obtain f t' where run: "DeployFenced (demo_deploy False) demo_config (Some demo_lock) demo_target = (Inl f, t')"
    using demo_fails by blast
  have "fresh_ids (de_docker (demo_deploy False))" "ranges (demo_deploy False)"
    using fresh_demo by (simp_all add: demo_deploy_def ranges_def)
  moreover have "\<not> recreateWeb demo_config" "unnamed (demo_deploy False) demo_config demo_old"
    by code_simp+
  ultimately show ?thesis
    using failed_deploy_spares_running [OF _ _ _ _ demo_spared run] run by simp
qed

theorem traffic_waits_for_the_gate_witness:
  "safe (\<lambda>d. px_file d = Some demo_caddyfile)
     (tg_proxy (snd (DeployFenced (demo_deploy False) demo_config (Some demo_lock) demo_target)))"
proof -
  obtain r t' where run: "DeployFenced (demo_deploy False) demo_config (Some demo_lock) demo_target = (r, t')"
    by (rule prod.exhaust)
  have "safe (\<lambda>d. px_file d = Some demo_caddyfile) (tg_proxy demo_target)"
    by (simp add: safe_def stable_def demo_target_def demo_proxy_def)
  from traffic_waits_for_the_gate [OF demo_closed this run] show ?thesis by (simp add: run)
qed

definition other_lock :: Lock where
  "other_lock = \<lparr>lk_app = ''shop'', lk_owner = ''b2'', lk_tookOver = False, lk_lost = False\<rparr>"

theorem fenced_out_deploy_changes_nothing_witness:
  "state_json (dir (tg_app (snd (DeployFenced (demo_deploy True) demo_config (Some other_lock) demo_target))))
     = Some (StateDoc demo_recorded)"
proof -
  let ?P = "\<lambda>d. lock_dir d = Some (Info sample_lock) \<and> state_json d = Some (StateDoc demo_recorded)"
  obtain r t' where run: "DeployFenced (demo_deploy True) demo_config (Some other_lock) demo_target = (r, t')"
    by (rule prod.exhaust)
  have "\<not> names_owner (lk_owner other_lock) (empty_dir\<lparr>lock_dir := Some (Info sample_lock)\<rparr>)" by code_simp
  then have "\<not> names_owner (lk_owner other_lock) d" if "lock_dir d = Some (Info sample_lock)" for d
    using that by (simp add: names_owner_def empty_dir_def)
  then have lost: "lost_to ?P other_lock" by (simp add: lost_to_def)
  have p: "safe ?P (tg_app demo_target)"
    by (simp add: safe_def stable_def demo_target_def)
  have "\<not> host_holds (lk_owner other_lock) (dir (tg_docker demo_target))" by code_simp
  then have d: "safe (\<lambda>d. \<not> host_holds (lk_owner other_lock) d) (tg_docker demo_target)"
    by (simp add: safe_def stable_def demo_target_def)
  have "safe (\<lambda>_. True) (tg_proxy demo_target)" by (simp add: safe_def stable_def)
  from fenced_out_deploy_changes_nothing [OF lost p d this run] show ?thesis by (simp add: run safe_def)
qed

definition demo_caddy_config :: Config where
  "demo_caddy_config = demo_config\<lparr>cf_Ingress := []\<rparr>"


section \<open>Where the failure paths and their reports disagree with the server\<close>

definition demo_att :: Attempt where
  "demo_att = \<lparr>at_App = ''shop'', at_Hash = ''v2'', at_ID = ''00112233aabbccdd''\<rparr>"

text \<open>
  A blue/green deploy displaces nothing, but its failure handler asks the predecessor snapshot what
  was displaced.  A predecessor that a successor retired in the meantime is started again, by a
  holder that has lost the lock, and the handler says it recovered.
\<close>

definition retired_host :: docker_host where
  "retired_host = \<lparr>dh_containers = [halted demo_old], dh_images = [], dh_lock = None\<rparr>"

definition retired_target :: target where
  "retired_target = demo_target
     \<lparr>tg_docker := \<lparr>dir = retired_host, script = []\<rparr>,
      tg_files := \<lparr>dir = demo_files\<lparr>af_snapshots :=
          (\<lambda>p. if p = predecessorSnapshotPath demo_att
               then Some (Doc (snd (persistPredecessorSnapshot demo_att ''v1'' False [demo_old] 3))) else None)\<rparr>, script = []\<rparr>\<rparr>"

lemma retired_calm: "calm retired_target"
  by (simp add: calm_def reliable_def retired_target_def demo_target_def)

lemma retired_restart:
  "\<exists>w. RestartFenced demo_daemon ''shop-web-v1'' 4 None \<lparr>dir = retired_host, script = []\<rparr> = (Inr (), w)
     \<and> list_ex (\<lambda>c. ct_Name c = ''shop-web-v1'' \<and> running c) (dh_containers (dir w))"
proof -
  have "label_generation ''shop-web-v1'' retired_host = 4" by code_simp
  then have pass: "generation_passes (''shop-web-v1'', 4) retired_host" by (simp add: generation_passes_def)
  have found: "find (refers ''shop-web-v1'') (dh_containers retired_host) = Some (halted demo_old)" by code_simp
  have gone: "remove_effect ''shop-web-v1'' retired_host = \<lparr>dh_containers = [], dh_images = [], dh_lock = None\<rparr>" by code_simp
  have w: "reliable \<lparr>dir = d, script = []\<rparr>" for d :: docker_host by (simp add: reliable_def)
  have job: "run_job (docker_create demo_daemon ''shop-web-v1'' img ls) \<lparr>dir = \<lparr>dh_containers = [], dh_images = [], dh_lock = None\<rparr>, script = []\<rparr>
      = (let c = new_container demo_daemon ''shop-web-v1'' img ls \<lparr>dh_containers = [], dh_images = [], dh_lock = None\<rparr>
         in (Inr (ct_ID c), \<lparr>dir = \<lparr>dh_containers = [c\<lparr>ct_State := ''running''\<rparr>], dh_images = [], dh_lock = None\<rparr>, script = []\<rparr>))" for img ls
    by (simp add: run_job_def next_env_def docker_create_def demo_daemon_def create_effect_def start_effect_def refers_def Let_def)
  show ?thesis
    by (simp add: RestartFenced_def run_reliable [OF w] found with_prefix_def generationCheckFragment_def pass
        docker_rm_force_def gone upload_def run_sent_def job Let_def)
       (simp add: demo_daemon_def new_container_def running_def)
qed

lemma stale_holder_restarts_retired_release:
  "(let (failure, t') = restoreDisplacedAndStarted (demo_deploy True) demo_config demo_att 4 5 [] [] LockLost retired_target
    in list_all (\<lambda>c. \<not> running c) (dh_containers (dir (tg_docker retired_target)))
       \<and> failure = Failed LockLost Recovered
       \<and> list_ex (\<lambda>c. ct_Name c = ''shop-web-v1'' \<and> running c) (dh_containers (dir (tg_docker t'))))"
proof -
  obtain w where w: "RestartFenced demo_daemon ''shop-web-v1'' 4 None \<lparr>dir = retired_host, script = []\<rparr> = (Inr (), w)"
      "list_ex (\<lambda>c. ct_Name c = ''shop-web-v1'' \<and> running c) (dh_containers (dir w))"
    using retired_restart by blast
  let ?f = "Some (Doc (snd (persistPredecessorSnapshot demo_att ''v1'' False [demo_old] 3)))"
  have d: "tg_docker retired_target = \<lparr>dir = retired_host, script = []\<rparr>"
    by (simp add: retired_target_def)
  have names: "snapshot_web_names ?f = [''shop-web-v1'']" by code_simp
  have state: "inspect ct_State ''shop-web-v1'' retired_host = Some ''exited''" by code_simp
  have disp: "displacedFromSnapshot demo_att (Inr ?f) (map_of [(''shop-web-v1'', ''exited'')]) = [''shop-web-v1'']" by code_simp
  have stored: "af_snapshots (dir (tg_files retired_target)) (predecessorSnapshotPath demo_att) = ?f"
    by (simp add: retired_target_def)
  have states: "on_docker (inspect_states [''shop-web-v1'']) retired_target = ([(''shop-web-v1'', ''exited'')], retired_target)"
    using retired_calm by (simp add: on_docker_def calm_def d state)
  have dw: "displaced_workload demo_att [] retired_target = ([''shop-web-v1''], retired_target)"
    using disp by (simp add: displaced_workload_def calm_simps(4) [OF retired_calm] stored names states)
  have same: "retired_target\<lparr>tg_docker := \<lparr>dir = retired_host, script = []\<rparr>\<rparr> = retired_target"
    using d by (cases retired_target) simp
  have "list_all (\<lambda>c. \<not> running c) (dh_containers retired_host)" by code_simp
  then show ?thesis
    using w by (simp add: restoreDisplacedAndStarted_def on_docker_def dw d same holds_logDeploy demo_deploy_def Let_def)
qed

text \<open>
  The guard of a same-version redeploy refuses to delete a running \<open>_replaced\<close> container, unless the
  inspection's answer is lost: then the forced removal goes ahead.
\<close>

lemma lost_inspection_deletes_serving_container:
  "(let c = demo_old\<lparr>ct_Name := replaced_name ''shop-web-v1''\<rparr>;
        t = demo_target\<lparr>tg_docker := \<lparr>dir = \<lparr>dh_containers = [c], dh_images = [], dh_lock = None\<rparr>, script = [(id, Lost 0)]\<rparr>\<rparr>
    in running c \<and> dh_containers (dir (tg_docker (snd (rename_current (demo_deploy True) ''shop-web-v1'' t)))) = [])"
  by code_simp

text \<open>A failed same-version redeploy leaves the serving container under the name it stepped aside to.\<close>

lemma failed_redeploy_keeps_replaced_name:
  "(let t = snd (rename_current (demo_deploy True) ''shop-web-v1'' demo_target);
        t' = snd (restoreDisplacedAndStarted (demo_deploy True) demo_config demo_att 4 5 [] [] (Unhealthy 1) t)
    in map ct_Name (dh_containers (dir (tg_docker t'))) = [''shop-web-v1_replaced''])"
  by code_simp

text \<open>
  The abort of a commit says that the uncommitted workload was stopped, whatever docker answered.
\<close>

lemma abort_reports_a_stop_that_failed:
  "(let env = (demo_deploy True)\<lparr>de_docker := demo_daemon\<lparr>dk_refuses := \<lambda>_ _. True\<rparr>\<rparr>;
        (report, t') = abort_blue_green env demo_config (Some demo_recorded) 4 5 [(''shop-web-v1'', ''0a'')] [] demo_target
    in report = PreviousRouteRestored \<and> list_all running (dh_containers (dir (tg_docker t'))))"
proof -
  have "\<not> usesCaddy demo_config" "list_all running (dh_containers (dir (tg_docker demo_target)))" by code_simp+
  moreover have "reliable (tg_docker demo_target)" by (simp add: demo_target_def reliable_def)
  ultimately show ?thesis
    by (simp add: abort_blue_green_def and_docker_def StopGenerationFenced_def with_prefix_def docker_stop_def docker_rm_def
        docker_Remove_def generationCheckFragment_def demo_deploy_def Let_def)
qed

text \<open>
  The debt of a plan that did not match its receipt is gone after the next deploy, which finds the
  record it names and rebuilds nothing.
\<close>

lemma mismatch_debt_is_forgotten:
  "(let l = \<lparr>dl_read = True, dl_lands = True, dl_acked = True\<rparr>;
        f = recordRepairDebt l demo_att ''plan/receipt image digest mismatch'' 9 None
    in f \<noteq> None \<and> repairOutstandingRecordDebt l ''shop'' (\<lambda>_. Inr (Some r)) (\<lambda>_. False) 10 f = None)"
proof -
  have "repairDebtPath ''shop'' \<noteq> None" by code_simp
  then show ?thesis
    by (auto simp: recordRepairDebt_def repairOutstandingRecordDebt_def writeRepairDebt_def clearRepairDebt_def
        ReadRepairDebt_def read_link_def demo_att_def Let_def)
qed

text \<open>A release named like another's replica has that replica's container name.\<close>

lemma container_names_collide:
  "ContainerName app ''web'' (version @ ''-1'') = ReplicaContainerName app ''web'' version 1 2"
proof -
  have "nat_to_string 1 = ''1''" by code_simp
  then show ?thesis by (simp add: ContainerName_def ReplicaContainerName_def)
qed

end
