(* ===== verification/Retention.thy ===== *)
theory Retention
  imports Prelude "HOL-Library.Word"
begin

text \<open>
  Backup retention: \<open>internal/backup/retention.go\<close> (what a prune keeps and deletes, its safety
  copies, its brake and its clock check) with the parts of \<open>internal/backup/store.go\<close> a prune rests
  on (listing, locations, namespace ownership, the store's clock).  Times are nanoseconds since
  the Unix epoch; the store answers through a record of functions.
\<close>

section \<open>Calendar\<close>

definition hour :: int where "hour = 3600000000000"
definition day :: int where "day = 24 * hour"

text \<open>Day numbers of the proleptic Gregorian calendar, day 0 being 1970-01-01.\<close>

definition leap_year :: "int \<Rightarrow> bool" where
  "leap_year y \<longleftrightarrow> y mod 4 = 0 \<and> (y mod 100 \<noteq> 0 \<or> y mod 400 = 0)"

definition month_starts :: "bool \<Rightarrow> int list" where
  "month_starts leap =
     (if leap then [0, 31, 60, 91, 121, 152, 182, 213, 244, 274, 305, 335]
      else [0, 31, 59, 90, 120, 151, 181, 212, 243, 273, 304, 334])"

definition month_length :: "bool \<Rightarrow> int \<Rightarrow> int" where
  "month_length leap m =
     (if m = 2 then (if leap then 29 else 28) else if m = 4 \<or> m = 6 \<or> m = 9 \<or> m = 11 then 30 else 31)"

definition days_before_year :: "int \<Rightarrow> int" where
  "days_before_year y = 365 * (y - 1) + (y - 1) div 4 - (y - 1) div 100 + (y - 1) div 400 - 719162"

definition day_number :: "int \<Rightarrow> int \<Rightarrow> int \<Rightarrow> int" where
  "day_number y m d = days_before_year y + month_starts (leap_year y) ! nat (m - 1) + (d - 1)"

text \<open>\<open>time.Parse("20060102-150405", s)\<close> of eight digits, a dash and six digits.\<close>

definition parse_stamp :: "string \<Rightarrow> int option" where
  "parse_stamp s =
     (let num = (\<lambda>i n. int (digits_value (take n (drop i s))));
          y = num 0 4; mo = num 4 2; d = num 6 2; h = num 9 2; mi = num 11 2; sec = num 13 2
      in if 1 \<le> mo \<and> mo \<le> 12 \<and> 1 \<le> d \<and> d \<le> month_length (leap_year y) mo \<and> h < 24 \<and> mi < 60 \<and> sec < 60
         then Some (day_number y mo d * day + h * hour + mi * 60000000000 + sec * 1000000000)
         else None)"

text \<open>The zero \<open>time.Time\<close>: 0001-01-01.\<close>

definition zero_time :: int where
  "zero_time = - 719162 * day"

text \<open>
  The period a time falls into, as a number: the day, the ISO week (weeks start on Monday) and the
  calendar month.  The source compares the texts \<open>2006-01-02\<close>, \<open>year-week\<close> and \<open>2006-01\<close>, which
  are equal for exactly the times with equal numbers.
\<close>

definition day_bucket :: "int \<Rightarrow> int" where
  "day_bucket t = t div day"

definition week_bucket :: "int \<Rightarrow> int" where
  "week_bucket t = (t div day + 3) div 7"

definition month_in_year :: "bool \<Rightarrow> int \<Rightarrow> int" where
  "month_in_year leap doy = int (length (takeWhile (\<lambda>s. s \<le> doy) (month_starts leap))) - 1"

definition month_of_four :: "bool \<Rightarrow> int \<Rightarrow> int" where
  "month_of_four last_leap r =
     (let y = min 3 (r div 365) in 12 * y + month_in_year (y = 3 \<and> last_leap) (r - 365 * y))"

definition month_of_century :: "bool \<Rightarrow> int \<Rightarrow> int" where
  "month_of_century last_leap r =
     (let q = r div 1461 in 48 * q + month_of_four (q \<noteq> 24 \<or> last_leap) (r - 1461 * q))"

definition month_of_cycle :: "int \<Rightarrow> int" where
  "month_of_cycle r =
     (let c = min 3 (r div 36524) in 1200 * c + month_of_century (c = 3) (r - 36524 * c))"

definition month_bucket :: "int \<Rightarrow> int" where
  "month_bucket t =
     (let z = t div day + 719162; q = z div 146097 in 4800 * q + month_of_cycle (z - 146097 * q))"

section \<open>Entries\<close>

record RetentionPolicy =
  KeepLast :: int
  KeepDaily :: int
  KeepWeekly :: int
  KeepMonthly :: int
  MaxAgeDays :: int
  IgnoreClock :: bool
  AllowMassDelete :: bool

definition IsZero :: "RetentionPolicy \<Rightarrow> bool" where
  "IsZero p \<longleftrightarrow> KeepLast p \<le> 0 \<and> KeepDaily p \<le> 0 \<and> KeepWeekly p \<le> 0 \<and> KeepMonthly p \<le> 0 \<and> MaxAgeDays p \<le> 0"

record backupEntry =
  be_name :: string
  be_time :: int
  be_bad :: bool

text \<open>The leftmost match of \<open>\d{8}-\d{6}\<close>.\<close>

definition stamp_here :: "string \<Rightarrow> bool" where
  "stamp_here s \<longleftrightarrow> 15 \<le> length s \<and> list_all is_digit (take 8 s) \<and> s ! 8 = CHR ''-''
     \<and> list_all is_digit (take 6 (drop 9 s))"

fun find_stamp :: "string \<Rightarrow> string option" where
  "find_stamp [] = None"
| "find_stamp (c # cs) = (if stamp_here (c # cs) then Some (take 15 (c # cs)) else find_stamp cs)"

definition newBackupEntry :: "string \<Rightarrow> backupEntry option" where
  "newBackupEntry name =
     (case find_stamp name of
        None \<Rightarrow> None
      | Some stamp \<Rightarrow>
          (case parse_stamp stamp of
             None \<Rightarrow> None
           | Some t \<Rightarrow> Some \<lparr>be_name = name, be_time = t, be_bad = False\<rparr>))"

definition parseBackupEntries :: "string \<Rightarrow> backupEntry list" where
  "parseBackupEntries lsOutput =
     concat (map (\<lambda>l. let fs = fields_of l
                      in if fs = [] then []
                         else case newBackupEntry (last fs) of None \<Rightarrow> [] | Some e \<Rightarrow> [e])
       (lines_of (trim_space lsOutput)))"

section \<open>Selection\<close>

text \<open>\<open>sort.SliceStable\<close> with a strict weak order.\<close>

fun insert_by :: "('a \<Rightarrow> 'a \<Rightarrow> bool) \<Rightarrow> 'a \<Rightarrow> 'a list \<Rightarrow> 'a list" where
  "insert_by lt x [] = [x]"
| "insert_by lt x (y # ys) = (if lt y x then y # insert_by lt x ys else x # y # ys)"

definition stable_sort :: "('a \<Rightarrow> 'a \<Rightarrow> bool) \<Rightarrow> 'a list \<Rightarrow> 'a list" where
  "stable_sort lt xs = foldr (insert_by lt) xs []"

definition newer :: "backupEntry \<Rightarrow> backupEntry \<Rightarrow> bool" where
  "newer a b \<longleftrightarrow> be_time a > be_time b \<or> (be_time a = be_time b \<and> be_name a > be_name b)"

text \<open>\<open>now.Add(-time.Duration(MaxAgeDays) * 24 * time.Hour)\<close>: the product is a 64-bit number.\<close>

definition int64 :: "int \<Rightarrow> int" where
  "int64 n = sint (word_of_int n :: 64 word)"

definition age_cutoff :: "int \<Rightarrow> int \<Rightarrow> int" where
  "age_cutoff now days = now + int64 (int64 (- days * 24) * hour)"

text \<open>A rule: how many periods are left, the period of a time, and the last period used.\<close>

type_synonym rule = "int \<times> (int \<Rightarrow> int) \<times> int option"

definition step_rule :: "int \<Rightarrow> rule \<Rightarrow> rule \<times> bool" where
  "step_rule t r =
     (case r of (left, bucket, prev) \<Rightarrow>
        if left \<le> 0 then (r, False)
        else if prev \<noteq> Some (bucket t) then ((left - 1, bucket, Some (bucket t)), True)
        else (r, False))"

fun kept_loop ::
  "RetentionPolicy \<Rightarrow> int \<Rightarrow> nat \<Rightarrow> rule list \<Rightarrow> backupEntry list \<Rightarrow> string list" where
  "kept_loop p cutoff i rules [] = []"
| "kept_loop p cutoff i rules (e # es) =
     (let steps = map (step_rule (be_time e)) rules;
          keep = int i < KeepLast p \<or> (MaxAgeDays p > 0 \<and> be_time e \<ge> cutoff) \<or> (\<exists>s \<in> set steps. snd s)
      in (if keep then [be_name e] else []) @ kept_loop p cutoff (i + 1) (map fst steps) es)"

definition rules_of :: "RetentionPolicy \<Rightarrow> rule list" where
  "rules_of p = [(KeepDaily p, day_bucket, None), (KeepWeekly p, week_bucket, None),
     (KeepMonthly p, month_bucket, None)]"

definition good_entries :: "backupEntry list \<Rightarrow> backupEntry list" where
  "good_entries es = stable_sort newer (filter (\<lambda>e. \<not> be_bad e) es)"

definition selectKept :: "backupEntry list \<Rightarrow> RetentionPolicy \<Rightarrow> int \<Rightarrow> string list" where
  "selectKept entries p now =
     (case good_entries entries of
        [] \<Rightarrow> []
      | g # gs \<Rightarrow> be_name g # kept_loop p (age_cutoff now (MaxAgeDays p)) 0 (rules_of p) (g # gs))"

definition selectForDeletion :: "backupEntry list \<Rightarrow> RetentionPolicy \<Rightarrow> int \<Rightarrow> string list" where
  "selectForDeletion entries p now =
     (if IsZero p then []
      else (let keep = selectKept entries p now
            in if keep = [] then []
               else (let sorted = stable_sort (\<lambda>a b. be_time a > be_time b) entries;
                         newestGood = (case filter (\<lambda>e. \<not> be_bad e) sorted of
                                         [] \<Rightarrow> zero_time | e # _ \<Rightarrow> be_time e)
                     in map be_name
                          (filter (\<lambda>e. be_name e \<notin> set keep \<and> \<not> (be_bad e \<and> \<not> be_time e < newestGood)) sorted))))"

section \<open>The plan of a prune\<close>

record S3Config =
  s3_Bucket :: string
  s3_Prefix :: string
  s3_PreviousPrefixes :: "(string \<times> bool) list"
  s3_isPrevious :: bool
  s3_previousOwned :: bool

record pruneObject =
  po_key :: string
  po_id :: string
  po_entry :: backupEntry
  po_loc :: S3Config

record pruneTree =
  pt_root :: "pruneObject list"
  pt_series :: "(string \<times> pruneObject list) list"
  pt_sidecars :: "pruneObject list"
  pt_safety :: "(string \<times> int) list"

definition safetyWindow :: int where "safetyWindow = 7 * day"
definition safetyKeep :: nat where "safetyKeep = 5"
definition pruneBrakeMin :: nat where "pruneBrakeMin = 3"
definition maxClockSkew :: int where "maxClockSkew = hour"

definition idOf :: "string \<Rightarrow> string" where
  "idOf file = hd (split_on CHR ''.'' file)"

definition futureDated :: "int \<Rightarrow> pruneObject \<Rightarrow> bool" where
  "futureDated now ob \<longleftrightarrow> be_time (po_entry ob) - now > maxClockSkew"

text \<open>The ids of the protected safety copies: the newest \<open>safetyKeep\<close> within the window.\<close>

definition safety_ids :: "pruneTree \<Rightarrow> int \<Rightarrow> string list" where
  "safety_ids tree now =
     take safetyKeep (map fst
       (stable_sort (\<lambda>a b. snd a > snd b \<or> (snd a = snd b \<and> fst a > fst b))
          (filter (\<lambda>s. now - snd s < safetyWindow) (pt_safety tree))))"

text \<open>
  One series: the objects to delete, newest first, and the ids that survive.  An object is looked
  up by its entry's name, as in the source, where a later object of the same name wins.
\<close>

definition pick ::
  "RetentionPolicy \<Rightarrow> int \<Rightarrow> string list \<Rightarrow> (pruneObject \<Rightarrow> bool) \<Rightarrow> pruneObject list
     \<Rightarrow> pruneObject list \<times> string list" where
  "pick p now safe keepToo all =
     (let future = map po_id (filter (futureDated now) all);
          objs = filter (\<lambda>ob. \<not> futureDated now ob) all;
          del = selectForDeletion (map po_entry objs) p now;
          out = concat (map (\<lambda>n. case find (\<lambda>ob. be_name (po_entry ob) = n) (rev objs) of
                                   None \<Rightarrow> []
                                 | Some ob \<Rightarrow> if po_id ob \<in> set safe \<or> keepToo ob then [] else [ob]) del);
          doomed = map (\<lambda>ob. be_name (po_entry ob)) out
      in (out, future @ map po_id (filter (\<lambda>ob. be_name (po_entry ob) \<notin> set doomed) objs)))"

fun pick_series ::
  "RetentionPolicy \<Rightarrow> int \<Rightarrow> string list \<Rightarrow> string list \<Rightarrow> (string \<times> pruneObject list) list
     \<Rightarrow> pruneObject list \<times> string list" where
  "pick_series p now safe rootKept [] = ([], [])"
| "pick_series p now safe rootKept ((db, objs) # rest) =
     (let (out, surv) = pick p now safe (\<lambda>ob. po_id ob \<in> set rootKept) objs;
          (outs, survs) = pick_series p now safe rootKept rest
      in (out @ outs, surv @ survs))"

definition newest_time :: "int \<Rightarrow> pruneObject list \<Rightarrow> int" where
  "newest_time now objs =
     foldl (\<lambda>acc ob. if be_time (po_entry ob) > acc \<and> \<not> futureDated now ob then be_time (po_entry ob) else acc)
       zero_time objs"

definition all_series :: "pruneTree \<Rightarrow> pruneObject list list" where
  "all_series tree = pt_root tree # map snd (pt_series tree)"

definition planPrune :: "pruneTree \<Rightarrow> RetentionPolicy \<Rightarrow> int \<Rightarrow> pruneObject list \<times> pruneObject list" where
  "planPrune tree p now =
     (let safe = safety_ids tree now;
          (out, rootKept) = pick p now safe (\<lambda>_. False) (pt_root tree);
          (outs, survs) = pick_series p now safe rootKept (stable_sort (\<lambda>a b. fst a < fst b) (pt_series tree));
          surviving = rootKept @ survs;
          newest = newest_time now (concat (all_series tree))
      in (out @ outs,
          filter (\<lambda>ob. po_id ob \<notin> set surviving \<and> be_time (po_entry ob) < newest) (pt_sidecars tree)))"

datatype prune_error =
    NoAwsCli
  | SharedNamespace
  | ClockSkew
  | PruneBrake nat nat
  | ListingFailed
  | FutureDated string
  | DeleteFailed string

definition brake_check :: "int \<Rightarrow> string list \<Rightarrow> pruneObject list \<Rightarrow> (prune_error, unit) result" where
  "brake_check now doomed objs =
     (let counted = filter (\<lambda>ob. \<not> be_bad (po_entry ob) \<and> \<not> futureDated now ob) objs;
          good = length counted; gone = length (filter (\<lambda>ob. po_key ob \<in> set doomed) counted)
      in if gone \<ge> pruneBrakeMin \<and> gone * 2 > good then Inl (PruneBrake gone good) else Inr ())"

fun brake_all :: "int \<Rightarrow> string list \<Rightarrow> pruneObject list list \<Rightarrow> (prune_error, unit) result" where
  "brake_all now doomed [] = Inr ()"
| "brake_all now doomed (objs # rest) =
     (case brake_check now doomed objs of Inl e \<Rightarrow> Inl e | Inr _ \<Rightarrow> brake_all now doomed rest)"

definition pruneBrake :: "pruneTree \<Rightarrow> pruneObject list \<Rightarrow> int \<Rightarrow> (prune_error, unit) result" where
  "pruneBrake tree primaries now = brake_all now (map po_key primaries) (all_series tree)"

definition checkPruneClock :: "int \<Rightarrow> int \<Rightarrow> (prune_error, unit) result" where
  "checkPruneClock storeNow now =
     (let d = now - storeNow in if d > maxClockSkew \<or> d < - maxClockSkew then Inl ClockSkew else Inr ())"

section \<open>The store\<close>

record storedKey =
  sk_Key :: string
  sk_Size :: int

text \<open>
  What the store and this server answer while a prune runs.  \<open>s3 ls\<close> of a URL fails, is cut off, or
  exits with a status, its output and whether its error output is blank.
\<close>

datatype ls_answer = LsFailed | LsTruncated | LsExit nat string bool

record store =
  aws_cli :: bool
  fingerprint :: string
  localRecipient :: string
  s3_ls :: "S3Config \<Rightarrow> string \<Rightarrow> ls_answer"
  readOwnerMarker :: "S3Config \<Rightarrow> string \<Rightarrow> string \<times> string"
  write_ok :: "S3Config \<Rightarrow> string \<Rightarrow> bool"
  head_modified :: "S3Config \<Rightarrow> string \<Rightarrow> int option option"
  rm_ok :: "string \<Rightarrow> bool"

definition S3Base :: "S3Config \<Rightarrow> string" where
  "S3Base s3 = (if s3_Prefix s3 = [] then s3_Bucket s3 else s3_Bucket s3 @ ''/'' @ s3_Prefix s3)"

definition locations :: "S3Config \<Rightarrow> S3Config list" where
  "locations s3 = s3 # map (\<lambda>(prefix, owned). s3\<lparr>s3_Prefix := prefix, s3_PreviousPrefixes := [],
     s3_isPrevious := True, s3_previousOwned := owned\<rparr>) (s3_PreviousPrefixes s3)"

definition relToBase :: "S3Config \<Rightarrow> string \<Rightarrow> string option" where
  "relToBase s3 key = (if s3_Prefix s3 = [] then Some key else cut_prefix (s3_Prefix s3 @ ''/'') key)"

text \<open>A recursive listing; a prefix with no objects is an empty result, every other failure an error.\<close>

definition parse_listing :: "string \<Rightarrow> storedKey list" where
  "parse_listing out =
     concat (map (\<lambda>line. let f = fields_of line
                         in if length f < 4 then []
                            else if \<not> snd (atoi (f ! 2)) then []
                            else [\<lparr>sk_Key = f ! 3, sk_Size = fst (atoi (f ! 2))\<rparr>])
       (lines_of out))"

definition listTree :: "store \<Rightarrow> S3Config \<Rightarrow> string \<Rightarrow> storedKey list option" where
  "listTree st s3 rel =
     (case s3_ls st s3 (''s3://'' @ S3Base s3 @ ''/'' @ rel) of
        LsFailed \<Rightarrow> None
      | LsTruncated \<Rightarrow> None
      | LsExit code out quiet_err \<Rightarrow>
          if code \<noteq> 0 then (if code = 1 \<and> trim_space out = [] \<and> quiet_err then Some [] else None)
          else Some (parse_listing out))"

definition ageSuffix :: string where "ageSuffix = ''.age''"

definition artifactFloor :: "string \<Rightarrow> int" where
  "artifactFloor name =
     (let base = trim_suffix ageSuffix name;
          floor = (if suffix ''.pgdump'' base then 200
                   else if suffix ''.sql.gz'' base then 200
                   else if suffix ''.archive.gz'' base then 64
                   else if suffix ''.rdb.gz'' base then 64
                   else if suffix ''.tar.gz'' base then 40 else 0)
      in if base \<noteq> name then floor + 200 else floor)"

definition ownersDir :: string where "ownersDir = ''.owners''"
definition incomingDir :: string where "incomingDir = ''.incoming''"
definition incomingStaleAfter :: int where "incomingStaleAfter = 23 * hour + hour"

text \<open>\<open>path.Base\<close>.\<close>

definition path_base :: "string \<Rightarrow> string" where
  "path_base s =
     (if s = [] then ''.''
      else (let t = trim_right (\<lambda>c. c = CHR ''/'') s in if t = [] then ''/'' else last (split_on CHR ''/'' t)))"

definition is_owner_marker :: "string \<Rightarrow> bool" where
  "is_owner_marker s \<longleftrightarrow> length s = 16 \<and> list_all (\<lambda>c. is_digit c \<or> CHR ''a'' \<le> c \<and> c \<le> CHR ''f'') s"

definition namespaceOwnersPrefix :: "S3Config \<Rightarrow> string \<Rightarrow> string" where
  "namespaceOwnersPrefix s3 app = ''s3://'' @ S3Base s3 @ ''/'' @ app @ ''/'' @ ownersDir @ ''/''"

definition namespaceOwners :: "store \<Rightarrow> S3Config \<Rightarrow> string \<Rightarrow> string list option" where
  "namespaceOwners st s3 app =
     map_option (\<lambda>keys. filter is_owner_marker (map (\<lambda>k. path_base (sk_Key k)) keys))
       (listTree st s3 (app @ ''/'' @ ownersDir @ ''/''))"

text \<open>Proving the namespace is this server's; the marker write is the last step that can refuse.\<close>

definition claimNamespace :: "store \<Rightarrow> S3Config \<Rightarrow> string \<Rightarrow> (prune_error, unit) result" where
  "claimNamespace st s3 app =
     (case namespaceOwners st s3 app of
        None \<Rightarrow> Inl SharedNamespace
      | Some owners \<Rightarrow>
          (let fp = fingerprint st; key = namespaceOwnersPrefix s3 app @ fp; self = localRecipient st;
               write = (if write_ok st s3 key then Inr () else Inl SharedNamespace)
           in if fp = [] then Inl SharedNamespace
              else if filter (\<lambda>ob. ob \<noteq> fp) owners \<noteq> [] then Inl SharedNamespace
              else if fp \<in> set owners then
                (let old = fst (readOwnerMarker st s3 key)
                 in if old \<noteq> [] \<and> self \<noteq> [] \<and> old \<noteq> self then Inl SharedNamespace
                    else if old \<noteq> [] \<or> self = [] then Inr ()
                    else write)
              else write))"

definition storeClock :: "store \<Rightarrow> S3Config \<Rightarrow> int option" where
  "storeClock st s3 =
     (let key = ''s3://'' @ S3Base s3 @ ''/'' @ incomingDir @ ''/.clock-'' @ fingerprint st
      in if \<not> write_ok st s3 key then None
         else case head_modified st s3 key of None \<Rightarrow> None | Some t \<Rightarrow> t)"

section \<open>Loading the tree\<close>

definition safetyDir :: string where "safetyDir = ''safety''"

text \<open>\<open>append(tree.series[db], ob)\<close> and \<open>tree.safety[id] = t\<close>.\<close>

fun add_series :: "string \<Rightarrow> pruneObject \<Rightarrow> (string \<times> pruneObject list) list \<Rightarrow> (string \<times> pruneObject list) list" where
  "add_series db obj [] = [(db, [obj])]"
| "add_series db obj ((d, os) # rest) =
     (if d = db then (d, os @ [obj]) # rest else (d, os) # add_series db obj rest)"

definition set_safety :: "string \<Rightarrow> int \<Rightarrow> (string \<times> int) list \<Rightarrow> (string \<times> int) list" where
  "set_safety ident t xs = filter (\<lambda>x. fst x \<noteq> ident) xs @ [(ident, t)]"

definition object_key :: "S3Config \<Rightarrow> string \<Rightarrow> string" where
  "object_key loc key = ''s3://'' @ s3_Bucket loc @ ''/'' @ key"

definition place_object :: "string \<Rightarrow> S3Config \<Rightarrow> pruneTree \<Rightarrow> storedKey \<Rightarrow> pruneTree" where
  "place_object root loc tree k =
     (case relToBase loc (sk_Key k) of
        None \<Rightarrow> tree
      | Some rel \<Rightarrow>
     (case cut_prefix root rel of
        None \<Rightarrow> tree
      | Some rest \<Rightarrow>
     (let segs = split_on CHR ''/'' rest; file = last segs
      in case newBackupEntry file of
           None \<Rightarrow> tree
         | Some e0 \<Rightarrow>
     (let e = e0\<lparr>be_bad := sk_Size k < artifactFloor file\<rparr>;
          obj = \<lparr>po_key = object_key loc (sk_Key k), po_id = idOf file, po_entry = e, po_loc = loc\<rparr>
      in if length segs = 1 then tree\<lparr>pt_root := pt_root tree @ [obj]\<rparr>
         else if length segs = 2 \<and> segs ! 0 = safetyDir then
           tree\<lparr>pt_safety := set_safety (po_id obj) (be_time e) (pt_safety tree),
             pt_sidecars := pt_sidecars tree @ [obj]\<rparr>
         else if length segs = 3 \<and> segs ! 0 = ''databases'' then
           tree\<lparr>pt_series := add_series (segs ! 1)
             (obj\<lparr>po_entry := e\<lparr>be_name := segs ! 1 @ ''/'' @ file\<rparr>\<rparr>) (pt_series tree)\<rparr>
         else if length segs = 4 \<and> segs ! 0 = ''databases'' \<and> segs ! 2 = ''meta'' then
           tree\<lparr>pt_sidecars := pt_sidecars tree @ [obj]\<rparr>
         else if length segs = 2 \<and> (segs ! 0 = ''globals'' \<or> segs ! 0 = ''meta'') then
           tree\<lparr>pt_sidecars := pt_sidecars tree @ [obj]\<rparr>
         else tree))))"

definition place_sibling :: "string \<Rightarrow> S3Config \<Rightarrow> pruneTree \<Rightarrow> storedKey \<Rightarrow> pruneTree" where
  "place_sibling root loc tree k =
     (case relToBase loc (sk_Key k) of
        None \<Rightarrow> tree
      | Some rel \<Rightarrow>
          if \<not> prefix root rel then tree
          else (let file = last (split_on CHR ''/'' (sk_Key k))
                in case newBackupEntry file of
                     None \<Rightarrow> tree
                   | Some e \<Rightarrow> tree\<lparr>pt_sidecars := pt_sidecars tree @
                       [\<lparr>po_key = object_key loc (sk_Key k), po_id = idOf file, po_entry = e, po_loc = loc\<rparr>]\<rparr>))"

definition load_location :: "store \<Rightarrow> string \<Rightarrow> string \<Rightarrow> pruneTree \<Rightarrow> S3Config \<Rightarrow> pruneTree option" where
  "load_location st app pre tree loc =
     (if s3_isPrevious loc \<and> \<not> s3_previousOwned loc then Some tree
      else case listTree st loc (app @ ''/'' @ pre @ ''/'') of
             None \<Rightarrow> None
           | Some keys \<Rightarrow>
               (let t1 = foldl (place_object (app @ ''/'' @ pre @ ''/'') loc) tree keys
                in if pre = ''volumes'' then
                     (case listTree st loc (app @ ''/teploy/'') of
                        None \<Rightarrow> None
                      | Some sibs \<Rightarrow> Some (foldl (place_sibling (app @ ''/teploy/'') loc) t1 sibs))
                   else Some t1))"

definition empty_tree :: pruneTree where
  "empty_tree = \<lparr>pt_root = [], pt_series = [], pt_sidecars = [], pt_safety = []\<rparr>"

fun load_locations :: "store \<Rightarrow> string \<Rightarrow> string \<Rightarrow> pruneTree \<Rightarrow> S3Config list \<Rightarrow> pruneTree option" where
  "load_locations st app pre tree [] = Some tree"
| "load_locations st app pre tree (loc # locs) =
     (case load_location st app pre tree loc of
        None \<Rightarrow> None
      | Some t \<Rightarrow> load_locations st app pre t locs)"

definition loadPruneTree :: "store \<Rightarrow> string \<Rightarrow> string \<Rightarrow> S3Config \<Rightarrow> pruneTree option" where
  "loadPruneTree st app pre s3 = load_locations st app pre empty_tree (locations s3)"

section \<open>The run\<close>

text \<open>
  The outcome of a prune: the deleted names, the errors, and every key \<open>s3 rm\<close> was issued for.
\<close>

record prune_run =
  pr_deleted :: "string list"
  pr_errors :: "prune_error list"
  pr_rm :: "string list"

text \<open>One key of the pending tree: removed when it is in the tree, dated and old enough.\<close>

definition stale_key :: "string \<Rightarrow> int \<Rightarrow> S3Config \<Rightarrow> storedKey \<Rightarrow> string list" where
  "stale_key app now s3 k =
     (case relToBase s3 (sk_Key k) of
        None \<Rightarrow> []
      | Some rel \<Rightarrow>
          if \<not> prefix (incomingDir @ ''/'' @ app @ ''/'') rel then []
          else (case newBackupEntry (path_base rel) of
                  None \<Rightarrow> []
                | Some e \<Rightarrow> if now - be_time e > incomingStaleAfter then [object_key s3 (sk_Key k)] else []))"

definition CleanStaleIncoming :: "store \<Rightarrow> string \<Rightarrow> int \<Rightarrow> S3Config \<Rightarrow> string list" where
  "CleanStaleIncoming st app now s3 =
     (case namespaceOwners st s3 app of
        None \<Rightarrow> []
      | Some owners \<Rightarrow>
          if fingerprint st = [] \<or> (\<exists>o1 \<in> set owners. o1 \<noteq> fingerprint st) then []
          else (case listTree st s3 (incomingDir @ ''/'' @ app @ ''/'') of
                  None \<Rightarrow> []
                | Some keys \<Rightarrow> concat (map (stale_key app now s3) keys)))"

definition refused_run :: "prune_error \<Rightarrow> string list \<Rightarrow> prune_run" where
  "refused_run e rms = \<lparr>pr_deleted = [], pr_errors = [e], pr_rm = rms\<rparr>"

text \<open>Previous locations the operator vouched for, less those another server has marked.\<close>

fun claim_previous :: "store \<Rightarrow> string \<Rightarrow> S3Config \<Rightarrow> (string \<times> bool) list \<Rightarrow> prune_error list \<times> (string \<times> bool) list" where
  "claim_previous st app s3 [] = ([], [])"
| "claim_previous st app s3 ((pre, owned) # rest) =
     (let (errs, kept) = claim_previous st app s3 rest
      in if \<not> owned then (errs, kept)
         else case claimNamespace st (s3\<lparr>s3_Prefix := pre, s3_PreviousPrefixes := []\<rparr>) app of
                Inl e \<Rightarrow> (e # errs, kept)
              | Inr _ \<Rightarrow> (errs, (pre, owned) # kept))"

definition clock_key :: "store \<Rightarrow> S3Config \<Rightarrow> string" where
  "clock_key st s3 = ''s3://'' @ S3Base s3 @ ''/'' @ incomingDir @ ''/.clock-'' @ fingerprint st"

text \<open>The clock check, with the key it removes again once it was written.\<close>

definition clock_check ::
  "store \<Rightarrow> S3Config \<Rightarrow> RetentionPolicy \<Rightarrow> int \<Rightarrow> (prune_error, unit) result \<times> string list" where
  "clock_check st s3 p now =
     (if IgnoreClock p then (Inr (), [])
      else ((case storeClock st s3 of None \<Rightarrow> Inl ClockSkew | Some t \<Rightarrow> checkPruneClock t now),
            if write_ok st s3 (clock_key st s3) then [clock_key st s3] else []))"

definition PruneBackups ::
  "store \<Rightarrow> string \<Rightarrow> string \<Rightarrow> S3Config \<Rightarrow> RetentionPolicy \<Rightarrow> int \<Rightarrow> int \<Rightarrow> prune_run" where
  "PruneBackups st app pre s3 p now later =
     (if IsZero p then \<lparr>pr_deleted = [], pr_errors = [], pr_rm = []\<rparr>
      else if \<not> aws_cli st then refused_run NoAwsCli []
      else case claimNamespace st s3 app of
             Inl e \<Rightarrow> refused_run e []
           | Inr _ \<Rightarrow>
      (case clock_check st s3 p now of
         (Inl e, rms) \<Rightarrow> refused_run e rms
       | (Inr _, rms) \<Rightarrow>
      (let (claims, kept) = claim_previous st app s3 (s3_PreviousPrefixes s3);
           cfg = s3\<lparr>s3_PreviousPrefixes := kept\<rparr>
       in case loadPruneTree st app pre cfg of
            None \<Rightarrow> refused_run ListingFailed rms
          | Some tree \<Rightarrow>
      (let (primaries, sidecars) = planPrune tree p now
       in case (if AllowMassDelete p then Inr () else pruneBrake tree primaries now) of
            Inl e \<Rightarrow> refused_run e rms
          | Inr _ \<Rightarrow>
              \<lparr>pr_deleted = map (\<lambda>ob. be_name (po_entry ob)) (filter (\<lambda>ob. rm_ok st (po_key ob)) primaries),
                pr_errors = claims
                  @ map (\<lambda>ob. FutureDated (po_key ob)) (filter (futureDated now) (concat (all_series tree)))
                  @ map (\<lambda>ob. DeleteFailed (po_key ob)) (filter (\<lambda>ob. \<not> rm_ok st (po_key ob)) (primaries @ sidecars)),
                pr_rm = rms @ map po_key primaries @ map po_key sidecars
                  @ concat (map (CleanStaleIncoming st app later) (locations cfg))\<rparr>))))"

end
