(* ===== verification/RetentionLaws.thy ===== *)
theory RetentionLaws
  imports Retention
begin

text \<open>
  What a prune guarantees: the sort the selection rests on, the monotonicity of the calendar
  periods, the equivalence of the one-pass selection with the rules as they are documented, what
  is never deleted, and which keys a run may touch.
\<close>

section \<open>Stable sorting by a strict weak order\<close>

locale strict_weak_order =
  fixes lt :: "'a \<Rightarrow> 'a \<Rightarrow> bool"
  assumes asym: "lt a b \<Longrightarrow> \<not> lt b a"
    and negatively_transitive: "\<not> lt b a \<Longrightarrow> \<not> lt c b \<Longrightarrow> \<not> lt c a"
begin

lemma set_insert_by: "set (insert_by lt x xs) = insert x (set xs)"
  by (induction xs) auto

lemma set_stable_sort [simp]: "set (stable_sort lt xs) = set xs"
  by (induction xs) (auto simp: stable_sort_def set_insert_by)

lemma length_stable_sort: "length (stable_sort lt xs) = length xs"
proof -
  have "length (insert_by lt x ys) = Suc (length ys)" for x ys
    by (induction ys) auto
  then show ?thesis
    by (induction xs) (auto simp: stable_sort_def)
qed

lemma sorted_insert_by:
  "sorted_wrt (\<lambda>a b. \<not> lt b a) xs \<Longrightarrow> sorted_wrt (\<lambda>a b. \<not> lt b a) (insert_by lt x xs)"
proof (induction xs)
  case (Cons y ys)
  show ?case
  proof (cases "lt y x")
    case True
    with Cons asym show ?thesis by (auto simp: set_insert_by)
  next
    case False
    with Cons.prems negatively_transitive show ?thesis by auto
  qed
qed simp

lemma sorted_stable_sort: "sorted_wrt (\<lambda>a b. \<not> lt b a) (stable_sort lt xs)"
  by (induction xs) (auto simp: stable_sort_def intro: sorted_insert_by [unfolded stable_sort_def])

lemma stable_sort_head:
  assumes "stable_sort lt xs = y # ys"
  shows "y \<in> set xs" and "x \<in> set xs \<Longrightarrow> \<not> lt x y"
proof -
  show "y \<in> set xs"
    using assms set_stable_sort [of xs] by auto
  show "\<not> lt x y" if "x \<in> set xs"
  proof (cases "x = y")
    case True
    then show ?thesis using asym by blast
  next
    case False
    with that assms set_stable_sort [of xs] have "x \<in> set ys" by auto
    with assms sorted_stable_sort [of xs] show ?thesis by auto
  qed
qed

end

interpretation newest_first: strict_weak_order newer
  by unfold_locales (auto simp: newer_def)

interpretation later_first: strict_weak_order "\<lambda>a b. be_time a > be_time b"
  by unfold_locales auto

interpretation safety_first:
  strict_weak_order "\<lambda>a b. snd a > snd b \<or> (snd a = snd b \<and> fst a > fst (b :: string \<times> int))"
  by unfold_locales auto

interpretation series_by_name: strict_weak_order "\<lambda>a b. fst a < fst (b :: string \<times> pruneObject list)"
  by unfold_locales auto

lemma newer_total: "\<not> newer a b \<Longrightarrow> \<not> newer b a \<Longrightarrow> be_time a = be_time b \<and> be_name a = be_name b"
  by (auto simp: newer_def)

section \<open>Calendar periods are monotone\<close>

lemma lex_mono:
  fixes q1 :: int
  assumes "q1 \<le> q2" and "q1 = q2 \<Longrightarrow> g1 \<le> g2" and "g1 < B" and "0 \<le> g2" and "0 < B"
  shows "B * q1 + g1 \<le> B * q2 + g2"
proof (cases "q1 = q2")
  case True
  with assms show ?thesis by simp
next
  case False
  with assms(1) have "q1 + 1 \<le> q2" by simp
  with assms(5) have "B * (q1 + 1) \<le> B * q2" by (simp add: mult_left_mono)
  with assms(3,4) show ?thesis by (simp add: distrib_left)
qed

lemma takeWhile_length_mono:
  "(\<And>x. P x \<Longrightarrow> Q x) \<Longrightarrow> length (takeWhile P xs) \<le> length (takeWhile Q xs)"
  by (induction xs) auto

lemma month_in_year_bounds: "0 \<le> d \<Longrightarrow> 0 \<le> month_in_year leap d \<and> month_in_year leap d < 12"
proof -
  have "length (takeWhile (\<lambda>s. s \<le> d) (month_starts leap)) \<le> length (month_starts leap)"
    by (rule length_takeWhile_le)
  moreover have "length (month_starts leap) = 12"
    by (simp add: month_starts_def)
  ultimately show "0 \<le> d \<Longrightarrow> 0 \<le> month_in_year leap d \<and> month_in_year leap d < 12"
    by (cases leap) (auto simp: month_in_year_def month_starts_def)
qed

lemma month_in_year_mono: "d \<le> e \<Longrightarrow> month_in_year leap d \<le> month_in_year leap e"
  using takeWhile_length_mono [of "\<lambda>s. s \<le> d" "\<lambda>s. s \<le> e" "month_starts leap"]
  by (simp add: month_in_year_def)

lemma month_of_four_bounds: "0 \<le> r \<Longrightarrow> 0 \<le> month_of_four leap r \<and> month_of_four leap r < 48"
proof -
  let ?y = "min 3 (r div 365)"
  assume "0 \<le> r"
  then have "0 \<le> r - 365 * ?y" "0 \<le> ?y" "?y \<le> 3"
    by (auto simp: min_def)
  with month_in_year_bounds [of "r - 365 * ?y" "?y = 3 \<and> leap"] show ?thesis
    unfolding month_of_four_def Let_def by linarith
qed

lemma month_of_four_mono:
  assumes "0 \<le> r" and "r \<le> r'"
  shows "month_of_four leap r \<le> month_of_four leap r'"
proof -
  let ?y = "min 3 (r div 365)" and ?y' = "min 3 (r' div 365)"
  have y: "?y \<le> ?y'"
    using assms(2) by (smt (verit) zdiv_mono1)
  have "0 \<le> r - 365 * ?y" "0 \<le> r' - 365 * ?y'"
    using assms by (auto simp: min_def)
  with y assms(2) month_in_year_bounds show ?thesis
    unfolding month_of_four_def Let_def by (intro lex_mono) (auto intro: month_in_year_mono)
qed

lemma month_of_century_bounds:
  "0 \<le> r \<Longrightarrow> r < 36525 \<Longrightarrow> 0 \<le> month_of_century leap r \<and> month_of_century leap r < 1200"
proof -
  let ?q = "r div 1461"
  assume r: "0 \<le> r" "r < 36525"
  then have "0 \<le> ?q" "?q \<le> 24" "0 \<le> r - 1461 * ?q"
    by (simp_all add: pos_imp_zdiv_nonneg_iff minus_mult_div_eq_mod)
  with month_of_four_bounds [of "r - 1461 * ?q" "?q \<noteq> 24 \<or> leap"] show ?thesis
    by (simp add: month_of_century_def Let_def)
qed

lemma month_of_century_mono:
  assumes "0 \<le> r" and "r \<le> r'"
  shows "month_of_century leap r \<le> month_of_century leap r'"
proof -
  have "0 \<le> r - 1461 * (r div 1461)" "0 \<le> r' - 1461 * (r' div 1461)"
    by (simp_all add: minus_mult_div_eq_mod)
  with assms month_of_four_bounds show ?thesis
    unfolding month_of_century_def Let_def
    by (intro lex_mono) (auto intro: month_of_four_mono zdiv_mono1)
qed

lemma cycle_rest:
  fixes r :: int
  assumes "0 \<le> r" and "r < 146097"
  shows "0 \<le> r - 36524 * min 3 (r div 36524)" and "r - 36524 * min 3 (r div 36524) < 36525"
    and "0 \<le> min 3 (r div 36524)"
  using assms by (auto simp: min_def)

lemma month_of_cycle_bounds:
  "0 \<le> r \<Longrightarrow> r < 146097 \<Longrightarrow> 0 \<le> month_of_cycle r \<and> month_of_cycle r < 4800"
  using cycle_rest [of r] min.cobounded1 [of 3 "r div 36524"]
    month_of_century_bounds [of "r - 36524 * min 3 (r div 36524)" "min 3 (r div 36524) = 3"]
  unfolding month_of_cycle_def Let_def by linarith

lemma month_of_cycle_mono:
  assumes "0 \<le> r" and "r \<le> r'" and "r' < 146097"
  shows "month_of_cycle r \<le> month_of_cycle r'"
proof -
  have "min 3 (r div 36524) \<le> min 3 (r' div 36524)"
    using assms(2) by (smt (verit) zdiv_mono1)
  then show ?thesis
    unfolding month_of_cycle_def Let_def
  proof (rule lex_mono)
    assume eq: "min 3 (r div 36524) = min 3 (r' div 36524)"
    show "month_of_century (min 3 (r div 36524) = 3) (r - 36524 * min 3 (r div 36524))
        \<le> month_of_century (min 3 (r' div 36524) = 3) (r' - 36524 * min 3 (r' div 36524))"
      unfolding eq [symmetric]
      by (rule month_of_century_mono) (use assms cycle_rest(1) [of r] in linarith)+
  next
    show "month_of_century (min 3 (r div 36524) = 3) (r - 36524 * min 3 (r div 36524)) < 1200"
      using month_of_century_bounds cycle_rest(1,2) [of r] assms by force
    show "0 \<le> month_of_century (min 3 (r' div 36524) = 3) (r' - 36524 * min 3 (r' div 36524))"
      using month_of_century_bounds cycle_rest(1,2) [of r'] assms by force
  qed simp
qed

lemma day_bucket_mono: "t \<le> u \<Longrightarrow> day_bucket t \<le> day_bucket u"
  by (simp add: day_bucket_def day_def hour_def zdiv_mono1)

lemma week_bucket_mono: "t \<le> u \<Longrightarrow> week_bucket t \<le> week_bucket u"
  by (simp add: week_bucket_def day_def hour_def zdiv_mono1)

lemma month_bucket_mono:
  assumes "t \<le> u"
  shows "month_bucket t \<le> month_bucket u"
proof -
  have z: "t div day + 719162 \<le> u div day + 719162"
    using assms by (simp add: day_def hour_def zdiv_mono1)
  have rest: "0 \<le> x - 146097 * (x div 146097) \<and> x - 146097 * (x div 146097) < 146097" for x :: int
    by (simp add: minus_mult_div_eq_mod)
  show ?thesis
    unfolding month_bucket_def Let_def
  proof (rule lex_mono)
    show "(t div day + 719162) div 146097 \<le> (u div day + 719162) div 146097"
      using z by (rule zdiv_mono1) simp
  qed (use z rest month_of_cycle_bounds month_of_cycle_mono in auto)
qed

section \<open>The rules as documented\<close>

fun run_rule :: "rule \<Rightarrow> int list \<Rightarrow> bool list" where
  "run_rule r [] = []"
| "run_rule r (t # ts) = snd (step_rule t r) # run_rule (fst (step_rule t r)) ts"

lemma length_run_rule [simp]: "length (run_rule r ts) = length ts"
  by (induction ts arbitrary: r) auto

lemma run_rule_nth:
  assumes "mono b" and "sorted_wrt (\<ge>) ts" and "\<And>q t. prev = Some q \<Longrightarrow> t \<in> set ts \<Longrightarrow> b t \<le> q"
    and "k < length ts"
  shows "run_rule (n, b, prev) ts ! k \<longleftrightarrow>
     (\<forall>j<k. b (ts ! j) \<noteq> b (ts ! k)) \<and> prev \<noteq> Some (b (ts ! k))
     \<and> int (card (b ` set (take k ts) - set_option prev)) < n"
  using assms(2-4)
proof (induction ts arbitrary: n prev k)
  case (Cons t ts)
  have desc: "t' \<in> set ts \<Longrightarrow> b t' \<le> b t" for t'
    using Cons.prems(1) assms(1) by (auto simp: mono_def)
  have tail: "sorted_wrt (\<ge>) ts" using Cons.prems(1) by simp
  show ?case
  proof (cases k)
    case 0
    then show ?thesis by (auto simp: step_rule_def)
  next
    case (Suc m)
    then have m: "m < length ts" using Cons.prems(3) by simp
    have all_j: "(\<forall>j<k. b ((t # ts) ! j) \<noteq> b ((t # ts) ! k)) \<longleftrightarrow>
        b t \<noteq> b (ts ! m) \<and> (\<forall>j<m. b (ts ! j) \<noteq> b (ts ! m))"
      using Suc by (auto simp: less_Suc_eq_0_disj)
    show ?thesis
    proof (cases "n \<le> 0")
      case True
      then have "\<not> int (card X) < n" for X :: "int set" by (simp add: not_less le_trans)
      with Suc True Cons.IH [OF tail _ m, of prev n] Cons.prems(2) show ?thesis
        by (auto simp: step_rule_def)
    next
      case False
      show ?thesis
      proof (cases "prev = Some (b t)")
        case True
        have "insert (b t) (b ` set (take m ts)) - {b t} = b ` set (take m ts) - {b t}" by auto
        with Suc True False all_j Cons.IH [OF tail _ m, of prev n] Cons.prems(2) show ?thesis
          by (auto simp: step_rule_def)
      next
        case new: False
        have lower: "b t' \<notin> set_option prev" if "t' \<in> set (t # ts)" for t'
          using that new desc Cons.prems(2) [of _ t] by (cases prev) (auto, fastforce)
        have eq: "b ` set (take (Suc m) (t # ts)) - set_option prev = insert (b t) (b ` set (take m ts) - {b t})"
          using lower by (auto dest: in_set_takeD)
        have "int (card (b ` set (take (Suc m) (t # ts)) - set_option prev)) < n
            \<longleftrightarrow> int (card (b ` set (take m ts) - {b t})) < n - 1"
          unfolding eq by (subst card_insert_disjoint) auto
        moreover have "prev \<noteq> Some (b (ts ! m))"
          using lower [of "ts ! m"] m by (cases prev) auto
        ultimately show ?thesis
          using Suc new False all_j Cons.IH [OF tail _ m, of "Some (b t)" "n - 1"] desc
          by (auto simp: step_rule_def)
      qed
    qed
  qed
qed simp

lemma kept_loop_iff:
  "n \<in> set (kept_loop p cutoff i rules es) \<longleftrightarrow>
     (\<exists>k<length es. be_name (es ! k) = n
        \<and> (int (i + k) < KeepLast p \<or> (0 < MaxAgeDays p \<and> cutoff \<le> be_time (es ! k))
           \<or> (\<exists>r \<in> set rules. run_rule r (map be_time es) ! k)))"
proof (induction es arbitrary: i rules)
  case (Cons e es)
  have ex: "(\<exists>k<length (e # es). Q k) \<longleftrightarrow> Q 0 \<or> (\<exists>k<length es. Q (Suc k))" for Q
    by (auto simp: less_Suc_eq_0_disj)
  show ?case
    unfolding ex by (auto simp: Cons.IH Let_def split: if_splits)
qed simp

definition first_of_period :: "(int \<Rightarrow> int) \<Rightarrow> int \<Rightarrow> backupEntry list \<Rightarrow> nat \<Rightarrow> bool" where
  "first_of_period b n good k \<longleftrightarrow>
     (\<forall>j<k. b (be_time (good ! j)) \<noteq> b (be_time (good ! k)))
     \<and> int (card ((\<lambda>e. b (be_time e)) ` set (take k good))) < n"

lemma run_rule_first_of_period:
  assumes "mono b" and "sorted_wrt (\<ge>) (map be_time good)" and "k < length good"
  shows "run_rule (n, b, None) (map be_time good) ! k \<longleftrightarrow> first_of_period b n good k"
  using run_rule_nth [OF assms(1,2), of None k n] assms(3)
  by (auto simp: first_of_period_def take_map image_image)

lemma good_entries_sorted: "sorted_wrt (\<ge>) (map be_time (good_entries es))"
  using newest_first.sorted_stable_sort [of "filter (\<lambda>e. \<not> be_bad e) es"]
  by (simp add: good_entries_def sorted_wrt_map newer_def not_less sorted_wrt_mono_rel [rotated])

text \<open>
  C14. The one-pass selection keeps exactly what the rules say.  Among the good backups, newest
  first, it keeps the newest one, the first \<open>KeepLast\<close>, those within the age window, and for each
  calendar rule the most recent backup of every day, ISO week or month that has one, as long as
  fewer than N such periods are newer; and nothing else.
\<close>

theorem selectKept_iff:
  "n \<in> set (selectKept entries p now) \<longleftrightarrow>
     (let good = good_entries entries
      in \<exists>k<length good. be_name (good ! k) = n
           \<and> (k = 0 \<or> int k < KeepLast p
              \<or> (0 < MaxAgeDays p \<and> age_cutoff now (MaxAgeDays p) \<le> be_time (good ! k))
              \<or> first_of_period day_bucket (KeepDaily p) good k
              \<or> first_of_period week_bucket (KeepWeekly p) good k
              \<or> first_of_period month_bucket (KeepMonthly p) good k))"
proof (cases "good_entries entries")
  case Nil
  then show ?thesis by (simp add: selectKept_def)
next
  case (Cons g gs)
  let ?good = "good_entries entries"
  have "mono day_bucket" "mono week_bucket" "mono month_bucket"
    by (simp_all add: mono_def day_bucket_mono week_bucket_mono month_bucket_mono)
  then have rules: "(\<exists>r \<in> set (rules_of p). run_rule r (map be_time ?good) ! k) \<longleftrightarrow>
      first_of_period day_bucket (KeepDaily p) ?good k \<or> first_of_period week_bucket (KeepWeekly p) ?good k
      \<or> first_of_period month_bucket (KeepMonthly p) ?good k" if "k < length ?good" for k
    using that good_entries_sorted by (simp add: rules_of_def run_rule_first_of_period)
  have "n \<in> set (selectKept entries p now) \<longleftrightarrow> n = be_name (?good ! 0)
      \<or> n \<in> set (kept_loop p (age_cutoff now (MaxAgeDays p)) 0 (rules_of p) ?good)"
    by (simp add: selectKept_def Cons)
  also have "\<dots> \<longleftrightarrow> n = be_name (?good ! 0) \<or> (\<exists>k<length ?good. be_name (?good ! k) = n
      \<and> (int k < KeepLast p \<or> (0 < MaxAgeDays p \<and> age_cutoff now (MaxAgeDays p) \<le> be_time (?good ! k))
         \<or> first_of_period day_bucket (KeepDaily p) ?good k \<or> first_of_period week_bucket (KeepWeekly p) ?good k
         \<or> first_of_period month_bucket (KeepMonthly p) ?good k))"
    unfolding kept_loop_iff using rules by (metis add_0)
  also have "\<dots> \<longleftrightarrow> (\<exists>k<length ?good. be_name (?good ! k) = n
      \<and> (k = 0 \<or> int k < KeepLast p \<or> (0 < MaxAgeDays p \<and> age_cutoff now (MaxAgeDays p) \<le> be_time (?good ! k))
         \<or> first_of_period day_bucket (KeepDaily p) ?good k \<or> first_of_period week_bucket (KeepWeekly p) ?good k
         \<or> first_of_period month_bucket (KeepMonthly p) ?good k))" (is "_ \<longleftrightarrow> ?rhs")
  proof -
    have "0 < length ?good" by (simp add: Cons)
    then show ?thesis by metis
  qed
  finally show ?thesis by (simp only: Let_def)
qed

section \<open>What is never deleted\<close>

lemma set_good_entries [simp]: "set (good_entries es) = {e \<in> set es. \<not> be_bad e}"
  by (simp add: good_entries_def)

lemma selectForDeletion_sound:
  assumes "n \<in> set (selectForDeletion entries p now)"
  shows "n \<in> be_name ` set entries" and "n \<notin> set (selectKept entries p now)"
    and "\<exists>e \<in> set entries. \<not> be_bad e"
proof -
  have ne: "selectKept entries p now \<noteq> []"
    using assms by (auto simp: selectForDeletion_def Let_def split: if_splits)
  from assms show "n \<in> be_name ` set entries" "n \<notin> set (selectKept entries p now)"
    by (auto simp: selectForDeletion_def Let_def split: if_splits)
  from ne have "good_entries entries \<noteq> []"
    by (auto simp: selectKept_def split: list.splits)
  then obtain g where "g \<in> set (good_entries entries)"
    by (cases "good_entries entries") auto
  then show "\<exists>e \<in> set entries. \<not> be_bad e" by auto
qed

lemma newest_good_kept:
  assumes "e \<in> set entries" and "\<not> be_bad e"
  obtains g where "g \<in> set entries" and "\<not> be_bad g" and "be_name g \<in> set (selectKept entries p now)"
    and "\<And>e. e \<in> set entries \<Longrightarrow> \<not> be_bad e \<Longrightarrow> \<not> newer e g"
proof (cases "good_entries entries")
  case Nil
  then have "set (good_entries entries) = {}" by simp
  with assms show thesis by auto
next
  case (Cons g gs)
  note h = newest_first.stable_sort_head [OF Cons [unfolded good_entries_def]]
  show thesis
    by (rule that [of g]) (use h in \<open>auto simp: selectKept_def Cons\<close>)
qed

lemma find_name:
  assumes "find (\<lambda>ob. be_name (po_entry ob) = n) (rev objs) = Some ob"
  shows "ob \<in> set objs" and "be_name (po_entry ob) = n"
  using assms by (auto simp: find_Some_iff in_set_conv_nth [symmetric]) (metis nth_mem set_rev length_rev)

lemma pick_out:
  assumes "ob \<in> set (fst (pick p now safe keepToo all))"
  shows "ob \<in> set all" and "\<not> futureDated now ob" and "po_id ob \<notin> set safe" and "\<not> keepToo ob"
    and "be_name (po_entry ob) \<in>
      set (selectForDeletion (map po_entry (filter (\<lambda>ob. \<not> futureDated now ob) all)) p now)"
proof -
  let ?objs = "filter (\<lambda>ob. \<not> futureDated now ob) all"
  from assms obtain n where n: "n \<in> set (selectForDeletion (map po_entry ?objs) p now)"
    and f: "find (\<lambda>ob. be_name (po_entry ob) = n) (rev ?objs) = Some ob"
    and ok: "po_id ob \<notin> set safe" "\<not> keepToo ob"
    by (fastforce simp: pick_def Let_def split: option.splits if_splits)
  from find_name [OF f] n ok
  show "ob \<in> set all" "\<not> futureDated now ob" "po_id ob \<notin> set safe" "\<not> keepToo ob"
    "be_name (po_entry ob) \<in> set (selectForDeletion (map po_entry ?objs) p now)"
    by auto
qed

lemma pick_surviving:
  assumes "ob \<in> set all"
    and "\<And>ob'. ob' \<in> set (fst (pick p now safe keepToo all)) \<Longrightarrow> be_name (po_entry ob') \<noteq> be_name (po_entry ob)"
  shows "po_id ob \<in> set (snd (pick p now safe keepToo all))"
proof -
  let ?objs = "filter (\<lambda>ob. \<not> futureDated now ob) all"
  let ?doomed = "map (\<lambda>ob. be_name (po_entry ob)) (fst (pick p now safe keepToo all))"
  have "snd (pick p now safe keepToo all) = map po_id (filter (futureDated now) all)
      @ map po_id (filter (\<lambda>ob. be_name (po_entry ob) \<notin> set ?doomed) ?objs)"
    by (simp add: pick_def Let_def)
  moreover have "be_name (po_entry ob) \<notin> set ?doomed"
    using assms(2) by fastforce
  ultimately show ?thesis
    using assms(1) by auto
qed

lemma pick_series_out:
  "ob \<in> set (fst (pick_series p now safe kept series)) \<Longrightarrow>
     \<exists>(db, objs) \<in> set series. ob \<in> set (fst (pick p now safe (\<lambda>ob. po_id ob \<in> set kept) objs))"
proof (induction series)
  case (Cons x series)
  obtain db objs where x: "x = (db, objs)" by fastforce
  let ?keep = "\<lambda>ob. po_id ob \<in> set kept"
  from Cons.prems consider "ob \<in> set (fst (pick p now safe ?keep objs))"
    | "ob \<in> set (fst (pick_series p now safe kept series))"
    by (auto simp: x split: prod.splits)
  then show ?case
    using Cons.IH by cases (auto simp: x)
qed simp

lemma pick_series_surviving:
  "(db, objs) \<in> set series \<Longrightarrow> x \<in> set (snd (pick p now safe (\<lambda>ob. po_id ob \<in> set kept) objs)) \<Longrightarrow>
     x \<in> set (snd (pick_series p now safe kept series))"
  by (induction series) (auto split: prod.splits)

lemma planPrune_primaries:
  assumes "ob \<in> set (fst (planPrune tree p now))"
  obtains objs keepToo where "objs \<in> set (all_series tree)"
    and "ob \<in> set (fst (pick p now (safety_ids tree now) keepToo objs))"
    and "objs \<noteq> pt_root tree \<longrightarrow> keepToo =
      (\<lambda>ob. po_id ob \<in> set (snd (pick p now (safety_ids tree now) (\<lambda>_. False) (pt_root tree))))"
proof -
  let ?safe = "safety_ids tree now"
  let ?root = "pick p now ?safe (\<lambda>_. False) (pt_root tree)"
  let ?sorted = "stable_sort (\<lambda>a b. fst a < fst b) (pt_series tree)"
  from assms consider "ob \<in> set (fst ?root)"
    | "ob \<in> set (fst (pick_series p now ?safe (snd ?root) ?sorted))"
    by (auto simp: planPrune_def Let_def split: prod.splits)
  then show thesis
  proof cases
    case 1
    then show thesis by (rule that [rotated]) (simp_all add: all_series_def)
  next
    case 2
    then obtain db objs where s: "(db, objs) \<in> set ?sorted"
      "ob \<in> set (fst (pick p now ?safe (\<lambda>ob. po_id ob \<in> set (snd ?root)) objs))"
      using pick_series_out [OF 2] by auto
    then have "objs \<in> set (all_series tree)"
      by (force simp: all_series_def)
    with s(2) show thesis by (intro that) auto
  qed
qed

lemma distinct_concat_same:
  "distinct (map f (concat xss)) \<Longrightarrow> xs \<in> set xss \<Longrightarrow> ys \<in> set xss \<Longrightarrow> x \<in> set xs \<Longrightarrow> y \<in> set ys
     \<Longrightarrow> f x = f y \<Longrightarrow> xs = ys"
  by (induction xss) (auto 4 4)

text \<open>
  C15. The newest good backup of every series survives every policy.  When the listing names no key
  twice, each series (the primary one and each database's) that has a good backup not dated in
  the future has one that no good one is newer than, and whose key the plan does not delete.
\<close>

theorem newest_good_survives:
  assumes "distinct (map po_key (concat (all_series tree)))" and "objs \<in> set (all_series tree)"
    and "ob \<in> set objs" and "\<not> be_bad (po_entry ob)" and "\<not> futureDated now ob"
  shows "\<exists>best \<in> set objs. \<not> be_bad (po_entry best) \<and> \<not> futureDated now best
    \<and> (\<forall>ob' \<in> set objs. \<not> be_bad (po_entry ob') \<and> \<not> futureDated now ob' \<longrightarrow> \<not> newer (po_entry ob') (po_entry best))
    \<and> po_key best \<notin> po_key ` set (fst (planPrune tree p now))"
proof -
  let ?es = "map po_entry (filter (\<lambda>ob. \<not> futureDated now ob) objs)"
  have "po_entry ob \<in> set ?es" using assms(3,5) by auto
  then obtain g where g: "g \<in> set ?es" "\<not> be_bad g" "be_name g \<in> set (selectKept ?es p now)"
    "\<And>e. e \<in> set ?es \<Longrightarrow> \<not> be_bad e \<Longrightarrow> \<not> newer e g"
    using newest_good_kept [OF _ assms(4)] by blast
  then obtain best where best: "best \<in> set objs" "\<not> futureDated now best" "po_entry best = g"
    by auto
  have "po_key best \<notin> po_key ` set (fst (planPrune tree p now))"
  proof
    assume "po_key best \<in> po_key ` set (fst (planPrune tree p now))"
    then obtain d where d: "d \<in> set (fst (planPrune tree p now))" "po_key d = po_key best" by auto
    from d(1) obtain objs' keepToo where o': "objs' \<in> set (all_series tree)"
      "d \<in> set (fst (pick p now (safety_ids tree now) keepToo objs'))"
      by (rule planPrune_primaries)
    note d' = pick_out [OF o'(2)]
    have "objs' = objs"
      by (rule distinct_concat_same [OF assms(1) o'(1) assms(2) d'(1) best(1) d(2)])
    moreover have "d = best"
      using assms(1,2) best(1) d(2) d'(1) \<open>objs' = objs\<close>
      by (auto simp: distinct_map distinct_concat_iff inj_on_def)
    ultimately show False
      using selectForDeletion_sound(2) [OF d'(5)] g(3) best(3) by simp
  qed
  with best g show ?thesis by auto
qed

definition demo_loc :: S3Config where
  "demo_loc = \<lparr>s3_Bucket = ''b'', s3_Prefix = [], s3_PreviousPrefixes = [], s3_isPrevious = False,
     s3_previousOwned = False\<rparr>"

definition demo_object :: "string \<Rightarrow> int \<Rightarrow> bool \<Rightarrow> pruneObject" where
  "demo_object ident t bad = \<lparr>po_key = ''s3://b/web/pg/'' @ ident, po_id = ident,
     po_entry = \<lparr>be_name = ident @ ''.pgdump'', be_time = t, be_bad = bad\<rparr>, po_loc = demo_loc\<rparr>"

definition one_policy :: RetentionPolicy where
  "one_policy = \<lparr>KeepLast = 1, KeepDaily = 0, KeepWeekly = 0, KeepMonthly = 0, MaxAgeDays = 1,
     IgnoreClock = False, AllowMassDelete = True\<rparr>"

definition demo_tree :: pruneTree where
  "demo_tree = \<lparr>pt_root = [demo_object ''d1'' (10 * day) False, demo_object ''d2'' (11 * day) False, demo_object ''d3'' (12 * day) True],
     pt_series = [(''shop'', [demo_object ''e1'' (10 * day) False])],
     pt_sidecars = [], pt_safety = []\<rparr>"

theorem newest_good_survives_witness:
  "\<exists>best \<in> set (pt_root demo_tree). \<not> be_bad (po_entry best)
     \<and> po_key best \<notin> po_key ` set (fst (planPrune demo_tree one_policy (13 * day)))"
proof -
  have "distinct (map po_key (concat (all_series demo_tree)))"
    by (simp add: all_series_def demo_tree_def demo_object_def)
  moreover have "pt_root demo_tree \<in> set (all_series demo_tree)"
    by (simp add: all_series_def)
  moreover have "demo_object ''d1'' (10 * day) False \<in> set (pt_root demo_tree)"
    by (simp add: demo_tree_def)
  ultimately show ?thesis
    using newest_good_survives [of demo_tree "pt_root demo_tree" "demo_object ''d1'' (10 * day) False" "13 * day" one_policy]
    by (auto simp: demo_object_def futureDated_def day_def hour_def maxClockSkew_def)
qed

lemma pick_series_in:
  "(db, objs) \<in> set series \<Longrightarrow> ob \<in> set (fst (pick p now safe (\<lambda>ob. po_id ob \<in> set kept) objs)) \<Longrightarrow>
     ob \<in> set (fst (pick_series p now safe kept series))"
  by (induction series) (auto split: prod.splits)

lemma pick_keeps_id:
  assumes "ob \<in> set all" and "distinct (map (\<lambda>ob. be_name (po_entry ob)) all)"
    and "ob \<notin> set (fst (pick p now safe keepToo all))"
  shows "po_id ob \<in> set (snd (pick p now safe keepToo all))"
proof (rule pick_surviving [OF assms(1)])
  fix ob'
  assume o': "ob' \<in> set (fst (pick p now safe keepToo all))"
  then have "ob' \<in> set all" "ob' \<noteq> ob"
    using pick_out(1) assms(3) by blast+
  with assms(1,2) show "be_name (po_entry ob') \<noteq> be_name (po_entry ob)"
    by (auto simp: distinct_map inj_on_def)
qed

text \<open>
  C16. What a plan respects.  It deletes no backup dated in the future and no protected safety
  copy; it deletes a database's copy only when no copy with the same id stays in the primary
  series (one point in time is kept or dropped as a whole); and a sidecar goes only when every
  backup with its id goes too, so that no surviving backup loses its metadata.  The hypothesis is
  that no series lists one name twice.
\<close>

theorem plan_respects_protection:
  assumes "\<forall>objs \<in> set (all_series tree). distinct (map (\<lambda>ob. be_name (po_entry ob)) objs)"
    and "planPrune tree p now = (primaries, sidecars)"
  shows "(\<forall>ob \<in> set primaries. \<not> futureDated now ob \<and> po_id ob \<notin> set (safety_ids tree now))
    \<and> (\<forall>ob \<in> set primaries. ob \<notin> set (pt_root tree) \<longrightarrow>
         (\<forall>r \<in> set (pt_root tree). po_id r = po_id ob \<longrightarrow> r \<in> set primaries))
    \<and> (\<forall>side \<in> set sidecars. \<forall>objs \<in> set (all_series tree). \<forall>ob \<in> set objs.
         po_id ob = po_id side \<longrightarrow> ob \<in> set primaries)"
proof -
  let ?safe = "safety_ids tree now"
  let ?root = "pick p now ?safe (\<lambda>_. False) (pt_root tree)"
  let ?keep = "\<lambda>ob. po_id ob \<in> set (snd ?root)"
  let ?sorted = "stable_sort (\<lambda>a b. fst a < fst b) (pt_series tree)"
  let ?rest = "pick_series p now ?safe (snd ?root) ?sorted"
  have prim: "primaries = fst ?root @ fst ?rest"
    and side: "set sidecars \<subseteq> {ob. po_id ob \<notin> set (snd ?root @ snd ?rest)}"
    using assms(2) by (auto simp: planPrune_def Let_def split: prod.splits)
  have fst_prim: "primaries = fst (planPrune tree p now)" using assms(2) by simp
  have one: "\<not> futureDated now ob \<and> po_id ob \<notin> set ?safe" if "ob \<in> set primaries" for ob
    using that planPrune_primaries [of ob tree p now] pick_out(2,3) unfolding fst_prim by metis
  have root_id: "po_id r \<in> set (snd ?root)" if "r \<in> set (pt_root tree)" "r \<notin> set primaries" for r
    using that assms(1) by (intro pick_keeps_id) (auto simp: prim all_series_def)
  have two: "r \<in> set primaries"
    if "ob \<in> set primaries" "ob \<notin> set (pt_root tree)" "r \<in> set (pt_root tree)" "po_id r = po_id ob" for ob r
  proof (rule ccontr)
    assume "r \<notin> set primaries"
    with that root_id have kept: "?keep ob" by metis
    from that(1) have "ob \<in> set (fst (planPrune tree p now))" by (simp only: fst_prim)
    then obtain objs keepToo where "objs \<in> set (all_series tree)"
      and o': "ob \<in> set (fst (pick p now ?safe keepToo objs))" "objs \<noteq> pt_root tree \<longrightarrow> keepToo = ?keep"
      by (rule planPrune_primaries)
    have "ob \<in> set objs" "\<not> keepToo ob" using pick_out(1,4) [OF o'(1)] by blast+
    with that(2) o'(2) kept show False by auto
  qed
  have three: "ob \<in> set primaries"
    if "s \<in> set sidecars" "objs \<in> set (all_series tree)" "ob \<in> set objs" "po_id ob = po_id s" for s objs ob
  proof (rule ccontr)
    assume not: "ob \<notin> set primaries"
    have gone: "po_id ob \<notin> set (snd ?root)" "po_id ob \<notin> set (snd ?rest)"
      using side that(1,4) by auto
    from that(2) consider "objs = pt_root tree" | db where "(db, objs) \<in> set ?sorted"
      by (auto simp: all_series_def)
    then show False
    proof cases
      case 1
      with root_id that(3) not gone show False by blast
    next
      case 2
      have "ob \<notin> set (fst (pick p now ?safe ?keep objs))"
        using not pick_series_in [OF 2] by (auto simp: prim)
      with that(2,3) assms(1) have "po_id ob \<in> set (snd (pick p now ?safe ?keep objs))"
        by (intro pick_keeps_id) auto
      with pick_series_surviving [OF 2] gone show False by blast
    qed
  qed
  show ?thesis using one two three by blast
qed

theorem plan_respects_protection_witness:
  "filter (futureDated (13 * day)) (fst (planPrune demo_tree one_policy (13 * day))) = []"
proof -
  have "\<forall>objs \<in> set (all_series demo_tree). distinct (map (\<lambda>ob. be_name (po_entry ob)) objs)"
    by (simp add: all_series_def demo_tree_def demo_object_def)
  from plan_respects_protection [OF this, of one_policy "13 * day"
      "fst (planPrune demo_tree one_policy (13 * day))"
      "snd (planPrune demo_tree one_policy (13 * day))"] show ?thesis by (simp add: filter_empty_conv)
qed

section \<open>Which keys a run touches\<close>

text \<open>A key of a location under one of its relative prefixes.\<close>

definition key_under :: "S3Config \<Rightarrow> string list \<Rightarrow> string \<Rightarrow> bool" where
  "key_under loc roots k \<longleftrightarrow>
     (\<exists>key rel. k = object_key loc key \<and> relToBase loc key = Some rel \<and> (\<exists>r \<in> set roots. prefix r rel))"

definition tree_objects :: "pruneTree \<Rightarrow> pruneObject set" where
  "tree_objects tree = set (concat (all_series tree)) \<union> set (pt_sidecars tree)"

lemma cut_prefix_Some: "cut_prefix p s = Some r \<Longrightarrow> prefix p s"
  by (auto simp: cut_prefix_def split: if_splits)

lemma set_add_series [simp]:
  "(\<Union>x\<in>set (add_series db ob series). set (snd x)) = insert ob (\<Union>x\<in>set series. set (snd x))"
  by (induction db ob series rule: add_series.induct) auto

lemma add_series_mem:
  "(a, b) \<in> set (add_series db ob' series) \<Longrightarrow> ob \<in> set b \<Longrightarrow> ob = ob' \<or> (\<exists>x \<in> set series. ob \<in> set (snd x))"
  by (induction db ob' series rule: add_series.induct) (fastforce split: if_splits)+

lemma tree_objects_eq:
  "tree_objects tree = set (pt_root tree) \<union> (\<Union>x\<in>set (pt_series tree). set (snd x)) \<union> set (pt_sidecars tree)"
  by (auto simp: tree_objects_def all_series_def)

lemma place_object_objects:
  assumes "ob \<in> tree_objects (place_object root loc tree k)"
  shows "ob \<in> tree_objects tree \<or> key_under loc [root] (po_key ob)"
proof (cases "relToBase loc (sk_Key k)")
  case None
  with assms show ?thesis by (simp add: place_object_def)
next
  case rel: (Some rel)
  show ?thesis
  proof (cases "cut_prefix root rel")
    case None
    with assms rel show ?thesis by (simp add: place_object_def)
  next
    case rest: (Some rest)
    have key: "key_under loc [root] (object_key loc (sk_Key k))"
      using rel cut_prefix_Some [OF rest] by (auto simp: key_under_def)
    show ?thesis
    proof (cases "newBackupEntry (last (split_on CHR ''/'' rest))")
      case None
      with assms rel rest show ?thesis by (simp add: place_object_def)
    next
      case (Some e0)
      with assms rel rest key show ?thesis
        by (auto simp: place_object_def Let_def tree_objects_eq split: if_splits dest: add_series_mem)
    qed
  qed
qed

lemma place_sibling_objects:
  "ob \<in> tree_objects (place_sibling root loc tree k) \<Longrightarrow>
     ob \<in> tree_objects tree \<or> key_under loc [root] (po_key ob)"
  unfolding place_sibling_def tree_objects_eq key_under_def Let_def
  by (simp split: option.splits if_splits) (blast | fastforce)+

lemma foldl_objects:
  assumes "\<And>t k. ob \<in> tree_objects (f t k) \<Longrightarrow> ob \<in> tree_objects t \<or> Q"
  shows "ob \<in> tree_objects (foldl f tree ks) \<Longrightarrow> ob \<in> tree_objects tree \<or> Q"
proof (induction ks arbitrary: tree)
  case (Cons k ks)
  from Cons.IH [of "f tree k"] Cons.prems assms [of tree k] show ?case by auto
qed simp

definition own_roots :: "string \<Rightarrow> string \<Rightarrow> string list" where
  "own_roots app pre = [app @ ''/'' @ pre @ ''/''] @ (if pre = ''volumes'' then [app @ ''/teploy/''] else [])"

lemma load_location_objects:
  assumes "load_location st app pre tree loc = Some tree'" and "ob \<in> tree_objects tree'"
  shows "ob \<in> tree_objects tree
    \<or> ((s3_isPrevious loc \<longrightarrow> s3_previousOwned loc) \<and> key_under loc (own_roots app pre) (po_key ob))"
proof (cases "s3_isPrevious loc \<and> \<not> s3_previousOwned loc")
  case True
  with assms show ?thesis by (simp add: load_location_def)
next
  case False
  let ?r1 = "app @ ''/'' @ pre @ ''/''" and ?r2 = "app @ ''/teploy/''"
  have mono: "key_under loc [r] k \<Longrightarrow> r \<in> set (own_roots app pre) \<Longrightarrow> key_under loc (own_roots app pre) k" for r k
    by (auto simp: key_under_def)
  have one: "ob \<in> tree_objects (foldl (place_object ?r1 loc) tree keys) \<Longrightarrow>
      ob \<in> tree_objects tree \<or> key_under loc [?r1] (po_key ob)" for keys
    by (rule foldl_objects) (rule place_object_objects)
  from assms(1) False obtain keys where
    "tree' = foldl (place_object ?r1 loc) tree keys
     \<or> (pre = ''volumes'' \<and> (\<exists>sibs. tree' = foldl (place_sibling ?r2 loc) (foldl (place_object ?r1 loc) tree keys) sibs))"
    by (auto simp: load_location_def Let_def split: option.splits if_splits)
  then have "ob \<in> tree_objects tree \<or> key_under loc [?r1] (po_key ob)
      \<or> (pre = ''volumes'' \<and> key_under loc [?r2] (po_key ob))"
  proof (elim disjE conjE exE)
    assume "tree' = foldl (place_object ?r1 loc) tree keys"
    with assms(2) one show ?thesis by blast
  next
    fix sibs
    assume v: "pre = ''volumes''"
      and "tree' = foldl (place_sibling ?r2 loc) (foldl (place_object ?r1 loc) tree keys) sibs"
    with assms(2) have "ob \<in> tree_objects (foldl (place_sibling ?r2 loc) (foldl (place_object ?r1 loc) tree keys) sibs)"
      by simp
    then have "ob \<in> tree_objects (foldl (place_object ?r1 loc) tree keys) \<or> key_under loc [?r2] (po_key ob)"
      by (rule foldl_objects [rotated]) (rule place_sibling_objects)
    with v one show ?thesis by blast
  qed
  with False mono show ?thesis by (auto simp: own_roots_def)
qed

lemma load_locations_objects:
  assumes "load_locations st app pre tree locs = Some tree'" and "ob \<in> tree_objects tree'"
  shows "ob \<in> tree_objects tree
    \<or> (\<exists>loc \<in> set locs. (s3_isPrevious loc \<longrightarrow> s3_previousOwned loc) \<and> key_under loc (own_roots app pre) (po_key ob))"
  using assms
proof (induction locs arbitrary: tree)
  case (Cons loc locs)
  then obtain t where "load_location st app pre tree loc = Some t" "load_locations st app pre t locs = Some tree'"
    by (auto split: option.splits)
  with Cons.IH [of t] Cons.prems(2) load_location_objects [of st app pre tree loc t ob] show ?case by auto
qed simp

lemma stale_key_under: "k \<in> set (stale_key app now loc x) \<Longrightarrow> key_under loc [incomingDir @ ''/'' @ app @ ''/''] k"
  by (cases "relToBase loc (sk_Key x)")
    (auto simp: stale_key_def key_under_def split: if_splits option.splits)

lemma CleanStaleIncoming_keys:
  "k \<in> set (CleanStaleIncoming st app now loc) \<Longrightarrow> key_under loc [incomingDir @ ''/'' @ app @ ''/''] k"
  by (auto simp: CleanStaleIncoming_def stale_key_under [simplified] split: option.splits if_splits)

lemma planPrune_objects:
  assumes "planPrune tree p now = (primaries, sidecars)" and "ob \<in> set primaries \<union> set sidecars"
  shows "ob \<in> tree_objects tree"
proof -
  have "ob \<in> tree_objects tree" if "ob \<in> set primaries"
  proof -
    from that assms(1) have "ob \<in> set (fst (planPrune tree p now))" by simp
    then obtain objs keepToo where "objs \<in> set (all_series tree)"
      and "ob \<in> set (fst (pick p now (safety_ids tree now) keepToo objs))"
      by (rule planPrune_primaries)
    with pick_out(1) [of ob p now "safety_ids tree now" keepToo objs] show ?thesis
      by (auto simp: tree_objects_def)
  qed
  moreover have "set sidecars \<subseteq> set (pt_sidecars tree)"
    using assms(1) by (auto simp: planPrune_def Let_def split: prod.splits)
  ultimately show ?thesis
    using assms(2) by (auto simp: tree_objects_def)
qed

lemma claim_previous_kept:
  "(pre, owned) \<in> set (snd (claim_previous st app s3 prevs)) \<Longrightarrow>
     owned \<and> (pre, owned) \<in> set prevs
     \<and> claimNamespace st (s3\<lparr>s3_Prefix := pre, s3_PreviousPrefixes := []\<rparr>) app = Inr ()"
  by (induction st app s3 prevs rule: claim_previous.induct)
    (auto simp: Let_def split: prod.splits if_splits sum.splits)

text \<open>The locations a prune may act on: its own, and the previous ones the operator vouched for.\<close>

definition admitted :: "store \<Rightarrow> string \<Rightarrow> S3Config \<Rightarrow> S3Config \<Rightarrow> bool" where
  "admitted st app s3 loc \<longleftrightarrow>
     (s3_Prefix loc = s3_Prefix s3 \<and> s3_Bucket loc = s3_Bucket s3)
     \<or> (s3_Bucket loc = s3_Bucket s3 \<and> (s3_Prefix loc, True) \<in> set (s3_PreviousPrefixes s3)
        \<and> claimNamespace st (s3\<lparr>s3_Prefix := s3_Prefix loc, s3_PreviousPrefixes := []\<rparr>) app = Inr ())"

lemma locations_admitted:
  assumes "loc \<in> set (locations (s3\<lparr>s3_PreviousPrefixes := snd (claim_previous st app s3 (s3_PreviousPrefixes s3))\<rparr>))"
  shows "admitted st app s3 loc"
  using assms claim_previous_kept [of _ _ st app s3 "s3_PreviousPrefixes s3"]
  by (fastforce simp: locations_def admitted_def)

definition pruned_tree :: "store \<Rightarrow> string \<Rightarrow> string \<Rightarrow> S3Config \<Rightarrow> pruneTree option" where
  "pruned_tree st app pre s3 =
     loadPruneTree st app pre (s3\<lparr>s3_PreviousPrefixes := snd (claim_previous st app s3 (s3_PreviousPrefixes s3))\<rparr>)"

definition brake_ok :: "pruneTree \<Rightarrow> pruneObject list \<Rightarrow> int \<Rightarrow> bool" where
  "brake_ok tree primaries now \<longleftrightarrow>
     (\<forall>objs \<in> set (all_series tree).
        let counted = filter (\<lambda>ob. \<not> be_bad (po_entry ob) \<and> \<not> futureDated now ob) objs;
            gone = length (filter (\<lambda>ob. po_key ob \<in> po_key ` set primaries) counted)
        in gone < 3 \<or> gone * 2 \<le> length counted)"

lemma pruneBrake_Inr: "pruneBrake tree primaries now = Inr () \<longleftrightarrow> brake_ok tree primaries now"
proof -
  have all: "brake_all now doomed xss = Inr () \<longleftrightarrow> (\<forall>xs \<in> set xss. brake_check now doomed xs = Inr ())" for doomed xss
    by (induction xss) (auto split: sum.splits)
  show ?thesis
    unfolding pruneBrake_def brake_ok_def all
    by (auto simp: brake_check_def Let_def pruneBrakeMin_def not_le not_less split: if_splits)
qed

text \<open>
  C17. A prune stays inside what it may touch, and does nothing when it is refused.  Every key it
  removes is its clock probe or lies in an admitted location (its own, or a previous one that the
  operator vouched for and that this server's claim passed) under the app's prefix, a volume
  backup's sibling directory or the app's pending uploads.  And it removes anything but the probe
  only if the policy is not zero, the namespace is proven this server's, the store's clock is
  within an hour (or the check is waived), and no series loses most of its good backups (or that
  is allowed).
\<close>

theorem prune_scope:
  assumes "k \<in> set (pr_rm (PruneBackups st app pre s3 p now later))" and "k \<noteq> clock_key st s3"
  shows "(\<exists>loc. admitted st app s3 loc
        \<and> key_under loc (own_roots app pre @ [incomingDir @ ''/'' @ app @ ''/'']) k)
    \<and> \<not> IsZero p \<and> claimNamespace st s3 app = Inr ()
    \<and> (IgnoreClock p \<or> (\<exists>t. storeClock st s3 = Some t \<and> \<bar>now - t\<bar> \<le> hour))
    \<and> (\<exists>tree. pruned_tree st app pre s3 = Some tree
         \<and> (AllowMassDelete p \<or> brake_ok tree (fst (planPrune tree p now)) now))"
proof -
  let ?cfg = "s3\<lparr>s3_PreviousPrefixes := snd (claim_previous st app s3 (s3_PreviousPrefixes s3))\<rparr>"
  let ?clock = "clock_check st s3 p now"
  have clock_rm: "set (snd ?clock) \<subseteq> {clock_key st s3}"
    by (auto simp: clock_check_def)
  have nz: "\<not> IsZero p" and cli: "aws_cli st"
    using assms(1) by (auto simp: PruneBackups_def refused_run_def split: if_splits)
  have claim: "claimNamespace st s3 app = Inr ()"
    using assms(1) nz cli by (cases "claimNamespace st s3 app") (auto simp: PruneBackups_def refused_run_def)
  obtain c rms where clock: "?clock = (c, rms)" by fastforce
  have c: "c = Inr ()"
    using assms nz cli claim clock clock_rm
    by (cases c) (auto simp: PruneBackups_def refused_run_def)
  obtain tree where tree: "loadPruneTree st app pre ?cfg = Some tree"
    using assms nz cli claim clock c clock_rm
    by (cases "loadPruneTree st app pre ?cfg") (auto simp: PruneBackups_def refused_run_def Let_def split: prod.splits)
  obtain primaries sidecars where plan: "planPrune tree p now = (primaries, sidecars)" by fastforce
  have brake: "AllowMassDelete p \<or> pruneBrake tree primaries now = Inr ()"
    using assms nz cli claim clock c clock_rm tree plan
    by (cases "pruneBrake tree primaries now")
      (auto simp: PruneBackups_def refused_run_def Let_def split: prod.splits if_splits)
  have k: "k \<in> po_key ` set primaries \<or> k \<in> po_key ` set sidecars
      \<or> (\<exists>loc \<in> set (locations ?cfg). k \<in> set (CleanStaleIncoming st app later loc))"
    using assms nz cli claim clock c clock_rm tree plan brake
    by (auto simp: PruneBackups_def refused_run_def Let_def split: prod.splits if_splits sum.splits)
  have where_: "\<exists>loc. admitted st app s3 loc \<and> key_under loc (own_roots app pre @ [incomingDir @ ''/'' @ app @ ''/'']) k"
    using k
  proof (elim disjE)
    assume "\<exists>loc \<in> set (locations ?cfg). k \<in> set (CleanStaleIncoming st app later loc)"
    then obtain loc where loc: "loc \<in> set (locations ?cfg)" "k \<in> set (CleanStaleIncoming st app later loc)" by blast
    have "key_under loc (own_roots app pre @ [incomingDir @ ''/'' @ app @ ''/'']) k"
      using CleanStaleIncoming_keys [OF loc(2)] by (auto simp: key_under_def)
    with locations_admitted [OF loc(1)] show ?thesis by blast
  next
    have "\<exists>loc. admitted st app s3 loc \<and> key_under loc (own_roots app pre @ [incomingDir @ ''/'' @ app @ ''/'']) (po_key ob)"
      if "ob \<in> set primaries \<union> set sidecars" for ob
    proof -
      have "ob \<in> tree_objects tree"
        using planPrune_objects [OF plan that] .
      with tree have "\<exists>loc \<in> set (locations ?cfg). key_under loc (own_roots app pre) (po_key ob)"
        using load_locations_objects [of st app pre empty_tree "locations ?cfg" tree ob]
        by (auto simp: loadPruneTree_def tree_objects_def all_series_def empty_tree_def)
      then obtain loc where loc: "loc \<in> set (locations ?cfg)" "key_under loc (own_roots app pre) (po_key ob)" by blast
      have "key_under loc (own_roots app pre @ [incomingDir @ ''/'' @ app @ ''/'']) (po_key ob)"
        using loc(2) by (auto simp: key_under_def)
      with locations_admitted [OF loc(1)] show ?thesis by blast
    qed
    then show "k \<in> po_key ` set primaries \<Longrightarrow> ?thesis" "k \<in> po_key ` set sidecars \<Longrightarrow> ?thesis"
      by auto
  qed
  have "IgnoreClock p \<or> (\<exists>t. storeClock st s3 = Some t \<and> \<bar>now - t\<bar> \<le> hour)"
    using clock c
    by (auto simp: clock_check_def checkPruneClock_def maxClockSkew_def Let_def abs_le_iff split: if_splits option.splits)
  moreover have "pruned_tree st app pre s3 = Some tree
      \<and> (AllowMassDelete p \<or> brake_ok tree (fst (planPrune tree p now)) now)"
    using brake plan pruneBrake_Inr tree by (auto simp: pruned_tree_def)
  ultimately show ?thesis using where_ nz claim by blast
qed

text \<open>A store with two dumps of one database, pruned to the last one.\<close>

definition demo_listing :: string where
  "demo_listing = ''2024-01-01 00:00:00 900 web/pg/20240101-000000.pgdump'' @ newline
     # ''2024-01-02 00:00:00 900 web/pg/20240102-000000.pgdump'' @ [newline]"

definition demo_store :: store where
  "demo_store = \<lparr>aws_cli = True, fingerprint = ''0123456789abcdef'', localRecipient = [],
     s3_ls = (\<lambda>loc url. if url = ''s3://b/web/pg/'' then LsExit 0 demo_listing True else LsExit 1 [] True),
     readOwnerMarker = (\<lambda>loc key. ([], [])), write_ok = (\<lambda>loc key. True),
     head_modified = (\<lambda>loc key. Some (Some 1704200000000000000)), rm_ok = (\<lambda>key. True)\<rparr>"

definition demo_policy :: RetentionPolicy where
  "demo_policy = \<lparr>KeepLast = 1, KeepDaily = 0, KeepWeekly = 0, KeepMonthly = 0, MaxAgeDays = 0,
     IgnoreClock = False, AllowMassDelete = False\<rparr>"

lemma demo_prune:
  "pr_rm (PruneBackups demo_store ''web'' ''pg'' demo_loc demo_policy 1704200000000000000 1704200000000000000)
     = [''s3://b/.incoming/.clock-0123456789abcdef'', ''s3://b/web/pg/20240101-000000.pgdump'']"
  by code_simp

theorem prune_scope_witness:
  "\<exists>loc. admitted demo_store ''web'' demo_loc loc
     \<and> key_under loc [''web/pg/'', ''.incoming/web/''] ''s3://b/web/pg/20240101-000000.pgdump''"
proof -
  let ?k = "''s3://b/web/pg/20240101-000000.pgdump''"
  have "?k \<in> set (pr_rm (PruneBackups demo_store ''web'' ''pg'' demo_loc demo_policy 1704200000000000000 1704200000000000000))"
    by (simp add: demo_prune)
  from prune_scope [OF this] show ?thesis
    by (simp add: clock_key_def S3Base_def demo_loc_def demo_store_def incomingDir_def own_roots_def)
qed

section \<open>The age window\<close>

lemma int64_small: "- (2 ^ 63) \<le> n \<Longrightarrow> n < 2 ^ 63 \<Longrightarrow> int64 n = n"
  by (simp add: int64_def signed_of_int signed_take_bit_int_eq_self)

text \<open>
  C18. The age window is 64-bit arithmetic.  Up to 106751 days the cutoff is exactly that many days
  ago; at 106752 days the product wraps around and the cutoff is 292 years ahead, so that a policy
  meant to keep everything for centuries keeps a single backup.
\<close>

theorem age_window_bounds:
  "(\<forall>days. 0 \<le> days \<and> days \<le> 106751 \<longrightarrow> age_cutoff now days = now - days * day)
   \<and> age_cutoff now 106752 = now + 9223371273709551616
   \<and> (\<forall>entries. (\<forall>e \<in> set entries. be_time e < now + 9223371273709551616) \<longrightarrow>
        length (remdups (selectKept entries \<lparr>KeepLast = 0, KeepDaily = 0, KeepWeekly = 0, KeepMonthly = 0,
          MaxAgeDays = 106752, IgnoreClock = ic, AllowMassDelete = am\<rparr> now)) \<le> 1)"
proof (intro conjI allI impI)
  fix days :: int
  assume d: "0 \<le> days \<and> days \<le> 106751"
  then have "int64 (- days * 24) = - days * 24" "int64 (- days * 24 * hour) = - days * 24 * hour"
    by (auto intro!: int64_small simp: hour_def)
  then show "age_cutoff now days = now - days * day"
    by (simp add: age_cutoff_def day_def)
next
  show wrap: "age_cutoff now 106752 = now + 9223371273709551616"
    by (simp add: age_cutoff_def int64_def hour_def)
  fix entries :: "backupEntry list"
  let ?p = "\<lparr>KeepLast = 0, KeepDaily = 0, KeepWeekly = 0, KeepMonthly = 0,
          MaxAgeDays = 106752, IgnoreClock = ic, AllowMassDelete = am\<rparr>"
  let ?good = "good_entries entries"
  assume e: "\<forall>e \<in> set entries. be_time e < now + 9223371273709551616"
  have "\<not> age_cutoff now 106752 \<le> be_time (?good ! k)" if "k < length ?good" for k
  proof -
    have "?good ! k \<in> set entries" using nth_mem [OF that] by simp
    with e wrap show ?thesis by fastforce
  qed
  then have "set (selectKept entries ?p now) \<subseteq> {be_name (?good ! 0)}"
    using selectKept_iff [of _ entries ?p now] by (auto simp: Let_def first_of_period_def)
  then have "card (set (selectKept entries ?p now)) \<le> 1"
    by (metis card.empty card_mono finite.emptyI finite.insertI is_singletonI is_singleton_altdef)
  then show "length (remdups (selectKept entries ?p now)) \<le> 1"
    by (simp add: length_remdups_card_conv)
qed

theorem age_window_bounds_witness: "age_cutoff (200000 * day) 7 = 199993 * day"
  using age_window_bounds [of "200000 * day"] by (simp add: day_def hour_def)

end
