(* ===== verification/Fleet.thy ===== *)
theory Fleet
  imports Prelude
begin

text \<open>
  Deploying to several servers (\<open>internal/multideploy/multideploy.go\<close>): the parallel run with its
  slots, fail-fast flag and cancellation as a step relation over the interleavings of the
  launching loop and the workers, the prefixing writer each worker prints through, and the
  summary; and the answer protocol of the target-side guard (\<open>internal/targetguard/guard.go\<close>).
  The deployment itself is the worker's step \<open>finish\<close>, whose outcome is arbitrary.
\<close>

section \<open>The prefixing writer\<close>

definition fragmentLimit :: nat where
  "fragmentLimit = 65536"

text \<open>
  The underlying writer: what was written, and the outcomes of the coming writes (success when
  the list is exhausted).
\<close>

record sink =
  sk_out :: "string list"
  sk_fails :: "bool list"

definition sink_write :: "string \<Rightarrow> sink \<Rightarrow> bool \<times> sink" where
  "sink_write s k =
     (case sk_fails k of
        True # fs \<Rightarrow> (False, k\<lparr>sk_fails := fs\<rparr>)
      | _ # fs \<Rightarrow> (True, k\<lparr>sk_out := sk_out k @ [s], sk_fails := fs\<rparr>)
      | [] \<Rightarrow> (True, k\<lparr>sk_out := sk_out k @ [s]\<rparr>))"

record PrefixWriter =
  pw_prefix :: string
  pw_buf :: string

definition NewPrefixWriter :: "string \<Rightarrow> PrefixWriter" where
  "NewPrefixWriter p = \<lparr>pw_prefix = p, pw_buf = []\<rparr>"

text \<open>The bytes one round takes: up to the limit, and up to and including the first newline.\<close>

definition next_piece :: "string \<Rightarrow> string \<Rightarrow> string" where
  "next_piece buf p =
     (let piece = take (fragmentLimit - length buf) p
      in if newline \<in> set piece then takeWhile (\<lambda>c. c \<noteq> newline) piece @ [newline] else piece)"

definition fragment_full :: "string \<Rightarrow> bool" where
  "fragment_full buf \<longleftrightarrow> List.last buf = newline \<or> fragmentLimit \<le> length buf"

lemma first_line: "c \<in> set x \<Longrightarrow> prefix (takeWhile (\<lambda>d. d \<noteq> c) x @ [c]) x"
proof -
  assume "c \<in> set x"
  then obtain ys zs where x: "x = ys @ c # zs" and "c \<notin> set ys"
    by (meson split_list_first)
  then have "takeWhile (\<lambda>d. d \<noteq> c) x = ys"
    by (metis (mono_tags, lifting) append_Nil2 takeWhile.simps(2) takeWhile_append2)
  then show ?thesis
    by (simp add: x)
qed

lemma next_piece_take: "prefix (next_piece buf p) (take (fragmentLimit - length buf) p)"
  by (simp add: next_piece_def Let_def first_line)

lemma next_piece_length: "length (next_piece buf p) \<le> length p"
  using prefix_length_le [OF next_piece_take [of buf p]] by simp

lemma next_piece_not_Nil: "p \<noteq> [] \<Longrightarrow> length buf < fragmentLimit \<Longrightarrow> next_piece buf p \<noteq> []"
  by (auto simp: next_piece_def Let_def)

function write_loop ::
  "string \<Rightarrow> string \<Rightarrow> nat \<Rightarrow> string \<Rightarrow> sink \<Rightarrow> (nat \<times> bool) \<times> string \<times> sink" where
  "write_loop pre buf consumed p k =
     (if p = [] then ((consumed, True), buf, k)
      else
        (let piece = next_piece buf p;
             buf' = buf @ piece;
             consumed' = consumed + length piece;
             rest = drop (length piece) p
         in if fragment_full buf' then
              (let (ok, k') = sink_write (pre @ buf') k
               in if ok then write_loop pre [] consumed' rest k' else ((consumed', False), [], k'))
            else write_loop pre buf' consumed' rest k))"
  by pat_completeness auto
termination
proof (relation "measure (\<lambda>(pre, buf, consumed, p, k). 2 * length p + (if fragmentLimit \<le> length buf then 1 else 0))",
    goal_cases)
  case (2 pre buf consumed p k piece buf' consumed' rest pair ok k')
  then show ?case
    using next_piece_not_Nil [of p buf] next_piece_length [of buf p]
    by (cases "fragmentLimit \<le> length buf") (auto simp: fragmentLimit_def not_le)
next
  case (3 pre buf consumed p k piece buf' consumed' rest)
  then have "length buf < fragmentLimit" and "\<not> fragmentLimit \<le> length buf'"
    by (auto simp: fragment_full_def not_le)
  then show ?case
    using 3 next_piece_not_Nil [of p buf] next_piece_length [of buf p] by auto
qed simp

declare write_loop.simps [simp del]

definition PrefixWriter_Write ::
  "PrefixWriter \<Rightarrow> string \<Rightarrow> sink \<Rightarrow> (nat \<times> bool) \<times> PrefixWriter \<times> sink" where
  "PrefixWriter_Write pw p k =
     (let (r, buf, k') = write_loop (pw_prefix pw) (pw_buf pw) 0 p k in (r, pw\<lparr>pw_buf := buf\<rparr>, k'))"

definition PrefixWriter_Flush :: "PrefixWriter \<Rightarrow> sink \<Rightarrow> bool \<times> PrefixWriter \<times> sink" where
  "PrefixWriter_Flush pw k =
     (if pw_buf pw = [] then (True, pw, k)
      else (let (ok, k') = sink_write (pw_prefix pw @ pw_buf pw @ [newline]) k
            in (ok, pw\<lparr>pw_buf := []\<rparr>, k')))"

text \<open>A fragment that may be written: one line, or a full piece of a line.\<close>

definition fragment_ok :: "string \<Rightarrow> bool" where
  "fragment_ok f \<longleftrightarrow> f \<noteq> [] \<and> length f \<le> fragmentLimit \<and> newline \<notin> set (butlast f)
     \<and> (List.last f = newline \<or> length f = fragmentLimit)"

definition pending_ok :: "string \<Rightarrow> bool" where
  "pending_ok b \<longleftrightarrow> length b < fragmentLimit \<and> newline \<notin> set b"

lemma next_piece_prefix: "next_piece buf p @ drop (length (next_piece buf p)) p = p"
proof -
  have "prefix (next_piece buf p) p"
    using next_piece_take take_is_prefix prefix_order.trans by blast
  then show ?thesis
    by (metis append_eq_conv_conj prefix_def)
qed

lemma next_piece_newline: "newline \<notin> set (butlast (next_piece buf p))"
proof -
  have "newline \<notin> set (takeWhile (\<lambda>c. c \<noteq> newline) x)" for x
    by (auto dest: set_takeWhileD)
  then show ?thesis
    by (auto simp: next_piece_def Let_def butlast_append dest: in_set_butlastD)
qed

lemma next_piece_room: "length (next_piece buf p) \<le> fragmentLimit - length buf"
  using prefix_length_le [OF next_piece_take [of buf p]] by simp

lemma full_or_pending:
  assumes "pending_ok buf" and "p \<noteq> []"
  shows "if fragment_full (buf @ next_piece buf p) then fragment_ok (buf @ next_piece buf p)
         else pending_ok (buf @ next_piece buf p)"
proof -
  let ?n = "next_piece buf p"
  have ne: "?n \<noteq> []" and len: "length (buf @ ?n) \<le> fragmentLimit"
    using assms next_piece_not_Nil [of p buf] next_piece_room [of buf p] by (auto simp: pending_ok_def)
  have nl: "newline \<notin> set (butlast (buf @ ?n))"
    using assms(1) ne next_piece_newline by (auto simp: butlast_append pending_ok_def)
  have split: "buf @ ?n = butlast (buf @ ?n) @ [List.last (buf @ ?n)]"
    using ne by (intro append_butlast_last_id [symmetric]) simp
  have pend: "pending_ok (buf @ ?n)" if "\<not> fragment_full (buf @ ?n)"
  proof -
    have "newline \<notin> set (butlast (buf @ ?n) @ [List.last (buf @ ?n)])"
      using that nl by (auto simp: fragment_full_def)
    then have "newline \<notin> set (buf @ ?n)"
      using split by metis
    then show ?thesis
      using that by (simp add: pending_ok_def fragment_full_def not_le)
  qed
  have "fragment_ok (buf @ ?n)" if "fragment_full (buf @ ?n)"
    using that ne len nl by (auto simp: fragment_full_def fragment_ok_def simp del: butlast_append)
  with pend show ?thesis by simp
qed

lemma sink_write_ok:
  assumes "sk_fails k = []"
  shows "sink_write s k = (True, k\<lparr>sk_out := sk_out k @ [s]\<rparr>)"
  using assms by (simp add: sink_write_def)

lemma write_loop_spec:
  assumes "pending_ok buf" and "sk_fails k = []" and "write_loop pre buf c p k = (r, buf', k')"
  shows "r = (c + length p, True) \<and> pending_ok buf' \<and> sk_fails k' = []
    \<and> (\<exists>fs. sk_out k' = sk_out k @ map ((@) pre) fs \<and> list_all fragment_ok fs
         \<and> concat fs @ buf' = buf @ p)"
  using assms
proof (induction "length p" arbitrary: buf c p k rule: less_induct)
  case (less p buf c k)
  show ?case
  proof (cases "p = []")
    case True
    then show ?thesis
      using less.prems by (auto simp: write_loop.simps)
  next
    case False
    let ?n = "next_piece buf p" and ?rest = "drop (length (next_piece buf p)) p"
    note fp = full_or_pending [OF less.prems(1) False]
    have len: "c + length ?n + length ?rest = c + length p"
      using next_piece_length [of buf p] by simp
    have shorter: "length ?rest < length p"
      using False less.prems(1) next_piece_not_Nil [of p buf] by (auto simp: pending_ok_def)
    show ?thesis
    proof (cases "fragment_full (buf @ ?n)")
      case True
      let ?k = "k\<lparr>sk_out := sk_out k @ [pre @ buf @ ?n]\<rparr>"
      have sw: "sink_write (pre @ buf @ ?n) k = (True, ?k)"
        using less.prems(2) by (rule sink_write_ok)
      have run: "write_loop pre [] (c + length ?n) ?rest ?k = (r, buf', k')"
        using less.prems(3) False True sw by (subst (asm) write_loop.simps) (simp add: Let_def)
      have "pending_ok []" and "sk_fails ?k = []"
        using less.prems(2) by (simp_all add: pending_ok_def fragmentLimit_def)
      from less.hyps [OF shorter this run] obtain fs where fs:
        "r = (c + length ?n + length ?rest, True)" "pending_ok buf'" "sk_fails k' = []"
        "sk_out k' = sk_out ?k @ map ((@) pre) fs" "list_all fragment_ok fs" "concat fs @ buf' = ?rest"
        by auto
      then show ?thesis
        using fp True len next_piece_prefix [of buf p]
        by (auto intro!: exI [of _ "(buf @ ?n) # fs"])
    next
      case nf: False
      have run: "write_loop pre (buf @ ?n) (c + length ?n) ?rest k = (r, buf', k')"
        using less.prems(3) False nf by (subst (asm) write_loop.simps) (simp add: Let_def)
      have "pending_ok (buf @ ?n)"
        using fp nf by simp
      from less.hyps [OF shorter this less.prems(2) run] obtain fs where
        fs: "r = (c + length ?n + length ?rest, True)" "pending_ok buf'" "sk_fails k' = []"
        "sk_out k' = sk_out k @ map ((@) pre) fs" "list_all fragment_ok fs"
        "concat fs @ buf' = (buf @ ?n) @ ?rest"
        by auto
      then show ?thesis
        using len next_piece_prefix [of buf p] by auto
    qed
  qed
qed


section \<open>The parallel run\<close>

datatype outcome = Succeeded | Failed | SkippedFailed | SkippedCancelled

text \<open>
  Where a worker stands: not launched, in the deployment, result recorded, fail-fast flag set
  where needed, slot released.
\<close>

datatype phase = Idle | Deploying | Recorded bool | Flagged | Finished

text \<open>Where the launching loop stands.\<close>

datatype loop_pc = Acquiring | CheckFailed | CheckContext | Waiting | Joined

record fleet =
  fl_next :: nat
  fl_pc :: loop_pc
  fl_sem :: nat
  fl_failed :: bool
  fl_cancelled :: bool
  fl_phase :: "nat \<Rightarrow> phase"
  fl_result :: "nat \<Rightarrow> outcome option"

definition fleet_start :: fleet where
  "fleet_start = \<lparr>fl_next = 0, fl_pc = Acquiring, fl_sem = 0, fl_failed = False, fl_cancelled = False,
     fl_phase = (\<lambda>_. Idle), fl_result = (\<lambda>_. None)\<rparr>"

text \<open>\<open>if parallel <= 0 { parallel = 1 }\<close>\<close>

definition slots :: "int \<Rightarrow> nat" where
  "slots par = (if par \<le> 0 then 1 else nat par)"

definition skip_server :: "outcome \<Rightarrow> fleet \<Rightarrow> fleet" where
  "skip_server x s = s\<lparr>fl_result := (fl_result s)(fl_next s := Some x), fl_next := fl_next s + 1,
     fl_pc := Acquiring\<rparr>"

inductive fleet_step :: "nat \<Rightarrow> bool \<Rightarrow> nat \<Rightarrow> fleet \<Rightarrow> fleet \<Rightarrow> bool" for cap failFast n where
  acquire: "fl_pc s = Acquiring \<Longrightarrow> fl_next s < n \<Longrightarrow> fl_sem s < cap \<Longrightarrow>
    fleet_step cap failFast n s (s\<lparr>fl_sem := fl_sem s + 1, fl_pc := CheckFailed\<rparr>)"
| acquire_cancelled: "fl_pc s = Acquiring \<Longrightarrow> fl_next s < n \<Longrightarrow> fl_cancelled s \<Longrightarrow>
    fleet_step cap failFast n s (skip_server SkippedCancelled s)"
| skip_failed: "fl_pc s = CheckFailed \<Longrightarrow> failFast \<Longrightarrow> fl_failed s \<Longrightarrow>
    fleet_step cap failFast n s (skip_server SkippedFailed (s\<lparr>fl_sem := fl_sem s - 1\<rparr>))"
| not_failed: "fl_pc s = CheckFailed \<Longrightarrow> \<not> (failFast \<and> fl_failed s) \<Longrightarrow>
    fleet_step cap failFast n s (s\<lparr>fl_pc := CheckContext\<rparr>)"
| skip_cancelled: "fl_pc s = CheckContext \<Longrightarrow> fl_cancelled s \<Longrightarrow>
    fleet_step cap failFast n s (skip_server SkippedCancelled (s\<lparr>fl_sem := fl_sem s - 1\<rparr>))"
| launch: "fl_pc s = CheckContext \<Longrightarrow> \<not> fl_cancelled s \<Longrightarrow>
    fleet_step cap failFast n s
      (s\<lparr>fl_phase := (fl_phase s)(fl_next s := Deploying), fl_next := fl_next s + 1, fl_pc := Acquiring\<rparr>)"
| loop_end: "fl_pc s = Acquiring \<Longrightarrow> fl_next s = n \<Longrightarrow>
    fleet_step cap failFast n s (s\<lparr>fl_pc := Waiting\<rparr>)"
| join: "fl_pc s = Waiting \<Longrightarrow> (\<And>i. i < n \<Longrightarrow> fl_phase s i \<in> {Idle, Finished}) \<Longrightarrow>
    fleet_step cap failFast n s (s\<lparr>fl_pc := Joined\<rparr>)"
| finish: "fl_phase s i = Deploying \<Longrightarrow>
    fleet_step cap failFast n s
      (s\<lparr>fl_result := (fl_result s)(i := Some (if ok then Succeeded else Failed)),
         fl_phase := (fl_phase s)(i := Recorded ok)\<rparr>)"
| flag: "fl_phase s i = Recorded ok \<Longrightarrow>
    fleet_step cap failFast n s
      (s\<lparr>fl_failed := (fl_failed s \<or> \<not> ok), fl_phase := (fl_phase s)(i := Flagged)\<rparr>)"
| release: "fl_phase s i = Flagged \<Longrightarrow>
    fleet_step cap failFast n s (s\<lparr>fl_sem := fl_sem s - 1, fl_phase := (fl_phase s)(i := Finished)\<rparr>)"
| cancel: "\<not> fl_cancelled s \<Longrightarrow> fleet_step cap failFast n s (s\<lparr>fl_cancelled := True\<rparr>)"

definition fleet_reachable :: "int \<Rightarrow> bool \<Rightarrow> nat \<Rightarrow> fleet \<Rightarrow> bool" where
  "fleet_reachable par failFast n s \<longleftrightarrow> (fleet_step (slots par) failFast n)\<^sup>*\<^sup>* fleet_start s"

text \<open>The workers that hold a slot, and those that have failed.\<close>

definition busy :: "fleet \<Rightarrow> nat set" where
  "busy s = {i. fl_phase s i \<notin> {Idle, Finished}}"

definition deploying :: "fleet \<Rightarrow> nat set" where
  "deploying s = {i. fl_phase s i = Deploying}"

definition failures :: "fleet \<Rightarrow> nat set" where
  "failures s = {i. fl_result s i = Some Failed}"

definition server_ok :: "fleet \<Rightarrow> nat \<Rightarrow> bool" where
  "server_ok s i \<longleftrightarrow>
     (case fl_phase s i of
        Idle \<Rightarrow> if i < fl_next s then fl_result s i \<in> {Some SkippedFailed, Some SkippedCancelled}
                else fl_result s i = None
      | Deploying \<Rightarrow> i < fl_next s \<and> fl_result s i = None
      | Recorded ok \<Rightarrow> i < fl_next s \<and> fl_result s i = Some (if ok then Succeeded else Failed)
      | _ \<Rightarrow> i < fl_next s \<and> (fl_result s i = Some Succeeded \<or> (fl_result s i = Some Failed \<and> fl_failed s)))"

definition loop_holds :: "fleet \<Rightarrow> nat" where
  "loop_holds s = (if fl_pc s \<in> {CheckFailed, CheckContext} then 1 else 0)"

definition fleet_inv :: "nat \<Rightarrow> bool \<Rightarrow> nat \<Rightarrow> fleet \<Rightarrow> bool" where
  "fleet_inv cap failFast n s \<longleftrightarrow>
     fl_next s \<le> n \<and> (\<forall>i. server_ok s i)
     \<and> fl_sem s = card (busy s) + loop_holds s \<and> fl_sem s \<le> cap
     \<and> (fl_pc s \<in> {CheckFailed, CheckContext} \<longrightarrow> fl_next s < n)
     \<and> (fl_pc s \<in> {Waiting, Joined} \<longrightarrow> fl_next s = n)
     \<and> (fl_pc s = Joined \<longrightarrow> busy s = {})
     \<and> (failFast \<longrightarrow> fl_failed s \<longrightarrow>
          card (failures s) + card (deploying s) + (if fl_pc s = CheckContext then 1 else 0) \<le> cap)"

lemma server_ok_launched:
  "server_ok s i \<Longrightarrow> fl_phase s i \<notin> {Idle, Finished} \<Longrightarrow> i < fl_next s"
  by (cases "fl_phase s i") (simp_all add: server_ok_def)

lemma server_ok_failed:
  "server_ok s i \<Longrightarrow> fl_result s i = Some Failed \<Longrightarrow>
     i < fl_next s \<and> fl_phase s i \<noteq> Deploying \<and> (fl_failed s \<or> fl_phase s i = Recorded False)"
  by (cases "fl_phase s i") (auto simp: server_ok_def split: if_splits)

lemma busy_bound: "\<forall>i. server_ok s i \<Longrightarrow> busy s \<subseteq> {..<fl_next s}"
  using server_ok_launched by (auto simp: busy_def)

lemma deploying_busy: "deploying s \<subseteq> busy s"
  by (auto simp: deploying_def busy_def)

lemma failures_bound: "\<forall>i. server_ok s i \<Longrightarrow> failures s \<subseteq> {..<fl_next s}"
  using server_ok_failed by (auto simp: failures_def)

lemma early_failures_busy:
  assumes "\<forall>i. server_ok s i" and "\<not> fl_failed s"
  shows "failures s \<subseteq> busy s - deploying s"
  using assms server_ok_failed [of s] by (auto simp: failures_def busy_def deploying_def)

lemmas fleet_sets = busy_def deploying_def failures_def

lemma finite_fleet:
  assumes "\<forall>i. server_ok s i"
  shows "finite (busy s)" "finite (deploying s)" "finite (failures s)"
  using busy_bound [OF assms] failures_bound [OF assms] deploying_busy [of s]
  by (auto dest: finite_subset)

lemma fleet_inv_start: "fleet_inv cap failFast n fleet_start"
  by (simp add: fleet_inv_def fleet_start_def server_ok_def busy_def loop_holds_def)

lemma server_ok_step:
  assumes "fleet_step cap failFast n s t" and "\<forall>i. server_ok s i"
  shows "\<forall>i. server_ok t i"
proof
  fix j
  from assms(2) have "server_ok s j" and "server_ok s (fl_next s)" by blast+
  with assms(1) show "server_ok t j"
    by (cases rule: fleet_step.cases)
      (auto simp: server_ok_def skip_server_def split: phase.splits if_splits)
qed


lemma fleet_inv_step:
  assumes "fleet_step cap failFast n s t" and "fleet_inv cap failFast n s"
  shows "fleet_inv cap failFast n t"
proof -
  have oks: "\<forall>i. server_ok s i" and okt: "\<forall>i. server_ok t i"
    using assms server_ok_step by (auto simp: fleet_inv_def)
  note fin = finite_fleet [OF oks]
  have idle: "fl_phase s (fl_next s) = Idle" "fl_result s (fl_next s) = None"
    using oks [rule_format, of "fl_next s"] by (auto simp: server_ok_def split: phase.splits)
  have new: "fl_next s \<notin> busy s" "fl_next s \<notin> deploying s" "fl_next s \<notin> failures s"
    using idle by (simp_all add: fleet_sets)
  from assms(1) show ?thesis
  proof cases
    case acquire
    then have "busy t = busy s" "deploying t = deploying s" "failures t = failures s"
      by (simp_all add: fleet_sets)
    with acquire assms(2) okt show ?thesis
      by (auto simp: fleet_inv_def loop_holds_def)
  next
    case acquire_cancelled
    then have "busy t = busy s" "deploying t = deploying s" "failures t = failures s"
      using new by (auto simp: fleet_sets skip_server_def)
    with acquire_cancelled assms(2) okt show ?thesis
      by (auto simp: fleet_inv_def loop_holds_def skip_server_def)
  next
    case skip_failed
    then have "busy t = busy s" "deploying t = deploying s" "failures t = failures s"
      using new by (auto simp: fleet_sets skip_server_def)
    with skip_failed assms(2) okt show ?thesis
      by (auto simp: fleet_inv_def loop_holds_def skip_server_def)
  next
    case not_failed
    then have "busy t = busy s" "deploying t = deploying s" "failures t = failures s"
      by (simp_all add: fleet_sets)
    with not_failed assms(2) okt show ?thesis
      by (auto simp: fleet_inv_def loop_holds_def)
  next
    case skip_cancelled
    then have "busy t = busy s" "deploying t = deploying s" "failures t = failures s"
      using new by (auto simp: fleet_sets skip_server_def)
    with skip_cancelled assms(2) okt show ?thesis
      by (auto simp: fleet_inv_def loop_holds_def skip_server_def)
  next
    case launch
    then have sets: "busy t = insert (fl_next s) (busy s)" "deploying t = insert (fl_next s) (deploying s)"
      "failures t = failures s"
      by (auto simp: fleet_sets)
    have "card (busy t) = Suc (card (busy s))" "card (deploying t) = Suc (card (deploying s))"
      using new fin by (simp_all add: sets)
    with launch assms(2) okt sets show ?thesis
      by (auto simp: fleet_inv_def loop_holds_def)
  next
    case loop_end
    then have "busy t = busy s" "deploying t = deploying s" "failures t = failures s"
      by (simp_all add: fleet_sets)
    with loop_end assms(2) okt show ?thesis
      by (auto simp: fleet_inv_def loop_holds_def)
  next
    case join
    have "i < n" if "i \<in> busy s" for i
      using that busy_bound [OF oks] assms(2) join(2) by (auto simp: fleet_inv_def)
    then have "busy s = {}"
      using join(3) by (force simp: busy_def)
    moreover have "busy t = busy s" "deploying t = deploying s" "failures t = failures s"
      using join by (simp_all add: fleet_sets)
    ultimately show ?thesis
      using join assms(2) okt by (auto simp: fleet_inv_def loop_holds_def)
  next
    case (finish i ok)
    then have sets: "busy t = busy s" "deploying t = deploying s - {i}" "i \<in> deploying s"
      "failures t \<subseteq> insert i (failures s)"
      by (auto simp: fleet_sets)
    have d: "card (deploying t) = card (deploying s) - 1" "0 < card (deploying s)"
      using sets fin by (auto simp: card_gt_0_iff)
    have f: "card (failures t) \<le> Suc (card (failures s))"
      using card_mono [OF _ sets(4)] fin card_insert_le_m1 [of "Suc (card (failures s))" "failures s" i]
      by (metis card_insert_le_m1 diff_Suc_1 finite_insert le_trans order_refl zero_less_Suc)
    have same: "fl_pc t = fl_pc s" "fl_failed t = fl_failed s" "fl_sem t = fl_sem s" "fl_next t = fl_next s"
      using finish by simp_all
    have "card (failures t) + card (deploying t) \<le> card (failures s) + card (deploying s)"
      using d f by linarith
    then show ?thesis
      using assms(2) okt same sets(1)
      by (auto simp: fleet_inv_def loop_holds_def)
  next
    case (flag i ok)
    then have sets: "busy t = busy s" "deploying t = deploying s" "failures t = failures s"
      by (auto simp: fleet_sets)
    have same: "fl_pc t = fl_pc s" "fl_sem t = fl_sem s" "fl_next t = fl_next s"
      using flag by simp_all
    have "card (failures s) + card (deploying s) + (if fl_pc s = CheckContext then 1 else 0) \<le> cap"
      if "\<not> fl_failed s"
    proof -
      have sub: "failures s \<subseteq> busy s - deploying s"
        using oks that by (rule early_failures_busy)
      have "card (failures s) + card (deploying s) = card (failures s \<union> deploying s)"
        using sub fin by (intro card_Un_disjoint [symmetric]) auto
      also have "\<dots> \<le> card (busy s)"
        using sub fin deploying_busy [of s] by (intro card_mono) auto
      finally show ?thesis
        using assms(2) by (auto simp: fleet_inv_def loop_holds_def split: if_splits)
    qed
    then show ?thesis
      using assms(2) okt same sets
      by (cases "fl_failed s") (auto simp: fleet_inv_def loop_holds_def)
  next
    case (release i)
    then have sets: "busy t = busy s - {i}" "deploying t = deploying s" "failures t = failures s" "i \<in> busy s"
      by (auto simp: fleet_sets)
    have c: "card (busy t) = card (busy s) - 1" "0 < card (busy s)"
      using sets fin by (auto simp: card_gt_0_iff)
    have same: "fl_pc t = fl_pc s" "fl_failed t = fl_failed s" "fl_sem t = fl_sem s - 1" "fl_next t = fl_next s"
      using release by simp_all
    show ?thesis
      using assms(2) okt same sets c
      by (auto simp: fleet_inv_def loop_holds_def)
  next
    case cancel
    then have "busy t = busy s" "deploying t = deploying s" "failures t = failures s"
      by (simp_all add: fleet_sets)
    with cancel assms(2) okt show ?thesis
      by (auto simp: fleet_inv_def loop_holds_def)
  qed
qed

lemma fleet_reachable_inv: "fleet_reachable par failFast n s \<Longrightarrow> fleet_inv (slots par) failFast n s"
proof -
  assume "fleet_reachable par failFast n s"
  then have "(fleet_step (slots par) failFast n)\<^sup>*\<^sup>* fleet_start s"
    by (simp add: fleet_reachable_def)
  then show ?thesis
    by (induction rule: rtranclp_induct) (auto intro: fleet_inv_start fleet_inv_step)
qed


section \<open>Every run ends\<close>

primrec phase_cost :: "phase \<Rightarrow> nat" where
  "phase_cost Idle = 0"
| "phase_cost Deploying = 4"
| "phase_cost (Recorded ok) = 3"
| "phase_cost Flagged = 2"
| "phase_cost Finished = 0"

primrec pc_cost :: "loop_pc \<Rightarrow> nat" where
  "pc_cost Acquiring = 3"
| "pc_cost CheckFailed = 2"
| "pc_cost CheckContext = 1"
| "pc_cost Waiting = 1"
| "pc_cost Joined = 0"

definition fleet_cost :: "nat \<Rightarrow> fleet \<Rightarrow> nat" where
  "fleet_cost n s = 8 * (n - fl_next s) + pc_cost (fl_pc s) + (\<Sum>i<n. phase_cost (fl_phase s i))
     + (if fl_cancelled s then 0 else 1)"

lemma fleet_cost_start: "fleet_cost n fleet_start = 8 * n + 4"
  by (simp add: fleet_cost_def fleet_start_def)

lemma phase_sum_update:
  fixes ph :: "nat \<Rightarrow> phase" and i n :: nat
  shows "i < n \<Longrightarrow> (\<Sum>j<n. phase_cost ((ph(i := x)) j)) + phase_cost (ph i)
     = (\<Sum>j<n. phase_cost (ph j)) + phase_cost x"
proof -
  assume i: "i < n"
  have same: "(\<Sum>j\<in>{..<n} - {i}. phase_cost ((ph(i := x)) j)) = (\<Sum>j\<in>{..<n} - {i}. phase_cost (ph j))"
    by (rule sum.cong) auto
  have "(\<Sum>j<n. phase_cost ((ph(i := x)) j)) = phase_cost x + (\<Sum>j\<in>{..<n} - {i}. phase_cost (ph j))"
    using i by (subst sum.remove [where x = i]) (simp_all add: same del: fun_upd_apply add: fun_upd_same)
  moreover have "(\<Sum>j<n. phase_cost (ph j)) = phase_cost (ph i) + (\<Sum>j\<in>{..<n} - {i}. phase_cost (ph j))"
    using i by (subst sum.remove [where x = i]) simp_all
  ultimately show ?thesis by linarith
qed

lemma fleet_step_cost:
  assumes "fleet_step cap failFast n s t" and "fleet_inv cap failFast n s"
  shows "fleet_cost n t < fleet_cost n s"
proof -
  have oks: "\<forall>i. server_ok s i" and nn: "fl_next s \<le> n"
    and lt: "fl_pc s \<in> {CheckFailed, CheckContext} \<Longrightarrow> fl_next s < n"
    using assms(2) by (auto simp: fleet_inv_def)
  have running: "i < n" if "fl_phase s i \<notin> {Idle, Finished}" for i
    using that oks server_ok_launched nn by (meson less_le_trans)
  have idle: "fl_phase s (fl_next s) = Idle"
    using oks [rule_format, of "fl_next s"] by (auto simp: server_ok_def split: phase.splits)
  from assms(1) show ?thesis
  proof cases
    case launch
    then show ?thesis
      using phase_sum_update [of "fl_next s" n "fl_phase s" Deploying] lt idle
      by (simp add: fleet_cost_def)
  next
    case (finish i ok)
    then show ?thesis
      using phase_sum_update [of i n "fl_phase s" "Recorded ok"] running [of i]
      by (simp add: fleet_cost_def)
  next
    case (flag i ok)
    then show ?thesis
      using phase_sum_update [of i n "fl_phase s" Flagged] running [of i] by (simp add: fleet_cost_def)
  next
    case (release i)
    then show ?thesis
      using phase_sum_update [of i n "fl_phase s" Finished] running [of i] by (simp add: fleet_cost_def)
  qed (use lt nn in \<open>auto simp: fleet_cost_def skip_server_def\<close>)
qed

lemma fleet_worker_step: "i \<in> busy s \<Longrightarrow> \<exists>t. fleet_step cap failFast n s t"
  by (cases "fl_phase s i") (auto simp: busy_def intro: fleet_step.finish fleet_step.flag fleet_step.release)

lemma fleet_progress:
  assumes "fleet_inv cap failFast n s" and "0 < cap" and "fl_pc s \<noteq> Joined"
  shows "\<exists>t. fleet_step cap failFast n s t"
proof (cases "busy s = {}")
  case False
  then show ?thesis using fleet_worker_step by blast
next
  case True
  then have sem: "fl_sem s = loop_holds s" and nn: "fl_next s \<le> n"
    using assms(1) by (simp_all add: fleet_inv_def)
  show ?thesis
  proof (cases "fl_pc s")
    case Acquiring
    show ?thesis
    proof (cases "fl_next s < n")
      case True
      moreover have "fl_sem s < cap"
        using Acquiring sem assms(2) by (simp add: loop_holds_def)
      ultimately show ?thesis
        using Acquiring fleet_step.acquire by blast
    next
      case False
      with nn have "fl_next s = n" by simp
      with Acquiring show ?thesis
        using fleet_step.loop_end by blast
    qed
  next
    case CheckFailed
    then show ?thesis
      by (cases "failFast \<and> fl_failed s") (auto intro: fleet_step.skip_failed fleet_step.not_failed)
  next
    case CheckContext
    then show ?thesis
      by (cases "fl_cancelled s") (auto intro: fleet_step.skip_cancelled fleet_step.launch)
  next
    case Waiting
    with True have "fleet_step cap failFast n s (s\<lparr>fl_pc := Joined\<rparr>)"
      by (intro fleet_step.join) (auto simp: busy_def)
    then show ?thesis ..
  qed (use assms(3) in simp)
qed

lemma slots_positive: "0 < slots par"
  by (simp add: slots_def)

lemma joined_results:
  assumes "fleet_inv cap failFast n s" and "fl_pc s = Joined" and "i < n"
  shows "fl_result s i \<noteq> None"
proof -
  have "server_ok s i" and "i \<notin> busy s" and "i < fl_next s"
    using assms by (auto simp: fleet_inv_def)
  then show ?thesis
    by (cases "fl_phase s i") (auto simp: server_ok_def busy_def)
qed

text \<open>
  C23. A fleet run keeps its promises under every interleaving of the launching loop, the workers
  and a cancellation: at most \<open>parallel\<close> servers are being deployed to at any time (one, when the
  number given is not positive); a fail-fast run never fails on more than that many servers; and
  a server has no result while its deployment runs and exactly one kind of result once it ended.
\<close>

theorem fleet_bounds:
  assumes "fleet_reachable par failFast n s"
  shows "card (busy s) \<le> slots par \<and> (failFast \<longrightarrow> card (failures s) \<le> slots par)
    \<and> (\<forall>i. fl_phase s i = Deploying \<longrightarrow> fl_result s i = None)
    \<and> (fl_pc s = Joined \<longrightarrow> busy s = {} \<and> (\<forall>i<n. fl_result s i \<noteq> None))"
proof -
  note inv = fleet_reachable_inv [OF assms]
  have oks: "\<forall>i. server_ok s i" using inv by (simp add: fleet_inv_def)
  have b: "card (busy s) \<le> slots par"
    using inv by (simp add: fleet_inv_def)
  moreover have "card (failures s) \<le> slots par" if "failFast"
  proof (cases "fl_failed s")
    case True
    with inv that show ?thesis by (simp add: fleet_inv_def)
  next
    case False
    then have "failures s \<subseteq> busy s"
      using early_failures_busy [OF oks] by blast
    then show ?thesis
      using b card_mono finite_fleet(1) [OF oks] le_trans by blast
  qed
  moreover have "fl_result s i = None" if "fl_phase s i = Deploying" for i
    using oks [rule_format, of i] that by (simp add: server_ok_def)
  moreover have "busy s = {}" if "fl_pc s = Joined"
    using inv that by (simp add: fleet_inv_def)
  moreover have "fl_result s i \<noteq> None" if "fl_pc s = Joined" "i < n" for i
    using joined_results [OF inv that] .
  ultimately show ?thesis by blast
qed

theorem fleet_bounds_witness:
  "card (busy (fleet_start\<lparr>fl_sem := 1, fl_pc := CheckFailed\<rparr>)) \<le> 2"
proof -
  have "fleet_reachable 2 True 3 (fleet_start\<lparr>fl_sem := 1, fl_pc := CheckFailed\<rparr>)"
    unfolding fleet_reachable_def
    by (rule r_into_rtranclp)
      (use fleet_step.acquire [of fleet_start 3 "slots 2" True] in \<open>simp add: fleet_start_def slots_def\<close>)
  from fleet_bounds [OF this] show ?thesis
    by (simp add: slots_def)
qed

text \<open>
  C24. A fleet run always ends: no interleaving takes more than eight steps per server and four
  more, no reachable state is stuck before all workers are joined, and so from every reachable
  state the run gets to a joined state in which every server has a result.
\<close>

theorem fleet_terminates:
  assumes "fleet_reachable par failFast n s"
  shows "(\<forall>k t. (fleet_step (slots par) failFast n ^^ k) s t \<longrightarrow> k \<le> 8 * n + 4)
    \<and> (fl_pc s \<noteq> Joined \<longrightarrow> (\<exists>t. fleet_step (slots par) failFast n s t))
    \<and> (\<exists>t. (fleet_step (slots par) failFast n)\<^sup>*\<^sup>* s t \<and> fl_pc t = Joined \<and> (\<forall>i<n. fl_result t i \<noteq> None))"
proof -
  let ?R = "fleet_step (slots par) failFast n" and ?I = "fleet_inv (slots par) failFast n"
  have inv: "?I s"
    using assms by (rule fleet_reachable_inv)
  have cost: "fleet_cost n t + k \<le> fleet_cost n u \<and> ?I t" if "(?R ^^ k) u t" and "?I u" for k u t
    using that
  proof (induction k arbitrary: t)
    case (Suc k)
    then obtain v where v: "(?R ^^ k) u v" and step: "?R v t" by auto
    with Suc have "fleet_cost n v + k \<le> fleet_cost n u" and iv: "?I v" by auto
    moreover have "fleet_cost n t < fleet_cost n v"
      using step iv by (rule fleet_step_cost)
    ultimately show ?case
      using fleet_inv_step [OF step iv] by simp
  qed simp
  have "\<exists>m. (?R ^^ m) fleet_start s"
    using assms by (simp add: fleet_reachable_def rtranclp_imp_relpowp)
  then obtain m where "(?R ^^ m) fleet_start s" ..
  then have start: "fleet_cost n s + m \<le> 8 * n + 4"
    using cost [OF _ fleet_inv_start, of m s] by (simp add: fleet_cost_start)
  have bound: "k \<le> 8 * n + 4" if "(?R ^^ k) s t" for k t
    using cost [OF that inv] start by linarith
  have prog: "\<exists>t. ?R u t" if "?I u" and "fl_pc u \<noteq> Joined" for u
    using that slots_positive by (intro fleet_progress)
  have ends: "\<exists>t. ?R\<^sup>*\<^sup>* u t \<and> fl_pc t = Joined \<and> ?I t" if "?I u" for u
    using that
  proof (induction "fleet_cost n u" arbitrary: u rule: less_induct)
    case less
    show ?case
    proof (cases "fl_pc u = Joined")
      case True
      with less.prems show ?thesis by blast
    next
      case False
      then obtain v where step: "?R u v"
        using prog less.prems by blast
      with less.hyps [of v] less.prems fleet_step_cost fleet_inv_step
      obtain t where "?R\<^sup>*\<^sup>* v t" "fl_pc t = Joined" "?I t" by blast
      with step show ?thesis
        by (meson converse_rtranclp_into_rtranclp)
    qed
  qed
  show ?thesis
    using bound prog [OF inv] ends [OF inv] joined_results by blast
qed

theorem fleet_terminates_witness:
  "\<exists>t. (fleet_step 1 True 2)\<^sup>*\<^sup>* fleet_start t \<and> fl_pc t = Joined
     \<and> fl_result t 0 \<noteq> None \<and> fl_result t 1 \<noteq> None"
proof -
  have "fleet_reachable 0 True 2 fleet_start"
    by (simp add: fleet_reachable_def)
  from fleet_terminates [OF this] show ?thesis
    by (auto simp: slots_def)
qed

text \<open>
  The prefixing writer loses nothing and reorders nothing: while the underlying writer
  succeeds, the fragments it has written, stripped of their prefix, followed by what it still
  buffers, are exactly the old buffer followed by the new bytes; every fragment is a single line
  or exactly 64 KiB of one, and less than 64 KiB without a newline stay buffered.
\<close>

theorem prefix_writer_lossless:
  assumes "pending_ok (pw_buf pw)" and "sk_fails k = []"
    and "PrefixWriter_Write pw p k = (r, pw', k')"
  shows "r = (length p, True) \<and> pending_ok (pw_buf pw') \<and> pw_prefix pw' = pw_prefix pw
    \<and> (\<exists>fs. sk_out k' = sk_out k @ map ((@) (pw_prefix pw)) fs \<and> list_all fragment_ok fs
         \<and> concat fs @ pw_buf pw' = pw_buf pw @ p)"
  using write_loop_spec [OF assms(1,2), of "pw_prefix pw" 0 p] assms(3)
  by (cases "write_loop (pw_prefix pw) (pw_buf pw) 0 p k") (auto simp: PrefixWriter_Write_def)

theorem prefix_writer_lossless_witness:
  "\<exists>r pw' k' fs. PrefixWriter_Write (NewPrefixWriter ''[web1] '') (''pulling'' @ [newline] @ ''do'')
       \<lparr>sk_out = [], sk_fails = []\<rparr> = (r, pw', k')
     \<and> concat fs @ pw_buf pw' = ''pulling'' @ [newline] @ ''do''"
proof -
  let ?p = "''pulling'' @ [newline] @ ''do''" and ?k = "\<lparr>sk_out = [], sk_fails = []\<rparr>"
  obtain r pw' k' where run: "PrefixWriter_Write (NewPrefixWriter ''[web1] '') ?p ?k = (r, pw', k')"
    by (cases "PrefixWriter_Write (NewPrefixWriter ''[web1] '') ?p ?k") auto
  have "pending_ok (pw_buf (NewPrefixWriter ''[web1] ''))"
    by (simp add: NewPrefixWriter_def pending_ok_def fragmentLimit_def)
  from prefix_writer_lossless [OF this _ run] run show ?thesis
    by (auto simp: NewPrefixWriter_def)
qed

section \<open>The summary and the guard's answer\<close>

text \<open>A result as the summary sees it: the error's body, if there was one.\<close>

record fleet_result =
  fr_Server :: string
  fr_Success :: bool
  fr_Error :: "string option"

definition skipped_message :: string where
  "skipped_message = ''skipped: previous server failed''"

fun result_lines :: "fleet_result list \<Rightarrow> nat \<times> nat \<times> nat \<times> string" where
  "result_lines [] = (0, 0, 0, [])"
| "result_lines (r # rs) =
     (let (ok, failed, skipped, body) = result_lines rs
      in if fr_Success r then (ok + 1, failed, skipped, ''  '' @ fr_Server r @ '': success'' @ [newline] @ body)
         else if fr_Error r = Some skipped_message then
           (ok, failed, skipped + 1, ''  '' @ fr_Server r @ '': skipped'' @ [newline] @ body)
         else (ok, failed + 1, skipped,
               ''  '' @ fr_Server r @ '': failed ('' @ (case fr_Error r of Some e \<Rightarrow> e | None \<Rightarrow> ''<nil>'')
               @ '')'' @ [newline] @ body))"

definition FormatResults :: "fleet_result list \<Rightarrow> string" where
  "FormatResults rs =
     (let (ok, failed, skipped, body) = result_lines rs
      in [newline] @ ''Deploy summary: '' @ nat_to_string ok @ '' succeeded, '' @ nat_to_string failed
         @ '' failed, '' @ nat_to_string skipped @ '' skipped'' @ [newline] @ body)"

lemma result_lines_total:
  "result_lines rs = (ok, failed, skipped, body) \<Longrightarrow> ok + failed + skipped = length rs"
  by (induction rs arbitrary: ok failed skipped body) (auto split: prod.splits if_splits)

section \<open>The target-side guard\<close>

text \<open>\<open>shQuote\<close>: one word for the POSIX shell; a quote in it closes, escapes and reopens.\<close>

fun quote_escape :: "string \<Rightarrow> string" where
  "quote_escape [] = []"
| "quote_escape (c # cs) =
     (if c = CHR 0x27 then [CHR 0x27, CHR 0x5C, CHR 0x27, CHR 0x27] else [c]) @ quote_escape cs"

definition shQuote :: "string \<Rightarrow> string" where
  "shQuote s = [CHR 0x27] @ quote_escape s @ [CHR 0x27]"

definition helperRemote :: string where
  "helperRemote = ''/tmp/teploy-guard.sh''"

definition guard_invocation :: "string \<Rightarrow> nat \<Rightarrow> string \<Rightarrow> string" where
  "guard_invocation app gen cmd =
     ''sh '' @ helperRemote @ '' '' @ shQuote app @ '' '' @ nat_to_string gen @ '' -- '' @ shQuote cmd"

datatype guard_answer =
    GuardOK string
  | GuardBusy
  | GuardFenced string string
  | GuardUnfit
  | GuardBadGeneration
  | GuardEffectFailed string string
  | GuardProtocol string
  | GuardUploadFailed
  | GuardInvokeFailed string

text \<open>\<open>orDash(field(fields, i))\<close>\<close>

definition guard_field :: "string list \<Rightarrow> nat \<Rightarrow> string" where
  "guard_field fs i = (if i < length fs \<and> fs ! i \<noteq> [] then fs ! i else ''?'')"

text \<open>The first line that begins with \<open>GUARD_\<close>, trimmed, and the lines after it.\<close>

fun guard_head :: "string list \<Rightarrow> (string \<times> string list) option" where
  "guard_head [] = None"
| "guard_head (l # ls) = (if prefix ''GUARD_'' (trim_space l) then Some (trim_space l, ls) else guard_head ls)"

definition read_guard_answer :: "string \<Rightarrow> guard_answer" where
  "read_guard_answer out =
     (case guard_head (lines_of out) of
        None \<Rightarrow> GuardProtocol (hd (lines_of out))
      | Some (head, ls) \<Rightarrow>
          (let rest = trim_newlines (unlines ls); fs = fields_of head; f = hd fs
           in if f = ''GUARD_OK'' then GuardOK rest
              else if f = ''GUARD_BUSY'' then GuardBusy
              else if f = ''GUARD_FENCED'' then GuardFenced (guard_field fs 1) (guard_field fs 2)
              else if f = ''GUARD_UNFIT'' then GuardUnfit
              else if f = ''GUARD_BADGEN'' then GuardBadGeneration
              else if f = ''GUARD_EFFECT_FAILED'' then GuardEffectFailed (guard_field fs 1) rest
              else GuardProtocol head))"

text \<open>
  \<open>Run\<close>: the upload succeeds or fails; the invocation's output and whether it failed are the
  executor's answer to the command line.
\<close>

definition guard_Run ::
  "bool \<Rightarrow> (string \<Rightarrow> string \<times> bool) \<Rightarrow> string \<Rightarrow> nat \<Rightarrow> string \<Rightarrow> guard_answer" where
  "guard_Run uploaded exec app gen cmd =
     (if \<not> uploaded then GuardUploadFailed
      else (let (out, failed) = exec (guard_invocation app gen cmd)
            in if failed then GuardInvokeFailed (trim_space out) else read_guard_answer out))"

text \<open>
  How a POSIX shell reads one word: text in single quotes is itself, a backslash outside quotes
  makes the next character itself, a blank ends the word, and any other character with a meaning
  to the shell is refused here. The result is the word and what follows it.
\<close>

definition shell_special :: "char \<Rightarrow> bool" where
  "shell_special c \<longleftrightarrow> c \<in> set ([newline, CHR 0x22, CHR 0x60, CHR 0x28, CHR 0x29] @ ''$;|&<>*?[]{}~#!'')"

fun shell_word :: "bool \<Rightarrow> string \<Rightarrow> (string \<times> string) option" where
  "shell_word quoted [] = (if quoted then None else Some ([], []))"
| "shell_word True (c # cs) =
     (if c = CHR 0x27 then shell_word False cs
      else map_option (\<lambda>(w, r). (c # w, r)) (shell_word True cs))"
| "shell_word False (c # cs) =
     (if c = CHR 0x27 then shell_word True cs
      else if c = CHR '' '' then Some ([], c # cs)
      else if c = CHR 0x5C then
        (case cs of [] \<Rightarrow> None | d # ds \<Rightarrow> map_option (\<lambda>(w, r). (d # w, r)) (shell_word False ds))
      else if shell_special c then None
      else map_option (\<lambda>(w, r). (c # w, r)) (shell_word False cs))"

lemma shell_word_escape:
  "rest = [] \<or> hd rest = CHR '' '' \<Longrightarrow>
     shell_word True (quote_escape s @ CHR 0x27 # rest) = Some (s, rest)"
proof (induction s)
  case Nil
  then show ?case by (cases rest) auto
qed auto

text \<open>
  Whatever the guarded command contains, the shell that starts the helper reads it as one
  argument: quoting a text and reading the word back gives the text, up to the blank or the end
  that follows it; so no part of an effect runs outside the guard.
\<close>

theorem shQuote_one_word:
  assumes "rest = [] \<or> hd rest = CHR '' ''"
  shows "shell_word False (shQuote s @ rest) = Some (s, rest)"
  using shell_word_escape [OF assms, of s] by (simp add: shQuote_def)

theorem shQuote_one_word_witness:
  "shell_word False (shQuote (''echo it'' @ [CHR 0x27] @ ''s; rm x'') @ '' --'')
     = Some (''echo it'' @ [CHR 0x27] @ ''s; rm x'', '' --'')"
  by (rule shQuote_one_word) simp

lemma guard_head_skips_noise:
  "list_all (\<lambda>l. \<not> prefix ''GUARD_'' (trim_space l)) noise \<Longrightarrow> guard_head (noise @ ls) = guard_head ls"
  by (induction noise) auto

end
