(* ===== verification/ConfigMerge.thy ===== *)
theory ConfigMerge
  imports Prelude "HOL-Library.Multiset"
begin

text \<open>
  Concurrent edits of one \<open>teploy.yml\<close> (\<open>internal/confighome/merge.go\<close>): the key-by-key
  three-way merge, the dotted-path accessors that apply the operator's choice for a conflict, the
  loop of \<open>internal/cli/config.go\<close> that asks for it, the line diff shown before saving, and the
  names of changed keys.  A YAML document is what \<open>yaml.v3\<close> decodes it to; a Go map is its entries
  sorted by key, so that \<open>reflect.DeepEqual\<close> is equality.  The decoder and the encoder are
  parameters, and so is the order in which Go walks a map: every theorem holds for all orders.
\<close>

section \<open>Values and maps\<close>

text \<open>
  \<open>YOpaque\<close> is a value the code never looks into (a float, a timestamp, a map with a key that is
  not a string), by its canonical text.
\<close>

datatype yaml =
    YNull
  | YBool bool
  | YInt int
  | YStr string
  | YOpaque string
  | YSeq "yaml list"
  | YMap "(string \<times> yaml) list"

type_synonym ymap = "(string \<times> yaml) list"

fun wf_yaml :: "yaml \<Rightarrow> bool" where
  "wf_yaml (YSeq vs) \<longleftrightarrow> list_all wf_yaml vs"
| "wf_yaml (YMap m) \<longleftrightarrow> sorted_wrt (<) (map fst m) \<and> list_all (\<lambda>(_, v). wf_yaml v) m"
| "wf_yaml _ \<longleftrightarrow> True"

definition wf_map :: "ymap \<Rightarrow> bool" where
  "wf_map m \<longleftrightarrow> wf_yaml (YMap m)"

fun kv_put :: "string \<Rightarrow> 'a \<Rightarrow> (string \<times> 'a) list \<Rightarrow> (string \<times> 'a) list" where
  "kv_put k v [] = [(k, v)]"
| "kv_put k v ((a, b) # m) =
     (if k < a then (k, v) # (a, b) # m
      else if k = a then (k, v) # m
      else (a, b) # kv_put k v m)"

definition kv_del :: "string \<Rightarrow> (string \<times> 'a) list \<Rightarrow> (string \<times> 'a) list" where
  "kv_del k m = filter (\<lambda>(a, _). a \<noteq> k) m"

text \<open>The type assertion \<open>v.(map[string]any)\<close>, and the map it yields (nil, read as empty, if it fails).\<close>

definition is_map :: "yaml option \<Rightarrow> bool" where
  "is_map v = (case v of Some (YMap _) \<Rightarrow> True | _ \<Rightarrow> False)"

definition sub_map :: "yaml option \<Rightarrow> ymap" where
  "sub_map v = (case v of Some (YMap m) \<Rightarrow> m | _ \<Rightarrow> [])"

text \<open>What indexing a Go map gives for an absent key.\<close>

definition val_of :: "yaml option \<Rightarrow> yaml" where
  "val_of v = (case v of None \<Rightarrow> YNull | Some x \<Rightarrow> x)"

section \<open>The merge\<close>

definition changed :: "yaml option \<Rightarrow> yaml option \<Rightarrow> bool" where
  "changed x b \<longleftrightarrow> (x \<noteq> None) \<noteq> (b \<noteq> None) \<or> val_of x \<noteq> val_of b"

definition merge_leaf :: "string \<Rightarrow> yaml option \<Rightarrow> yaml option \<Rightarrow> yaml option \<Rightarrow> yaml option \<times> string list" where
  "merge_leaf p bv mv tv =
     (if \<not> changed tv bv then (mv, [])
      else if \<not> changed mv bv then (tv, [])
      else if (mv \<noteq> None) = (tv \<noteq> None) \<and> val_of mv = val_of tv then (mv, [])
      else (mv, [p]))"

definition join_path :: "string \<Rightarrow> string \<Rightarrow> string" where
  "join_path path k = (if path \<noteq> [] then path @ ''.'' @ k else k)"

definition union_keys :: "ymap list \<Rightarrow> string list" where
  "union_keys ms = remdups (map fst (concat ms))"

definition put_entries :: "(string \<times> yaml option \<times> string list) list \<Rightarrow> ymap" where
  "put_entries rs = fold (\<lambda>(k, v, _) out. case v of Some x \<Rightarrow> kv_put k x out | None \<Rightarrow> out) rs []"

lemma size_map_of: "map_of m k = Some v \<Longrightarrow> size v < size (YMap m)"
  by (induction m) (auto split: if_splits)

lemma size_sub_map: "is_map (map_of m k) \<Longrightarrow> size (YMap (sub_map (map_of m k))) < size (YMap m)"
  using size_map_of [of m k] by (auto simp: is_map_def sub_map_def split: option.splits yaml.splits)

function merge3Map ::
  "(string list \<Rightarrow> string list) \<Rightarrow> string \<Rightarrow> ymap \<Rightarrow> ymap \<Rightarrow> ymap \<Rightarrow> ymap \<times> string list" where
  "merge3Map ord path b m t =
     (let rs = map (\<lambda>k.
            let p = join_path path k; bv = map_of b k; mv = map_of m k; tv = map_of t k
            in if is_map mv \<and> is_map tv \<and> (is_map bv \<or> bv = None)
               then (let (r, cs) = merge3Map ord p (sub_map bv) (sub_map mv) (sub_map tv)
                     in (k, Some (YMap r), cs))
               else (k, merge_leaf p bv mv tv))
          (ord (union_keys [b, m, t]))
      in (put_entries rs, concat (map (\<lambda>(_, _, cs). cs) rs)))"
  by pat_completeness auto
termination
  by (relation "measure (\<lambda>(ord, path, b, m, t). size (YMap m))") (auto dest!: size_sub_map)

text \<open>
  \<open>yaml.v3\<close> as the code uses it: decoding into a map fails, yields a nil map for an empty document,
  or a map; encoding may fail.  A document is the decoder's own.
\<close>

record 'd yaml_lib =
  y_load :: "'d \<Rightarrow> (string, ymap option) result"
  y_dump :: "ymap \<Rightarrow> (string, 'd) result"

datatype merge_error =
    ParseError string string
  | DumpError string
  | MergedInvalid

definition load_map :: "'d yaml_lib \<Rightarrow> string \<Rightarrow> 'd \<Rightarrow> (merge_error, ymap) result" where
  "load_map Y who d =
     (case y_load Y d of Inl e \<Rightarrow> Inl (ParseError who e) | Inr None \<Rightarrow> Inr [] | Inr (Some m) \<Rightarrow> Inr m)"

definition marshalYAML :: "'d yaml_lib \<Rightarrow> ymap \<Rightarrow> (merge_error, 'd) result" where
  "marshalYAML Y m = (case y_dump Y m of Inl e \<Rightarrow> Inl (DumpError e) | Inr d \<Rightarrow> Inr d)"

definition Merge3 ::
  "'d yaml_lib \<Rightarrow> (string list \<Rightarrow> string list) \<Rightarrow> 'd \<Rightarrow> 'd \<Rightarrow> 'd \<Rightarrow> (merge_error, 'd \<times> string list) result" where
  "Merge3 Y ord base mine theirs =
     bind_result (load_map Y ''base'' base) (\<lambda>b.
     bind_result (load_map Y ''your edit'' mine) (\<lambda>m.
     bind_result (load_map Y ''the current config'' theirs) (\<lambda>t.
       let (out, conflicts) = merge3Map ord [] b m t
       in bind_result (marshalYAML Y out) (\<lambda>merged. Inr (merged, sort conflicts)))))"

section \<open>Dotted paths\<close>

abbreviation (input) dot :: char where
  "dot \<equiv> CHR 0x2E"

fun set_parts :: "ymap \<Rightarrow> string list \<Rightarrow> yaml option \<Rightarrow> ymap" where
  "set_parts cur [] v = cur"
| "set_parts cur [key] v = (case v of None \<Rightarrow> kv_del key cur | Some x \<Rightarrow> kv_put key x cur)"
| "set_parts cur (part # key # parts) v =
     kv_put part (YMap (set_parts (sub_map (map_of cur part)) (key # parts) v)) cur"

definition SetPath :: "'d yaml_lib \<Rightarrow> 'd \<Rightarrow> string \<Rightarrow> yaml \<Rightarrow> bool \<Rightarrow> (merge_error, 'd) result" where
  "SetPath Y doc path v remove =
     bind_result (load_map Y [] doc)
       (\<lambda>root. marshalYAML Y (set_parts root (split_on dot path) (if remove then None else Some v)))"

fun get_val :: "yaml \<Rightarrow> string list \<Rightarrow> yaml option" where
  "get_val v [] = Some v"
| "get_val v (k # ks) =
     (case v of
        YMap m \<Rightarrow> (case map_of m k of None \<Rightarrow> None | Some x \<Rightarrow> get_val x ks)
      | _ \<Rightarrow> None)"

definition GetPath :: "'d yaml_lib \<Rightarrow> 'd \<Rightarrow> string \<Rightarrow> yaml option" where
  "GetPath Y doc path =
     (case y_load Y doc of
        Inl _ \<Rightarrow> None
      | Inr r \<Rightarrow> get_val (YMap (case r of None \<Rightarrow> [] | Some m \<Rightarrow> m)) (split_on dot path))"

section \<open>Asking the operator\<close>

definition lower_char :: "char \<Rightarrow> char" where
  "lower_char c =
     (let n = of_char c :: nat in if 65 \<le> n \<and> n \<le> 90 then char_of (n + 32) else c)"

definition picks_current :: "string \<Rightarrow> bool" where
  "picks_current line \<longleftrightarrow> prefix ''c'' (map lower_char (trim_space line))"

text \<open>The loop over the conflicts; an answer is the line read, empty at the end of the input.\<close>

fun resolve_conflicts ::
  "'d yaml_lib \<Rightarrow> 'd \<Rightarrow> string list \<Rightarrow> string list \<Rightarrow> 'd \<Rightarrow> (merge_error, 'd) result" where
  "resolve_conflicts Y theirs [] answers merged = Inr merged"
| "resolve_conflicts Y theirs (path # paths) answers merged =
     (let line = (case answers of [] \<Rightarrow> [] | l # _ \<Rightarrow> l); tv = GetPath Y theirs path
      in if picks_current line
         then bind_result (SetPath Y merged path (val_of tv) (tv = None))
                (resolve_conflicts Y theirs paths (tl answers))
         else resolve_conflicts Y theirs paths (tl answers) merged)"

definition mergeConcurrentEdit ::
  "'d yaml_lib \<Rightarrow> (string list \<Rightarrow> string list) \<Rightarrow> ('d \<Rightarrow> bool) \<Rightarrow> 'd \<Rightarrow> 'd \<Rightarrow> 'd \<Rightarrow> string list
     \<Rightarrow> (merge_error, 'd) result" where
  "mergeConcurrentEdit Y ord valid base mine theirs answers =
     bind_result (Merge3 Y ord base mine theirs) (\<lambda>(merged, conflicts).
     bind_result (resolve_conflicts Y theirs conflicts answers merged) (\<lambda>out.
       if valid out then Inr out else Inl MergedInvalid))"

section \<open>Sorted entries\<close>

lemma map_of_kv_put [simp]: "map_of (kv_put k v m) = (map_of m)(k \<mapsto> v)"
  by (induction m) (auto simp: fun_eq_iff)

lemma map_of_kv_del [simp]: "map_of (kv_del k m) = (map_of m)(k := None)"
  by (induction m) (auto simp: kv_del_def fun_eq_iff)

lemma set_keys_kv_put [simp]: "fst ` set (kv_put k v m) = insert k (fst ` set m)"
  by (induction k v m rule: kv_put.induct) (simp_all add: insert_commute)

lemma sorted_kv_put:
  "sorted_wrt (<) (map fst m) \<Longrightarrow> sorted_wrt (<) (map fst (kv_put k v m))"
proof (induction m)
  case (Cons p m)
  obtain a b where p: "p = (a, b)" by (rule prod.exhaust)
  have keys: "\<forall>x \<in> fst ` set (kv_put k v m). x = k \<or> x \<in> fst ` set m" by auto
  show ?case
    using Cons p keys by (auto simp: not_less_iff_gr_or_eq)
qed simp

lemma kv_del_snd: "list_all (\<lambda>(_, v). P v) m \<Longrightarrow> list_all (\<lambda>(_, v). P v) (kv_del k m)"
  by (auto simp: kv_del_def list_all_iff)

lemma kv_put_snd:
  "list_all (\<lambda>(_, v). P v) m \<Longrightarrow> P x \<Longrightarrow> list_all (\<lambda>(_, v). P v) (kv_put k x m)"
  by (induction m) auto

lemma wf_map_Nil [simp]: "wf_map []"
  by (simp add: wf_map_def)

lemma wf_kv_put: "wf_map m \<Longrightarrow> wf_yaml v \<Longrightarrow> wf_map (kv_put k v m)"
  by (simp add: wf_map_def sorted_kv_put kv_put_snd)

lemma wf_kv_del: "wf_map m \<Longrightarrow> wf_map (kv_del k m)"
  by (simp add: wf_map_def kv_del_snd) (simp add: kv_del_def sorted_map_filter)

lemma wf_lookup: "wf_map m \<Longrightarrow> map_of m k = Some v \<Longrightarrow> wf_yaml v"
  by (auto simp: wf_map_def list_all_iff dest: map_of_SomeD)

lemma wf_sub_map: "wf_map m \<Longrightarrow> wf_map (sub_map (map_of m k))"
  using wf_lookup [of m k] by (auto simp: sub_map_def wf_map_def split: option.splits yaml.splits)

lemma sorted_entries_ext:
  "sorted_wrt (<) (map fst xs) \<Longrightarrow> sorted_wrt (<) (map fst ys) \<Longrightarrow> map_of xs = map_of ys \<Longrightarrow> xs = ys"
  for xs ys :: "(string \<times> 'a) list"
proof (induction xs arbitrary: ys)
  case Nil
  then show ?case by (cases ys) (auto simp: fun_eq_iff split: if_splits)
next
  case (Cons x xs)
  obtain a b where x: "x = (a, b)" by (rule prod.exhaust)
  have "map_of ys a = Some b" using fun_cong [OF Cons.prems(3), of a] x by simp
  then obtain c d ys' where ys: "ys = (c, d) # ys'" by (cases ys) auto
  have "map_of ((a, b) # xs) c = Some d" using fun_cong [OF Cons.prems(3), of c] x ys by simp
  then have "a \<le> c" using Cons.prems(1) x by (auto dest!: map_of_SomeD split: if_splits intro: less_imp_le)
  moreover have "c \<le> a"
    using \<open>map_of ys a = Some b\<close> Cons.prems(2) ys
    by (auto dest!: map_of_SomeD split: if_splits intro: less_imp_le)
  ultimately have ac: "a = c" by simp
  have bd: "b = d" using \<open>map_of ys a = Some b\<close> ys ac by simp
  have na: "map_of xs a = None" "map_of ys' a = None"
    using Cons.prems(1,2) x ys ac by (auto simp: map_of_eq_None_iff)
  have "map_of xs = map_of ys'"
  proof
    fix k show "map_of xs k = map_of ys' k"
      using fun_cong [OF Cons.prems(3), of k] x ys ac na by (cases "k = a") auto
  qed
  with Cons x ys show ?case using ac bd by simp
qed

lemma wf_map_ext: "wf_map m \<Longrightarrow> wf_map m' \<Longrightarrow> (\<And>k. map_of m k = map_of m' k) \<Longrightarrow> m = m'"
  by (rule sorted_entries_ext) (auto simp: wf_map_def)

section \<open>One level of the merge\<close>

lemma changed_iff [simp]: "changed x b \<longleftrightarrow> x \<noteq> b"
  by (auto simp: changed_def val_of_def split: option.splits)

lemma same_value [simp]: "(x \<noteq> None) = (y \<noteq> None) \<and> val_of x = val_of y \<longleftrightarrow> x = y"
  by (auto simp: val_of_def split: option.splits)

lemma merge_leaf_eq:
  "merge_leaf p bv mv tv =
     (if tv = bv then (mv, []) else if mv = bv then (tv, []) else if mv = tv then (mv, []) else (mv, [p]))"
  by (simp only: merge_leaf_def changed_iff same_value) simp

text \<open>The order in which Go walks a map: a permutation of its keys.\<close>

definition map_order :: "(string list \<Rightarrow> string list) \<Rightarrow> bool" where
  "map_order ord \<longleftrightarrow> (\<forall>ks. mset (ord ks) = mset ks)"

lemma map_order_set: "map_order ord \<Longrightarrow> set (ord ks) = set ks"
  unfolding map_order_def by (metis set_mset_mset)

lemma map_order_distinct: "map_order ord \<Longrightarrow> distinct ks \<Longrightarrow> distinct (ord ks)"
  unfolding map_order_def by (metis mset_eq_imp_distinct_iff)

lemma set_union_keys: "set (union_keys ms) = (\<Union>m \<in> set ms. fst ` set m)"
  by (auto simp: union_keys_def)

lemma distinct_union_keys [simp]: "distinct (union_keys ms)"
  by (simp add: union_keys_def)

definition recurses :: "yaml option \<Rightarrow> yaml option \<Rightarrow> yaml option \<Rightarrow> bool" where
  "recurses bv mv tv \<longleftrightarrow> is_map mv \<and> is_map tv \<and> (is_map bv \<or> bv = None)"

definition merge_entry ::
  "(string list \<Rightarrow> string list) \<Rightarrow> string \<Rightarrow> ymap \<Rightarrow> ymap \<Rightarrow> ymap \<Rightarrow> string \<Rightarrow> yaml option \<times> string list" where
  "merge_entry ord path b m t k =
     (let p = join_path path k; bv = map_of b k; mv = map_of m k; tv = map_of t k
      in if recurses bv mv tv
         then (let (r, cs) = merge3Map ord p (sub_map bv) (sub_map mv) (sub_map tv) in (Some (YMap r), cs))
         else merge_leaf p bv mv tv)"

declare merge3Map.simps [simp del]

lemma merge3Map_entries:
  "merge3Map ord path b m t =
     (let rs = map (\<lambda>k. (k, merge_entry ord path b m t k)) (ord (union_keys [b, m, t]))
      in (put_entries rs, concat (map (\<lambda>(_, _, cs). cs) rs)))"
  by (subst merge3Map.simps)
    (auto simp: merge_entry_def recurses_def Let_def split_beta intro!: arg_cong [where f = put_entries]
      arg_cong [where f = concat])

lemma fold_put_entries:
  fixes f :: "string \<Rightarrow> yaml option \<times> string list"
  assumes "distinct ks"
  shows "map_of (fold (\<lambda>(k, v, _) out. case v of Some x \<Rightarrow> kv_put k x out | None \<Rightarrow> out)
      (map (\<lambda>k. (k, f k)) ks) out) k = (if k \<in> set ks \<and> fst (f k) \<noteq> None then fst (f k) else map_of out k)"
  using assms by (induction ks arbitrary: out) (auto split: option.splits prod.splits)

lemma map_of_put_entries:
  fixes f :: "string \<Rightarrow> yaml option \<times> string list"
  shows "distinct ks \<Longrightarrow> map_of (put_entries (map (\<lambda>k. (k, f k)) ks)) k = (if k \<in> set ks then fst (f k) else None)"
  by (simp add: put_entries_def fold_put_entries)

lemma wf_fold_put_entries:
  "wf_map out \<Longrightarrow> (\<forall>(_, v, _) \<in> set rs. \<forall>x. v = Some x \<longrightarrow> wf_yaml x) \<Longrightarrow>
     wf_map (fold (\<lambda>(k, v, _) out. case v of Some x \<Rightarrow> kv_put k x out | None \<Rightarrow> out) rs out)"
  by (induction rs arbitrary: out) (auto simp: wf_kv_put split: option.splits)

lemma map_of_merge:
  assumes "map_order ord"
  shows "map_of (fst (merge3Map ord path b m t)) k = fst (merge_entry ord path b m t k)"
proof -
  have d: "distinct (ord (union_keys [b, m, t]))" by (rule map_order_distinct [OF assms]) simp
  have s: "set (ord (union_keys [b, m, t])) = fst ` set b \<union> fst ` set m \<union> fst ` set t"
    using map_order_set [OF assms] by (auto simp: set_union_keys)
  have "fst (merge_entry ord path b m t k) = None" if "k \<notin> fst ` set b \<union> fst ` set m \<union> fst ` set t"
    using that by (simp add: merge_entry_def recurses_def is_map_def merge_leaf_eq map_of_eq_None_iff [symmetric])
  then show ?thesis
    by (auto simp: merge3Map_entries Let_def map_of_put_entries [OF d] s)
qed

lemma merge_conflicts:
  assumes "map_order ord"
  shows "set (snd (merge3Map ord path b m t)) = (\<Union>k. set (snd (merge_entry ord path b m t k)))"
proof -
  have s: "set (ord (union_keys [b, m, t])) = fst ` set b \<union> fst ` set m \<union> fst ` set t"
    using map_order_set [OF assms] by (auto simp: set_union_keys)
  have "snd (merge_entry ord path b m t k) = []" if "k \<notin> fst ` set b \<union> fst ` set m \<union> fst ` set t" for k
    using that by (simp add: merge_entry_def recurses_def is_map_def merge_leaf_eq map_of_eq_None_iff [symmetric])
  then show ?thesis
    by (fastforce simp: merge3Map_entries Let_def s split_beta)
qed

lemma wf_merge:
  "wf_map b \<Longrightarrow> wf_map m \<Longrightarrow> wf_map t \<Longrightarrow> wf_map (fst (merge3Map ord path b m t))"
proof (induction ord path b m t rule: merge3Map.induct)
  case (1 ord path b m t)
  have "wf_yaml x" if "k \<in> set (ord (union_keys [b, m, t]))" "fst (merge_entry ord path b m t k) = Some x" for k x
  proof (cases "recurses (map_of b k) (map_of m k) (map_of t k)")
    case True
    then have "wf_map (fst (merge3Map ord (join_path path k) (sub_map (map_of b k)) (sub_map (map_of m k))
        (sub_map (map_of t k))))"
      using 1 that(1) wf_sub_map by (auto simp: recurses_def)
    with that(2) True show ?thesis
      by (auto simp: merge_entry_def Let_def split_beta wf_map_def)
  next
    case False
    with that(2) show ?thesis
      using 1(2-4) wf_lookup by (auto simp: merge_entry_def Let_def merge_leaf_eq split: if_splits)
  qed
  then have "wf_yaml x" if "k \<in> set (ord (union_keys [b, m, t]))" "(Some x, cs) = merge_entry ord path b m t k"
      for k x cs
    using that by (metis fst_conv)
  then show ?case
    by (auto simp: merge3Map_entries Let_def put_entries_def intro!: wf_fold_put_entries)
qed

section \<open>Both edits survive\<close>

lemma is_map_Some: "is_map v \<Longrightarrow> v = Some (YMap (sub_map v))"
  by (auto simp: is_map_def sub_map_def split: option.splits yaml.splits)

lemma merge_entry_cases [consumes 1, case_names recurse leaf]:
  assumes "map_order ord"
  obtains "recurses (map_of b k) (map_of m k) (map_of t k)"
      "merge_entry ord path b m t k =
        (let (r, cs) = merge3Map ord (join_path path k) (sub_map (map_of b k)) (sub_map (map_of m k)) (sub_map (map_of t k))
         in (Some (YMap r), cs))"
    | "\<not> recurses (map_of b k) (map_of m k) (map_of t k)"
      "merge_entry ord path b m t k = merge_leaf (join_path path k) (map_of b k) (map_of m k) (map_of t k)"
  by (cases "recurses (map_of b k) (map_of m k) (map_of t k)") (auto simp: merge_entry_def Let_def)

text \<open>
  The three ways in which one path of the result is determined: theirs did not change it, both
  agree on it, or (without conflicts) mine did not change it.
\<close>

definition path_of :: "ymap \<Rightarrow> string list \<Rightarrow> yaml option" where
  "path_of m ks = get_val (YMap m) ks"

lemma path_of_simps [simp]:
  "path_of m [] = Some (YMap m)"
  "path_of m (k # ks) = (case map_of m k of None \<Rightarrow> None | Some v \<Rightarrow> get_val v ks)"
  by (simp_all add: path_of_def)

lemma path_of_map:
  "is_map (map_of m k) \<Longrightarrow> path_of m (k # ks) = path_of (sub_map (map_of m k)) ks"
  by (cases "map_of m k") (auto simp: is_map_def sub_map_def path_of_def split: yaml.splits)

lemma path_of_base:
  "is_map (map_of b k) \<or> map_of b k = None \<Longrightarrow>
     ks \<noteq> [] \<or> is_map (map_of b k) \<Longrightarrow> path_of (sub_map (map_of b k)) ks = path_of b (k # ks)"
  using path_of_map [of b k] by (cases ks) (auto simp: sub_map_def)

definition determined ::
  "bool \<Rightarrow> ymap \<Rightarrow> ymap \<Rightarrow> ymap \<Rightarrow> ymap \<Rightarrow> string list \<Rightarrow> bool" where
  "determined clean r b m t ks \<longleftrightarrow>
     (path_of t ks = path_of b ks \<longrightarrow> path_of r ks = path_of m ks)
   \<and> (path_of m ks = path_of t ks \<longrightarrow> path_of r ks = path_of m ks)
   \<and> (clean \<longrightarrow> path_of m ks = path_of b ks \<longrightarrow> path_of r ks = path_of t ks)"

lemma determined_leaf:
  assumes "map_of r k = fst (merge_leaf p (map_of b k) (map_of m k) (map_of t k))"
    and "clean \<longrightarrow> snd (merge_leaf p (map_of b k) (map_of m k) (map_of t k)) = []"
  shows "determined clean r b m t (k # ks)"
  using assms by (auto simp: determined_def merge_leaf_eq split: if_splits)

lemma determined_recurse:
  assumes "recurses (map_of b k) (map_of m k) (map_of t k)" and "map_of r k = Some (YMap r')"
    and "determined clean r' (sub_map (map_of b k)) (sub_map (map_of m k)) (sub_map (map_of t k)) ks"
  shows "determined clean r b m t (k # ks)"
proof -
  have M: "path_of m (k # ks) = path_of (sub_map (map_of m k)) ks"
    and T: "path_of t (k # ks) = path_of (sub_map (map_of t k)) ks"
    using assms(1) path_of_map by (auto simp: recurses_def simp del: path_of_simps)
  have R: "path_of r (k # ks) = path_of r' ks"
    using assms(2) by (simp add: path_of_def)
  have B: "path_of (sub_map (map_of b k)) ks = path_of b (k # ks) \<or> ks = [] \<and> path_of b (k # ks) = None"
    using assms(1) path_of_base [of b k ks] by (auto simp: recurses_def simp del: path_of_simps(1))
  have "path_of (sub_map (map_of m k)) [] \<noteq> None" "path_of (sub_map (map_of t k)) [] \<noteq> None" by simp_all
  with B assms(3) show ?thesis
    unfolding determined_def M T R by metis
qed

lemma recurses_key: "recurses bv (map_of m k) tv \<Longrightarrow> k \<in> fst ` set m"
  by (rule ccontr) (simp add: recurses_def is_map_def map_of_eq_None_iff [symmetric])

lemma determined_Nil:
  assumes "wf_map r" "wf_map m" "wf_map t" and "\<And>k. determined clean r b m t [k]"
  shows "determined clean r b m t []"
proof -
  have lk: "path_of x [k] = map_of x k" for x k by (simp split: option.splits)
  have "t = b \<Longrightarrow> r = m" "m = t \<Longrightarrow> r = m" "clean \<Longrightarrow> m = b \<Longrightarrow> r = t"
    using assms(4) wf_map_ext [OF assms(1,2)] wf_map_ext [OF assms(1,3)]
    unfolding determined_def lk by blast+
  then show ?thesis by (auto simp: determined_def)
qed

lemma merge_determined:
  "map_order ord \<Longrightarrow> wf_map b \<Longrightarrow> wf_map m \<Longrightarrow> wf_map t \<Longrightarrow>
     clean \<longrightarrow> snd (merge3Map ord path b m t) = [] \<Longrightarrow>
     determined clean (fst (merge3Map ord path b m t)) b m t ks"
proof (induction ord path b m t arbitrary: ks rule: merge3Map.induct)
  case (1 ord path b m t ks)
  let ?r = "fst (merge3Map ord path b m t)"
  have quiet: "clean \<longrightarrow> snd (merge_entry ord path b m t k) = []" for k
    using 1(6) merge_conflicts [OF 1(2), of path b m t] by auto
  have step: "determined clean ?r b m t (k # ks)" for k ks
    using 1(2)
  proof (cases rule: merge_entry_cases [of ord b k m t path])
    case recurse
    let ?s = "merge3Map ord (join_path path k) (sub_map (map_of b k)) (sub_map (map_of m k)) (sub_map (map_of t k))"
    have "k \<in> set (ord (union_keys [b, m, t]))"
      using recurses_key [OF recurse(1)] by (simp add: map_order_set [OF 1(2)] set_union_keys)
    then have "determined clean (fst ?s) (sub_map (map_of b k)) (sub_map (map_of m k)) (sub_map (map_of t k)) ks"
      using recurse quiet [of k] 1(2-5) wf_sub_map
      by (intro 1(1)) (auto simp: recurses_def Let_def split_beta)
    moreover have "map_of ?r k = Some (YMap (fst ?s))"
      using map_of_merge [OF 1(2)] recurse(2) by (simp add: Let_def split_beta)
    ultimately show ?thesis using determined_recurse [OF recurse(1)] by blast
  next
    case leaf
    then show ?thesis
      using map_of_merge [OF 1(2), of path b m t k] quiet [of k] by (intro determined_leaf) auto
  qed
  show ?case
  proof (cases ks)
    case Nil
    then show ?thesis unfolding Nil by (intro determined_Nil wf_merge 1(3-5) step)
  next
    case (Cons k ks')
    then show ?thesis using step by simp
  qed
qed

section \<open>The order of iteration does not matter\<close>

lemma sorted_fold_put_entries:
  "sorted_wrt (<) (map fst out) \<Longrightarrow>
     sorted_wrt (<) (map fst (fold (\<lambda>(k, v, _) out. case v of Some x \<Rightarrow> kv_put k x out | None \<Rightarrow> out) rs out))"
  by (induction rs arbitrary: out) (auto simp: sorted_kv_put split: option.splits)

lemma sorted_merge: "sorted_wrt (<) (map fst (fst (merge3Map ord path b m t)))"
  by (simp add: merge3Map_entries Let_def put_entries_def sorted_fold_put_entries)

lemma mset_merge_conflicts:
  "mset (snd (merge3Map ord path b m t))
     = (\<Sum>k \<in># mset (ord (union_keys [b, m, t])). mset (snd (merge_entry ord path b m t k)))"
  by (simp add: merge3Map_entries Let_def mset_concat o_def split_beta flip: sum_mset_sum_list)

lemma merge_any_order:
  "map_order ord \<Longrightarrow> map_order ord' \<Longrightarrow>
     fst (merge3Map ord path b m t) = fst (merge3Map ord' path b m t)
   \<and> mset (snd (merge3Map ord path b m t)) = mset (snd (merge3Map ord' path b m t))"
proof (induction ord path b m t rule: merge3Map.induct)
  case (1 ord path b m t)
  have e: "fst (merge_entry ord path b m t k) = fst (merge_entry ord' path b m t k)
      \<and> mset (snd (merge_entry ord path b m t k)) = mset (snd (merge_entry ord' path b m t k))" for k
  proof (cases "recurses (map_of b k) (map_of m k) (map_of t k)")
    case True
    then have "k \<in> set (ord (union_keys [b, m, t]))"
      by (simp add: recurses_key map_order_set [OF 1(2)] set_union_keys)
    with True show ?thesis
      using 1 by (auto simp: merge_entry_def recurses_def Let_def split_beta)
  qed (simp add: merge_entry_def)
  have "fst (merge3Map ord path b m t) = fst (merge3Map ord' path b m t)"
    using e map_of_merge [OF 1(2)] map_of_merge [OF 1(3)]
    by (intro sorted_entries_ext sorted_merge) (auto simp: fun_eq_iff)
  moreover have "mset (ord (union_keys [b, m, t])) = mset (ord' (union_keys [b, m, t]))"
    using 1(2,3) by (simp add: map_order_def)
  ultimately show ?case
    using e by (simp add: mset_merge_conflicts)
qed

lemma sort_mset_eq: "mset xs = mset ys \<Longrightarrow> sort xs = sort ys" for xs ys :: "'a :: linorder list"
  by (rule properties_for_sort) simp_all

lemma sorted_conflicts_any_order:
  "map_order ord \<Longrightarrow> map_order ord' \<Longrightarrow>
     sort (snd (merge3Map ord path b m t)) = sort (snd (merge3Map ord' path b m t))"
  using merge_any_order [of ord ord' path b m t] by (intro sort_mset_eq) blast

lemma Merge3_any_order:
  assumes "map_order ord" and "map_order ord'"
  shows "Merge3 Y ord base mine theirs = Merge3 Y ord' base mine theirs"
  using merge_any_order [OF assms] sorted_conflicts_any_order [OF assms]
  by (simp add: Merge3_def Let_def split_beta)

section \<open>Where the conflicts are\<close>

fun conflict_at :: "ymap \<Rightarrow> ymap \<Rightarrow> ymap \<Rightarrow> string list \<Rightarrow> bool" where
  "conflict_at b m t [] \<longleftrightarrow> False"
| "conflict_at b m t (k # ks) \<longleftrightarrow>
     (if recurses (map_of b k) (map_of m k) (map_of t k)
      then conflict_at (sub_map (map_of b k)) (sub_map (map_of m k)) (sub_map (map_of t k)) ks
      else ks = [] \<and> map_of t k \<noteq> map_of b k \<and> map_of m k \<noteq> map_of b k \<and> map_of m k \<noteq> map_of t k)"

lemma merge_conflict_paths:
  "map_order ord \<Longrightarrow>
     set (snd (merge3Map ord path b m t)) = {foldl join_path path ks |ks. conflict_at b m t ks}"
proof (induction ord path b m t rule: merge3Map.induct)
  case (1 ord path b m t)
  have e: "set (snd (merge_entry ord path b m t k))
      = {foldl join_path (join_path path k) ks |ks. conflict_at b m t (k # ks)}" for k
  proof (cases "recurses (map_of b k) (map_of m k) (map_of t k)")
    case True
    then have "k \<in> set (ord (union_keys [b, m, t]))"
      by (simp add: recurses_key map_order_set [OF 1(2)] set_union_keys)
    with True show ?thesis
      using 1 by (auto simp: merge_entry_def recurses_def Let_def split_beta)
  qed (auto simp: merge_entry_def merge_leaf_eq Let_def)
  have "{foldl join_path path ks |ks. conflict_at b m t ks}
      = (\<Union>k. {foldl join_path (join_path path k) ks |ks. conflict_at b m t (k # ks)})"
    by (auto simp del: conflict_at.simps(2)) (metis conflict_at.simps(1) foldl_Cons list.exhaust)+
  with e show ?case by (simp add: merge_conflicts [OF 1(2)] del: conflict_at.simps)
qed

lemma conflicts_apart:
  "conflict_at b m t ks \<Longrightarrow> conflict_at b m t ks' \<Longrightarrow> prefix ks ks' \<Longrightarrow> ks = ks'"
proof (induction b m t ks arbitrary: ks' rule: conflict_at.induct)
  case (2 b m t k ks)
  then obtain js where "ks' = k # js" "prefix ks js" by (auto simp: prefix_Cons elim: prefixE)
  with 2 show ?case by (auto split: if_splits)
qed simp

lemma conflict_keeps_mine:
  "map_order ord \<Longrightarrow> conflict_at b m t ks \<Longrightarrow>
     path_of (fst (merge3Map ord path b m t)) ks = path_of m ks"
proof (induction b m t ks arbitrary: path rule: conflict_at.induct)
  case (2 b m t k ks)
  show ?case
  proof (cases "recurses (map_of b k) (map_of m k) (map_of t k)")
    case True
    then have M: "path_of m (k # ks) = path_of (sub_map (map_of m k)) ks"
      by (intro path_of_map) (simp add: recurses_def)
    have "map_of (fst (merge3Map ord path b m t)) k = Some (YMap (fst (merge3Map ord (join_path path k)
        (sub_map (map_of b k)) (sub_map (map_of m k)) (sub_map (map_of t k)))))"
      using True by (simp add: map_of_merge [OF 2(2)] merge_entry_def Let_def split_beta)
    then show ?thesis
      using 2 True unfolding M by (auto simp: path_of_def)
  next
    case False
    with 2(3) show ?thesis
      by (auto simp: map_of_merge [OF 2(2)] merge_entry_def merge_leaf_eq)
  qed
qed simp

text \<open>Maps none of whose keys is empty or contains a dot, at any level.\<close>

definition plain_key :: "string \<Rightarrow> bool" where
  "plain_key k \<longleftrightarrow> k \<noteq> [] \<and> dot \<notin> set k"

fun plain_yaml :: "yaml \<Rightarrow> bool" where
  "plain_yaml (YSeq vs) \<longleftrightarrow> True"
| "plain_yaml (YMap m) \<longleftrightarrow> list_all (\<lambda>(k, v). plain_key k \<and> plain_yaml v) m"
| "plain_yaml _ \<longleftrightarrow> True"

definition plain_map :: "ymap \<Rightarrow> bool" where
  "plain_map m \<longleftrightarrow> plain_yaml (YMap m)"

lemma plain_map_lookup:
  "plain_map m \<Longrightarrow> map_of m k = Some v \<Longrightarrow> plain_key k \<and> plain_yaml v"
  by (auto simp: plain_map_def list_all_iff dest: map_of_SomeD)

lemma plain_sub_map: "plain_map m \<Longrightarrow> plain_map (sub_map (map_of m k))"
  using plain_map_lookup [of m k]
  by (cases "map_of m k") (auto simp: sub_map_def plain_map_def split: yaml.splits)

lemma conflict_plain:
  "plain_map b \<Longrightarrow> plain_map m \<Longrightarrow> plain_map t \<Longrightarrow> conflict_at b m t ks \<Longrightarrow>
     ks \<noteq> [] \<and> (\<forall>k \<in> set ks. plain_key k)"
proof (induction b m t ks rule: conflict_at.induct)
  case (2 b m t k ks)
  have "map_of m k \<noteq> None \<or> map_of t k \<noteq> None"
    using 2(5) by (auto simp: recurses_def is_map_def split: if_splits)
  then have "plain_key k"
    using plain_map_lookup [OF 2(3)] plain_map_lookup [OF 2(4)] by auto
  then show ?case
    using 2 plain_sub_map by (auto split: if_splits)
qed simp

lemma foldl_join_path:
  "path \<noteq> [] \<Longrightarrow> foldl join_path path ks = join_with [dot] (path # ks)"
proof (induction ks arbitrary: path)
  case (Cons k ks)
  then have "foldl join_path path (k # ks) = join_with [dot] ((path @ [dot] @ k) # ks)"
    by (subst foldl_Cons) (simp add: join_path_def [of path k])
  then show ?case by (cases ks) simp_all
qed simp

lemma split_conflict_path:
  assumes "ks \<noteq> []" and "\<forall>k \<in> set ks. plain_key k"
  shows "split_on dot (foldl join_path [] ks) = ks"
proof -
  obtain k js where ks: "ks = k # js" using assms(1) by (cases ks) auto
  have "foldl join_path [] ks = join_with [dot] ks"
    using assms(2) foldl_join_path [of k js] by (simp add: ks join_path_def plain_key_def)
  then show ?thesis
    using split_join [of ks dot] assms by (simp add: plain_key_def)
qed

section \<open>Applying the choices\<close>

lemma wf_YMap [simp]: "wf_yaml (YMap m) \<longleftrightarrow> wf_map m"
  by (simp only: wf_map_def)

declare wf_yaml.simps(2) [simp del]

lemma get_set_parts:
  "ps \<noteq> [] \<Longrightarrow> path_of (set_parts m ps v) (ps @ xs) = (case v of None \<Rightarrow> None | Some x \<Rightarrow> get_val x xs)"
  by (induction m ps v rule: set_parts.induct) (auto simp: path_of_def split: option.splits)

lemma get_val_sub_map: "get_val (YMap (sub_map v)) (k # ks) = (case v of None \<Rightarrow> None | Some x \<Rightarrow> get_val x (k # ks))"
  by (auto simp: sub_map_def split: option.splits yaml.splits)

lemma get_set_parts_other:
  "\<not> prefix ps ks \<Longrightarrow> \<not> prefix ks ps \<Longrightarrow> path_of (set_parts m ps v) ks = path_of m ks"
proof (induction m ps v arbitrary: ks rule: set_parts.induct)
  case (3 cur part key parts v)
  obtain k js where ks: "ks = k # js" using 3(3) by (cases ks) auto
  show ?case
  proof (cases "k = part")
    case True
    then have "path_of (set_parts (sub_map (map_of cur part)) (key # parts) v) js = path_of (sub_map (map_of cur part)) js"
      using 3 ks by simp
    moreover obtain j is' where "js = j # is'" using 3(3) ks True by (cases js) auto
    ultimately show ?thesis
      using True ks get_val_sub_map [of "map_of cur part"] by (simp add: path_of_def del: get_val.simps(2))
        (simp add: path_of_def split: option.splits)
  qed (simp add: ks)
next
  case (2 cur key v)
  then obtain k js where ks: "ks = k # js" "k \<noteq> key" by (cases ks) auto
  then show ?case by (simp split: option.split)
qed simp

lemma wf_set_parts: "wf_map m \<Longrightarrow> (\<forall>x. v = Some x \<longrightarrow> wf_yaml x) \<Longrightarrow> wf_map (set_parts m ps v)"
  by (induction m ps v rule: set_parts.induct)
    (auto simp: wf_kv_put wf_kv_del wf_sub_map split: option.splits)

text \<open>The documented contract of the encoder and the decoder.\<close>

definition good_codec :: "'d yaml_lib \<Rightarrow> bool" where
  "good_codec Y \<longleftrightarrow>
     (\<forall>d m. y_load Y d = Inr (Some m) \<longrightarrow> wf_map m)
   \<and> (\<forall>d m. wf_map m \<longrightarrow> y_dump Y m = Inr d \<longrightarrow> y_load Y d = Inr (Some m))"

lemma loaded_wf: "good_codec Y \<Longrightarrow> y_load Y d = Inr (Some m) \<Longrightarrow> wf_map m"
  unfolding good_codec_def by blast

lemma dumped_loads: "good_codec Y \<Longrightarrow> wf_map m \<Longrightarrow> y_dump Y m = Inr d \<Longrightarrow> y_load Y d = Inr (Some m)"
  unfolding good_codec_def by blast

definition doc_map :: "'d yaml_lib \<Rightarrow> 'd \<Rightarrow> ymap" where
  "doc_map Y d = (case y_load Y d of Inr (Some m) \<Rightarrow> m | _ \<Rightarrow> [])"

lemma wf_doc_map: "good_codec Y \<Longrightarrow> wf_map (doc_map Y d)"
  by (auto simp: doc_map_def split: sum.splits option.splits dest: loaded_wf)

lemma load_map_Inr: "load_map Y who d = Inr m \<Longrightarrow> m = doc_map Y d"
  by (auto simp: load_map_def doc_map_def split: sum.splits option.splits)

lemma marshal_Inr: "good_codec Y \<Longrightarrow> wf_map m \<Longrightarrow> marshalYAML Y m = Inr d \<Longrightarrow> doc_map Y d = m"
  using dumped_loads [of Y m d] by (simp add: doc_map_def marshalYAML_def split: sum.splits)

lemma GetPath_path_of: "GetPath Y d p = (case y_load Y d of Inl _ \<Rightarrow> None | Inr _ \<Rightarrow> path_of (doc_map Y d) (split_on dot p))"
  by (auto simp: GetPath_def doc_map_def path_of_def split: sum.splits option.splits)

lemma get_val_wf: "wf_yaml v \<Longrightarrow> get_val v ks = Some x \<Longrightarrow> wf_yaml x"
  by (induction v ks rule: get_val.induct) (auto split: yaml.splits option.splits dest: wf_lookup)

lemma path_of_wf: "wf_map m \<Longrightarrow> path_of m ks = Some x \<Longrightarrow> wf_yaml x"
  using get_val_wf [of "YMap m" ks x] by (simp only: path_of_def wf_YMap)

lemma get_val_append: "get_val v (ks @ xs) = (case get_val v ks of None \<Rightarrow> None | Some x \<Rightarrow> get_val x xs)"
  by (induction v ks rule: get_val.induct) (auto split: yaml.splits option.splits)

text \<open>The conflicts for which the operator picked the current value.\<close>

fun picked :: "string list \<Rightarrow> string list \<Rightarrow> string set" where
  "picked [] answers = {}"
| "picked (p # ps) answers =
     (if picks_current (case answers of [] \<Rightarrow> [] | l # _ \<Rightarrow> l) then insert p (picked ps (tl answers))
      else picked ps (tl answers))"

lemma picked_subset: "picked ps answers \<subseteq> set ps"
  by (induction ps answers rule: picked.induct) auto

definition apart :: "string list \<Rightarrow> bool" where
  "apart ps \<longleftrightarrow> (\<forall>p \<in> set ps. \<forall>q \<in> set ps. prefix (split_on dot p) (split_on dot q) \<longrightarrow> p = q)"

lemma SetPath_Inr:
  assumes "good_codec Y" and "SetPath Y doc p v remove = Inr d" and "remove \<or> wf_yaml v"
  shows "doc_map Y d = set_parts (doc_map Y doc) (split_on dot p) (if remove then None else Some v)"
proof -
  obtain m where "load_map Y [] doc = Inr m"
    and d: "marshalYAML Y (set_parts m (split_on dot p) (if remove then None else Some v)) = Inr d"
    using assms(2) by (auto simp: SetPath_def bind_result_Inr)
  then have m: "m = doc_map Y doc" by (simp add: load_map_Inr)
  show ?thesis
    using marshal_Inr [OF assms(1) _ d] wf_set_parts [OF wf_doc_map [OF assms(1)]] assms(3) by (auto simp: m)
qed

lemma resolve_paths:
  "good_codec Y \<Longrightarrow> apart ps \<Longrightarrow> (\<exists>l. y_load Y theirs = Inr l) \<Longrightarrow>
   resolve_conflicts Y theirs ps answers merged = Inr out \<Longrightarrow>
     (\<forall>p \<in> picked ps answers. prefix (split_on dot p) ks \<longrightarrow> path_of (doc_map Y out) ks = path_of (doc_map Y theirs) ks)
   \<and> ((\<forall>p \<in> picked ps answers. \<not> prefix (split_on dot p) ks \<and> \<not> prefix ks (split_on dot p)) \<longrightarrow>
        path_of (doc_map Y out) ks = path_of (doc_map Y merged) ks)"
proof (induction Y theirs ps answers merged rule: resolve_conflicts.induct)
  case (2 Y theirs path paths answers merged)
  let ?line = "case answers of [] \<Rightarrow> [] | l # _ \<Rightarrow> l"
  have ap: "apart paths" using 2(4) by (simp add: apart_def)
  show ?case
  proof (cases "picks_current ?line")
    case False
    with 2 ap show ?thesis by (simp add: Let_def)
  next
    case True
    define tv where "tv = GetPath Y theirs path"
    obtain d where d: "SetPath Y merged path (val_of tv) (tv = None) = Inr d"
      and out: "resolve_conflicts Y theirs paths (tl answers) d = Inr out"
      using 2(6) True by (auto simp: Let_def tv_def bind_result_Inr)
    have tv: "tv = path_of (doc_map Y theirs) (split_on dot path)"
      using 2(5) by (auto simp: tv_def GetPath_path_of)
    have "tv = None \<or> wf_yaml (val_of tv)"
      using path_of_wf [OF wf_doc_map [OF 2(3)], of theirs "split_on dot path"]
      by (cases tv) (simp_all add: tv [symmetric] val_of_def)
    then have doc: "doc_map Y d = set_parts (doc_map Y merged) (split_on dot path) tv"
      using SetPath_Inr [OF 2(3) d] by (cases tv) (auto simp: val_of_def)
    have same: "path_of (doc_map Y d) ks = path_of (doc_map Y theirs) ks"
      if pre: "prefix (split_on dot path) ks"
    proof -
      obtain xs where ks: "ks = split_on dot path @ xs" using pre by (rule prefixE)
      show ?thesis
        unfolding doc ks get_set_parts [OF split_on_not_Nil] by (simp add: tv path_of_def get_val_append)
    qed
    have other: "path_of (doc_map Y d) ks = path_of (doc_map Y merged) ks"
      if "\<not> prefix (split_on dot path) ks" "\<not> prefix ks (split_on dot path)"
      using get_set_parts_other [OF that] by (simp add: doc)
    have new: "p = path \<or> \<not> prefix ks (split_on dot p)"
      if "prefix (split_on dot path) ks" "p \<in> picked paths (tl answers)" for p
      using that 2(4) picked_subset [of paths "tl answers"] unfolding apart_def
      by (metis list.set_intros(1,2) prefix_order.trans subsetD)
    have IH: "(\<forall>p \<in> picked paths (tl answers). prefix (split_on dot p) ks \<longrightarrow>
          path_of (doc_map Y out) ks = path_of (doc_map Y theirs) ks)
        \<and> ((\<forall>p \<in> picked paths (tl answers). \<not> prefix (split_on dot p) ks \<and> \<not> prefix ks (split_on dot p)) \<longrightarrow>
          path_of (doc_map Y out) ks = path_of (doc_map Y d) ks)"
      using 2(1) [OF refl refl _ 2(3) ap 2(5) out] True by (simp add: tv_def)
    have "path_of (doc_map Y out) ks = path_of (doc_map Y theirs) ks" if "prefix (split_on dot path) ks"
      using IH new [OF that] same [OF that] that by metis
    then show ?thesis using IH other True by (auto simp: Let_def)
  qed
qed simp

section \<open>The properties of a merge\<close>

text \<open>Documents that are their own decoding, for concrete instances.\<close>

definition plain_codec :: "ymap yaml_lib" where
  "plain_codec = \<lparr>y_load = (\<lambda>m. if wf_map m then Inr (Some m) else Inl ''keys''), y_dump = Inr\<rparr>"

lemma good_plain_codec: "good_codec plain_codec"
  by (simp add: good_codec_def plain_codec_def)

definition demo_base :: ymap where
  "demo_base = [(''app'', YStr ''shop''), (''env'', YMap [(''A'', YStr ''1''), (''B'', YStr ''2'')])]"

definition demo_mine :: ymap where
  "demo_mine = [(''app'', YStr ''shop''), (''env'', YMap [(''A'', YStr ''9''), (''B'', YStr ''3'')])]"

definition demo_theirs :: ymap where
  "demo_theirs = [(''app'', YStr ''shop''), (''env'', YMap [(''B'', YStr ''4''), (''C'', YStr ''5'')])]"

definition demo_theirs_clean :: ymap where
  "demo_theirs_clean =
     [(''app'', YStr ''shop''), (''env'', YMap [(''A'', YStr ''1''), (''B'', YStr ''2''), (''C'', YStr ''5'')])]"

lemmas demo_docs = demo_base_def demo_mine_def demo_theirs_def demo_theirs_clean_def

lemma wf_demo: "wf_map demo_base" "wf_map demo_mine" "wf_map demo_theirs" "wf_map demo_theirs_clean"
  by code_simp+

lemma conflict_differs:
  "conflict_at b m t ks \<Longrightarrow>
     path_of t ks \<noteq> path_of b ks \<and> path_of m ks \<noteq> path_of b ks \<and> path_of m ks \<noteq> path_of t ks"
proof (induction b m t ks rule: conflict_at.induct)
  case (2 b m t k ks)
  show ?case
  proof (cases "recurses (map_of b k) (map_of m k) (map_of t k)")
    case True
    with 2 have c: "conflict_at (sub_map (map_of b k)) (sub_map (map_of m k)) (sub_map (map_of t k)) ks" by simp
    then have "ks \<noteq> []" by auto
    then have "path_of x (k # ks) = path_of (sub_map (map_of x k)) ks" if "is_map (map_of x k) \<or> map_of x k = None" for x
      using path_of_base [OF that] by simp
    then show ?thesis using 2(1) [OF True c] True by (simp add: recurses_def del: path_of_simps)
  next
    case False
    have "path_of x [k] = map_of x k" for x by (simp split: option.splits)
    with False 2(2) show ?thesis by (simp del: path_of_simps)
  qed
qed simp

text \<open>
  Merging and assigning keep documents well formed: from maps whose keys are unique and sorted
  at every level, the merge gives such a map, in it every key comes from one of the two edits
  (nothing both removed comes back), and assigning or removing any path in it gives such a map
  again.
\<close>

theorem merge_well_formed:
  assumes "map_order ord" and "wf_map b" "wf_map m" "wf_map t"
  shows "wf_map (fst (merge3Map ord path b m t))
    \<and> (\<forall>k. map_of (fst (merge3Map ord path b m t)) k \<noteq> None \<longrightarrow> map_of m k \<noteq> None \<or> map_of t k \<noteq> None)
    \<and> (\<forall>ps v. (\<forall>x. v = Some x \<longrightarrow> wf_yaml x) \<longrightarrow> wf_map (set_parts (fst (merge3Map ord path b m t)) ps v))"
proof -
  have "fst (merge_entry ord path b m t k) \<noteq> None \<longrightarrow> map_of m k \<noteq> None \<or> map_of t k \<noteq> None" for k
    using assms(1) by (cases rule: merge_entry_cases [of ord b k m t path])
      (auto simp: recurses_def is_map_def merge_leaf_eq)
  then show ?thesis
    using wf_merge [OF assms(2-4)] wf_set_parts by (simp add: map_of_merge [OF assms(1)])
qed

theorem merge_well_formed_witness:
  "wf_map (fst (merge3Map rev [] demo_base demo_mine demo_theirs))
    \<and> map_of (fst (merge3Map rev [] demo_base demo_mine demo_theirs)) ''env'' \<noteq> None"
proof (rule conjI)
  have o: "map_order rev" by (simp add: map_order_def)
  show "wf_map (fst (merge3Map rev [] demo_base demo_mine demo_theirs))"
    using merge_well_formed [OF o wf_demo(1-3), of "[]"] by blast
  show "map_of (fst (merge3Map rev [] demo_base demo_mine demo_theirs)) ''env'' \<noteq> None" by code_simp
qed



text \<open>
  Go walks maps in a random order, and it does not show: whatever the order at every level, the
  merged document, the list of conflicts and the outcome of a whole concurrent edit are the same.
\<close>

theorem merge_order_invisible:
  assumes "map_order ord" and "map_order ord'"
  shows "Merge3 Y ord base mine theirs = Merge3 Y ord' base mine theirs
    \<and> mergeConcurrentEdit Y ord valid base mine theirs answers
      = mergeConcurrentEdit Y ord' valid base mine theirs answers"
  unfolding mergeConcurrentEdit_def Merge3_any_order [OF assms] by simp

theorem merge_order_invisible_witness:
  "Merge3 plain_codec id demo_base demo_mine demo_theirs = Merge3 plain_codec rev demo_base demo_mine demo_theirs"
  by (rule merge_order_invisible [THEN conjunct1]) (simp_all add: map_order_def)

lemma Merge3_Inr:
  assumes "good_codec Y" and "Merge3 Y ord base mine theirs = Inr (merged, cs)"
  shows "doc_map Y merged = fst (merge3Map ord [] (doc_map Y base) (doc_map Y mine) (doc_map Y theirs))"
    and "cs = sort (snd (merge3Map ord [] (doc_map Y base) (doc_map Y mine) (doc_map Y theirs)))"
    and "\<exists>l. y_load Y theirs = Inr l"
proof -
  obtain b m t where l: "load_map Y ''base'' base = Inr b" "load_map Y ''your edit'' mine = Inr m"
      "load_map Y ''the current config'' theirs = Inr t"
    and d: "marshalYAML Y (fst (merge3Map ord [] b m t)) = Inr merged" "cs = sort (snd (merge3Map ord [] b m t))"
    using assms(2) by (auto simp: Merge3_def bind_result_Inr Let_def split_beta)
  note docs = l [THEN load_map_Inr]
  then have "wf_map b" "wf_map m" "wf_map t" using wf_doc_map [OF assms(1)] by simp_all
  then show "doc_map Y merged = fst (merge3Map ord [] (doc_map Y base) (doc_map Y mine) (doc_map Y theirs))"
    using marshal_Inr [OF assms(1) wf_merge d(1)] docs by simp
  show "cs = sort (snd (merge3Map ord [] (doc_map Y base) (doc_map Y mine) (doc_map Y theirs)))"
    using d(2) docs by simp
  show "\<exists>l. y_load Y theirs = Inr l"
    using l(3) by (auto simp: load_map_def split: sum.splits)
qed



text \<open>
  C9. The choice for a key that contains a dot is lost.  Both sides changed the cache rule of the
  pattern \<open>*.css\<close>; the operator picks the current one.  The conflict is called \<open>cache.*.css\<close> and
  read as three keys, so the saved document still holds the operator's own rule, the current rule is
  gone, and an empty map has appeared under the key \<open>*\<close>.
\<close>

definition cache_doc :: "string \<Rightarrow> ymap" where
  "cache_doc v = [(''cache'', YMap [(''*.css'', YStr v)])]"

theorem dotted_key_choice_lost:
  "Merge3 plain_codec id (cache_doc ''a'') (cache_doc ''b'') (cache_doc ''c'')
      = Inr (cache_doc ''b'', [''cache.*.css''])
   \<and> mergeConcurrentEdit plain_codec id (\<lambda>_. True) (cache_doc ''a'') (cache_doc ''b'') (cache_doc ''c'') [''c'']
      = Inr [(''cache'', YMap [(''*'', YMap []), (''*.css'', YStr ''b'')])]"
  by (rule conjI) code_simp+

end
