(* ===== verification/ConfigEdit.thy ===== *)
theory ConfigEdit
  imports ConfigMerge
begin

text \<open>
  The rest of \<open>internal/confighome/merge.go\<close>: the line diff shown before a config is saved, and
  \<open>EditPath\<close>, which sets or removes one key of a document while keeping its other keys, their order
  and their comments.
\<close>

section \<open>The line diff\<close>

definition diff_lines_of :: "string \<Rightarrow> string list" where
  "diff_lines_of s = (let s = trim_newlines s in if s = [] then [] else split_on newline s)"

text \<open>
  The table of longest common subsequences, filled from the last row up and each row from the
  right: a row is computed from the one below it.
\<close>

fun lcs_row :: "string \<Rightarrow> string list \<Rightarrow> nat list \<Rightarrow> nat list" where
  "lcs_row x (y # ys) (d # ds) =
     (let row = lcs_row x ys ds
      in (if x = y then hd ds + 1 else if d \<ge> hd row then d else hd row) # row)"
| "lcs_row x _ _ = [0]"

fun lcs_table :: "string list \<Rightarrow> string list \<Rightarrow> nat list list" where
  "lcs_table [] bl = [replicate (length bl + 1) 0]"
| "lcs_table (x # al) bl = (let t = lcs_table al bl in lcs_row x bl (hd t) # t)"

text \<open>
  The walk.  The indices \<open>i\<close> and \<open>j\<close> of the code are the positions at which the remaining lines
  start.
\<close>

fun diff_walk :: "nat \<Rightarrow> nat \<Rightarrow> nat list list \<Rightarrow> string list \<Rightarrow> string list \<Rightarrow> string" where
  "diff_walk n m lcs [] [] = []"
| "diff_walk n m lcs (x # xs) [] = ''-'' @ x @ [newline] @ diff_walk n m lcs xs []"
| "diff_walk n m lcs [] (y # ys) = ''+'' @ y @ [newline] @ diff_walk n m lcs [] ys"
| "diff_walk n m lcs (x # xs) (y # ys) =
     (let i = n - length (x # xs); j = m - length (y # ys)
      in if x = y then '' '' @ x @ [newline] @ diff_walk n m lcs xs ys
         else if lcs ! (i + 1) ! j \<ge> lcs ! i ! (j + 1)
              then ''-'' @ x @ [newline] @ diff_walk n m lcs xs (y # ys)
         else ''+'' @ y @ [newline] @ diff_walk n m lcs (x # xs) ys)"

definition Diff :: "string \<Rightarrow> string \<Rightarrow> string \<Rightarrow> string \<Rightarrow> string" where
  "Diff aLabel bLabel a b =
     (let al = diff_lines_of a; bl = diff_lines_of b
      in if join_with [newline] al = join_with [newline] bl then []
         else ''--- '' @ aLabel @ [newline] @ ''+++ '' @ bLabel @ [newline]
              @ diff_walk (length al) (length bl) (lcs_table al bl) al bl)"

text \<open>Longest common subsequences by their recursion.\<close>

fun lcs_len :: "string list \<Rightarrow> string list \<Rightarrow> nat" where
  "lcs_len (x # xs) (y # ys) =
     (if x = y then lcs_len xs ys + 1 else max (lcs_len xs (y # ys)) (lcs_len (x # xs) ys))"
| "lcs_len _ _ = 0"

lemma lcs_len_Nil [simp]: "lcs_len xs [] = 0"
  by (cases xs) simp_all

definition suffix_row :: "string list \<Rightarrow> string list \<Rightarrow> nat list" where
  "suffix_row al bl = map (\<lambda>j. lcs_len al (drop j bl)) [0..<length bl + 1]"

lemma suffix_row_Cons: "suffix_row al (y # ys) = lcs_len al (y # ys) # suffix_row al ys"
  by (simp add: suffix_row_def map_upt_Suc del: upt_Suc)

lemma suffix_row_Nil [simp]: "suffix_row al [] = [0]"
  by (simp add: suffix_row_def)

lemma hd_suffix_row [simp]: "hd (suffix_row al bl) = lcs_len al bl"
  by (cases bl) (simp_all add: suffix_row_Cons)

lemma lcs_row_suffix: "lcs_row x bl (suffix_row al bl) = suffix_row (x # al) bl"
  by (induction bl) (auto simp: suffix_row_Cons Let_def)

lemma lcs_table_eq: "lcs_table al bl = map (\<lambda>i. suffix_row (drop i al) bl) [0..<length al + 1]"
proof (induction al)
  case Nil
  have "suffix_row [] bl = replicate (length bl + 1) 0"
    by (induction bl) (simp_all add: suffix_row_Cons)
  then show ?case by simp
next
  case (Cons x al)
  have "map (\<lambda>i. suffix_row (drop i (x # al)) bl) [0..<length (x # al) + 1]
      = suffix_row (x # al) bl # map (\<lambda>i. suffix_row (drop i al) bl) [0..<length al + 1]"
    by (simp add: map_upt_Suc del: upt_Suc)
  moreover have "hd (lcs_table al bl) = suffix_row al bl"
    by (simp add: Cons upt_rec)
  ultimately show ?case
    using Cons by (simp add: Let_def lcs_row_suffix)
qed

lemma lcs_table_nth:
  "i \<le> length al \<Longrightarrow> j \<le> length bl \<Longrightarrow> lcs_table al bl ! i ! j = lcs_len (drop i al) (drop j bl)"
  unfolding lcs_table_eq suffix_row_def by (simp add: nth_append del: upt_Suc)

text \<open>The lines of the walk, each with the side it belongs to, and the walk without the table.\<close>

fun diff_script :: "string list \<Rightarrow> string list \<Rightarrow> string list" where
  "diff_script [] [] = []"
| "diff_script (x # xs) [] = (CHR ''-'' # x) # diff_script xs []"
| "diff_script [] (y # ys) = (CHR ''+'' # y) # diff_script [] ys"
| "diff_script (x # xs) (y # ys) =
     (if x = y then (CHR '' '' # x) # diff_script xs ys
      else if lcs_len xs (y # ys) \<ge> lcs_len (x # xs) ys then (CHR ''-'' # x) # diff_script xs (y # ys)
      else (CHR ''+'' # y) # diff_script (x # xs) ys)"

lemma drop_at: "suffix xs al \<Longrightarrow> drop (length al - length xs) al = xs"
  by (auto simp: suffix_def)

lemma diff_walk_script:
  "suffix xs al \<Longrightarrow> suffix ys bl \<Longrightarrow>
     diff_walk (length al) (length bl) (lcs_table al bl) xs ys
       = concat (map (\<lambda>l. l @ [newline]) (diff_script xs ys))"
proof (induction xs ys rule: diff_script.induct)
  case (4 x xs y ys)
  note s = suffix_ConsD [OF 4(4)] suffix_ConsD [OF 4(5)]
  have l: "length (x # xs) \<le> length al" "length (y # ys) \<le> length bl"
    using suffix_length_le [OF 4(4)] suffix_length_le [OF 4(5)] by simp_all
  then have n: "length al - length (x # xs) + 1 = length al - length xs"
      "length bl - length (y # ys) + 1 = length bl - length ys"
    by simp_all
  have tab: "lcs_table al bl ! (length al - length (x # xs) + 1) ! (length bl - length (y # ys)) = lcs_len xs (y # ys)"
      "lcs_table al bl ! (length al - length (x # xs)) ! (length bl - length (y # ys) + 1) = lcs_len (x # xs) ys"
    unfolding n using 4(4,5) s by (simp_all only: lcs_table_nth drop_at diff_le_self)
  show ?case
  proof (cases "x = y")
    case True
    then show ?thesis using 4(1) [OF True s] by (simp add: Let_def)
  next
    case False
    show ?thesis
      unfolding diff_walk.simps Let_def tab diff_script.simps
      using 4(2) [OF False _ s(1) 4(5)] 4(3) [OF False _ 4(4) s(2)] by (simp only: False if_False split: if_split) simp
  qed
next
  case (2 x xs)
  then show ?case using suffix_ConsD [OF 2(2)] by simp
next
  case (3 y ys)
  then show ?case using suffix_ConsD [OF 3(3)] by simp
qed simp

definition old_side :: "string list \<Rightarrow> string list" where
  "old_side ls = map tl (filter (\<lambda>l. hd l \<noteq> CHR ''+'') ls)"

definition new_side :: "string list \<Rightarrow> string list" where
  "new_side ls = map tl (filter (\<lambda>l. hd l \<noteq> CHR ''-'') ls)"

definition common_lines :: "string list \<Rightarrow> nat" where
  "common_lines ls = length (filter (\<lambda>l. hd l = CHR '' '') ls)"

lemma old_side_script [simp]: "old_side (diff_script xs ys) = xs"
  by (induction xs ys rule: diff_script.induct) (auto simp: old_side_def)

lemma new_side_script [simp]: "new_side (diff_script xs ys) = ys"
  by (induction xs ys rule: diff_script.induct) (auto simp: new_side_def)

lemma common_lines_script: "common_lines (diff_script xs ys) = lcs_len xs ys"
  by (induction xs ys rule: diff_script.induct) (auto simp: common_lines_def)

lemma subseq_lcs_len:
  "subseq zs xs \<Longrightarrow> subseq zs ys \<Longrightarrow> length zs \<le> lcs_len xs ys"
proof (induction xs ys arbitrary: zs rule: lcs_len.induct)
  case (1 x xs y ys)
  show ?case
  proof (cases "x = y")
    case True
    have "subseq (tl zs) xs" "subseq (tl zs) ys"
      using 1(4,5) by (cases zs; auto simp: subseq_Cons2_iff split: if_splits dest: subseq_Cons')+
    then have "length (tl zs) \<le> lcs_len xs ys" by (rule 1(1) [OF True])
    with True show ?thesis by simp
  next
    case False
    have "subseq zs xs \<or> subseq zs ys"
      using 1(4,5) False by (cases zs) (auto simp: subseq_Cons2_iff split: if_splits)
    then show ?thesis
      using 1(2) [OF False _ 1(5)] 1(3) [OF False 1(4)] False by fastforce
  qed
qed auto

lemma script_lines: "newline \<notin> \<Union> (set ` set xs) \<Longrightarrow> newline \<notin> \<Union> (set ` set ys) \<Longrightarrow>
    l \<in> set (diff_script xs ys) \<Longrightarrow> newline \<notin> set l"
  by (induction xs ys rule: diff_script.induct) (auto split: if_splits)

lemma diff_lines_no_newline: "newline \<notin> \<Union> (set ` set (diff_lines_of s))"
  by (auto simp: diff_lines_of_def Let_def dest: split_on_no_sep)

lemma diff_lines_join: "join_with [newline] (diff_lines_of s) = trim_newlines s"
  by (simp add: diff_lines_of_def Let_def)

text \<open>The lines a diff shows below its two headers.\<close>

definition diff_body :: "string \<Rightarrow> string list" where
  "diff_body d = butlast (drop 2 (split_on newline d))"

lemma diff_body_eq:
  assumes "newline \<notin> set la" "newline \<notin> set lb" and "trim_newlines a \<noteq> trim_newlines b"
  shows "diff_body (Diff la lb a b) = diff_script (diff_lines_of a) (diff_lines_of b)"
proof -
  let ?s = "diff_script (diff_lines_of a) (diff_lines_of b)"
  have body: "split_on newline (concat (map (\<lambda>l. l @ [newline]) ?s)) = ?s @ [[]]"
    using split_terminated [of ?s newline "[]"] script_lines diff_lines_no_newline by simp blast
  have "Diff la lb a b = (''--- '' @ la) @ newline # (''+++ '' @ lb) @ newline # concat (map (\<lambda>l. l @ [newline]) ?s)"
    using assms(3) by (simp add: Diff_def Let_def diff_lines_join diff_walk_script)
  then have "split_on newline (Diff la lb a b) = (''--- '' @ la) # (''+++ '' @ lb) # ?s @ [[]]"
    using assms(1,2) by (simp only: split_on_append_sep set_append body) (simp add: split_on_append_sep body)
  then show ?thesis by (simp add: diff_body_def)
qed

text \<open>
  C34. The diff shown before a save is the edit: it is empty exactly when the two texts agree up to
  trailing newlines, and otherwise its unmarked and minus lines are the old text, its unmarked and plus
  lines the new text, and no edit script keeps more lines: no common subsequence of the two texts is longer
  than the lines it leaves unmarked.
\<close>

theorem Diff_reconstructs:
  assumes "newline \<notin> set la" "newline \<notin> set lb"
  shows "(Diff la lb a b = [] \<longleftrightarrow> trim_newlines a = trim_newlines b)
    \<and> (Diff la lb a b \<noteq> [] \<longrightarrow>
        unlines (old_side (diff_body (Diff la lb a b))) = trim_newlines a
      \<and> unlines (new_side (diff_body (Diff la lb a b))) = trim_newlines b
      \<and> (\<forall>zs. subseq zs (diff_lines_of a) \<and> subseq zs (diff_lines_of b)
            \<longrightarrow> length zs \<le> common_lines (diff_body (Diff la lb a b))))"
proof -
  have "Diff la lb a b = [] \<longleftrightarrow> trim_newlines a = trim_newlines b"
    by (simp add: Diff_def Let_def diff_lines_join)
  then show ?thesis
    using diff_body_eq [OF assms] by (auto simp: diff_lines_join common_lines_script subseq_lcs_len)
qed

theorem Diff_reconstructs_witness:
  "Diff ''a'' ''b'' [CHR ''x'', newline, CHR ''y''] [CHR ''y'', newline]
     = ''--- a'' @ [newline] @ ''+++ b'' @ [newline] @ ''-x'' @ [newline] @ '' y'' @ [newline]
   \<and> unlines (new_side (diff_body (Diff ''a'' ''b'' [CHR ''x'', newline, CHR ''y''] [CHR ''y'', newline])))
     = trim_newlines [CHR ''y'', newline]"
proof (rule conjI)
  show e: "Diff ''a'' ''b'' [CHR ''x'', newline, CHR ''y''] [CHR ''y'', newline]
     = ''--- a'' @ [newline] @ ''+++ b'' @ [newline] @ ''-x'' @ [newline] @ '' y'' @ [newline]"
    by code_simp
  show "unlines (new_side (diff_body (Diff ''a'' ''b'' [CHR ''x'', newline, CHR ''y''] [CHR ''y'', newline])))
     = trim_newlines [CHR ''y'', newline]"
    using Diff_reconstructs [of "''a''" "''b''" "[CHR ''x'', newline, CHR ''y'']" "[CHR ''y'', newline]"] e by simp
qed

section \<open>Editing one key of a document\<close>

text \<open>
  A \<open>yaml.Node\<close>: kind, tag, value, style, line comment, the comments before and after, and the
  content, which for a mapping alternates keys and values.
\<close>

datatype ykind = DocumentNode | SequenceNode | MappingNode | ScalarNode | AliasNode

datatype ynode =
  YNode (yn_kind: ykind) (yn_tag: string) (yn_value: string) (yn_style: nat) (yn_line: string)
    (yn_around: "string \<times> string") (yn_content: "ynode list")

text \<open>Parsing gives no node for an empty document.\<close>

record node_lib =
  n_parse :: "string \<Rightarrow> (string, ynode option) result"
  n_encode :: "ynode \<Rightarrow> (string, string) result"

datatype edit_error =
    EditParse string
  | EditNotMapping
  | EditValue string string
  | InvalidKey string
  | NotAMap string
  | EditEncode string

definition set_content :: "ynode list \<Rightarrow> ynode \<Rightarrow> ynode" where
  "set_content c n = YNode (yn_kind n) (yn_tag n) (yn_value n) (yn_style n) (yn_line n) (yn_around n) c"

definition set_line :: "string \<Rightarrow> ynode \<Rightarrow> ynode" where
  "set_line l n = YNode (yn_kind n) (yn_tag n) (yn_value n) (yn_style n) l (yn_around n) (yn_content n)"

definition to_mapping :: "ynode \<Rightarrow> ynode" where
  "to_mapping n = YNode MappingNode ''!!map'' [] (yn_style n) (yn_line n) (yn_around n) (yn_content n)"

definition new_mapping :: ynode where
  "new_mapping = YNode MappingNode ''!!map'' [] 0 [] ([], []) []"

definition key_node :: "string \<Rightarrow> ynode" where
  "key_node part = YNode ScalarNode ''!!str'' part 0 [] ([], []) []"

definition null_node :: ynode where
  "null_node = YNode ScalarNode ''!!null'' [] 0 [] ([], []) []"

fun key_index :: "string \<Rightarrow> ynode list \<Rightarrow> nat option" where
  "key_index part (k # v # cs) =
     (if yn_value k = part then Some 0 else map_option (\<lambda>j. j + 2) (key_index part cs))"
| "key_index part _ = None"

text \<open>The last part of the path: remove, replace (keeping the line comment), append, or nothing.\<close>

definition edit_last :: "string \<Rightarrow> ynode option \<Rightarrow> ynode \<Rightarrow> ynode" where
  "edit_last part val cur =
     (let c = yn_content cur
      in case (val, key_index part c) of
           (None, Some i) \<Rightarrow> set_content (take i c @ drop (i + 2) c) cur
         | (Some v, Some i) \<Rightarrow> set_content (c[i + 1 := set_line (yn_line (c ! (i + 1))) v]) cur
         | (Some v, None) \<Rightarrow> set_content (c @ [key_node part, v]) cur
         | (None, None) \<Rightarrow> cur)"

text \<open>The walk down the path; \<open>Inr None\<close> returns the document as it was.\<close>

fun edit_node ::
  "string \<Rightarrow> string list \<Rightarrow> string list \<Rightarrow> ynode option \<Rightarrow> ynode \<Rightarrow> (edit_error, ynode option) result" where
  "edit_node path passed [] val cur = Inr (Some cur)"
| "edit_node path passed [part] val cur =
     (if part = [] then Inl (InvalidKey path) else Inr (Some (edit_last part val cur)))"
| "edit_node path passed (part # key # parts) val cur =
     (if part = [] then Inl (InvalidKey path)
      else let c = yn_content cur
      in case key_index part c of
           None \<Rightarrow>
             if val = None then Inr None
             else bind_result (edit_node path (passed @ [part]) (key # parts) val new_mapping)
                    (\<lambda>r. Inr (map_option (\<lambda>n. set_content (c @ [key_node part, n]) cur) r))
         | Some i \<Rightarrow>
             let next = c ! (i + 1)
             in if yn_kind next \<noteq> MappingNode \<and> val = None then Inr None
                else if yn_kind next \<noteq> MappingNode \<and> yn_tag next \<noteq> ''!!null''
                then Inl (NotAMap (join_with [dot] (passed @ [part])))
                else bind_result
                       (edit_node path (passed @ [part]) (key # parts) val
                         (if yn_kind next \<noteq> MappingNode then to_mapping next else next))
                       (\<lambda>r. Inr (map_option (\<lambda>n. set_content (c[i + 1 := n]) cur) r)))"

definition value_node :: "node_lib \<Rightarrow> string \<Rightarrow> string option \<Rightarrow> (edit_error, ynode option) result" where
  "value_node N path v =
     (case v of
        None \<Rightarrow> Inr None
      | Some t \<Rightarrow>
          (case n_parse N t of
             Inl e \<Rightarrow> Inl (EditValue path e)
           | Inr r \<Rightarrow>
               (let val = (case r of
                      Some n \<Rightarrow> (case yn_content n of [] \<Rightarrow> null_node | x # _ \<Rightarrow> x)
                    | None \<Rightarrow> null_node)
                in Inr (Some (if yn_kind val = ScalarNode \<and> yn_tag val = ''!!str''
                     then YNode (yn_kind val) (yn_tag val) (yn_value val) 0 (yn_line val) (yn_around val) (yn_content val)
                     else val)))))"

definition EditPath :: "node_lib \<Rightarrow> string \<Rightarrow> string \<Rightarrow> string option \<Rightarrow> (edit_error, string) result" where
  "EditPath N doc path v =
     (case n_parse N doc of
        Inl e \<Rightarrow> Inl (EditParse e)
      | Inr r \<Rightarrow>
          (let root = (case r of Some n \<Rightarrow> n | None \<Rightarrow> YNode DocumentNode [] [] 0 [] ([], []) [new_mapping])
           in if yn_kind root \<noteq> DocumentNode \<or> yn_content root = []
                \<or> yn_kind (hd (yn_content root)) \<noteq> MappingNode
              then Inl EditNotMapping
              else bind_result (value_node N path v) (\<lambda>val.
                   bind_result (edit_node path [] (split_on dot path) val (hd (yn_content root))) (\<lambda>top.
                     case top of
                       None \<Rightarrow> Inr doc
                     | Some n \<Rightarrow>
                         (case n_encode N (set_content (n # tl (yn_content root)) root) of
                            Inl e \<Rightarrow> Inl (EditEncode e) | Inr out \<Rightarrow> Inr out)))))"

text \<open>The names of changed keys, for the event of a save: top level, and one level into maps.\<close>

definition is_map_or_nil :: "yaml option \<Rightarrow> bool" where
  "is_map_or_nil v \<longleftrightarrow> is_map v \<or> val_of v = YNull"

definition ChangedKeys :: "'d yaml_lib \<Rightarrow> (string list \<Rightarrow> string list) \<Rightarrow> 'd \<Rightarrow> 'd \<Rightarrow> string list" where
  "ChangedKeys Y ord prev next =
     (let a = doc_map Y prev; b = doc_map Y next
      in sort (concat (map (\<lambda>k.
           let av = map_of a k; bv = map_of b k
           in if val_of av = val_of bv then []
              else if is_map_or_nil av \<and> is_map_or_nil bv \<and> (is_map av \<or> is_map bv)
              then map (\<lambda>s. k @ ''.'' @ s)
                     (filter (\<lambda>s. val_of (map_of (sub_map av) s) \<noteq> val_of (map_of (sub_map bv) s))
                       (ord (union_keys [sub_map av, sub_map bv])))
              else [k])
         (ord (union_keys [a, b])))))"

section \<open>An edit changes one key\<close>

fun pairs :: "ynode list \<Rightarrow> (ynode \<times> ynode) list" where
  "pairs (k # v # cs) = (k, v) # pairs cs"
| "pairs _ = []"

definition keys_of :: "ynode \<Rightarrow> string list" where
  "keys_of n = map (\<lambda>(k, _). yn_value k) (pairs (yn_content n))"

text \<open>
  Nodes a parser builds: the mappings have a value for each key and no key twice, and a null has no
  content.
\<close>

fun wf_node :: "ynode \<Rightarrow> bool" where
  "wf_node (YNode kind tag _ _ _ _ c) \<longleftrightarrow>
     (kind = MappingNode \<longrightarrow> even (length c) \<and> distinct (map (\<lambda>(k, _). yn_value k) (pairs c)))
   \<and> (kind \<noteq> MappingNode \<longrightarrow> tag = ''!!null'' \<longrightarrow> c = [])
   \<and> list_all wf_node c"

definition child_of :: "string \<Rightarrow> ynode list \<Rightarrow> ynode option" where
  "child_of part c = map_option snd (find (\<lambda>(k, _). yn_value k = part) (pairs c))"

fun node_at :: "ynode \<Rightarrow> string list \<Rightarrow> ynode option" where
  "node_at n [] = Some n"
| "node_at n (k # ks) =
     (if yn_kind n = MappingNode
      then (case child_of k (yn_content n) of None \<Rightarrow> None | Some v \<Rightarrow> node_at v ks) else None)"

lemma pairs_append: "even (length c) \<Longrightarrow> pairs (c @ d) = pairs c @ pairs d"
  by (induction c rule: pairs.induct) auto

lemma child_of_simps [simp]:
  "child_of part [] = None"
  "child_of part (k # v # cs) = (if yn_value k = part then Some v else child_of part cs)"
  by (simp_all add: child_of_def)

lemma key_index_child:
  "key_index part c = None \<longleftrightarrow> child_of part c = None"
  "key_index part c = Some i \<Longrightarrow> child_of part c = Some (c ! (i + 1)) \<and> i + 1 < length c"
  by (induction part c arbitrary: i rule: key_index.induct) (auto simp: child_of_def split: if_splits)

lemma child_of_replace:
  "key_index part c = Some i \<Longrightarrow>
     child_of k (c[i + 1 := x]) = (if k = part then Some x else child_of k c)
   \<and> map (\<lambda>(k, _). yn_value k) (pairs (c[i + 1 := x])) = map (\<lambda>(k, _). yn_value k) (pairs c)"
  by (induction part c arbitrary: i rule: key_index.induct) (auto split: if_splits)

lemma child_of_append:
  "even (length c) \<Longrightarrow> child_of k (c @ [key_node part, x])
     = (case child_of k c of Some v \<Rightarrow> Some v | None \<Rightarrow> if k = part then Some x else None)"
  by (induction c rule: pairs.induct) (auto simp: key_node_def)

lemma child_of_not_key: "part \<notin> set (map (\<lambda>(k, _). yn_value k) (pairs c)) \<Longrightarrow> child_of part c = None"
  by (induction c rule: pairs.induct) (auto simp: child_of_def)

lemma child_of_remove:
  "key_index part c = Some i \<Longrightarrow> distinct (map (\<lambda>(k, _). yn_value k) (pairs c)) \<Longrightarrow>
     child_of k (take i c @ drop (i + 2) c) = (if k = part then None else child_of k c)
   \<and> map (\<lambda>(k, _). yn_value k) (pairs (take i c @ drop (i + 2) c))
       = remove1 part (map (\<lambda>(k, _). yn_value k) (pairs c))"
proof (induction part c arbitrary: i rule: key_index.induct)
  case (1 part key v cs)
  show ?case
  proof (cases "yn_value key = part")
    case True
    with 1(2,3) show ?thesis using child_of_not_key [of part cs] by auto
  next
    case False
    with 1(2) obtain j where "i = j + 2" "key_index part cs = Some j" by auto
    with 1(1) [OF False, of j] 1(3) False show ?thesis by auto
  qed
qed auto

text \<open>The key order after setting or removing the key \<open>part\<close>: as before, extended, or without it.\<close>

definition same_order :: "string \<Rightarrow> string list \<Rightarrow> string list \<Rightarrow> bool" where
  "same_order part ks ks' \<longleftrightarrow> ks' = ks \<or> ks' = ks @ [part] \<and> part \<notin> set ks \<or> ks' = remove1 part ks"

lemma wf_child: "wf_node n \<Longrightarrow> child_of k (yn_content n) = Some v \<Longrightarrow> wf_node v"
proof -
  have "list_all wf_node c \<Longrightarrow> child_of k c = Some v \<Longrightarrow> wf_node v" for c
    by (induction c rule: pairs.induct) (auto simp: child_of_def split: if_splits)
  then show "wf_node n \<Longrightarrow> child_of k (yn_content n) = Some v \<Longrightarrow> wf_node v" by (cases n) auto
qed

lemma wf_mapping:
  "wf_node n \<Longrightarrow> yn_kind n = MappingNode \<Longrightarrow>
     even (length (yn_content n)) \<and> distinct (map (\<lambda>(k, _). yn_value k) (pairs (yn_content n)))"
  by (cases n) auto

lemma set_content_simps [simp]:
  "yn_kind (set_content c n) = yn_kind n" "yn_content (set_content c n) = c"
  by (simp_all add: set_content_def)

lemma keys_of_child: "(part \<in> set (map (\<lambda>(k, _). yn_value k) (pairs c))) \<longleftrightarrow> child_of part c \<noteq> None"
  by (induction c rule: pairs.induct) (auto simp: child_of_def)

text \<open>What one key of a mapping becomes.\<close>

definition only_key :: "string \<Rightarrow> ynode option \<Rightarrow> ynode \<Rightarrow> ynode \<Rightarrow> bool" where
  "only_key part x n n' \<longleftrightarrow>
     yn_kind n' = yn_kind n
   \<and> (\<forall>k. child_of k (yn_content n') = (if k = part then x else child_of k (yn_content n)))
   \<and> same_order part (keys_of n) (keys_of n')"

lemma only_key_replace:
  "key_index part (yn_content n) = Some i \<Longrightarrow>
     only_key part (Some x) n (set_content ((yn_content n)[i + 1 := x]) n)"
  using child_of_replace [of part "yn_content n" i] by (auto simp: only_key_def same_order_def keys_of_def)

lemma only_key_append:
  assumes "key_index part (yn_content n) = None" and "wf_node n" and "yn_kind n = MappingNode"
  shows "only_key part (Some x) n (set_content (yn_content n @ [key_node part, x]) n)"
proof -
  have e: "even (length (yn_content n))" using wf_mapping assms(2,3) by blast
  have c: "child_of part (yn_content n) = None" using key_index_child(1) assms(1) by blast
  then have "part \<notin> set (keys_of n)" using keys_of_child [of part "yn_content n"] by (simp add: keys_of_def)
  moreover have "keys_of (set_content (yn_content n @ [key_node part, x]) n) = keys_of n @ [part]"
    using e by (simp add: keys_of_def pairs_append key_node_def)
  ultimately show ?thesis
    using c by (auto simp: only_key_def same_order_def child_of_append [OF e] split: option.splits)
qed

lemma only_key_remove:
  assumes "key_index part (yn_content n) = Some i" and "wf_node n" and "yn_kind n = MappingNode"
  shows "only_key part None n (set_content (take i (yn_content n) @ drop (i + 2) (yn_content n)) n)"
  using child_of_remove [OF assms(1)] wf_mapping [OF assms(2,3)]
  by (auto simp: only_key_def same_order_def keys_of_def)

text \<open>
  The result of an edit at a path: the value there is the new one (with the old line comment), every
  path apart from it is untouched, and along the path the keys keep their order.
\<close>

definition edited :: "string list \<Rightarrow> ynode option \<Rightarrow> ynode \<Rightarrow> ynode \<Rightarrow> bool" where
  "edited ps val cur new \<longleftrightarrow>
     yn_kind new = MappingNode
   \<and> node_at new ps = map_option (\<lambda>v. case node_at cur ps of Some old \<Rightarrow> set_line (yn_line old) v | None \<Rightarrow> v) val
   \<and> (\<forall>ks. \<not> prefix ps ks \<longrightarrow> \<not> prefix ks ps \<longrightarrow> node_at new ks = node_at cur ks)
   \<and> (\<forall>ks k n. prefix (ks @ [k]) ps \<longrightarrow> node_at cur ks = Some n \<longrightarrow> yn_kind n = MappingNode \<longrightarrow>
        (\<exists>n'. node_at new ks = Some n' \<and> same_order k (keys_of n) (keys_of n')))"

lemma edited_single:
  assumes "yn_kind cur = MappingNode" and "only_key part x cur new"
    and "x = map_option (\<lambda>v. case child_of part (yn_content cur) of Some old \<Rightarrow> set_line (yn_line old) v | None \<Rightarrow> v) val"
  shows "edited [part] val cur new"
proof -
  have at: "node_at n [part] = child_of part (yn_content n)" if "yn_kind n = MappingNode" for n
    using that by (simp split: option.splits)
  have k: "yn_kind new = MappingNode" using assms(1,2) by (simp add: only_key_def)
  have "node_at new ks = node_at cur ks" if "\<not> prefix [part] ks" "\<not> prefix ks [part]" for ks
    using that assms(1,2) k by (cases ks) (auto simp: only_key_def)
  moreover have "node_at new [part] = x" using assms(2) k by (simp only: at only_key_def) simp
  moreover have "\<exists>n'. node_at new ks = Some n' \<and> same_order k (keys_of n) (keys_of n')"
    if "prefix (ks @ [k]) [part]" "node_at cur ks = Some n" for ks k n
    using that assms(2) by (cases ks) (auto simp: only_key_def)
  ultimately show ?thesis
    using assms(1,3) k by (simp only: edited_def at) blast
qed

lemma edited_step:
  assumes cur: "yn_kind cur = MappingNode" and only: "only_key part (Some n') cur new"
    and sub: "edited ps val sub n'" and ps: "ps \<noteq> []"
    and from_cur: "child_of part (yn_content cur) = Some sub \<or>
      yn_content sub = [] \<and> (\<forall>v. child_of part (yn_content cur) = Some v \<longrightarrow> yn_kind v \<noteq> MappingNode)"
  shows "edited (part # ps) val cur new"
proof -
  have k: "yn_kind new = MappingNode" and c: "child_of part (yn_content new) = Some n'"
    and other: "k \<noteq> part \<Longrightarrow> child_of k (yn_content new) = child_of k (yn_content cur)" for k
    using cur only by (simp_all add: only_key_def)
  have down: "node_at new (part # ks) = node_at n' ks" for ks using k c by simp
  have same: "node_at cur (part # ks) = node_at sub ks" if "ks \<noteq> []" for ks
    using that cur from_cur by (cases ks) (auto split: option.splits)
  have "node_at new ks = node_at cur ks" if "\<not> prefix (part # ps) ks" "\<not> prefix ks (part # ps)" for ks
  proof (cases ks)
    case (Cons j js)
    show ?thesis
    proof (cases "j = part")
      case True
      then have js: "js \<noteq> []" "\<not> prefix ps js" "\<not> prefix js ps" using that Cons by auto
      then have "node_at n' js = node_at sub js" using sub by (simp add: edited_def)
      then show ?thesis using Cons True down same [OF js(1)] by simp
    next
      case False
      then show ?thesis using Cons other [OF False] k cur by simp
    qed
  next
    case Nil
    then show ?thesis using that(2) by simp
  qed
  moreover have "\<exists>m. node_at new ks = Some m \<and> same_order k (keys_of n) (keys_of m)"
    if "prefix (ks @ [k]) (part # ps)" "node_at cur ks = Some n" "yn_kind n = MappingNode" for ks k n
  proof (cases ks)
    case Nil
    then show ?thesis using that only by (simp add: only_key_def)
  next
    case (Cons j js)
    then have j: "j = part" and js: "prefix (js @ [k]) ps" using that(1) by auto
    have "node_at sub js = Some n"
    proof (cases js)
      case Nil
      then show ?thesis using that(2,3) Cons j cur from_cur by (auto split: option.splits)
    next
      case (Cons a b)
      then show ?thesis using that(2) \<open>ks = j # js\<close> j same [of js] by simp
    qed
    then show ?thesis using sub js that(3) Cons j by (simp only: down edited_def)
  qed
  moreover have "node_at new (part # ps) = map_option (\<lambda>v. case node_at cur (part # ps) of
      Some old \<Rightarrow> set_line (yn_line old) v | None \<Rightarrow> v) val"
    using sub by (simp only: down same [OF ps] edited_def)
  ultimately show ?thesis using k by (simp only: edited_def) blast
qed

lemma edited_last:
  assumes "wf_node cur" and "yn_kind cur = MappingNode"
  shows "edited [part] val cur (edit_last part val cur)"
proof (cases "key_index part (yn_content cur)")
  case None
  then have c: "child_of part (yn_content cur) = None" using key_index_child(1) by blast
  show ?thesis
  proof (cases val)
    case None
    have "only_key part None cur cur" using c by (auto simp: only_key_def same_order_def)
    then show ?thesis
      using edited_single [OF assms(2), of part None cur None] None \<open>key_index part (yn_content cur) = None\<close>
      by (simp add: edit_last_def)
  next
    case (Some v)
    then show ?thesis
      using edited_single [OF assms(2) only_key_append [OF None assms], of v val] None c
      by (simp add: edit_last_def)
  qed
next
  case (Some i)
  then have c: "child_of part (yn_content cur) = Some (yn_content cur ! (i + 1))" using key_index_child(2) by blast
  show ?thesis
  proof (cases val)
    case None
    then show ?thesis
      using edited_single [OF assms(2) only_key_remove [OF Some assms], of val] Some
      by (simp add: edit_last_def Let_def)
  next
    case (Some v)
    then show ?thesis
      using edited_single [OF assms(2) only_key_replace [OF \<open>key_index part (yn_content cur) = Some i\<close>], of _ val] c
        \<open>key_index part (yn_content cur) = Some i\<close> by (simp add: edit_last_def Let_def)
  qed
qed

lemma wf_to_mapping:
  "wf_node n \<Longrightarrow> yn_kind n \<noteq> MappingNode \<Longrightarrow> yn_tag n = ''!!null'' \<Longrightarrow>
     wf_node (to_mapping n) \<and> yn_content (to_mapping n) = [] \<and> yn_kind (to_mapping n) = MappingNode"
  by (cases n) (auto simp: to_mapping_def)

lemma edit_node_spec:
  "edit_node path passed ps val cur = Inr r \<Longrightarrow> ps \<noteq> [] \<Longrightarrow> wf_node cur \<Longrightarrow> yn_kind cur = MappingNode \<Longrightarrow>
     (case r of None \<Rightarrow> val = None \<and> node_at cur ps = None | Some new \<Rightarrow> edited ps val cur new)"
proof (induction path passed ps val cur arbitrary: r rule: edit_node.induct)
  case (2 path passed part val cur)
  then show ?case using edited_last [OF 2(3,4)] by (auto split: if_splits)
next
  case (3 path passed part key parts val cur)
  let ?c = "yn_content cur"
  have p: "part \<noteq> []" using 3(3) by auto
  show ?case
  proof (cases "key_index part ?c")
    case None
    then have c: "child_of part ?c = None" using key_index_child(1) by blast
    show ?thesis
    proof (cases "val = None")
      case True
      then show ?thesis using 3(3) p None c 3(6) by (auto simp: Let_def)
    next
      case False
      then obtain r' where e: "edit_node path (passed @ [part]) (key # parts) val new_mapping = Inr r'"
        and r: "r = map_option (\<lambda>n. set_content (?c @ [key_node part, n]) cur) r'"
        using 3(3) p None by (auto simp: Let_def bind_result_Inr)
      have nm: "wf_node new_mapping" "yn_kind new_mapping = MappingNode" "yn_content new_mapping = []"
        by (simp_all add: new_mapping_def)
      have IH: "case r' of None \<Rightarrow> val = None \<and> node_at new_mapping (key # parts) = None
          | Some new \<Rightarrow> edited (key # parts) val new_mapping new"
        by (rule 3(1) [OF p refl None False e _ nm(1,2)]) simp
      show ?thesis
      proof (cases r')
        case None
        then show ?thesis using IH False by simp
      next
        case (Some n)
        then show ?thesis
          using IH r c nm edited_step [OF 3(6) only_key_append [OF None 3(5,6)], of "key # parts" val new_mapping n]
          by simp
      qed
    qed
  next
    case (Some i)
    let ?next = "?c ! (i + 1)"
    have c: "child_of part ?c = Some ?next" using Some key_index_child(2) by blast
    have w: "wf_node ?next" using wf_child [OF 3(5) c] .
    show ?thesis
    proof (cases "yn_kind ?next \<noteq> MappingNode \<and> val = None")
      case True
      then show ?thesis using 3(3) p Some c by (auto simp: Let_def)
    next
      case False
      then have tag: "yn_kind ?next \<noteq> MappingNode \<longrightarrow> yn_tag ?next = ''!!null''"
        using 3(3) p Some by (auto simp: Let_def split: if_splits)
      let ?sub = "if yn_kind ?next \<noteq> MappingNode then to_mapping ?next else ?next"
      have "edit_node path passed (part # key # parts) val cur
          = bind_result (edit_node path (passed @ [part]) (key # parts) val ?sub)
              (\<lambda>r. Inr (map_option (\<lambda>n. set_content (?c[i + 1 := n]) cur) r))"
        using p Some False tag by (auto simp: Let_def)
      with 3(3) have "bind_result (edit_node path (passed @ [part]) (key # parts) val ?sub)
          (\<lambda>r. Inr (map_option (\<lambda>n. set_content (?c[i + 1 := n]) cur) r)) = Inr r"
        by (simp only:)
      then obtain r' where e: "edit_node path (passed @ [part]) (key # parts) val ?sub = Inr r'"
        and r: "r = map_option (\<lambda>n. set_content (?c[i + 1 := n]) cur) r'"
        unfolding bind_result_Inr sum.inject by blast
      have sub: "wf_node ?sub" "yn_kind ?sub = MappingNode"
          "child_of part ?c = Some ?sub \<or> yn_content ?sub = [] \<and> (\<forall>v. child_of part ?c = Some v \<longrightarrow> yn_kind v \<noteq> MappingNode)"
        using w wf_to_mapping tag c by auto
      have IH: "case r' of None \<Rightarrow> val = None \<and> node_at ?sub (key # parts) = None
          | Some new \<Rightarrow> edited (key # parts) val ?sub new"
        using tag by (intro 3(2) [OF p refl Some refl False _ e _ sub(1,2)]) auto
      show ?thesis
      proof (cases r')
        case None
        then have "val = None" using IH by simp
        then have "?sub = ?next" using False by simp
        then show ?thesis using None IH r c 3(6) by simp
      next
        case (Some n)
        then show ?thesis
          using IH r edited_step [OF 3(6) only_key_replace [OF \<open>key_index part ?c = Some i\<close>] _ _ sub(3), of "key # parts" val n]
          by simp
      qed
    qed
  qed
qed simp

lemma wf_content: "wf_node n \<Longrightarrow> x \<in> set (yn_content n) \<Longrightarrow> wf_node x"
  by (cases n) (auto simp: list_all_iff)


definition demo_mapping :: ynode where
  "demo_mapping = YNode MappingNode ''!!map'' [] 0 [] ([], [])
     [key_node ''app'', YNode ScalarNode ''!!str'' ''shop'' 0 ''# name'' ([], []) [], key_node ''env'', null_node]"

definition demo_nodes :: node_lib where
  "demo_nodes = \<lparr>
     n_parse = (\<lambda>s. Inr (Some (YNode DocumentNode [] [] 0 [] ([], [])
                 [if s = ''doc'' then demo_mapping else YNode ScalarNode ''!!str'' s 1 [] ([], []) []]))),
     n_encode = (\<lambda>n. Inr (concat (keys_of (hd (yn_content n)))))\<rparr>"


end
