(* ===== verification/Admission.thy ===== *)
theory Admission
  imports Prelude
begin

text \<open>
  The webhook listener of auto-deploy: what a push payload says (\<open>internal/autodeploy/paths.go\<close>),
  authentication and replay protection (\<open>webhook.go\<close>), the admission ledger on disk (\<open>ledger.go\<close>),
  and the request handler, the bounded queue and the resumption after a restart
  (\<open>internal/cli/autodeploy_serve.go\<close>).  HMAC, SHA-256 and JSON are parameters; times are
  nanoseconds.
\<close>

section \<open>What a push says\<close>

record pushPayload =
  pp_Commits :: "(string list \<times> string list \<times> string list) list"
  pp_TotalCommitsCount :: int
  pp_Ref :: string
  pp_Deleted :: "bool option"
  pp_After :: string
  pp_CheckoutSHA :: string

text \<open>The payload is the decoded body, or \<open>None\<close> if it does not decode.\<close>

definition PushEvent :: "pushPayload option \<Rightarrow> string \<Rightarrow> bool" where
  "PushEvent body branch =
     (case body of
        None \<Rightarrow> False
      | Some p \<Rightarrow>
          if pp_Deleted p = Some True then False
          else if pp_Ref p = [] then False
          else if branch = [] then True
          else pp_Ref p = ''refs/heads/'' @ branch \<or> trim_prefix ''refs/heads/'' (pp_Ref p) = branch)"

definition hash_char :: "char \<Rightarrow> bool" where
  "hash_char c \<longleftrightarrow> is_digit c \<or> (97 \<le> (of_char c :: nat) \<and> (of_char c :: nat) \<le> 102)"

definition isCommitHash :: "string \<Rightarrow> bool" where
  "isCommitHash s \<longleftrightarrow>
     (length s = 40 \<or> length s = 64) \<and> list_all hash_char s \<and> \<not> list_all (\<lambda>c. c = CHR ''0'') s"

definition PushCommit :: "pushPayload option \<Rightarrow> string" where
  "PushCommit body =
     (case body of
        None \<Rightarrow> []
      | Some p \<Rightarrow>
          if pp_Deleted p = Some True then []
          else if pp_Ref p = [] \<or> prefix ''refs/tags/'' (pp_Ref p) then []
          else (case find isCommitHash [pp_CheckoutSHA p, pp_After p] of Some c \<Rightarrow> c | None \<Rightarrow> []))"

definition githubCommitCap :: nat where
  "githubCommitCap = 20"

text \<open>The files a push touched, as a set in some order, and whether the list is complete.\<close>

definition ChangedFiles :: "pushPayload option \<Rightarrow> string list \<times> bool" where
  "ChangedFiles body =
     (case body of
        None \<Rightarrow> ([], False)
      | Some p \<Rightarrow>
          if pp_Commits p = [] then ([], False)
          else if pp_TotalCommitsCount p > int (length (pp_Commits p)) then ([], False)
          else if length (pp_Commits p) \<ge> githubCommitCap then ([], False)
          else (remdups (concat (map (\<lambda>(a, m, r). a @ m @ r) (pp_Commits p))), True))"

text \<open>
  \<open>path.Match\<close> of the Go library on ASCII names, as it is implemented: the pattern is cut into chunks
  at its stars, each chunk is matched at the first place it fits, and a star does not cross a slash.  A
  malformed pattern is an error, which the caller reads as no match.
\<close>

fun class_char :: "string \<Rightarrow> (char \<times> string) option" where
  "class_char [] = None"
| "class_char (c # cs) =
     (if c = CHR ''-'' \<or> c = CHR '']'' then None
      else if c = CHR 0x5C then (case cs of [] \<Rightarrow> None | d # ds \<Rightarrow> if ds = [] then None else Some (d, ds))
      else if cs = [] then None else Some (c, cs))"

definition char_between :: "char \<Rightarrow> char \<Rightarrow> char \<Rightarrow> bool" where
  "char_between lo hi c \<longleftrightarrow> (of_char lo :: nat) \<le> of_char c \<and> (of_char c :: nat) \<le> of_char hi"

text \<open>
  The ranges of a class up to its closing bracket: whether the byte is in one, and the rest of the
  pattern.  Each range takes at least one byte of the pattern, so its length is fuel enough.
\<close>

fun class_ranges :: "nat \<Rightarrow> bool \<Rightarrow> bool \<Rightarrow> char \<Rightarrow> string \<Rightarrow> (bool \<times> string) option" where
  "class_ranges 0 first hit c p = None"
| "class_ranges (Suc n) first hit c p =
     (case p of
        [] \<Rightarrow> None
      | x # xs \<Rightarrow>
          if x = CHR '']'' \<and> \<not> first then Some (hit, xs)
          else (case class_char p of
                  None \<Rightarrow> None
                | Some (lo, rest) \<Rightarrow>
                    (case (if rest \<noteq> [] \<and> hd rest = CHR ''-'' then class_char (tl rest) else Some (lo, rest)) of
                       None \<Rightarrow> None
                     | Some (hi, rest) \<Rightarrow> class_ranges n False (hit \<or> char_between lo hi c) c rest)))"

definition class_match :: "char \<Rightarrow> string \<Rightarrow> (bool \<times> string) option" where
  "class_match c p =
     (let neg = (p \<noteq> [] \<and> hd p = CHR ''^''); body = (if neg then tl p else p)
      in case class_ranges (length p + 1) True False c body of
           None \<Rightarrow> None
         | Some (hit, rest) \<Rightarrow> Some (hit \<noteq> neg, rest))"

abbreviation (input) slash :: char where
  "slash \<equiv> CHR ''/''"

lemma class_char_length: "class_char p = Some (c, rest) \<Longrightarrow> length rest < length p"
  by (cases p) (auto split: if_splits list.splits)

lemma class_ranges_length: "class_ranges n f h c p = Some (b, rest) \<Longrightarrow> length rest < length p"
proof (induction n f h c p rule: class_ranges.induct)
  case (2 n first hit c p)
  from 2(2) obtain x xs where p: "p = x # xs" by (cases p) auto
  show ?case
  proof (cases "x = CHR '']'' \<and> \<not> first")
    case False
    then obtain lo r where lo: "class_char p = Some (lo, r)" using 2(2) p by (auto split: option.splits)
    then obtain hi r' where hi: "(if r \<noteq> [] \<and> hd r = CHR ''-'' then class_char (tl r) else Some (lo, r)) = Some (hi, r')"
      using 2(2) p False by (simp split: option.splits prod.splits)
    have "class_ranges n False (hit \<or> char_between lo hi c) c r' = Some (b, rest)"
      using 2(2) p False lo hi by simp
    then have "length rest < length r'" using 2(1) [OF p False lo refl hi refl] by blast
    moreover have "length r' \<le> length r" using hi class_char_length by (fastforce split: if_splits)
    moreover have "length r < length p" using class_char_length [OF lo] .
    ultimately show ?thesis by simp
  qed (use 2(2) p in auto)
qed simp

lemma class_match_length:
  assumes "class_match c p = Some (b, rest)"
  shows "length rest \<le> length p"
proof -
  let ?body = "if p \<noteq> [] \<and> hd p = CHR ''^'' then tl p else p"
  obtain h where "class_ranges (length p + 1) True False c ?body = Some (h, rest)"
    using assms by (auto simp: class_match_def Let_def simp del: class_ranges.simps split: option.splits)
  then have "length rest < length ?body" by (rule class_ranges_length)
  also have "\<dots> \<le> length p" by (cases p) auto
  finally show ?thesis by simp
qed

text \<open>\<open>matchChunk\<close>: \<open>None\<close> for a malformed chunk, \<open>Some None\<close> for no match, else what is left of the name.\<close>

function (sequential) match_chunk :: "string \<Rightarrow> bool \<Rightarrow> string \<Rightarrow> string option option" where
  "match_chunk [] failed s = Some (if failed then None else Some s)"
| "match_chunk (x # xs) failed s =
     (let failed = failed \<or> s = []
      in if x = CHR ''['' then
           (case class_match (if failed then CHR 0x00 else hd s) xs of
              None \<Rightarrow> None
            | Some (m, rest) \<Rightarrow> match_chunk rest (failed \<or> \<not> m) (tl s))
         else if x = CHR ''?'' then match_chunk xs (failed \<or> hd s = slash) (tl s)
         else if x = CHR 0x5C then
           (case xs of [] \<Rightarrow> None | y # ys \<Rightarrow> match_chunk ys (failed \<or> hd s \<noteq> y) (tl s))
         else match_chunk xs (failed \<or> hd s \<noteq> x) (tl s))"
  by pat_completeness auto
termination
  by (relation "measure (\<lambda>(p, _, _). length p)") (auto dest!: class_match_length)

fun scan_body :: "bool \<Rightarrow> string \<Rightarrow> string \<times> string" where
  "scan_body inrange [] = ([], [])"
| "scan_body inrange (c # cs) =
     (if c = CHR 0x5C then
        (case cs of [] \<Rightarrow> ([c], [])
         | d # ds \<Rightarrow> (let (chunk, rest) = scan_body inrange ds in (c # d # chunk, rest)))
      else if c = CHR ''*'' \<and> \<not> inrange then ([], c # cs)
      else (let (chunk, rest) = scan_body (c = CHR ''['' \<or> c \<noteq> CHR '']'' \<and> inrange) cs
            in (c # chunk, rest)))"

definition scanChunk :: "string \<Rightarrow> bool \<times> string \<times> string" where
  "scanChunk p = (p \<noteq> [] \<and> hd p = CHR ''*'', scan_body False (dropWhile (\<lambda>c. c = CHR ''*'') p))"

lemma scan_body_length: "length (fst (scan_body i p)) + length (snd (scan_body i p)) = length p"
  by (induction i p rule: scan_body.induct) (auto simp: Let_def split_beta split: list.split)

lemma scan_body_chunk: "p \<noteq> [] \<Longrightarrow> hd p \<noteq> CHR ''*'' \<Longrightarrow> fst (scan_body False p) \<noteq> []"
  by (cases p) (auto simp: Let_def split_beta split: list.split)

lemma dropWhile_shorter:
  "xs \<noteq> [] \<Longrightarrow> P (hd xs) \<Longrightarrow> length (dropWhile P xs) < length xs"
  by (cases xs) (simp_all add: less_Suc_eq_le length_dropWhile_le)

lemma scanChunk_length:
  assumes "p \<noteq> []" and "scanChunk p = (star, chunk, rest)"
  shows "length rest < length p"
proof -
  let ?q = "dropWhile (\<lambda>c. c = CHR ''*'') p"
  have l: "length chunk + length rest = length ?q"
    using scan_body_length [of False ?q] assms(2) by (simp only: scanChunk_def prod.inject fst_conv snd_conv)
  show ?thesis
  proof (cases "hd p = CHR ''*''")
    case True
    then have "length ?q < length p" by (rule dropWhile_shorter [OF assms(1)])
    then show ?thesis using l by simp
  next
    case False
    then have "?q = p" using assms(1) by (cases p) auto
    then have "chunk \<noteq> []" using scan_body_chunk [OF assms(1) False] assms(2) by (auto simp: scanChunk_def)
    then show ?thesis using l \<open>?q = p\<close> by (cases chunk) auto
  qed
qed

fun star_tries :: "string \<Rightarrow> bool \<Rightarrow> string \<Rightarrow> string option" where
  "star_tries chunk further [] = None"
| "star_tries chunk further (c # cs) =
     (if c = slash then None
      else (case match_chunk chunk False cs of
              None \<Rightarrow> None
            | Some (Some t) \<Rightarrow> if \<not> further \<and> t \<noteq> [] then star_tries chunk further cs else Some t
            | Some None \<Rightarrow> star_tries chunk further cs))"

function path_match :: "string \<Rightarrow> string \<Rightarrow> bool" where
  "path_match pattern name =
     (if pattern = [] then name = []
      else (let (star, chunk, rest) = scanChunk pattern
            in if star \<and> chunk = [] then slash \<notin> set name
               else (case match_chunk chunk False name of
                       None \<Rightarrow> False
                     | Some r \<Rightarrow>
                         (case r of
                            Some t \<Rightarrow>
                              if t = [] \<or> rest \<noteq> [] then path_match rest t
                              else star \<and> (case star_tries chunk (rest \<noteq> []) name of
                                              Some t' \<Rightarrow> path_match rest t' | None \<Rightarrow> False)
                          | None \<Rightarrow> star \<and> (case star_tries chunk (rest \<noteq> []) name of
                                              Some t' \<Rightarrow> path_match rest t' | None \<Rightarrow> False)))))"
  by pat_completeness auto
termination
  by (relation "measure (\<lambda>(p, _). length p)") (auto dest!: scanChunk_length [rotated] sym [of "(_, _)" "scanChunk _"])

declare path_match.simps [simp del]

definition matchOne :: "string \<Rightarrow> string \<Rightarrow> bool" where
  "matchOne pattern file =
     (let pattern = trim_space pattern
      in if pattern = [] then False
         else if pattern = ''**'' then True
         else if suffix ''/**'' pattern
              then (let p = trim_suffix ''/**'' pattern in file = p \<or> prefix (p @ ''/'') file)
         else path_match pattern file)"

definition PathMatches :: "string list \<Rightarrow> string list \<Rightarrow> bool" where
  "PathMatches patterns files \<longleftrightarrow> (\<exists>f \<in> set files. \<exists>p \<in> set patterns. matchOne p f)"

section \<open>Authentication and replays\<close>

definition hex_nibble :: "char \<Rightarrow> nat option" where
  "hex_nibble c =
     (let n = of_char c :: nat
      in if 48 \<le> n \<and> n \<le> 57 then Some (n - 48)
         else if 97 \<le> n \<and> n \<le> 102 then Some (n - 87)
         else if 65 \<le> n \<and> n \<le> 70 then Some (n - 55) else None)"

text \<open>\<open>hex.DecodeString\<close>.\<close>

fun hex_decode :: "string \<Rightarrow> string option" where
  "hex_decode [] = Some []"
| "hex_decode [c] = None"
| "hex_decode (c # d # cs) =
     (case (hex_nibble c, hex_nibble d, hex_decode cs) of
        (Some a, Some b, Some r) \<Rightarrow> Some (char_of (16 * a + b) # r)
      | _ \<Rightarrow> None)"

definition VerifyGitHubSignature :: "(string \<Rightarrow> string \<Rightarrow> string) \<Rightarrow> string \<Rightarrow> string \<Rightarrow> string \<Rightarrow> bool" where
  "VerifyGitHubSignature hmac secret body header =
     (if \<not> prefix ''sha256='' header then False
      else (case hex_decode (trim_prefix ''sha256='' header) of
              None \<Rightarrow> False
            | Some got \<Rightarrow> got = hmac secret body))"

definition VerifyGitLabToken :: "string \<Rightarrow> string \<Rightarrow> bool" where
  "VerifyGitLabToken secret header \<longleftrightarrow> header \<noteq> [] \<and> secret \<noteq> [] \<and> secret = header"

definition deliveryTTL :: int where
  "deliveryTTL = 24 * 60 * 60 * 1000000000"

type_synonym DeliveryDedup = "string \<Rightarrow> int option"

definition prune_seen :: "int \<Rightarrow> DeliveryDedup \<Rightarrow> DeliveryDedup" where
  "prune_seen now d =
     (\<lambda>k. case d k of None \<Rightarrow> None | Some t \<Rightarrow> if now - t > deliveryTTL then None else Some t)"

definition SeenAndRecord :: "int \<Rightarrow> string \<Rightarrow> DeliveryDedup \<Rightarrow> bool \<times> DeliveryDedup" where
  "SeenAndRecord now i d =
     (let d = prune_seen now d
      in if d i \<noteq> None then (True, d) else (False, d(i \<mapsto> now)))"

definition RecordOnly :: "int \<Rightarrow> string \<Rightarrow> DeliveryDedup \<Rightarrow> DeliveryDedup" where
  "RecordOnly now i d = (if d i = None then d(i \<mapsto> now) else d)"

definition Unrecord :: "string \<Rightarrow> DeliveryDedup \<Rightarrow> DeliveryDedup" where
  "Unrecord i d = d(i := None)"

definition ContentIDFromDigest :: "string \<Rightarrow> string" where
  "ContentIDFromDigest digest = ''content:'' @ digest"

section \<open>The admission ledger\<close>

definition AdmissionKindAdmitted :: string where
  "AdmissionKindAdmitted = ''admitted''"

definition AdmissionKindSuperseded :: string where
  "AdmissionKindSuperseded = ''superseded''"

definition AdmissionKindProcessed :: string where
  "AdmissionKindProcessed = ''processed''"

record AdmissionRecord =
  ar_Kind :: string
  ar_ID :: string
  ar_Delivery :: string
  ar_Digest :: string
  ar_App :: string
  ar_Branch :: string
  ar_Commit :: string
  ar_Received :: int
  ar_SupersededBy :: string
  ar_At :: int

text \<open>\<open>encoding/json\<close> on a record: the encoded line, and what a line decodes to.\<close>

record line_codec =
  enc :: "AdmissionRecord \<Rightarrow> string"
  dec :: "string \<Rightarrow> AdmissionRecord option"

text \<open>The ledger's file and whether an append has failed, which makes all later ones fail.\<close>

record FileLedger =
  fl_bytes :: string
  fl_failed :: bool

text \<open>
  How an append ends: written and synced, or an error after some bytes of the line have reached
  the disk (none, a part, or all of it when only the sync failed).
\<close>

datatype append_outcome = Appended | AppendFails nat

definition record_line :: "line_codec \<Rightarrow> AdmissionRecord \<Rightarrow> string" where
  "record_line J r = enc J r @ [newline]"

definition Append :: "line_codec \<Rightarrow> append_outcome \<Rightarrow> AdmissionRecord \<Rightarrow> FileLedger \<Rightarrow> bool \<times> FileLedger" where
  "Append J res r l =
     (if fl_failed l then (False, l)
      else (case res of
              Appended \<Rightarrow> (True, l\<lparr>fl_bytes := fl_bytes l @ record_line J r\<rparr>)
            | AppendFails n \<Rightarrow>
                (False, l\<lparr>fl_bytes := fl_bytes l @ take n (record_line J r), fl_failed := True\<rparr>)))"

definition known_kind :: "string \<Rightarrow> bool" where
  "known_kind k \<longleftrightarrow> k \<in> {AdmissionKindAdmitted, AdmissionKindSuperseded, AdmissionKindProcessed}"

text \<open>The lines of the file; the error is the number of the line that does not parse.\<close>

fun parse_lines :: "line_codec \<Rightarrow> nat \<Rightarrow> string list \<Rightarrow> (nat, AdmissionRecord list) result" where
  "parse_lines J i [] = Inr []"
| "parse_lines J i (line # ls) =
     (if trim_space line = [] then parse_lines J (i + 1) ls
      else (case dec J line of
              None \<Rightarrow> Inl i
            | Some r \<Rightarrow>
                if known_kind (ar_Kind r)
                then bind_result (parse_lines J (i + 1) ls) (\<lambda>rs. Inr (r # rs))
                else Inl i))"

definition ParseLedger :: "line_codec \<Rightarrow> string \<Rightarrow> (nat, AdmissionRecord list) result" where
  "ParseLedger J data =
     (if data = [] then Inr []
      else (let torn = (List.last data \<noteq> newline);
                lines = split_on newline (trim_suffix [newline] data)
            in parse_lines J 1 (if torn then butlast lines else lines)))"

text \<open>Opening parses and cuts a torn last line off; \<open>None\<close> when the file cannot be repaired.\<close>

definition OpenLedger :: "line_codec \<Rightarrow> bool \<Rightarrow> string \<Rightarrow> FileLedger option" where
  "OpenLedger J truncate_ok data =
     (case ParseLedger J data of
        Inl _ \<Rightarrow> None
      | Inr _ \<Rightarrow>
          if data \<noteq> [] \<and> List.last data \<noteq> newline then
            (if truncate_ok
             then Some \<lparr>fl_bytes = rev (dropWhile (\<lambda>c. c \<noteq> newline) (rev data)), fl_failed = False\<rparr>
             else None)
          else Some \<lparr>fl_bytes = data, fl_failed = False\<rparr>)"

definition fold_state :: "AdmissionRecord list \<Rightarrow> string \<Rightarrow> string option" where
  "fold_state recs =
     foldl (\<lambda>st r.
        if ar_Kind r = AdmissionKindAdmitted then st(ar_ID r \<mapsto> AdmissionKindAdmitted)
        else if ar_Kind r = AdmissionKindSuperseded \<or> ar_Kind r = AdmissionKindProcessed then
          (if st (ar_ID r) = Some AdmissionKindAdmitted then st(ar_ID r \<mapsto> ar_Kind r) else st)
        else st) (\<lambda>_. None) recs"

text \<open>The digests of admissions, each with the time of its first one, in the order they appeared.\<close>

definition fold_digests :: "AdmissionRecord list \<Rightarrow> (string \<times> int) list" where
  "fold_digests recs =
     foldl (\<lambda>ds r. if ar_Kind r = AdmissionKindAdmitted \<and> map_of ds (ar_Digest r) = None
                    then ds @ [(ar_Digest r, ar_Received r)] else ds) [] recs"

definition fold_pending :: "AdmissionRecord list \<Rightarrow> AdmissionRecord list" where
  "fold_pending recs =
     filter (\<lambda>r. ar_Kind r = AdmissionKindAdmitted \<and> fold_state recs (ar_ID r) = Some AdmissionKindAdmitted) recs"

definition FoldAdmissions :: "AdmissionRecord list \<Rightarrow> AdmissionRecord list \<times> (string \<times> int) list" where
  "FoldAdmissions recs = (fold_pending recs, fold_digests recs)"

definition NewestPending :: "AdmissionRecord list \<Rightarrow> string \<Rightarrow> AdmissionRecord option" where
  "NewestPending pending app =
     foldl (\<lambda>newest p.
        if ar_App p = app \<and> (case newest of None \<Rightarrow> True | Some n \<Rightarrow> \<not> ar_Received p < ar_Received n)
        then Some p else newest) None pending"

definition SeedDedupFromLedger :: "int \<Rightarrow> (string \<times> int) list \<Rightarrow> DeliveryDedup \<Rightarrow> DeliveryDedup" where
  "SeedDedupFromLedger now digests d =
     foldl (\<lambda>d (k, t). if now - t > deliveryTTL then d else RecordOnly now (ContentIDFromDigest k) d)
       d (sort_key fst digests)"

section \<open>The listener\<close>

record webhook_env =
  we_secret :: string
  we_branch :: string
  we_app :: string
  we_hmac :: "string \<Rightarrow> string \<Rightarrow> string"
  we_sha :: "string \<Rightarrow> string"
  we_json :: "string \<Rightarrow> pushPayload option"
  we_codec :: line_codec

datatype body_read = Body string | TooLarge | ReadFailed

text \<open>A request, with the result of reading its body under the cap of ten megabytes.\<close>

record http_request =
  rq_Method :: string
  rq_Body :: body_read
  rq_Signature :: string
  rq_GitlabToken :: string
  rq_GithubDelivery :: string
  rq_GitlabUUID :: string

record queuedAdmission =
  qa_rec :: AdmissionRecord
  qa_files :: "string list"
  qa_known :: bool

datatype queued_as = DRunning | DQueued | DSuperseded

datatype response =
    Status nat
  | Duplicate
  | NoCommit
  | NotDurable
  | Admitted queued_as

text \<open>
  The worker: idle, running the deploy of an item, done with it, or past its completion mark and about to
  look at the pending slot.
\<close>

datatype worker = Idle | Running queuedAdmission | Finished queuedAdmission | Marked

text \<open>
  The process and its disk.  Last come what only the specification uses: the admissions a provider may
  have been told of, the newest admission the listener has committed itself to, and the deploys that
  have run.
\<close>

record serve =
  sv_now :: int
  sv_up :: bool
  sv_dedup :: DeliveryDedup
  sv_ledger :: FileLedger
  sv_handler :: "queuedAdmission option"
  sv_worker :: worker
  sv_pending :: "queuedAdmission option"
  sv_acked :: "AdmissionRecord list"
  sv_top :: "AdmissionRecord option"
  sv_ran :: "queuedAdmission list"

definition authentic :: "webhook_env \<Rightarrow> http_request \<Rightarrow> string \<Rightarrow> bool" where
  "authentic E q body =
     (if rq_Signature q \<noteq> [] then VerifyGitHubSignature (we_hmac E) (we_secret E) body (rq_Signature q)
      else if rq_GitlabToken q \<noteq> [] then VerifyGitLabToken (we_secret E) (rq_GitlabToken q)
      else False)"

definition admission_record ::
  "webhook_env \<Rightarrow> http_request \<Rightarrow> string \<Rightarrow> string \<Rightarrow> int \<Rightarrow> AdmissionRecord" where
  "admission_record E q body i now =
     \<lparr>ar_Kind = AdmissionKindAdmitted, ar_ID = i,
      ar_Delivery = (if rq_GithubDelivery q = [] then rq_GitlabUUID q else rq_GithubDelivery q),
      ar_Digest = we_sha E body, ar_App = we_app E, ar_Branch = we_branch E,
      ar_Commit = PushCommit (we_json E body), ar_Received = now, ar_SupersededBy = [], ar_At = 0\<rparr>"

text \<open>
  The handler up to the durable append: it answers, or goes on with an item for the queue.  \<open>i\<close> is the
  minted id.
\<close>

definition webhook_receive ::
  "webhook_env \<Rightarrow> http_request \<Rightarrow> string \<Rightarrow> append_outcome \<Rightarrow> serve \<Rightarrow> (response, queuedAdmission) result \<times> serve" where
  "webhook_receive E q i res s =
     (if rq_Method q \<noteq> ''POST'' then (Inl (Status 405), s)
      else case rq_Body q of
        TooLarge \<Rightarrow> (Inl (Status 413), s)
      | ReadFailed \<Rightarrow> (Inl (Status 400), s)
      | Body body \<Rightarrow>
          if \<not> authentic E q body then (Inl (Status 401), s)
          else
            (let cid = ContentIDFromDigest (we_sha E body);
                 (dup, dedup) = SeenAndRecord (sv_now s) cid (sv_dedup s);
                 s = s\<lparr>sv_dedup := dedup\<rparr>
             in if dup then (Inl Duplicate, s)
                else if \<not> PushEvent (we_json E body) (we_branch E) then (Inl (Status 202), s)
                else if PushCommit (we_json E body) = [] then
                  (Inl NoCommit, s\<lparr>sv_dedup := Unrecord cid dedup\<rparr>)
                else
                  (let r = admission_record E q body i (sv_now s);
                       (ok, l) = Append (we_codec E) res r (sv_ledger s);
                       (files, known) = ChangedFiles (we_json E body)
                   in if \<not> ok then (Inl NotDurable, s\<lparr>sv_ledger := l, sv_dedup := Unrecord cid dedup\<rparr>)
                      else (Inr \<lparr>qa_rec = r, qa_files = files, qa_known = known\<rparr>, s\<lparr>sv_ledger := l\<rparr>))))"

definition transition_record :: "string \<Rightarrow> AdmissionRecord \<Rightarrow> string \<Rightarrow> int \<Rightarrow> AdmissionRecord" where
  "transition_record kind old by_id now =
     old\<lparr>ar_Kind := kind, ar_SupersededBy := by_id, ar_At := now\<rparr>"

definition markSuperseded ::
  "line_codec \<Rightarrow> append_outcome \<Rightarrow> int \<Rightarrow> string \<Rightarrow> AdmissionRecord \<Rightarrow> FileLedger \<Rightarrow> FileLedger" where
  "markSuperseded J res now by_id old l =
     snd (Append J res (transition_record AdmissionKindSuperseded old by_id now) l)"

definition markProcessed :: "line_codec \<Rightarrow> append_outcome \<Rightarrow> int \<Rightarrow> AdmissionRecord \<Rightarrow> FileLedger \<Rightarrow> FileLedger" where
  "markProcessed J res now r l = snd (Append J res (transition_record AdmissionKindProcessed r [] now) l)"

text \<open>\<open>admissionQueue.admit\<close>.\<close>

definition queue_admit ::
  "line_codec \<Rightarrow> append_outcome \<Rightarrow> queuedAdmission \<Rightarrow> serve \<Rightarrow> queued_as \<times> serve" where
  "queue_admit J res item s =
     (if sv_worker s \<noteq> Idle then
        (case sv_pending s of
           Some old \<Rightarrow>
             (DSuperseded,
              s\<lparr>sv_pending := Some item,
                sv_ledger := markSuperseded J res (sv_now s) (ar_ID (qa_rec item)) (qa_rec old) (sv_ledger s)\<rparr>)
         | None \<Rightarrow> (DQueued, s\<lparr>sv_pending := Some item\<rparr>))
      else (DRunning, s\<lparr>sv_worker := Running item\<rparr>))"

text \<open>The whole handler, undisturbed.\<close>

definition newWebhookHandler ::
  "webhook_env \<Rightarrow> http_request \<Rightarrow> string \<Rightarrow> append_outcome \<Rightarrow> append_outcome \<Rightarrow> serve \<Rightarrow> response \<times> serve" where
  "newWebhookHandler E q i res mark s =
     (case webhook_receive E q i res s of
        (Inl resp, s) \<Rightarrow> (resp, s)
      | (Inr item, s) \<Rightarrow> (let (d, s) = queue_admit (we_codec E) mark item s in (Admitted d, s)))"

text \<open>
  Resuming: the records that are still pending are folded from the file, the newest is admitted, the
  others are marked superseded; one outcome per mark.
\<close>

fun supersede_others ::
  "line_codec \<Rightarrow> string \<Rightarrow> int \<Rightarrow> AdmissionRecord \<Rightarrow> AdmissionRecord list \<Rightarrow> append_outcome list \<Rightarrow> FileLedger \<Rightarrow> FileLedger"
where
  "supersede_others J app now newest [] results l = l"
| "supersede_others J app now newest (p # ps) results l =
     (if ar_App p \<noteq> app \<or> ar_ID p = ar_ID newest then supersede_others J app now newest ps results l
      else supersede_others J app now newest ps (tl results)
             (markSuperseded J (case results of [] \<Rightarrow> Appended | o1 # _ \<Rightarrow> o1) now (ar_ID newest) p l))"

definition resumeAdmissions ::
  "webhook_env \<Rightarrow> append_outcome list \<Rightarrow> append_outcome \<Rightarrow> serve \<Rightarrow> serve option" where
  "resumeAdmissions E results mark s =
     (case ParseLedger (we_codec E) (fl_bytes (sv_ledger s)) of
        Inl _ \<Rightarrow> None
      | Inr recs \<Rightarrow>
          (let (pending, digests) = FoldAdmissions recs;
               s = s\<lparr>sv_dedup := SeedDedupFromLedger (sv_now s) digests (sv_dedup s)\<rparr>
           in case NewestPending pending (we_app E) of
                None \<Rightarrow> Some s
              | Some newest \<Rightarrow>
                  (let l = supersede_others (we_codec E) (we_app E) (sv_now s) newest pending results (sv_ledger s);
                       (_, s) = queue_admit (we_codec E) mark \<lparr>qa_rec = newest, qa_files = [], qa_known = False\<rparr>
                                  (s\<lparr>sv_ledger := l\<rparr>)
                   in Some (s\<lparr>sv_top := Some newest\<rparr>))))"

text \<open>
  A start of the process: the snapshot of the replay set that was on disk (whatever it holds), the
  ledger opened and repaired, the pending admissions resumed.  \<open>None\<close> when it refuses to start.
\<close>

definition runAutoDeployServe ::
  "webhook_env \<Rightarrow> DeliveryDedup \<Rightarrow> bool \<Rightarrow> append_outcome list \<Rightarrow> append_outcome \<Rightarrow> serve \<Rightarrow> serve option" where
  "runAutoDeployServe E snapshot truncate_ok results mark s =
     (case OpenLedger (we_codec E) truncate_ok (fl_bytes (sv_ledger s)) of
        None \<Rightarrow> None
      | Some l \<Rightarrow>
          resumeAdmissions E results mark
            (s\<lparr>sv_up := True, sv_dedup := snapshot, sv_ledger := l, sv_handler := None, sv_worker := Idle,
               sv_pending := None\<rparr>))"

text \<open>
  The steps of the system.  Requests are serialised by the admission mutex, so at most one handler is
  between its append and the queue; the worker is one goroutine; a crash can come at any point.  An id is
  new: it is sixteen random bytes.
\<close>

definition ids_on_disk :: "webhook_env \<Rightarrow> serve \<Rightarrow> string set" where
  "ids_on_disk E s =
     (case ParseLedger (we_codec E) (fl_bytes (sv_ledger s)) of Inl _ \<Rightarrow> {} | Inr recs \<Rightarrow> ar_ID ` set recs)"

inductive serve_step :: "webhook_env \<Rightarrow> serve \<Rightarrow> serve \<Rightarrow> bool" for E where
  request: "sv_up s \<Longrightarrow> sv_handler s = None \<Longrightarrow> i \<notin> ids_on_disk E s \<Longrightarrow> webhook_receive E q i res s = (r, s') \<Longrightarrow>
     serve_step E s (case r of
        Inl _ \<Rightarrow> s'
      | Inr item \<Rightarrow> s'\<lparr>sv_handler := Some item, sv_acked := sv_acked s' @ [qa_rec item], sv_top := Some (qa_rec item)\<rparr>)"
| enqueue: "sv_up s \<Longrightarrow> sv_handler s = Some item \<Longrightarrow> queue_admit (we_codec E) mark item s = (d, s') \<Longrightarrow>
     serve_step E s (s'\<lparr>sv_handler := None\<rparr>)"
| run: "sv_up s \<Longrightarrow> sv_worker s = Running item \<Longrightarrow>
     serve_step E s (s\<lparr>sv_worker := Finished item, sv_ran := sv_ran s @ [item]\<rparr>)"
| mark: "sv_up s \<Longrightarrow> sv_worker s = Finished item \<Longrightarrow>
     serve_step E s (s\<lparr>sv_worker := Marked,
       sv_ledger := markProcessed (we_codec E) res (sv_now s) (qa_rec item) (sv_ledger s)\<rparr>)"
| drain: "sv_up s \<Longrightarrow> sv_worker s = Marked \<Longrightarrow>
     serve_step E s (case sv_pending s of
        None \<Rightarrow> s\<lparr>sv_worker := Idle\<rparr>
      | Some item \<Rightarrow> s\<lparr>sv_worker := Running item, sv_pending := None\<rparr>)"
| tick: "sv_now s \<le> now \<Longrightarrow> serve_step E s (s\<lparr>sv_now := now\<rparr>)"
| crash: "serve_step E s (s\<lparr>sv_up := False, sv_handler := None, sv_worker := Idle, sv_pending := None,
     sv_dedup := (\<lambda>_. None)\<rparr>)"
| start: "\<not> sv_up s \<Longrightarrow> runAutoDeployServe E snapshot truncate_ok results mark s = Some s' \<Longrightarrow> serve_step E s s'"

definition serve_initial :: "int \<Rightarrow> serve" where
  "serve_initial now =
     \<lparr>sv_now = now, sv_up = False, sv_dedup = (\<lambda>_. None), sv_ledger = \<lparr>fl_bytes = [], fl_failed = False\<rparr>,
      sv_handler = None, sv_worker = Idle, sv_pending = None, sv_acked = [], sv_top = None, sv_ran = []\<rparr>"

inductive serve_reachable :: "webhook_env \<Rightarrow> serve \<Rightarrow> bool" for E where
  initial: "serve_reachable E (serve_initial now)"
| step: "serve_reachable E s \<Longrightarrow> serve_step E s t \<Longrightarrow> serve_reachable E t"

text \<open>The path filter of a deploy: it is skipped when the file list is reliable and matches nothing.\<close>

definition path_filter_skips :: "string list \<Rightarrow> string list \<Rightarrow> bool \<Rightarrow> bool" where
  "path_filter_skips paths files known \<longleftrightarrow> paths \<noteq> [] \<and> known \<and> \<not> PathMatches paths files"

section \<open>The file and its records\<close>

text \<open>The documented contract of the encoder: one line without a newline, which decodes to the record.\<close>

definition codec_ok :: "line_codec \<Rightarrow> bool" where
  "codec_ok J \<longleftrightarrow> (\<forall>r. dec J (enc J r) = Some r \<and> newline \<notin> set (enc J r) \<and> trim_space (enc J r) \<noteq> [])"

lemma codec_okD:
  "codec_ok J \<Longrightarrow> dec J (enc J r) = Some r"
  "codec_ok J \<Longrightarrow> newline \<notin> set (enc J r)"
  "codec_ok J \<Longrightarrow> trim_space (enc J r) \<noteq> []"
  by (simp_all add: codec_ok_def)

definition ledger_bytes :: "line_codec \<Rightarrow> AdmissionRecord list \<Rightarrow> string \<Rightarrow> string" where
  "ledger_bytes J recs tail = concat (map (record_line J) recs) @ tail"

lemma parse_lines_enc:
  "codec_ok J \<Longrightarrow> \<forall>r \<in> set recs. known_kind (ar_Kind r) \<Longrightarrow> parse_lines J i (map (enc J) recs) = Inr recs"
  by (induction recs arbitrary: i) (simp_all add: codec_okD)

lemma record_line_alt: "map (record_line J) recs = map (\<lambda>l. l @ [newline]) (map (enc J) recs)"
  by (simp add: record_line_def)

lemma split_bytes:
  "codec_ok J \<Longrightarrow> split_on newline (ledger_bytes J recs tail) = map (enc J) recs @ split_on newline tail"
  unfolding ledger_bytes_def record_line_alt by (rule split_terminated) (auto simp: codec_okD)

lemma ledger_bytes_snoc: "ledger_bytes J (recs @ [r]) tail = ledger_bytes J recs (record_line J r @ tail)"
  by (simp add: ledger_bytes_def)

lemma last_not_newline: "newline \<notin> set tail \<Longrightarrow> tail \<noteq> [] \<Longrightarrow> List.last tail \<noteq> newline"
  by (metis last_in_set)

lemma parse_bytes:
  assumes J: "codec_ok J" and k: "\<forall>r \<in> set recs. known_kind (ar_Kind r)" and t: "newline \<notin> set tail"
  shows "ParseLedger J (ledger_bytes J recs tail) = Inr recs"
proof (cases "tail = []")
  case False
  then have l: "List.last (ledger_bytes J recs tail) \<noteq> newline" "ledger_bytes J recs tail \<noteq> []"
    using last_not_newline [OF t False] False by (simp_all add: ledger_bytes_def)
  then have "\<not> suffix [newline] (ledger_bytes J recs tail)" by (auto simp: suffix_def)
  then show ?thesis
    using l split_bytes [OF J, of recs tail] split_on_single [OF t] parse_lines_enc [OF J k]
    by (simp add: ParseLedger_def Let_def trim_suffix_def)
next
  case True
  show ?thesis
  proof (cases recs rule: rev_cases)
    case Nil
    with True show ?thesis by (simp add: ledger_bytes_def ParseLedger_def)
  next
    case (snoc rs r)
    then have b: "ledger_bytes J recs tail = ledger_bytes J rs (enc J r) @ [newline]"
      using True by (simp add: ledger_bytes_def record_line_def)
    have "split_on newline (ledger_bytes J rs (enc J r)) = map (enc J) recs"
      using split_bytes [OF J, of rs "enc J r"] split_on_single codec_okD(2) [OF J] snoc by simp
    then show ?thesis
      using parse_lines_enc [OF J k] by (simp add: ParseLedger_def Let_def trim_suffix_def b)
  qed
qed

lemma open_bytes:
  assumes J: "codec_ok J" and k: "\<forall>r \<in> set recs. known_kind (ar_Kind r)" and t: "newline \<notin> set tail"
  shows "OpenLedger J ok (ledger_bytes J recs tail) =
    (if tail \<noteq> [] \<and> \<not> ok then None else Some \<lparr>fl_bytes = ledger_bytes J recs [], fl_failed = False\<rparr>)"
proof (cases "tail = []")
  case True
  have "ledger_bytes J recs [] = [] \<or> List.last (ledger_bytes J recs []) = newline"
    by (cases recs rule: rev_cases) (simp_all add: ledger_bytes_def record_line_def)
  then show ?thesis
    using parse_bytes [OF J k t] True by (auto simp: OpenLedger_def)
next
  case False
  then have l: "List.last (ledger_bytes J recs tail) \<noteq> newline" "ledger_bytes J recs tail \<noteq> []"
    using last_not_newline [OF t False] False by (simp_all add: ledger_bytes_def)
  have "dropWhile (\<lambda>c. c \<noteq> newline) (rev (ledger_bytes J recs [])) = rev (ledger_bytes J recs [])"
    by (cases recs rule: rev_cases) (simp_all add: ledger_bytes_def record_line_def)
  then have "dropWhile (\<lambda>c. c \<noteq> newline) (rev (ledger_bytes J recs tail)) = rev (ledger_bytes J recs [])"
    using t by (simp add: ledger_bytes_def dropWhile_append)
  then show ?thesis
    using parse_bytes [OF J k t] False l by (simp add: OpenLedger_def)
qed

text \<open>A ledger whose file holds given records: after a failed append it may end in a torn line.\<close>

definition holds_records :: "line_codec \<Rightarrow> FileLedger \<Rightarrow> AdmissionRecord list \<Rightarrow> bool" where
  "holds_records J l recs \<longleftrightarrow>
     (\<exists>tail. fl_bytes l = ledger_bytes J recs tail \<and> newline \<notin> set tail \<and> (\<not> fl_failed l \<longrightarrow> tail = []))
   \<and> (\<forall>r \<in> set recs. known_kind (ar_Kind r))"

lemma holds_parse: "codec_ok J \<Longrightarrow> holds_records J l recs \<Longrightarrow> ParseLedger J (fl_bytes l) = Inr recs"
  by (auto simp: holds_records_def parse_bytes)

lemma holds_open:
  "codec_ok J \<Longrightarrow> holds_records J l recs \<Longrightarrow> OpenLedger J ok (fl_bytes l) = Some l' \<Longrightarrow>
     holds_records J l' recs \<and> \<not> fl_failed l'"
  by (auto simp: holds_records_def open_bytes split: if_splits)

lemma holds_append:
  assumes J: "codec_ok J" and h: "holds_records J l recs" and k: "known_kind (ar_Kind r)"
    and a: "Append J res r l = (ok, l')"
  shows "if ok then \<not> fl_failed l \<and> \<not> fl_failed l' \<and> holds_records J l' (recs @ [r])
    else fl_failed l' \<and> (holds_records J l' recs \<or> \<not> fl_failed l \<and> holds_records J l' (recs @ [r]))"
proof (cases "fl_failed l")
  case True
  then show ?thesis using a h by (auto simp: Append_def)
next
  case False
  then have b: "fl_bytes l = ledger_bytes J recs []" and ks: "\<forall>r \<in> set recs. known_kind (ar_Kind r)"
    using h by (auto simp: holds_records_def)
  show ?thesis
  proof (cases res)
    case Appended
    then show ?thesis
      using a False b k ks by (auto simp: Append_def holds_records_def ledger_bytes_def)
  next
    case (AppendFails n)
    then have l': "l' = l\<lparr>fl_bytes := ledger_bytes J recs (take n (record_line J r)), fl_failed := True\<rparr>" and ok: "\<not> ok"
      using a False b by (auto simp: Append_def ledger_bytes_def)
    show ?thesis
    proof (cases "n \<le> length (enc J r)")
      case True
      then have "newline \<notin> set (take n (record_line J r))"
        using codec_okD(2) [OF J, of r] by (auto simp: record_line_def dest: in_set_takeD)
      then show ?thesis using l' ok ks by (auto simp: holds_records_def)
    next
      case False
      then have "take n (record_line J r) = record_line J r" by (simp add: record_line_def)
      then have "fl_bytes l' = ledger_bytes J (recs @ [r]) []" using l' by (simp add: ledger_bytes_def)
      then show ?thesis using l' ok ks k \<open>\<not> fl_failed l\<close> by (auto simp: holds_records_def)
    qed
  qed
qed

section \<open>What is pending\<close>

lemmas admission_kinds = AdmissionKindAdmitted_def AdmissionKindSuperseded_def AdmissionKindProcessed_def

lemma fold_state_snoc:
  "fold_state (recs @ [r]) =
     (let st = fold_state recs
      in if ar_Kind r = AdmissionKindAdmitted then st(ar_ID r \<mapsto> AdmissionKindAdmitted)
        else if ar_Kind r = AdmissionKindSuperseded \<or> ar_Kind r = AdmissionKindProcessed then
          (if st (ar_ID r) = Some AdmissionKindAdmitted then st(ar_ID r \<mapsto> ar_Kind r) else st)
        else st)"
  by (simp add: fold_state_def Let_def)

lemma fold_pending_admitted:
  assumes "ar_Kind r = AdmissionKindAdmitted" and "ar_ID r \<notin> ar_ID ` set recs"
  shows "fold_pending (recs @ [r]) = fold_pending recs @ [r]"
proof -
  have "ar_ID x \<noteq> ar_ID r" if "x \<in> set recs" for x using assms(2) that by (metis image_eqI)
  then have "filter (\<lambda>x. ar_Kind x = AdmissionKindAdmitted \<and> fold_state (recs @ [r]) (ar_ID x) = Some AdmissionKindAdmitted) recs
      = fold_pending recs"
    unfolding fold_pending_def using assms(1) by (intro filter_cong) (auto simp: fold_state_snoc Let_def)
  then show ?thesis
    using assms(1) by (simp add: fold_pending_def fold_state_snoc Let_def)
qed

lemma fold_pending_closed:
  assumes "ar_Kind r = AdmissionKindSuperseded \<or> ar_Kind r = AdmissionKindProcessed"
  shows "fold_pending (recs @ [r]) = filter (\<lambda>p. ar_ID p \<noteq> ar_ID r) (fold_pending recs)"
proof -
  have n: "ar_Kind r \<noteq> AdmissionKindAdmitted" using assms by (auto simp: admission_kinds)
  then show ?thesis
    using assms by (auto simp: fold_pending_def fold_state_snoc Let_def intro!: filter_cong)
qed

lemma fold_pending_subset: "set (fold_pending recs) \<subseteq> set recs"
  by (auto simp: fold_pending_def)

lemma newest_foldl:
  assumes "sorted (map ar_Received P)" "\<forall>r \<in> set P. ar_App r = app"
    and "\<forall>n. acc = Some n \<longrightarrow> (\<forall>p \<in> set P. ar_Received n \<le> ar_Received p)"
  shows "foldl (\<lambda>newest p. if ar_App p = app \<and> (case newest of None \<Rightarrow> True | Some n \<Rightarrow> \<not> ar_Received p < ar_Received n)
        then Some p else newest) acc P = (if P = [] then acc else Some (List.last P))"
  using assms by (induction P arbitrary: acc) (auto split: option.splits)

lemma NewestPending_last:
  "sorted (map ar_Received P) \<Longrightarrow> \<forall>r \<in> set P. ar_App r = app \<Longrightarrow>
     NewestPending P app = (if P = [] then None else Some (List.last P))"
  unfolding NewestPending_def by (subst newest_foldl) auto

section \<open>The invariant of the listener\<close>

text \<open>The items in memory whose completion is not yet marked, oldest first.\<close>

definition flight :: "serve \<Rightarrow> queuedAdmission list" where
  "flight s =
     (case sv_worker s of Running q \<Rightarrow> [q] | Finished q \<Rightarrow> [q] | _ \<Rightarrow> [])
     @ (case sv_pending s of Some q \<Rightarrow> [q] | None \<Rightarrow> [])
     @ (case sv_handler s of Some q \<Rightarrow> [q] | None \<Rightarrow> [])"

abbreviation received :: "queuedAdmission \<Rightarrow> int" where
  "received q \<equiv> ar_Received (qa_rec q)"

text \<open>What the pending records of the disk look like.\<close>

definition pending_shape :: "webhook_env \<Rightarrow> int \<Rightarrow> AdmissionRecord list \<Rightarrow> bool" where
  "pending_shape E now P \<longleftrightarrow>
     distinct (map ar_ID P) \<and> sorted (map ar_Received P)
   \<and> (\<forall>r \<in> set P. ar_Received r \<le> now \<and> ar_App r = we_app E)"

lemma pending_shape_filter: "pending_shape E now P \<Longrightarrow> pending_shape E now (filter Q P)"
  by (auto simp: pending_shape_def sorted_map_filter distinct_map_filter)

lemma pending_shape_snoc:
  "pending_shape E now P \<Longrightarrow> ar_ID r \<notin> ar_ID ` set P \<Longrightarrow> ar_Received r = now \<Longrightarrow> ar_App r = we_app E \<Longrightarrow>
     pending_shape E now (P @ [r])"
  by (auto simp: pending_shape_def sorted_append)

lemma pending_shape_mono: "pending_shape E now P \<Longrightarrow> now \<le> now' \<Longrightarrow> pending_shape E now' P"
  by (auto simp: pending_shape_def)

lemma pending_shape_newest:
  "pending_shape E now P \<Longrightarrow> NewestPending P (we_app E) = (if P = [] then None else Some (List.last P))"
  by (rule NewestPending_last) (auto simp: pending_shape_def)

text \<open>
  How the newest commitment \<open>top\<close> relates to the items in memory, to what has run, to what the
  provider was told, and to the pending records \<open>P\<close>.
\<close>

definition top_ok :: "AdmissionRecord list \<Rightarrow> serve \<Rightarrow> bool" where
  "top_ok P s \<longleftrightarrow>
     (case sv_top s of
        None \<Rightarrow> sv_acked s = [] \<and> sv_ran s = [] \<and> flight s = []
      | Some t \<Rightarrow>
          ar_Received t \<le> sv_now s
        \<and> (\<forall>a \<in> set (sv_acked s). ar_Received a \<le> ar_Received t)
        \<and> (\<forall>q \<in> set (sv_ran s) \<union> set (flight s). received q \<le> ar_Received t)
        \<and> (P \<noteq> [] \<longrightarrow> ar_Received t \<le> ar_Received (List.last P))
        \<and> (flight s \<noteq> [] \<longrightarrow> qa_rec (List.last (flight s)) = t)
        \<and> (t \<in> qa_rec ` set (sv_ran s) \<or> t \<in> set P \<and> (sv_up s \<longrightarrow> flight s \<noteq> [])))"

definition serve_inv :: "webhook_env \<Rightarrow> AdmissionRecord list \<Rightarrow> serve \<Rightarrow> bool" where
  "serve_inv E recs s \<longleftrightarrow>
     holds_records (we_codec E) (sv_ledger s) recs
   \<and> pending_shape E (sv_now s) (fold_pending recs)
   \<and> top_ok (fold_pending recs) s
   \<and> (sv_up s \<longrightarrow> \<not> fl_failed (sv_ledger s) \<longrightarrow> map qa_rec (flight s) = fold_pending recs)
   \<and> (\<not> sv_up s \<longrightarrow> flight s = [])
   \<and> (sv_worker s = Idle \<longrightarrow> sv_pending s = None)
   \<and> (\<forall>q. sv_worker s = Finished q \<longrightarrow> q \<in> set (sv_ran s))
   \<and> sorted (map received (sv_ran s @ flight s))"

lemma flight_simps [simp]:
  "flight (s\<lparr>sv_now := n\<rparr>) = flight s"
  "flight (s\<lparr>sv_ledger := l\<rparr>) = flight s"
  "flight (s\<lparr>sv_dedup := d\<rparr>) = flight s"
  "flight (s\<lparr>sv_ran := x\<rparr>) = flight s"
  "flight (s\<lparr>sv_acked := a\<rparr>) = flight s"
  "flight (s\<lparr>sv_top := t\<rparr>) = flight s"
  "flight (s\<lparr>sv_up := b\<rparr>) = flight s"
  by (simp_all add: flight_def)

text \<open>
  A mark closes its record: the disk's records stay or gain it, and a failed append changes nothing on
  later marks.
\<close>

lemma mark_append:
  assumes J: "codec_ok J" and h: "holds_records J l recs"
    and k: "ar_Kind r = AdmissionKindSuperseded \<or> ar_Kind r = AdmissionKindProcessed"
  obtains recs' where "holds_records J (snd (Append J res r l)) recs'"
    and "fl_failed l \<longrightarrow> recs' = recs"
    and "fl_failed l \<longrightarrow> fl_failed (snd (Append J res r l))"
    and "fold_pending recs' = fold_pending recs \<and> fl_failed (snd (Append J res r l))
      \<or> fold_pending recs' = filter (\<lambda>p. ar_ID p \<noteq> ar_ID r) (fold_pending recs)"
proof -
  obtain ok l' where a: "Append J res r l = (ok, l')" by (rule prod.exhaust)
  have kk: "known_kind (ar_Kind r)" using k by (auto simp: known_kind_def)
  show thesis
  proof (cases "fl_failed l")
    case True
    then have "Append J res r l = (False, l)" by (simp add: Append_def)
    then show thesis using h True by (intro that [of recs]) simp_all
  next
    case False
    from holds_append [OF J h kk a] have "holds_records J l' (recs @ [r]) \<or> fl_failed l' \<and> holds_records J l' recs"
      by (auto split: if_splits)
    then show thesis
    proof
      assume "holds_records J l' (recs @ [r])"
      then show thesis using False a fold_pending_closed [OF k] by (intro that [of "recs @ [r]"]) simp_all
    next
      assume "fl_failed l' \<and> holds_records J l' recs"
      then show thesis using False a by (intro that [of recs]) simp_all
    qed
  qed
qed

lemma top_ok_simps [simp]:
  "top_ok P (s\<lparr>sv_dedup := d\<rparr>) \<longleftrightarrow> top_ok P s"
  "top_ok P (s\<lparr>sv_ledger := l\<rparr>) \<longleftrightarrow> top_ok P s"
  by (simp_all add: top_ok_def split: option.split)

lemma serve_inv_dedup [simp]: "serve_inv E recs (s\<lparr>sv_dedup := d\<rparr>) \<longleftrightarrow> serve_inv E recs s"
  by (simp add: serve_inv_def)

lemma serve_inv_dedup_ledger:
  "serve_inv E recs (s\<lparr>sv_dedup := d, sv_ledger := l\<rparr>) \<longleftrightarrow> serve_inv E recs (s\<lparr>sv_ledger := l\<rparr>)"
  "serve_inv E recs (s\<lparr>sv_dedup := d, sv_ledger := l, sv_handler := h, sv_acked := a, sv_top := t\<rparr>)
     \<longleftrightarrow> serve_inv E recs (s\<lparr>sv_ledger := l, sv_handler := h, sv_acked := a, sv_top := t\<rparr>)"
proof -
  have "s\<lparr>sv_dedup := d, sv_ledger := l\<rparr> = s\<lparr>sv_ledger := l\<rparr>\<lparr>sv_dedup := d\<rparr>"
    and "s\<lparr>sv_dedup := d, sv_ledger := l, sv_handler := h, sv_acked := a, sv_top := t\<rparr>
      = s\<lparr>sv_ledger := l, sv_handler := h, sv_acked := a, sv_top := t\<rparr>\<lparr>sv_dedup := d\<rparr>"
    by simp_all
  then show "serve_inv E recs (s\<lparr>sv_dedup := d, sv_ledger := l\<rparr>) \<longleftrightarrow> serve_inv E recs (s\<lparr>sv_ledger := l\<rparr>)"
    and "serve_inv E recs (s\<lparr>sv_dedup := d, sv_ledger := l, sv_handler := h, sv_acked := a, sv_top := t\<rparr>)
     \<longleftrightarrow> serve_inv E recs (s\<lparr>sv_ledger := l, sv_handler := h, sv_acked := a, sv_top := t\<rparr>)"
    by (metis serve_inv_dedup)+
qed

lemma webhook_receive_cases:
  assumes "webhook_receive E q i res s = (r, s')"
  obtains (answered) resp d where "r = Inl resp" "s' = s\<lparr>sv_dedup := d\<rparr>"
    | (refused) body d l where "r = Inl NotDurable" "s' = s\<lparr>sv_dedup := d, sv_ledger := l\<rparr>"
        "Append (we_codec E) res (admission_record E q body i (sv_now s)) (sv_ledger s) = (False, l)"
    | (appended) body d l item where "r = Inr item" "s' = s\<lparr>sv_dedup := d, sv_ledger := l\<rparr>"
        "qa_rec item = admission_record E q body i (sv_now s)"
        "Append (we_codec E) res (admission_record E q body i (sv_now s)) (sv_ledger s) = (True, l)"
proof -
  have same: "s = s\<lparr>sv_dedup := sv_dedup s\<rparr>" by simp
  consider "\<exists>resp. r = Inl resp \<and> s' = s"
    | body where "rq_Method q = ''POST''" "rq_Body q = Body body" "authentic E q body"
    using assms by (auto simp: webhook_receive_def Let_def split: if_splits body_read.splits)
  then show thesis
  proof cases
    case 1
    then show thesis using answered same by metis
  next
    case 2
    obtain dup d where d: "SeenAndRecord (sv_now s) (ContentIDFromDigest (we_sha E body)) (sv_dedup s) = (dup, d)"
      by (rule prod.exhaust)
    let ?r = "admission_record E q body i (sv_now s)"
    obtain ok l where a: "Append (we_codec E) res ?r (sv_ledger s) = (ok, l)"
      by (rule prod.exhaust)
    obtain fs kn where f: "ChangedFiles (we_json E body) = (fs, kn)" by (rule prod.exhaust)
    note eq = assms [unfolded webhook_receive_def 2 body_read.case Let_def d prod.case]
    consider dup | "\<not> dup" "\<not> PushEvent (we_json E body) (we_branch E)"
      | "\<not> dup" "PushEvent (we_json E body) (we_branch E)" "PushCommit (we_json E body) = []"
      | "\<not> dup" "PushEvent (we_json E body) (we_branch E)" "PushCommit (we_json E body) \<noteq> []" "\<not> ok"
      | "\<not> dup" "PushEvent (we_json E body) (we_branch E)" "PushCommit (we_json E body) \<noteq> []" ok
      by blast
    then show thesis
    proof cases
      case 1
      then show thesis using eq \<open>authentic E q body\<close> by (intro answered [of Duplicate d]) auto
    next
      case 2
      then show thesis using eq \<open>authentic E q body\<close> by (intro answered [of "Status 202" d]) auto
    next
      case 3
      then show thesis
        using eq \<open>authentic E q body\<close>
        by (intro answered [of NoCommit "Unrecord (ContentIDFromDigest (we_sha E body)) d"]) auto
    next
      case 4
      then show thesis
        using eq a \<open>authentic E q body\<close>
        by (intro refused [of l "Unrecord (ContentIDFromDigest (we_sha E body)) d" body])
          (auto simp: f)
    next
      case 5
      then show thesis
        using eq a \<open>authentic E q body\<close>
        by (intro appended [of "\<lparr>qa_rec = ?r, qa_files = fs, qa_known = kn\<rparr>" l d body]) (auto simp: f)
    qed
  qed
qed

lemma top_ok_bounds:
  "top_ok P s \<Longrightarrow> q \<in> set (sv_ran s) \<union> set (flight s) \<Longrightarrow> received q \<le> sv_now s"
  "top_ok P s \<Longrightarrow> a \<in> set (sv_acked s) \<Longrightarrow> ar_Received a \<le> sv_now s"
  by (auto simp: top_ok_def split: option.splits intro: order_trans)

lemma ids_on_disk_eq:
  "codec_ok (we_codec E) \<Longrightarrow> holds_records (we_codec E) (sv_ledger s) recs \<Longrightarrow> ids_on_disk E s = ar_ID ` set recs"
  by (simp add: ids_on_disk_def holds_parse)

lemma fresh_pending: "i \<notin> ar_ID ` set recs \<Longrightarrow> i \<notin> ar_ID ` set (fold_pending recs)"
  using fold_pending_subset by blast

lemma admission_record_simps [simp]:
  "ar_Kind (admission_record E q body i now) = AdmissionKindAdmitted"
  "ar_ID (admission_record E q body i now) = i"
  "ar_Received (admission_record E q body i now) = now"
  "ar_App (admission_record E q body i now) = we_app E"
  by (simp_all add: admission_record_def)

lemma top_ok_newer:
  assumes "top_ok P s" and "ar_Received r = sv_now s"
  shows "top_ok (P @ [r]) s"
  using assms by (auto simp: top_ok_def split: option.splits)

lemma inv_request_refused:
  assumes J: "codec_ok (we_codec E)" and inv: "serve_inv E recs s" and i: "i \<notin> ids_on_disk E s"
    and a: "Append (we_codec E) res (admission_record E q body i (sv_now s)) (sv_ledger s) = (False, l)"
  shows "\<exists>recs'. serve_inv E recs' (s\<lparr>sv_ledger := l\<rparr>)"
proof -
  let ?r = "admission_record E q body i (sv_now s)"
  have h: "holds_records (we_codec E) (sv_ledger s) recs" using inv by (simp add: serve_inv_def)
  have fresh: "i \<notin> ar_ID ` set recs" using i ids_on_disk_eq [OF J h] by simp
  have "known_kind (ar_Kind ?r)" by (simp add: known_kind_def)
  from holds_append [OF J h this a]
  consider "fl_failed l" "holds_records (we_codec E) l recs" | "fl_failed l" "holds_records (we_codec E) l (recs @ [?r])"
    by (auto split: if_splits)
  then show ?thesis
  proof cases
    case 1
    then have "serve_inv E recs (s\<lparr>sv_ledger := l\<rparr>)" using inv by (simp add: serve_inv_def)
    then show ?thesis ..
  next
    case 2
    have P: "fold_pending (recs @ [?r]) = fold_pending recs @ [?r]"
      using fresh by (intro fold_pending_admitted) simp_all
    have "pending_shape E (sv_now s) (fold_pending recs @ [?r])"
      using inv fresh_pending [OF fresh] by (intro pending_shape_snoc) (simp_all add: serve_inv_def)
    moreover have "top_ok (fold_pending recs @ [?r]) s"
      using inv by (intro top_ok_newer) (simp_all add: serve_inv_def)
    ultimately have "serve_inv E (recs @ [?r]) (s\<lparr>sv_ledger := l\<rparr>)"
      using 2 inv by (simp add: serve_inv_def P)
    then show ?thesis ..
  qed
qed

lemma inv_request_appended:
  assumes J: "codec_ok (we_codec E)" and inv: "serve_inv E recs s" and i: "i \<notin> ids_on_disk E s"
    and up: "sv_up s" "sv_handler s = None"
    and a: "Append (we_codec E) res (admission_record E q body i (sv_now s)) (sv_ledger s) = (True, l)"
    and item: "qa_rec item = admission_record E q body i (sv_now s)"
  shows "\<exists>recs'. serve_inv E recs'
    (s\<lparr>sv_ledger := l, sv_handler := Some item, sv_acked := sv_acked s @ [qa_rec item], sv_top := Some (qa_rec item)\<rparr>)"
proof -
  let ?r = "admission_record E q body i (sv_now s)"
  let ?s = "s\<lparr>sv_ledger := l, sv_handler := Some item, sv_acked := sv_acked s @ [qa_rec item], sv_top := Some (qa_rec item)\<rparr>"
  have h: "holds_records (we_codec E) (sv_ledger s) recs" using inv by (simp add: serve_inv_def)
  have fresh: "i \<notin> ar_ID ` set recs" using i ids_on_disk_eq [OF J h] by simp
  have "known_kind (ar_Kind ?r)" by (simp add: known_kind_def)
  from holds_append [OF J h this a]
  have l: "\<not> fl_failed (sv_ledger s)" "\<not> fl_failed l" "holds_records (we_codec E) l (recs @ [?r])" by auto
  have P: "fold_pending (recs @ [?r]) = fold_pending recs @ [?r]"
    using fresh by (intro fold_pending_admitted) simp_all
  have F: "flight (s\<lparr>sv_ledger := l, sv_handler := Some item\<rparr>) = flight s @ [item]"
    using up(2) by (simp add: flight_def)
  have t: "top_ok (fold_pending recs) s" using inv by (simp add: serve_inv_def)
  have ok: "pending_shape E (sv_now s) (fold_pending recs @ [?r])"
    using inv fresh_pending [OF fresh] by (intro pending_shape_snoc) (simp_all add: serve_inv_def)
  have "top_ok (fold_pending recs @ [?r]) ?s"
    using top_ok_bounds [OF t] by (auto simp: top_ok_def F item)
  moreover have "sorted (map received (sv_ran s @ flight s @ [item]))"
    using inv top_ok_bounds(1) [OF t] item by (auto simp: serve_inv_def sorted_append)
  ultimately have "serve_inv E (recs @ [?r]) ?s"
    using inv l ok up item by (simp add: serve_inv_def P F)
  then show ?thesis ..
qed

lemma transition_record_simps [simp]:
  "ar_ID (transition_record k r by_id now) = ar_ID r"
  "ar_Kind (transition_record k r by_id now) = k"
  by (simp_all add: transition_record_def)

lemma filter_middle:
  assumes "distinct (map f (xs @ y # ys))"
  shows "filter (\<lambda>p. f p \<noteq> f y) (xs @ y # ys) = xs @ ys"
proof -
  have "\<forall>x \<in> set xs \<union> set ys. f x \<noteq> f y" using assms by (auto simp: image_iff)
  then show ?thesis by simp
qed

text \<open>Dropping one item from memory while marking its record closed.\<close>

lemma inv_close:
  assumes J: "codec_ok (we_codec E)" and inv: "serve_inv E recs s" and up: "sv_up s"
    and k: "ar_Kind m = AdmissionKindSuperseded \<or> ar_Kind m = AdmissionKindProcessed"
    and m: "ar_ID m = ar_ID (qa_rec old)"
    and F: "flight s = xs @ old # ys" and F': "flight s' = xs @ ys"
    and gone: "ys \<noteq> [] \<or> xs = [] \<and> old \<in> set (sv_ran s)"
    and same: "sv_ledger s' = snd (Append (we_codec E) res m (sv_ledger s))" "sv_now s' = sv_now s" "sv_up s'"
      "sv_acked s' = sv_acked s" "sv_top s' = sv_top s" "sv_ran s' = sv_ran s"
      "sv_worker s' = Idle \<longrightarrow> sv_pending s' = None"
      "\<forall>q. sv_worker s' = Finished q \<longrightarrow> q \<in> set (sv_ran s)"
  shows "\<exists>recs'. serve_inv E recs' s'"
proof -
  let ?P = "fold_pending recs"
  have h: "holds_records (we_codec E) (sv_ledger s) recs" and p: "pending_shape E (sv_now s) ?P" and t: "top_ok ?P s"
    and PF: "\<not> fl_failed (sv_ledger s) \<longrightarrow> map qa_rec (flight s) = ?P"
    and so: "sorted (map received (sv_ran s @ flight s))"
    using inv up by (auto simp: serve_inv_def)
  obtain recs' where h': "holds_records (we_codec E) (sv_ledger s') recs'"
    and failed: "fl_failed (sv_ledger s) \<longrightarrow> recs' = recs"
    and stuck: "fl_failed (sv_ledger s) \<longrightarrow> fl_failed (sv_ledger s')"
    and P': "fold_pending recs' = ?P \<and> fl_failed (sv_ledger s')
      \<or> fold_pending recs' = filter (\<lambda>p. ar_ID p \<noteq> ar_ID m) ?P"
    using mark_append [OF J h k] same(1) by metis
  have clean: "filter (\<lambda>p. ar_ID p \<noteq> ar_ID m) ?P = map qa_rec (xs @ ys)" if "\<not> fl_failed (sv_ledger s)"
  proof -
    have "?P = map qa_rec xs @ qa_rec old # map qa_rec ys" using PF F that by simp
    moreover have "distinct (map ar_ID ?P)" using p by (simp add: pending_shape_def)
    ultimately show ?thesis using filter_middle [of ar_ID "map qa_rec xs" "qa_rec old" "map qa_rec ys"] by (simp add: m)
  qed
  have new_P: "fold_pending recs' = ?P \<or> \<not> fl_failed (sv_ledger s) \<and> fold_pending recs' = map qa_rec (xs @ ys)"
    using failed P' clean by (cases "fl_failed (sv_ledger s)") auto
  have "pending_shape E (sv_now s) (fold_pending recs')"
    using P' p pending_shape_filter by auto
  moreover have "top_ok (fold_pending recs') s'"
  proof (cases "sv_top s")
    case None
    then show ?thesis using t F by (simp add: top_ok_def)
  next
    case (Some top)
    have last_top: "qa_rec (List.last (xs @ old # ys)) = top"
      using t Some F by (simp add: top_ok_def)
    have new_last: "flight s' \<noteq> [] \<longrightarrow> qa_rec (List.last (flight s')) = top"
    proof (cases "ys = []")
      case True
      then show ?thesis using gone F' by simp
    next
      case False
      then show ?thesis using last_top F' by simp
    qed
    have bound: "fold_pending recs' \<noteq> [] \<longrightarrow> ar_Received top \<le> ar_Received (List.last (fold_pending recs'))"
    proof (cases "fold_pending recs' = ?P")
      case True
      then show ?thesis using t Some by (simp add: top_ok_def)
    next
      case False
      then have "fold_pending recs' = map qa_rec (flight s')" using new_P F' by simp
      then show ?thesis using new_last by (simp add: last_map)
    qed
    have kept: "top \<in> qa_rec ` set (sv_ran s) \<or> top \<in> set (fold_pending recs') \<and> flight s' \<noteq> []"
    proof (cases "ys = []")
      case True
      then have "xs = []" "old \<in> set (sv_ran s)" "qa_rec old = top" using gone last_top by simp_all
      then have "top \<in> qa_rec ` set (sv_ran s)" by blast
      then show ?thesis ..
    next
      case False
      then have "qa_rec (List.last ys) = top" "List.last ys \<in> set (flight s')" using last_top F' by simp_all
      then have "top \<in> qa_rec ` set (flight s')" by blast
      then show ?thesis
        using new_P t Some up F' False by (auto simp: top_ok_def)
    qed
    have "set (flight s') \<subseteq> set (flight s)" using F F' by auto
    then show ?thesis
      using t Some new_last bound kept by (auto simp: top_ok_def same)
  qed
  moreover have "\<not> fl_failed (sv_ledger s') \<longrightarrow> map qa_rec (flight s') = fold_pending recs'"
    using stuck P' clean F' by auto
  moreover have "sorted (map received (sv_ran s @ flight s'))"
    using so F F' by (auto simp: sorted_append)
  ultimately have "serve_inv E recs' s'"
    using h' same by (simp add: serve_inv_def)
  then show ?thesis ..
qed

text \<open>A step that only moves items between the slots.\<close>

lemma inv_move:
  assumes inv: "serve_inv E recs s" and F: "flight s' = flight s"
    and same: "sv_ledger s' = sv_ledger s" "sv_now s' = sv_now s" "sv_up s' = sv_up s"
      "sv_acked s' = sv_acked s" "sv_top s' = sv_top s" "sv_ran s' = sv_ran s"
      "sv_worker s' = Idle \<longrightarrow> sv_pending s' = None"
      "\<forall>q. sv_worker s' = Finished q \<longrightarrow> q \<in> set (sv_ran s)"
  shows "serve_inv E recs s'"
proof -
  have "top_ok (fold_pending recs) s'"
    using inv by (simp add: serve_inv_def top_ok_def F same split: option.splits)
  then show ?thesis using inv same F by (simp add: serve_inv_def)
qed

lemma inv_enqueue:
  assumes J: "codec_ok (we_codec E)" and inv: "serve_inv E recs s" and up: "sv_up s"
    and hd: "sv_handler s = Some item" and a: "queue_admit (we_codec E) res item s = (d, s1)"
  shows "\<exists>recs'. serve_inv E recs' (s1\<lparr>sv_handler := None\<rparr>)"
proof (cases "sv_worker s = Idle")
  case True
  then have "sv_pending s = None" using inv by (simp add: serve_inv_def)
  then have "serve_inv E recs (s1\<lparr>sv_handler := None\<rparr>)"
    using True hd a by (intro inv_move [OF inv]) (auto simp: queue_admit_def flight_def)
  then show ?thesis ..
next
  case False
  have fin: "\<forall>q. sv_worker s = Finished q \<longrightarrow> q \<in> set (sv_ran s)" using inv by (simp add: serve_inv_def)
  show ?thesis
  proof (cases "sv_pending s")
    case None
    then have "serve_inv E recs (s1\<lparr>sv_handler := None\<rparr>)"
      using False hd a fin by (intro inv_move [OF inv]) (auto simp: queue_admit_def flight_def)
    then show ?thesis ..
  next
    case (Some old)
    let ?w = "case sv_worker s of Running q \<Rightarrow> [q] | Finished q \<Rightarrow> [q] | _ \<Rightarrow> []"
    have s1: "s1 = s\<lparr>sv_pending := Some item,
        sv_ledger := markSuperseded (we_codec E) res (sv_now s) (ar_ID (qa_rec item)) (qa_rec old) (sv_ledger s)\<rparr>"
      using a False Some by (simp add: queue_admit_def)
    show ?thesis
      by (rule inv_close [OF J inv up, of "transition_record AdmissionKindSuperseded (qa_rec old) (ar_ID (qa_rec item)) (sv_now s)"
            old ?w "[item]"])
        (use False Some hd fin up in \<open>simp_all add: s1 flight_def markSuperseded_def\<close>)
  qed
qed

lemma inv_mark:
  assumes J: "codec_ok (we_codec E)" and inv: "serve_inv E recs s" and up: "sv_up s"
    and w: "sv_worker s = Finished item"
  shows "\<exists>recs'. serve_inv E recs' (s\<lparr>sv_worker := Marked,
       sv_ledger := markProcessed (we_codec E) res (sv_now s) (qa_rec item) (sv_ledger s)\<rparr>)"
proof -
  have "item \<in> set (sv_ran s)" using inv w by (simp add: serve_inv_def)
  then show ?thesis
    by (intro inv_close [OF J inv up, of "transition_record AdmissionKindProcessed (qa_rec item) [] (sv_now s)" item "[]"
          "(case sv_pending s of Some q \<Rightarrow> [q] | None \<Rightarrow> []) @ (case sv_handler s of Some q \<Rightarrow> [q] | None \<Rightarrow> [])"])
      (use w up in \<open>simp_all add: flight_def markProcessed_def\<close>)
qed

lemma inv_run:
  assumes inv: "serve_inv E recs s" and up: "sv_up s" and w: "sv_worker s = Running item"
  shows "serve_inv E recs (s\<lparr>sv_worker := Finished item, sv_ran := sv_ran s @ [item]\<rparr>)"
proof -
  let ?s = "s\<lparr>sv_worker := Finished item, sv_ran := sv_ran s @ [item]\<rparr>"
  have F: "flight ?s = flight s" using w by (simp add: flight_def)
  obtain ys where f: "flight s = item # ys" using w by (simp add: flight_def)
  have t: "top_ok (fold_pending recs) s" using inv by (simp add: serve_inv_def)
  then have "top_ok (fold_pending recs) ?s"
    using f up by (auto simp: top_ok_def F simp del: flight_simps split: option.splits)
  moreover have "sorted (map received (sv_ran s @ [item] @ flight s))"
    using inv f by (auto simp: serve_inv_def sorted_append)
  ultimately show ?thesis
    using inv F by (simp add: serve_inv_def del: flight_simps)
qed

lemma inv_drain:
  assumes inv: "serve_inv E recs s" and w: "sv_worker s = Marked"
  shows "serve_inv E recs (case sv_pending s of
        None \<Rightarrow> s\<lparr>sv_worker := Idle\<rparr>
      | Some item \<Rightarrow> s\<lparr>sv_worker := Running item, sv_pending := None\<rparr>)"
  using w by (intro inv_move [OF inv]) (auto simp: flight_def split: option.splits)

lemma inv_tick:
  assumes inv: "serve_inv E recs s" and "sv_now s \<le> now"
  shows "serve_inv E recs (s\<lparr>sv_now := now\<rparr>)"
proof -
  have "top_ok (fold_pending recs) (s\<lparr>sv_now := now\<rparr>)"
    using inv assms(2) by (auto simp: serve_inv_def top_ok_def split: option.splits)
  then show ?thesis using inv pending_shape_mono assms(2) by (auto simp: serve_inv_def)
qed

lemma inv_crash:
  assumes inv: "serve_inv E recs s"
  shows "serve_inv E recs (s\<lparr>sv_up := False, sv_handler := None, sv_worker := Idle, sv_pending := None, sv_dedup := d\<rparr>)"
proof -
  let ?s = "s\<lparr>sv_up := False, sv_handler := None, sv_worker := Idle, sv_pending := None\<rparr>"
  have F: "flight ?s = []" by (simp add: flight_def)
  have "top_ok (fold_pending recs) ?s"
    using inv by (auto simp: serve_inv_def top_ok_def F simp del: flight_simps split: option.splits)
  then have "serve_inv E recs ?s"
    using inv F by (auto simp: serve_inv_def sorted_append simp del: flight_simps)
  then show ?thesis by simp
qed

lemma supersede_others_pending:
  "codec_ok J \<Longrightarrow> holds_records J l recs \<Longrightarrow>
    \<exists>recs' S. holds_records J (supersede_others J app now newest ps results l) recs'
      \<and> fold_pending recs' = filter (\<lambda>p. ar_ID p \<notin> S) (fold_pending recs) \<and> ar_ID newest \<notin> S
      \<and> (\<not> fl_failed (supersede_others J app now newest ps results l) \<longrightarrow>
           \<not> fl_failed l \<and> (\<forall>p \<in> set ps. ar_App p = app \<and> ar_ID p \<noteq> ar_ID newest \<longrightarrow> ar_ID p \<in> S))"
proof (induction J app now newest ps results l arbitrary: recs rule: supersede_others.induct)
  case (1 J app now newest results l)
  have "fold_pending recs = filter (\<lambda>p. ar_ID p \<notin> {}) (fold_pending recs)" by simp
  then show ?case using 1(2) unfolding supersede_others.simps by fastforce
next
  case (2 J app now newest p ps results l)
  show ?case
  proof (cases "ar_App p \<noteq> app \<or> ar_ID p = ar_ID newest")
    case True
    have "supersede_others J app now newest (p # ps) results l = supersede_others J app now newest ps results l"
      using True by simp
    then show ?thesis using 2(1) [OF True 2(3,4)] True by (metis set_ConsD)
  next
    case False
    let ?res = "case results of [] \<Rightarrow> Appended | o1 # _ \<Rightarrow> o1"
    let ?m = "transition_record AdmissionKindSuperseded p (ar_ID newest) now"
    let ?l = "markSuperseded J ?res now (ar_ID newest) p l"
    let ?fin = "supersede_others J app now newest ps (tl results) ?l"
    have eq: "supersede_others J app now newest (p # ps) results l = ?fin"
      using False by simp
    obtain recs1 where h1: "holds_records J ?l recs1"
      and st: "fl_failed l \<longrightarrow> fl_failed ?l"
      and P1: "fold_pending recs1 = fold_pending recs \<and> fl_failed ?l
        \<or> fold_pending recs1 = filter (\<lambda>q. ar_ID q \<noteq> ar_ID p) (fold_pending recs)"
      using mark_append [OF 2(3,4), of ?m ?res] unfolding markSuperseded_def by auto
    obtain recs' S where IH: "holds_records J ?fin recs'" "fold_pending recs' = filter (\<lambda>p. ar_ID p \<notin> S) (fold_pending recs1)"
      "ar_ID newest \<notin> S" "\<not> fl_failed ?fin \<longrightarrow> \<not> fl_failed ?l
         \<and> (\<forall>p \<in> set ps. ar_App p = app \<and> ar_ID p \<noteq> ar_ID newest \<longrightarrow> ar_ID p \<in> S)"
      using 2(2) [OF False 2(3) h1] by blast
    show ?thesis
    proof (cases "fold_pending recs1 = fold_pending recs \<and> fl_failed ?l")
      case True
      then show ?thesis unfolding eq using IH by (intro exI [of _ recs'] exI [of _ S]) simp
    next
      case closed: False
      then have e: "fold_pending recs1 = filter (\<lambda>q. ar_ID q \<noteq> ar_ID p) (fold_pending recs)"
        using P1 by blast
      have "fold_pending recs' = filter (\<lambda>q. ar_ID q \<notin> insert (ar_ID p) S) (fold_pending recs)"
        by (simp add: IH(2) e)
      then show ?thesis
        unfolding eq using IH st False by (intro exI [of _ recs'] exI [of _ "insert (ar_ID p) S"]) auto
    qed
  qed
qed

lemma inv_start:
  assumes J: "codec_ok (we_codec E)" and inv: "serve_inv E recs s" and down: "\<not> sv_up s"
    and start: "runAutoDeployServe E snapshot truncate_ok results mark s = Some s'"
  shows "\<exists>recs'. serve_inv E recs' s'"
proof -
  let ?P = "fold_pending recs"
  have h: "holds_records (we_codec E) (sv_ledger s) recs" and p: "pending_shape E (sv_now s) ?P" and t: "top_ok ?P s"
    and so: "sorted (map received (sv_ran s))" and F: "flight s = []"
    using inv down by (auto simp: serve_inv_def)
  obtain l where l: "OpenLedger (we_codec E) truncate_ok (fl_bytes (sv_ledger s)) = Some l"
    using start by (auto simp: runAutoDeployServe_def split: option.splits)
  note hl = holds_open [OF J h l]
  let ?s0 = "s\<lparr>sv_up := True, sv_dedup := snapshot, sv_ledger := l, sv_handler := None, sv_worker := Idle, sv_pending := None\<rparr>"
  have r: "resumeAdmissions E results mark ?s0 = Some s'" using start l by (simp add: runAutoDeployServe_def)
  have F0: "flight ?s0 = []" by (simp add: flight_def)
  have t0: "top_ok ?P ?s0" if "?P = []"
    using t that by (auto simp: top_ok_def F F0 simp del: flight_simps split: option.splits)
  have parse: "ParseLedger (we_codec E) (fl_bytes l) = Inr recs" using holds_parse [OF J] hl by blast
  show ?thesis
  proof (cases "?P = []")
    case True
    obtain d where "s' = ?s0\<lparr>sv_dedup := d\<rparr>"
      using r by (auto simp: resumeAdmissions_def parse FoldAdmissions_def True NewestPending_def Let_def)
    moreover have "serve_inv E recs ?s0"
      using t0 [OF True] hl p so F0 True by (simp add: serve_inv_def del: flight_simps)
    ultimately show ?thesis by (metis serve_inv_dedup)
  next
    case False
    let ?n = "List.last ?P"
    let ?l = "supersede_others (we_codec E) (we_app E) (sv_now s) ?n ?P results l"
    let ?item = "\<lparr>qa_rec = ?n, qa_files = [], qa_known = False\<rparr>"
    have newest: "NewestPending ?P (we_app E) = Some ?n" using pending_shape_newest [OF p] False by simp
    let ?d = "SeedDedupFromLedger (sv_now s) (fold_digests recs) snapshot"
    have s': "s' = s\<lparr>sv_up := True, sv_dedup := ?d, sv_ledger := ?l, sv_handler := None,
        sv_worker := Running ?item, sv_pending := None, sv_top := Some ?n\<rparr>"
      using r by (auto simp: resumeAdmissions_def parse FoldAdmissions_def newest Let_def queue_admit_def
          intro!: serve.equality)
    obtain recs' S where h': "holds_records (we_codec E) ?l recs'"
      and P': "fold_pending recs' = filter (\<lambda>p. ar_ID p \<notin> S) ?P" and nS: "ar_ID ?n \<notin> S"
      and clean: "\<not> fl_failed ?l \<longrightarrow> (\<forall>p \<in> set ?P. ar_App p = we_app E \<and> ar_ID p \<noteq> ar_ID ?n \<longrightarrow> ar_ID p \<in> S)"
      using supersede_others_pending [OF J, of l recs "we_app E" "sv_now s" ?n ?P results] hl by blast
    have nP: "?n \<in> set ?P" using False by simp
    have P_split: "?P = butlast ?P @ [?n]" using False by simp
    have dist: "distinct (map ar_ID ?P)" using p by (simp add: pending_shape_def)
    have P'2: "fold_pending recs' = filter (\<lambda>p. ar_ID p \<notin> S) (butlast ?P) @ [?n]"
      using P' nS by (subst (asm) P_split) simp
    have "filter (\<lambda>p. ar_ID p \<notin> S) (butlast ?P) = []" if "\<not> fl_failed ?l"
    proof -
      have "ar_ID q \<in> S" if q: "q \<in> set (butlast ?P)" for q
      proof -
        have "ar_ID q \<noteq> ar_ID ?n"
          using dist q by (subst (asm) P_split) (auto simp: image_iff)
        then show ?thesis
          using clean \<open>\<not> fl_failed ?l\<close> in_set_butlastD [OF q] p by (auto simp: pending_shape_def)
      qed
      then show ?thesis by (simp add: filter_empty_conv)
    qed
    then have closed: "\<not> fl_failed ?l \<longrightarrow> fold_pending recs' = [?n]" using P'2 by simp
    have F': "flight s' = [?item]" by (simp add: s' flight_def)
    have n_now: "ar_Received ?n \<le> sv_now s" using p nP by (simp add: pending_shape_def)
    have old: "(\<forall>a \<in> set (sv_acked s). ar_Received a \<le> ar_Received ?n) \<and> (\<forall>q \<in> set (sv_ran s). received q \<le> ar_Received ?n)"
      using t False by (auto simp: top_ok_def split: option.splits intro: order_trans)
    have "top_ok (fold_pending recs') s'"
      unfolding top_ok_def F' using old n_now P'2 by (simp add: s')
    moreover have "sorted (map received (sv_ran s' @ flight s'))"
      unfolding F' using so old by (simp add: s' sorted_append)
    moreover have "pending_shape E (sv_now s) (fold_pending recs')"
      unfolding P' by (rule pending_shape_filter [OF p])
    ultimately have "serve_inv E recs' s'"
      using h' closed unfolding serve_inv_def F' by (simp add: s')
    then show ?thesis ..
  qed
qed

lemma serve_step_inv:
  assumes J: "codec_ok (we_codec E)"
  shows "serve_step E s s' \<Longrightarrow> \<exists>recs. serve_inv E recs s \<Longrightarrow> \<exists>recs. serve_inv E recs s'"
proof (induction rule: serve_step.induct)
  case (request s i q res r s')
  then obtain recs where inv: "serve_inv E recs s" by blast
  from request(4) show ?case
  proof (cases rule: webhook_receive_cases)
    case answered
    then show ?thesis using inv by auto
  next
    case (refused body d l)
    then show ?thesis
      using inv_request_refused [OF J inv request(3) refused(3)] by (simp add: serve_inv_dedup_ledger)
  next
    case (appended body d l item)
    show ?thesis
      using inv_request_appended [OF J inv request(3) request(1,2) appended(4,3)] appended(1,2)
      by (simp add: serve_inv_dedup_ledger)
  qed
next
  case (enqueue s item mark d s')
  then show ?case using inv_enqueue [OF J] by blast
next
  case (run s item)
  then show ?case using inv_run by blast
next
  case (mark s item res)
  then show ?case using inv_mark [OF J] by blast
next
  case (drain s)
  then show ?case using inv_drain by blast
next
  case (tick s now)
  then show ?case using inv_tick by blast
next
  case (crash s)
  then show ?case using inv_crash by blast
next
  case (start s snapshot truncate_ok results mark s')
  then show ?case using inv_start [OF J] by blast
qed

section \<open>A concrete line format\<close>

text \<open>An encoding that satisfies the contract, to instantiate the parameter with.\<close>

definition field_text :: "string \<Rightarrow> string" where
  "field_text s = concat (map (\<lambda>l. l @ '','') (map (\<lambda>c. nat_to_string (of_char c)) s))"

definition field_parse :: "string \<Rightarrow> string" where
  "field_parse t = map (\<lambda>d. char_of (digits_value d)) (butlast (split_on (CHR '','') t))"

definition int_text :: "int \<Rightarrow> string" where
  "int_text i = (if i < 0 then ''-'' else ''+'') @ nat_to_string (nat \<bar>i\<bar>)"

definition int_parse :: "string \<Rightarrow> int" where
  "int_parse s = (if hd s = CHR ''-'' then - int (digits_value (tl s)) else int (digits_value (tl s)))"

definition field_line :: line_codec where
  "field_line = \<lparr>
     enc = (\<lambda>r. concat (map (\<lambda>f. f @ '';'') (map field_text
       [ar_Kind r, ar_ID r, ar_Delivery r, ar_Digest r, ar_App r, ar_Branch r, ar_Commit r, int_text (ar_Received r),
        ar_SupersededBy r, int_text (ar_At r)]))),
     dec = (\<lambda>l. case map field_parse (butlast (split_on (CHR '';'') l)) of
         [a, b, c, d, e, f, g, h, i, j] \<Rightarrow>
           Some \<lparr>ar_Kind = a, ar_ID = b, ar_Delivery = c, ar_Digest = d, ar_App = e, ar_Branch = f, ar_Commit = g,
                  ar_Received = int_parse h, ar_SupersededBy = i, ar_At = int_parse j\<rparr>
       | _ \<Rightarrow> None)\<rparr>"

lemma digits_only: "\<not> is_digit c \<Longrightarrow> c \<notin> set (nat_to_string n)"
  using nat_to_string_digits [of n] by (auto simp: list_all_iff)

lemma field_roundtrip: "field_parse (field_text s) = s"
proof -
  have d: "\<forall>l \<in> set (map (\<lambda>c. nat_to_string (of_char c)) s). CHR '','' \<notin> set l"
    using digits_only [of "CHR '',''"] by (auto simp: is_digit_def)
  have "split_on (CHR '','') (field_text s) = map (\<lambda>c. nat_to_string (of_char c)) s @ [[]]"
    using split_terminated [OF d, of "[]"] by (simp add: field_text_def)
  then show ?thesis by (simp add: field_parse_def o_def)
qed

lemma field_text_chars: "c \<in> set (field_text s) \<Longrightarrow> is_digit c \<or> c = CHR '',''"
  using nat_to_string_digits by (auto simp: field_text_def list_all_iff split: if_splits)

lemma line_chars:
  "c \<in> set (concat (map (\<lambda>f. f @ '';'') (map field_text xs))) \<Longrightarrow> is_digit c \<or> c = CHR '','' \<or> c = CHR '';''"
  by (auto dest: field_text_chars split: if_splits)

lemma trim_space_blank: "trim_space s = [] \<Longrightarrow> c \<in> set s \<Longrightarrow> is_space c"
proof -
  assume "trim_space s = []" and c: "c \<in> set s"
  then have "\<forall>x \<in> set (dropWhile is_space s). is_space x"
    by (simp add: trim_space_def trim_left_def trim_right_def dropWhile_eq_Nil_conv)
  then have "dropWhile is_space s = []" by (metis hd_dropWhile list.set_sel(1))
  then show "is_space c" using c by (simp add: dropWhile_eq_Nil_conv)
qed

lemma int_roundtrip: "int_parse (int_text i) = i"
  by (simp add: int_parse_def int_text_def)

lemma field_line_ok: "codec_ok field_line"
proof -
  have "dec field_line (enc field_line r) = Some r \<and> newline \<notin> set (enc field_line r) \<and> trim_space (enc field_line r) \<noteq> []" for r
  proof -
    define xs where "xs = [ar_Kind r, ar_ID r, ar_Delivery r, ar_Digest r, ar_App r, ar_Branch r, ar_Commit r,
        int_text (ar_Received r), ar_SupersededBy r, int_text (ar_At r)]"
    have e: "enc field_line r = concat (map (\<lambda>f. f @ '';'') (map field_text xs))" by (simp add: field_line_def xs_def)
    have semi: "\<forall>f \<in> set (map field_text xs). CHR '';'' \<notin> set f"
      using field_text_chars [of "CHR '';''"] by (auto simp: is_digit_def)
    have "split_on (CHR '';'') (enc field_line r) = map field_text xs @ [[]]"
      unfolding e using split_terminated [OF semi, of "[]"] by simp
    then have "dec field_line (enc field_line r) = Some r"
      by (simp add: field_line_def field_roundtrip int_roundtrip xs_def)
    moreover have "newline \<notin> set (enc field_line r)"
    proof
      assume "newline \<in> set (enc field_line r)"
      then have "is_digit newline \<or> newline = CHR '','' \<or> newline = CHR '';''" unfolding e by (rule line_chars)
      then show False by (simp add: is_digit_def)
    qed
    moreover have "CHR '';'' \<in> set (enc field_line r)" by (simp add: e xs_def)
    then have "trim_space (enc field_line r) \<noteq> []"
      using trim_space_blank [of "enc field_line r"] by (auto simp: is_space_def)
    ultimately show ?thesis by blast
  qed
  then show ?thesis by (simp add: codec_ok_def)
qed

section \<open>The properties of the listener\<close>

lemma serve_reachable_inv:
  assumes "codec_ok (we_codec E)"
  shows "serve_reachable E s \<Longrightarrow> \<exists>recs. serve_inv E recs s"
proof (induction rule: serve_reachable.induct)
  case (initial now)
  have "flight (serve_initial now) = []" by (simp add: serve_initial_def flight_def)
  then have "serve_inv E [] (serve_initial now)"
    by (auto simp: serve_inv_def serve_initial_def holds_records_def ledger_bytes_def pending_shape_def fold_pending_def top_ok_def)
  then show ?case ..
next
  case (step s t)
  then show ?case using serve_step_inv [OF assms] by blast
qed

text \<open>
  C35. No acknowledged delivery is lost, and deploys never go backwards.  Whatever the requests, crashes,
  restarts, failed or half-written appends and lost replay snapshots, for every delivery that was
  acknowledged as admitted there is an admission at least as new that has been run, or is in flight while the
  process is up, or is the one the next start resumes while it is down; that start can always repair the
  ledger; and the deploys have run in the order in which their deliveries arrived.  (The clock does not run
  backwards.)
\<close>

theorem acked_deliveries_survive:
  assumes "codec_ok (we_codec E)" and "serve_reachable E s"
  shows "(\<forall>a \<in> set (sv_acked s). \<exists>t. ar_Received a \<le> ar_Received t
       \<and> (t \<in> qa_rec ` set (sv_ran s)
          \<or> sv_up s \<and> t \<in> qa_rec ` set (flight s)
          \<or> \<not> sv_up s \<and> (\<exists>recs. ParseLedger (we_codec E) (fl_bytes (sv_ledger s)) = Inr recs
               \<and> NewestPending (fst (FoldAdmissions recs)) (we_app E) = Some t)))
    \<and> (\<exists>l. OpenLedger (we_codec E) True (fl_bytes (sv_ledger s)) = Some l)
    \<and> sorted (map ar_Received (map qa_rec (sv_ran s)))"
proof -
  obtain recs where inv: "serve_inv E recs s" using serve_reachable_inv [OF assms] by blast
  have h: "holds_records (we_codec E) (sv_ledger s) recs" and p: "pending_shape E (sv_now s) (fold_pending recs)"
    and t: "top_ok (fold_pending recs) s"
    using inv by (auto simp: serve_inv_def)
  have parse: "ParseLedger (we_codec E) (fl_bytes (sv_ledger s)) = Inr recs" by (rule holds_parse [OF assms(1) h])
  have survive: "\<exists>t. ar_Received a \<le> ar_Received t
       \<and> (t \<in> qa_rec ` set (sv_ran s) \<or> sv_up s \<and> t \<in> qa_rec ` set (flight s)
          \<or> \<not> sv_up s \<and> NewestPending (fold_pending recs) (we_app E) = Some t)" if a: "a \<in> set (sv_acked s)" for a
  proof -
    obtain top where top: "sv_top s = Some top" "ar_Received a \<le> ar_Received top"
      using t a by (auto simp: top_ok_def split: option.splits)
    then have "top \<in> qa_rec ` set (sv_ran s) \<or> top \<in> set (fold_pending recs) \<and> (sv_up s \<longrightarrow> flight s \<noteq> [])"
      and "fold_pending recs \<noteq> [] \<longrightarrow> ar_Received top \<le> ar_Received (List.last (fold_pending recs))"
      and "flight s \<noteq> [] \<longrightarrow> qa_rec (List.last (flight s)) = top"
      using t by (simp_all add: top_ok_def)
    then consider "top \<in> qa_rec ` set (sv_ran s)" | "sv_up s" "flight s \<noteq> []" "qa_rec (List.last (flight s)) = top"
      | "\<not> sv_up s" "fold_pending recs \<noteq> []" "ar_Received top \<le> ar_Received (List.last (fold_pending recs))"
      by (metis empty_iff list.set(1))
    then show ?thesis
    proof cases
      case 3
      then show ?thesis
        using top(2) pending_shape_newest [OF p] by (intro exI [of _ "List.last (fold_pending recs)"]) simp
    qed (use top(2) in fastforce)+
  qed
  have "\<exists>l. OpenLedger (we_codec E) True (fl_bytes (sv_ledger s)) = Some l"
    using h by (auto simp: holds_records_def open_bytes [OF assms(1)])
  moreover have "sorted (map ar_Received (map qa_rec (sv_ran s)))"
    using inv by (auto simp: serve_inv_def sorted_append o_def)
  ultimately show ?thesis using survive parse by (auto simp: FoldAdmissions_def)
qed

definition demo_push :: "string list \<Rightarrow> pushPayload" where
  "demo_push files =
     \<lparr>pp_Commits = [(files, [], [])], pp_TotalCommitsCount = 0, pp_Ref = ''refs/heads/main'', pp_Deleted = None,
      pp_After = replicate 40 (CHR ''a''), pp_CheckoutSHA = []\<rparr>"

text \<open>A body is the list of files of its one commit, here a single name.\<close>

definition demo_listener :: "line_codec \<Rightarrow> webhook_env" where
  "demo_listener J =
     \<lparr>we_secret = ''key'', we_branch = ''main'', we_app = ''shop'', we_hmac = (\<lambda>_ _. []), we_sha = id,
      we_json = (\<lambda>body. Some (demo_push [body])), we_codec = J\<rparr>"

definition demo_request :: "string \<Rightarrow> http_request" where
  "demo_request body =
     \<lparr>rq_Method = ''POST'', rq_Body = Body body, rq_Signature = [], rq_GitlabToken = ''key'',
      rq_GithubDelivery = ''d'', rq_GitlabUUID = []\<rparr>"

lemma demo_accepted:
  "authentic (demo_listener J) (demo_request body) body"
  "PushEvent (we_json (demo_listener J) body) (we_branch (demo_listener J))"
  "PushCommit (we_json (demo_listener J) body) = replicate 40 (CHR ''a'')"
  by (simp_all add: authentic_def demo_listener_def demo_request_def VerifyGitLabToken_def PushEvent_def demo_push_def
      PushCommit_def isCommitHash_def hash_char_def list_all_iff)

lemma demo_received:
  assumes "prune_seen (sv_now s) (sv_dedup s) (''content:'' @ body) = None" and "\<not> fl_failed (sv_ledger s)"
  shows "\<exists>item s'. webhook_receive (demo_listener J) (demo_request body) i Appended s = (Inr item, s')"
  using assms demo_accepted
  by (auto simp: webhook_receive_def demo_request_def SeenAndRecord_def Let_def ContentIDFromDigest_def demo_listener_def
      Append_def split_beta)

lemma demo_acked_crash:
  "\<exists>s a. serve_reachable (demo_listener field_line) s \<and> a \<in> set (sv_acked s) \<and> \<not> sv_up s \<and> sv_ran s = []"
proof -
  let ?E = "demo_listener field_line"
  let ?s0 = "serve_initial 0"
  let ?s1 = "?s0\<lparr>sv_up := True\<rparr>"
  have r0: "serve_reachable ?E ?s0" by (rule serve_reachable.initial)
  have "runAutoDeployServe ?E (\<lambda>_. None) True [] Appended ?s0 = Some ?s1"
    by (simp add: runAutoDeployServe_def serve_initial_def OpenLedger_def ParseLedger_def resumeAdmissions_def
        FoldAdmissions_def fold_pending_def fold_digests_def NewestPending_def SeedDedupFromLedger_def Let_def)
  then have "serve_step ?E ?s0 ?s1" by (intro serve_step.start) (simp_all add: serve_initial_def)
  with r0 have r1: "serve_reachable ?E ?s1" by (rule serve_reachable.step)
  obtain item s2 where q: "webhook_receive ?E (demo_request ''x'') ''1'' Appended ?s1 = (Inr item, s2)"
    using demo_received [of ?s1 "''x''" field_line "''1''"] by (auto simp: serve_initial_def prune_seen_def)
  let ?s2 = "s2\<lparr>sv_handler := Some item, sv_acked := sv_acked s2 @ [qa_rec item], sv_top := Some (qa_rec item)\<rparr>"
  have "''1'' \<notin> ids_on_disk ?E ?s1"
    by (simp add: ids_on_disk_def serve_initial_def ParseLedger_def)
  then have "serve_step ?E ?s1 ?s2"
    using serve_step.request [of ?s1 "''1''" ?E "demo_request ''x''" Appended "Inr item" s2] q
    by (simp add: serve_initial_def)
  with r1 have r2: "serve_reachable ?E ?s2" by (rule serve_reachable.step)
  let ?s3 = "?s2\<lparr>sv_up := False, sv_handler := None, sv_worker := Idle, sv_pending := None, sv_dedup := (\<lambda>_. None)\<rparr>"
  have "serve_step ?E ?s2 ?s3" by (rule serve_step.crash)
  with r2 have r3: "serve_reachable ?E ?s3" by (rule serve_reachable.step)
  have "sv_ran ?s3 = []"
    using q by (cases rule: webhook_receive_cases) (auto simp: serve_initial_def)
  then show ?thesis using r3 by (intro exI [of _ ?s3] exI [of _ "qa_rec item"]) simp
qed

theorem acked_deliveries_survive_witness:
  "\<exists>s a t recs. serve_reachable (demo_listener field_line) s \<and> a \<in> set (sv_acked s) \<and> \<not> sv_up s
     \<and> ParseLedger field_line (fl_bytes (sv_ledger s)) = Inr recs
     \<and> NewestPending (fst (FoldAdmissions recs)) ''shop'' = Some t \<and> ar_Received a \<le> ar_Received t"
proof -
  obtain s a where s: "serve_reachable (demo_listener field_line) s" "a \<in> set (sv_acked s)" "\<not> sv_up s" "sv_ran s = []"
    using demo_acked_crash by blast
  have E: "we_codec (demo_listener field_line) = field_line" "we_app (demo_listener field_line) = ''shop''"
    by (simp_all add: demo_listener_def)
  have ok: "codec_ok (we_codec (demo_listener field_line))" using field_line_ok by (simp only: E)
  show ?thesis
    using acked_deliveries_survive [OF ok s(1)] s unfolding E by (metis empty_iff empty_set image_empty)
qed

lemma take_bytes:
  assumes J: "codec_ok J"
  shows "\<exists>m tail. take n (ledger_bytes J recs []) = ledger_bytes J (take m recs) tail \<and> newline \<notin> set tail
    \<and> (\<forall>k \<le> length recs. length (ledger_bytes J (take k recs) []) \<le> n \<longrightarrow> k \<le> m)"
proof (induction recs arbitrary: n)
  case Nil
  then show ?case by (intro exI [of _ 0] exI [of _ "[]"]) (simp add: ledger_bytes_def)
next
  case (Cons r recs)
  let ?line = "record_line J r"
  have b: "ledger_bytes J (r # rs) t = ?line @ ledger_bytes J rs t" for rs t by (simp add: ledger_bytes_def)
  show ?case
  proof (cases "length ?line \<le> n")
    case True
    obtain m tail where IH: "take (n - length ?line) (ledger_bytes J recs []) = ledger_bytes J (take m recs) tail"
        "newline \<notin> set tail"
        "\<forall>k \<le> length recs. length (ledger_bytes J (take k recs) []) \<le> n - length ?line \<longrightarrow> k \<le> m"
      using Cons by blast
    have "take n (ledger_bytes J (r # recs) []) = ledger_bytes J (take (Suc m) (r # recs)) tail"
      using True IH(1) by (simp add: b)
    moreover have "k \<le> Suc m" if "k \<le> length (r # recs)" "length (ledger_bytes J (take k (r # recs)) []) \<le> n" for k
      using that IH(3) True by (cases k) (auto simp: b)
    ultimately show ?thesis using IH(2) by blast
  next
    case False
    then have "take n (ledger_bytes J (r # recs) []) = ledger_bytes J [] (take n (enc J r))"
      by (simp add: ledger_bytes_def record_line_def)
    moreover have "newline \<notin> set (take n (enc J r))" using codec_okD(2) [OF J, of r] by (auto dest: in_set_takeD)
    moreover have "k \<le> 0" if "length (ledger_bytes J (take k (r # recs)) []) \<le> n" for k
      using that False by (cases k) (auto simp: b)
    ultimately show ?thesis by (intro exI [of _ 0]) (metis take0)
  qed
qed

text \<open>
  C37. A ledger cut off anywhere reads as the records whose whole lines are left.  Of the bytes of any
  sequence of appended records, any prefix parses to the records that lie wholly in it, opening the ledger
  repairs it, and the next append is read back behind them.
\<close>

theorem ledger_survives_truncation:
  assumes "codec_ok J" and "\<forall>r \<in> set recs. known_kind (ar_Kind r)" and "known_kind (ar_Kind r')"
  shows "\<exists>m l. ParseLedger J (take n (ledger_bytes J recs [])) = Inr (take m recs)
    \<and> (\<forall>k \<le> length recs. length (ledger_bytes J (take k recs) []) \<le> n \<longrightarrow> k \<le> m)
    \<and> OpenLedger J True (take n (ledger_bytes J recs [])) = Some l
    \<and> ParseLedger J (fl_bytes (snd (Append J Appended r' l))) = Inr (take m recs @ [r'])"
proof -
  obtain m tail where t: "take n (ledger_bytes J recs []) = ledger_bytes J (take m recs) tail" "newline \<notin> set tail"
      "\<forall>k \<le> length recs. length (ledger_bytes J (take k recs) []) \<le> n \<longrightarrow> k \<le> m"
    using take_bytes [OF assms(1)] by blast
  have k: "\<forall>r \<in> set (take m recs). known_kind (ar_Kind r)" using assms(2) by (auto dest: in_set_takeD)
  then have k': "\<forall>r \<in> set (take m recs @ [r']). known_kind (ar_Kind r)" using assms(3) by auto
  let ?l = "\<lparr>fl_bytes = ledger_bytes J (take m recs) [], fl_failed = False\<rparr>"
  have "OpenLedger J True (ledger_bytes J (take m recs) tail) = Some ?l"
    using open_bytes [OF assms(1) k t(2)] by simp
  moreover have "fl_bytes (snd (Append J Appended r' ?l)) = ledger_bytes J (take m recs @ [r']) []"
    by (simp add: Append_def ledger_bytes_def)
  ultimately show ?thesis
    using t parse_bytes [OF assms(1) k t(2)] parse_bytes [OF assms(1) k', of "[]"] by fastforce
qed

definition demo_record :: "string \<Rightarrow> AdmissionRecord" where
  "demo_record i = admission_record (demo_listener field_line) (demo_request ''x'') ''x'' i 5"

theorem ledger_survives_truncation_witness:
  "\<exists>m. ParseLedger field_line (take 7 (ledger_bytes field_line [demo_record ''1'', demo_record ''2''] []))
     = Inr (take m [demo_record ''1'', demo_record ''2''])"
  using ledger_survives_truncation [OF field_line_ok, of "[demo_record ''1'', demo_record ''2'']" "demo_record ''3''" 7]
  by (auto simp: demo_record_def known_kind_def)

lemma Append_bytes: "\<exists>t. fl_bytes (snd (Append J res r l)) = fl_bytes l @ t"
  by (auto simp: Append_def split: append_outcome.splits)

lemma PushCommit_hash: "PushCommit p \<noteq> [] \<Longrightarrow> isCommitHash (PushCommit p)"
  by (auto simp: PushCommit_def find_Some_iff split: option.splits if_splits)

lemma queue_admit_ledger: "\<exists>t. fl_bytes (sv_ledger (snd (queue_admit J res item s))) = fl_bytes (sv_ledger s) @ t"
  using Append_bytes by (auto simp: queue_admit_def markSuperseded_def split: option.splits)



text \<open>A listener that has just started on an empty ledger.\<close>

definition fresh_listener :: serve where
  "fresh_listener = (serve_initial 0)\<lparr>sv_up := True\<rparr>"

definition demo_item :: "line_codec \<Rightarrow> string \<Rightarrow> string \<Rightarrow> queuedAdmission" where
  "demo_item J body i =
     \<lparr>qa_rec = admission_record (demo_listener J) (demo_request body) body i 0, qa_files = [body], qa_known = True\<rparr>"

definition demo_handled :: "line_codec \<Rightarrow> string \<Rightarrow> string \<Rightarrow> serve \<Rightarrow> response \<times> serve" where
  "demo_handled J body i s = newWebhookHandler (demo_listener J) (demo_request body) i Appended Appended s"

lemma demo_turn:
  assumes "sv_up s" "sv_worker s = Running p" "sv_pending s = Some q" "sv_handler s = None"
  shows "\<exists>s4 s5 s6. serve_step E s s4 \<and> serve_step E s4 s5 \<and> serve_step E s5 s6
    \<and> sv_worker s6 = Running q \<and> flight s6 = [q]"
proof -
  let ?s4 = "s\<lparr>sv_worker := Finished p, sv_ran := sv_ran s @ [p]\<rparr>"
  let ?s5 = "?s4\<lparr>sv_worker := Marked,
      sv_ledger := markProcessed (we_codec E) Appended (sv_now ?s4) (qa_rec p) (sv_ledger ?s4)\<rparr>"
  let ?s6 = "?s5\<lparr>sv_worker := Running q, sv_pending := None\<rparr>"
  have "serve_step E s ?s4" by (rule serve_step.run [OF assms(1,2)])
  moreover have "serve_step E ?s4 ?s5" by (rule serve_step.mark) (simp_all add: assms)
  moreover have "serve_step E ?s5 ?s6" using serve_step.drain [of ?s5 E] by (simp add: assms)
  moreover have "sv_worker ?s6 = Running q \<and> flight ?s6 = [q]" by (simp add: flight_def assms)
  ultimately show ?thesis by blast
qed

text \<open>
  The path filter loses a push that was superseded in the queue.  While a deploy runs, a push that
  touches the watched path is admitted and queued; a second push, to the documentation only, takes its place
  in the queue.  Its own file list is then all the worker sees: the filter skips it, nothing is left in
  flight behind it, and the change to the watched path is never deployed although the filter would have let
  its push through.
\<close>

theorem path_filter_drops_superseded_push:
  "\<exists>s1 s2 s3 s4 s5 s6 q.
     newWebhookHandler (demo_listener J) (demo_request ''app/a'') ''1'' Appended Appended fresh_listener = (Admitted DRunning, s1)
   \<and> newWebhookHandler (demo_listener J) (demo_request ''app/b'') ''2'' Appended Appended s1 = (Admitted DQueued, s2)
   \<and> newWebhookHandler (demo_listener J) (demo_request ''docs/c'') ''3'' Appended Appended s2 = (Admitted DSuperseded, s3)
   \<and> serve_step (demo_listener J) s3 s4 \<and> serve_step (demo_listener J) s4 s5 \<and> serve_step (demo_listener J) s5 s6
   \<and> sv_worker s6 = Running q \<and> flight s6 = [q] \<and> ar_ID (qa_rec q) = ''3''
   \<and> path_filter_skips [''app/**''] (qa_files q) (qa_known q)
   \<and> \<not> path_filter_skips [''app/**''] (fst (ChangedFiles (we_json (demo_listener J) ''app/b'')))
         (snd (ChangedFiles (we_json (demo_listener J) ''app/b'')))"
proof -
  define s1 where "s1 = snd (demo_handled J ''app/a'' ''1'' fresh_listener)"
  define s2 where "s2 = snd (demo_handled J ''app/b'' ''2'' s1)"
  define s3 where "s3 = snd (demo_handled J ''docs/c'' ''3'' s2)"
  note defs = s1_def s2_def s3_def
  have answers: "fst (demo_handled J ''app/a'' ''1'' fresh_listener) = Admitted DRunning"
      "fst (demo_handled J ''app/b'' ''2'' s1) = Admitted DQueued"
      "fst (demo_handled J ''docs/c'' ''3'' s2) = Admitted DSuperseded"
    unfolding defs by code_simp+
  have s3: "sv_up s3" "sv_worker s3 = Running (demo_item J ''app/a'' ''1'')"
      "sv_pending s3 = Some (demo_item J ''docs/c'' ''3'')" "sv_handler s3 = None"
    unfolding defs by code_simp+
  have q: "ar_ID (qa_rec (demo_item J ''docs/c'' ''3'')) = ''3''"
      "path_filter_skips [''app/**''] (qa_files (demo_item J ''docs/c'' ''3'')) (qa_known (demo_item J ''docs/c'' ''3''))"
      "\<not> path_filter_skips [''app/**''] (fst (ChangedFiles (we_json (demo_listener J) ''app/b'')))
         (snd (ChangedFiles (we_json (demo_listener J) ''app/b'')))"
    by code_simp+
  show ?thesis
    using demo_turn [OF s3, of "demo_listener J"] answers q unfolding demo_handled_def s1_def s2_def s3_def
    by (metis prod.collapse)
qed

text \<open>
  A digest that was admitted again a day later is forgotten by a restart: the ledger keeps the time of
  its first admission only, so the replay set is not seeded with it and a replay of the second delivery is
  admitted.
\<close>

theorem readmitted_digest_forgotten:
  assumes "ar_Kind r = AdmissionKindAdmitted" "ar_Kind r' = AdmissionKindAdmitted" "ar_Digest r' = ar_Digest r"
    and "now - ar_Received r > deliveryTTL"
  shows "fst (SeenAndRecord now (ContentIDFromDigest (ar_Digest r))
    (SeedDedupFromLedger now (snd (FoldAdmissions [r, r'])) (\<lambda>_. None))) = False"
  using assms by (simp add: FoldAdmissions_def fold_digests_def SeedDedupFromLedger_def SeenAndRecord_def prune_seen_def Let_def)

end
