(* ===== verification/Spec2Isabelle.thy ===== *)
theory Spec2Isabelle
  imports DeployLaws RetentionLaws Fleet ConfigEdit Admission
begin

text \<open>
  Teploy deploys containers and static sites to servers over ssh.  There is no agent on a server:
  every client (a person's laptop, a CI job, the webhook server) reads files and containers on
  the target, decides, and sends shell commands.  What makes it correct is therefore how it
  behaves when several clients work at once, when a command is refused or its answer is lost, and
  when a client dies half-way.  This development models that core and proves what it promises.

  \<^bold>\<open>The parts and where they are.\<close>

  \<^item> \<open>Prelude\<close>: Go's string functions, decimal numbers, the result type
    (\<open>Inl\<close> error, \<open>Inr\<close> value) and shared list lemmas.
  \<^item> \<open>Remote\<close>: a command on a server (\<open>internal/ssh/executor.go\<close>, \<open>Run\<close>, \<open>Upload\<close>).  A
    \<open>world\<close> is a directory and an environment that decides, command by command, what other clients
    do before it and whether it is refused, answered, lost after it landed, or cut between its
    steps.  \<open>stable\<close>, \<open>quiet\<close> and \<open>reliable\<close> say that others keep a property, keep still, and that
    the connection works.  Theorems about interleavings quantify over all environments.
  \<^item> \<open>Server\<close>, \<open>Lock\<close>: the app directory and its lock directory
    (\<open>internal/state/state.go\<close>, \<open>lock.go\<close>, \<open>renew.go\<close>): acquisition of automatic, manual and heal
    locks, staleness, takeover, the ownership fence composed into each command, renewal, release.
  \<^item> \<open>StateStore\<close>, \<open>Commit\<close>: \<open>state.json\<close>, its legacy form, the generation sidecar, tombstones, the
    fenced commit with its read-back, pins, and the gate of server-home apps
    (\<open>internal/state\<close>, \<open>internal/confighome/gate.go\<close>).
  \<^item> \<open>Retention\<close>, \<open>RetentionLaws\<close>: which backups a prune keeps (\<open>internal/backup/retention.go\<close>,
    \<open>internal/cli/retention.go\<close>).
  \<^item> \<open>Caddyfile\<close>, \<open>CaddyRender\<close>, \<open>CaddyfileLaws\<close>, \<open>CaddyfileEdits\<close>: the shared Caddyfile as text,
    its marker regions and structural parser, the site blocks Teploy renders, and the abstract view
    (lines with their owners) that an edit refines (\<open>internal/caddy\<close>).
  \<^item> \<open>CaddyCommit\<close>, \<open>CaddyCommitLaws\<close>: the edit as a transaction: lock, staging, compare-and-swap,
    reload, check of what the proxy serves, rollback.
  \<^item> \<open>Fleet\<close>: a deployment to several servers as a step relation with slots, cancellation and
    fail-fast (\<open>internal/multideploy\<close>), its prefixing writer, and the guarded remote command
    (\<open>internal/targetguard\<close>).
  \<^item> \<open>Inventory\<close>: containers on a host, port choice, the generation fence on stop and remove,
    retirement of predecessors and pruning of versions (\<open>internal/docker/docker.go\<close>,
    \<open>internal/deploy/deploy.go\<close>, \<open>internal/cli/releases.go\<close>).
  \<^item> \<open>Releases\<close>: release identifiers, records and their redaction, attempts and their pruning
    (\<open>internal/releasemeta\<close>).
  \<^item> \<open>Recovery\<close>, \<open>Reconcile\<close>: the recovery decision table, the observation of a target after a dead
    holder's lock was broken, the attempt's receipts, and the repair debt
    (\<open>internal/deploy/recovery\<close>, \<open>reconcile.go\<close>, \<open>journal.go\<close>, \<open>repairdebt.go\<close>).
  \<^item> \<open>ConfigMerge\<close>, \<open>ConfigEdit\<close>: concurrent edits of a server-home config: the three-way merge
    with the operator's choices, dotted paths, the line diff and \<open>EditPath\<close>
    (\<open>internal/confighome/merge.go\<close>, \<open>internal/cli/config.go\<close>).
  \<^item> \<open>Admission\<close>: the webhook listener of auto-deploy: payloads, authentication and replays, the
    admission ledger as bytes on disk, the handler, the bounded queue, its worker and the resumption
    after a restart, as a step relation with crashes and failed appends
    (\<open>internal/autodeploy\<close>, \<open>internal/cli/autodeploy_serve.go\<close>).
  \<^item> \<open>Health\<close>, \<open>Publish\<close>, \<open>Workload\<close>: the readiness gate, the publish entries, and the creation,
    start, recreation and judgement of containers (\<open>internal/deploy/health.go\<close>,
    \<open>internal/config/app.go\<close>, \<open>internal/docker/docker.go\<close>, \<open>recreate.go\<close>).
  \<^item> \<open>DeployFlow\<close>, \<open>DeployLaws\<close>: the container deploy (\<open>internal/deploy/deploy.go\<close>) from the
    validator to the last log entry, composed of the operations above over a target of four
    worlds (containers, app directory, proxy, files), with the compensation of a failed deploy, the
    abort of a failed commit and the restored route; and what it promises.

  \<^bold>\<open>How they interact.\<close>  A deploy takes the lock (\<open>Lock\<close>); if that broke a dead holder's lock it
  observes the target and asks the decision table (\<open>Reconcile\<close> on \<open>Recovery\<close>, which read
  \<open>StateStore\<close>, \<open>Inventory\<close>, \<open>Releases\<close> and the Caddyfile).  It starts containers (\<open>Workload\<close>),
  waits for their gate (\<open>Health\<close>), switches
  the route (\<open>CaddyCommit\<close> on \<open>CaddyRender\<close> and \<open>Caddyfile\<close>), commits the state under the fence
  (\<open>Commit\<close>), retires the predecessor under the generation fence and prunes (\<open>Inventory\<close>,
  \<open>Releases\<close>).  Every effect of a lock holder runs through \<open>Guarded\<close>; the interfaces between the parts
  are locales (the fence, the generation fence, the result codecs) interpreted on the model.

  \<^bold>\<open>What the lemmas show.\<close>  For the lock: no acquisition breaks a live lock, waiting ends, and a
  holder that lost its lock can do nothing to its successor.  For the state: a commit cut at any
  point reports what it left, a stale writer commits nothing, reading never takes a failure for
  absence, what is written reads back.  For the deploy: a failure takes nothing down, no traffic before the
  gate, success and failure agree with the committed state, a holder that lost its lock deploys
  nothing, a record reproduces its route, and a first deploy on a healthy server succeeds.  For the
  proxy: an edit changes its own region (others up to
  blank lines), every outcome is truthful about file and proxy, and the compare-and-swap protects a
  successor.  For retention and pruning: the one-pass selection is the documented rule, and what
  is protected survives.  For fleets: bounds and termination under all interleavings.  For
  recovery: the decision is exact, and a takeover proceeds only in a clean world.  Where the code
  breaks its own promise there is a theorem that shows how (listed as findings in the manifest).

  \<^bold>\<open>Modelling choices.\<close>  Commands are functions from a directory to an exit status or a list of
  effects, in order, and a cut keeps a prefix of them.  \<open>Run\<close> trims its output, as the code does.
  JSON documents are their parsed values; SHA-256, JSON, the proxy's adapter, docker's daemon and
  clocks are parameters (\<open>go_lib\<close>, \<open>edit_env\<close>, \<open>daemon\<close>).  White space is ASCII.  Go's \<open>int\<close> is
  \<open>int\<close> where no overflow can matter and a 64-bit word or explicit wrap where it does (the age window
  of a retention policy, generations).  Map iteration order is explicit where it is visible.
  The reads of a takeover and of the prune callers are given by their results, so that every
  failure is a case.

  \<^bold>\<open>Bounds and fuel.\<close>  The app lock's waiting loop consumes one round per attempt, each with the
  clock after it, and returns \<open>None\<close> when the given rounds run out; the termination theorem shows
  that a round past the deadline always ends it.  The edit lock's loop takes the code's own
  \<open>lockWaitTries = 60\<close> rounds.  A fleet run over \<open>n\<close> servers ends within \<open>8 * n + 4\<close> steps.  The address
  parser's fuel is the length of its input, one byte per field at least.  All other recursions are
  structural or have a measure.

  \<^bold>\<open>Not modelled.\<close>  Goroutines other than the fleet's workers (the renewer is the loop of
  its ticks), context cancellation outside the fleet, the shell helper \<open>guard.sh\<close>, sockets and host
  keys, HTTP and DNS clients, docker build, tar, age and database dumps, flag parsing and printing.
  The manifest lists every package with its status.
  The sequences of rollback, of static releases and of start, stop and restart, and the
  reading of the config file, are not modelled either: they are further compositions of the same
  operations, and checks of fields.
\<close>

end
